(* ===== verification/Prelude.thy ===== *)
theory Prelude
  imports Main "HOL-Library.Char_ord" "HOL-Library.List_Lexorder" "HOL-Library.Multiset"
begin

text \<open>
  Shared ground of the development: the collections the component theories put their facts in,
  the names of the types every theory uses, and the list and option facts that are not in the
  library.

  Python's \<open>str\<close> is modelled as the list of its characters. Isabelle's \<^typ>\<open>char\<close> has 256
  values, read here as the code points 0 to 255, so the model covers texts over that range; no
  operation below encodes or decodes them. Strings are compared the way Python compares them, code
  point by code point, which is what the two order theories imported here give.
\<close>

section \<open>Collections of facts\<close>

text \<open>
  \<open>io_simps\<close> unfolds the input/output combinators, \<open>wp_simps\<close> computes weakest preconditions,
  \<open>tbl_simps\<close> evaluates table operations and \<open>str_simps\<close> string operations.
\<close>

named_theorems io_simps
named_theorems wp_simps
named_theorems tbl_simps
named_theorems str_simps

section \<open>Names of types\<close>

type_synonym url = string
type_synonym path = string
type_synonym filename = string
type_synonym timestamp = string

section \<open>Lists\<close>

lemma filter_map_swap: "filter P (map f xs) = map f (filter (P \<circ> f) xs)"
  by (induction xs) auto

lemma map_idI_set: "(\<And>x. x \<in> set xs \<Longrightarrow> f x = x) \<Longrightarrow> map f xs = xs"
  by (induction xs) auto

lemma distinct_map_filter_key: "distinct (map f xs) \<Longrightarrow> distinct (map f (filter P xs))"
  by (induction xs) auto

lemma distinct_key_unique:
  "distinct (map f xs) \<Longrightarrow> x \<in> set xs \<Longrightarrow> y \<in> set xs \<Longrightarrow> f x = f y \<Longrightarrow> x = y"
  by (auto simp: distinct_map inj_on_def)

lemma length_filter_disj:
  "(\<And>x. \<not> (P x \<and> Q x)) \<Longrightarrow>
   length (filter (\<lambda>x. P x \<or> Q x) xs) = length (filter P xs) + length (filter Q xs)"
  by (induction xs) auto

lemma length_filter_snoc:
  "length (filter P (xs @ [x])) = length (filter P xs) + (if P x then 1 else 0)"
  by simp

lemma foldl_invariant:
  "I s \<Longrightarrow> (\<And>s x. I s \<Longrightarrow> x \<in> set xs \<Longrightarrow> I (f s x)) \<Longrightarrow> I (foldl f s xs)"
proof (induction xs arbitrary: s)
  case Nil
  then show ?case by simp
next
  case (Cons x xs)
  from Cons.prems(1) have "I (f s x)" by (rule Cons.prems(2)) simp
  then show ?case using Cons.prems(2) by (simp add: Cons.IH)
qed

lemma sorted_map_append_le:
  "sorted (map f xs) \<Longrightarrow> sorted (map f ys) \<Longrightarrow>
   (\<And>x y. x \<in> set xs \<Longrightarrow> y \<in> set ys \<Longrightarrow> f x \<le> f y) \<Longrightarrow> sorted (map f (xs @ ys))"
  by (auto simp: sorted_append)

section \<open>Options and sums\<close>

lemma case_sum_Inr: "(case x of Inl e \<Rightarrow> False | Inr a \<Rightarrow> P a) \<longleftrightarrow> (\<exists>a. x = Inr a \<and> P a)"
  by (cases x) auto

lemma isl_or_Inr: "isl x \<or> (\<exists>a. x = Inr a)"
  by (cases x) auto

end
