(* ===== verification/PyString.thy ===== *)
theory PyString
  imports Prelude
begin

text \<open>
  The string methods and path functions of Python's standard library that the program calls:
  \<open>str.split\<close>, \<open>str.join\<close>, \<open>str.replace\<close>, \<open>str.strip\<close>, \<open>str.rstrip\<close>, \<open>str.startswith\<close>, \<open>str.lower\<close>,
  text-mode line iteration with universal newlines, and \<open>os.path.join\<close>, \<open>basename\<close>, \<open>dirname\<close>,
  \<open>isabs\<close>, \<open>normpath\<close> as \<open>posixpath\<close> defines them. These are library code, so the manifest maps none
  of them to a line of the repository; they are written out so that the definitions that use them
  compute.
\<close>

section \<open>Characters\<close>

abbreviation TAB :: char where "TAB \<equiv> CHR 0x09"
abbreviation NL :: char where "NL \<equiv> CHR 0x0A"
abbreviation CR :: char where "CR \<equiv> CHR 0x0D"
abbreviation QUOTE :: char where "QUOTE \<equiv> CHR 0x27"
abbreviation DQUOTE :: char where "DQUOTE \<equiv> CHR 0x22"
abbreviation BACKSLASH :: char where "BACKSLASH \<equiv> CHR 0x5C"

text \<open>\<open>str.isspace\<close> on code points below 256.\<close>

definition is_space :: "char \<Rightarrow> bool" where
  "is_space c \<longleftrightarrow> c \<in> {CHR 0x09, CHR 0x0A, CHR 0x0B, CHR 0x0C, CHR 0x0D, CHR 0x1C, CHR 0x1D,
     CHR 0x1E, CHR 0x1F, CHR 0x20, CHR 0x85, CHR 0xA0}"

definition is_digit :: "char \<Rightarrow> bool" where
  "is_digit c \<longleftrightarrow> c \<in> set ''0123456789''"

section \<open>Splitting and joining\<close>

fun split_on :: "char \<Rightarrow> string \<Rightarrow> string list" where
  "split_on c [] = [[]]"
| "split_on c (x # xs) =
     (if x = c then [] # split_on c xs
      else (x # hd (split_on c xs)) # tl (split_on c xs))"

fun join_with :: "string \<Rightarrow> string list \<Rightarrow> string" where
  "join_with sep [] = []"
| "join_with sep [x] = x"
| "join_with sep (x # y # ys) = x @ sep @ join_with sep (y # ys)"

lemma split_on_nonempty [simp]: "split_on c s \<noteq> []"
  by (cases s) auto

text \<open>For evaluation: the recursive call once.\<close>

lemma split_on_code [code]:
  "split_on c [] = [[]]"
  "split_on c (x # xs) =
     (if x = c then [] # split_on c xs
      else (case split_on c xs of [] \<Rightarrow> [[x]] | y # ys \<Rightarrow> (x # y) # ys))"
  by (cases "split_on c xs"; simp)+

lemma split_on_no_sep [str_simps]: "c \<notin> set s \<Longrightarrow> split_on c s = [s]"
  by (induction s) auto

lemma split_on_append_sep: "c \<notin> set s \<Longrightarrow> split_on c (s @ c # t) = s # split_on c t"
  by (induction s) auto

lemma split_join:
  "xs \<noteq> [] \<Longrightarrow> \<forall>x\<in>set xs. c \<notin> set x \<Longrightarrow> split_on c (join_with [c] xs) = xs"
  by (induction "[c]" xs rule: join_with.induct) (auto simp: split_on_no_sep split_on_append_sep)

lemma join_with_Cons: "xs \<noteq> [] \<Longrightarrow> join_with sep (x # xs) = x @ sep @ join_with sep xs"
  by (cases xs) auto

lemma join_split: "join_with [c] (split_on c s) = s"
proof (induction s)
  case Nil
  then show ?case by simp
next
  case (Cons x xs)
  obtain y ys where yys: "split_on c xs = y # ys"
    by (cases "split_on c xs") auto
  then show ?case using Cons by (cases ys) auto
qed

lemma split_on_parts_free: "p \<in> set (split_on c s) \<Longrightarrow> c \<notin> set p"
proof (induction s arbitrary: p)
  case Nil
  then show ?case by simp
next
  case (Cons x xs)
  obtain y ys where yys: "split_on c xs = y # ys"
    by (cases "split_on c xs") auto
  show ?case using Cons.prems Cons.IH yys by (auto split: if_splits)
qed

lemma split_on_inj: "split_on c s = split_on c t \<Longrightarrow> s = t"
  by (metis join_split)

lemma set_join_with: "set (join_with sep xs) \<subseteq> set sep \<union> \<Union> (set (map set xs))"
  by (induction sep xs rule: join_with.induct) auto

section \<open>Replacing, stripping, prefixes\<close>

definition replace_char :: "char \<Rightarrow> string \<Rightarrow> string \<Rightarrow> string" where
  "replace_char c r s = concat (map (\<lambda>x. if x = c then r else [x]) s)"

lemma replace_char_simps [str_simps]:
  "replace_char c r [] = []"
  "replace_char c r (x # xs) = (if x = c then r else [x]) @ replace_char c r xs"
  by (simp_all add: replace_char_def)

lemma set_replace_char: "set (replace_char c r s) \<subseteq> (set s - {c}) \<union> set r"
  by (auto simp: replace_char_def split: if_splits)

lemma replace_char_id [simp]: "c \<notin> set s \<Longrightarrow> replace_char c r s = s"
  by (induction s) (auto simp: str_simps)

definition startswith :: "string \<Rightarrow> string \<Rightarrow> bool" where
  "startswith s p \<longleftrightarrow> take (length p) s = p"

lemma startswith_append [simp]: "startswith (p @ s) p"
  by (simp add: startswith_def)

lemma startswith_iff: "startswith s p \<longleftrightarrow> (\<exists>t. s = p @ t)"
  unfolding startswith_def by (metis append_take_drop_id append_eq_conv_conj)

definition endswith :: "string \<Rightarrow> string \<Rightarrow> bool" where
  "endswith s p \<longleftrightarrow> startswith (rev s) (rev p)"

definition lstrip :: "string \<Rightarrow> string" where
  "lstrip s = dropWhile is_space s"

definition rstrip_char :: "char \<Rightarrow> string \<Rightarrow> string" where
  "rstrip_char c s = rev (dropWhile (\<lambda>x. x = c) (rev s))"

definition strip :: "string \<Rightarrow> string" where
  "strip s = rev (dropWhile is_space (rev (lstrip s)))"

lemma rstrip_char_snoc: "c \<notin> set s \<Longrightarrow> rstrip_char c (s @ [c]) = s"
  by (cases s rule: rev_cases) (auto simp: rstrip_char_def)

lemma rstrip_char_none: "c \<notin> set s \<Longrightarrow> rstrip_char c s = s"
  by (cases s rule: rev_cases) (auto simp: rstrip_char_def)

text \<open>\<open>str.lower\<close> on code points below 256.\<close>

definition lower_char :: "char \<Rightarrow> char" where
  "lower_char c =
     (let n = of_char c :: nat
      in if 65 \<le> n \<and> n \<le> 90 \<or> 192 \<le> n \<and> n \<le> 222 \<and> n \<noteq> 215 then char_of (n + 32) else c)"

definition lower :: "string \<Rightarrow> string" where
  "lower s = map lower_char s"

text \<open>\<open>needle in haystack\<close>.\<close>

fun contains :: "string \<Rightarrow> string \<Rightarrow> bool" where
  "contains [] p = (p = [])"
| "contains (x # xs) p = (startswith (x # xs) p \<or> contains xs p)"

lemma contains_iff: "contains s p \<longleftrightarrow> (\<exists>a b. s = a @ p @ b)"
proof (induction s)
  case Nil
  then show ?case by auto
next
  case (Cons x xs)
  show ?case
  proof
    assume "contains (x # xs) p"
    then show "\<exists>a b. x # xs = a @ p @ b"
      by (auto simp: startswith_iff Cons.IH) (metis append.left_neutral append_Cons)+
  next
    assume "\<exists>a b. x # xs = a @ p @ b"
    then obtain a b where ab: "x # xs = a @ p @ b" by blast
    show "contains (x # xs) p"
    proof (cases a)
      case Nil
      with ab have "startswith (x # xs) p" by simp
      then show ?thesis by (simp only: contains.simps simp_thms)
    next
      case (Cons y ys)
      with ab have "contains xs p" using Cons.IH by auto
      then show ?thesis by simp
    qed
  qed
qed

text \<open>\<open>haystack.replace(pat, rep)\<close> for a non-empty pattern: non-overlapping, from the left.\<close>

function replace_all :: "string \<Rightarrow> string \<Rightarrow> string \<Rightarrow> string" where
  "replace_all pat rep [] = []"
| "replace_all pat rep (x # xs) =
     (if pat \<noteq> [] \<and> startswith (x # xs) pat then rep @ replace_all pat rep (drop (length pat) (x # xs))
      else x # replace_all pat rep xs)"
  by pat_completeness auto
termination by (relation "measure (\<lambda>(_, _, s). length s)") auto

lemma replace_all_none: "\<not> contains s pat \<Longrightarrow> replace_all pat rep s = s"
  by (induction pat rep s rule: replace_all.induct) auto

text \<open>\<open>str\<close> of an integer.\<close>

definition digit_char :: "nat \<Rightarrow> char" where
  "digit_char n = char_of (48 + n)"

fun nat_str :: "nat \<Rightarrow> string" where
  "nat_str n = (if n < 10 then [digit_char n] else nat_str (n div 10) @ [digit_char (n mod 10)])"

declare nat_str.simps [simp del]

definition int_str :: "int \<Rightarrow> string" where
  "int_str i = (if i < 0 then CHR ''-'' # nat_str (nat (- i)) else nat_str (nat i))"

section \<open>Reading text files\<close>

text \<open>
  A file opened in text mode translates carriage returns (universal newlines), and iterating over
  it yields the lines with their line feeds.
\<close>

fun univ_nl :: "string \<Rightarrow> string" where
  "univ_nl [] = []"
| "univ_nl (x # xs) =
     (if x = CR then NL # (case xs of [] \<Rightarrow> [] | y # ys \<Rightarrow> if y = NL then univ_nl ys else univ_nl xs)
      else x # univ_nl xs)"

fun file_lines :: "string \<Rightarrow> string list" where
  "file_lines [] = []"
| "file_lines (x # xs) =
     (if x = NL then [NL] # file_lines xs
      else (case file_lines xs of
              [] \<Rightarrow> [[x]]
            | l # ls \<Rightarrow> (x # l) # ls))"

lemma univ_nl_no_CR [simp]: "CR \<notin> set s \<Longrightarrow> univ_nl s = s"
  by (induction s) auto

lemma concat_file_lines: "concat (file_lines s) = s"
  by (induction s) (auto split: list.splits)

lemma file_lines_append_NL:
  "NL \<notin> set l \<Longrightarrow> file_lines (l @ NL # t) = (l @ [NL]) # file_lines t"
  by (induction l) auto

lemma file_lines_no_NL: "NL \<notin> set l \<Longrightarrow> l \<noteq> [] \<Longrightarrow> file_lines l = [l]"
proof (induction l)
  case Nil
  then show ?case by simp
next
  case (Cons x xs)
  then show ?case by (cases xs) (auto split: list.splits)
qed

lemma file_lines_concat_lines:
  "\<forall>l\<in>set ls. NL \<notin> set l \<Longrightarrow>
   file_lines (concat (map (\<lambda>l. l @ [NL]) ls)) = map (\<lambda>l. l @ [NL]) ls"
  by (induction ls) (auto simp: file_lines_append_NL)

lemma file_lines_append:
  assumes "s = [] \<or> last s = NL"
  shows "file_lines (s @ t) = file_lines s @ file_lines t"
  using assms
proof (induction s)
  case Nil
  then show ?case by simp
next
  case (Cons x xs)
  show ?case
  proof (cases "x = NL")
    case True
    with Cons show ?thesis by (cases xs) auto
  next
    case False
    with Cons.prems have "xs \<noteq> []" and "last xs = NL" by (auto split: if_splits)
    with Cons.IH have IH: "file_lines (xs @ t) = file_lines xs @ file_lines t" by simp
    have "file_lines xs \<noteq> []"
      using \<open>xs \<noteq> []\<close> by (cases xs) (auto split: list.splits)
    then show ?thesis using False IH by (auto split: list.splits)
  qed
qed

section \<open>Paths\<close>

definition path_join :: "path \<Rightarrow> path \<Rightarrow> path" where
  "path_join a b =
     (if startswith b ''/'' then b
      else if a = [] \<or> last a = CHR ''/'' then a @ b
      else a @ ''/'' @ b)"

definition basename :: "path \<Rightarrow> string" where
  "basename p = last (split_on (CHR ''/'') p)"

definition isabs :: "path \<Rightarrow> bool" where
  "isabs p = startswith p ''/''"

text \<open>\<open>posixpath.dirname\<close>: what is before the last slash, less its trailing slashes unless it is all slashes.\<close>

definition dirname :: "path \<Rightarrow> path" where
  "dirname p =
     (let head = rev (dropWhile (\<lambda>c. c \<noteq> CHR ''/'') (rev p))
      in if (\<forall>c\<in>set head. c = CHR ''/'') then head else rstrip_char (CHR ''/'') head)"

text \<open>The loop of \<open>posixpath.normpath\<close>; the accumulator is the list of components kept so far, last first.\<close>

fun norm_comps :: "bool \<Rightarrow> string list \<Rightarrow> string list \<Rightarrow> string list" where
  "norm_comps rooted acc [] = rev acc"
| "norm_comps rooted acc (c # cs) =
     (if c = [] \<or> c = ''.'' then norm_comps rooted acc cs
      else if c \<noteq> ''..'' \<or> (\<not> rooted \<and> acc = []) \<or> (acc \<noteq> [] \<and> hd acc = ''..'')
      then norm_comps rooted (c # acc) cs
      else norm_comps rooted (tl acc) cs)"

definition normpath :: "path \<Rightarrow> path" where
  "normpath p =
     (if p = [] then ''.''
      else
        (let slashes = (if startswith p ''//'' \<and> \<not> startswith p ''///'' then 2
                        else if startswith p ''/'' then 1 else (0::nat));
             body = join_with ''/'' (norm_comps (slashes \<noteq> 0) [] (split_on (CHR ''/'') p));
             out = replicate slashes (CHR ''/'') @ body
         in if out = [] then ''.'' else out))"

lemma basename_no_slash [str_simps]: "CHR ''/'' \<notin> set p \<Longrightarrow> basename p = p"
  by (simp add: basename_def split_on_no_sep)

lemma split_on_append_last:
  "last (split_on c (a @ c # b)) = last (split_on c b)"
proof (induction a)
  case Nil
  then show ?case by simp
next
  case (Cons x xs)
  obtain y ys where yys: "split_on c (xs @ c # b) = y # ys"
    by (cases "split_on c (xs @ c # b)") auto
  have "ys \<noteq> []"
  proof -
    have "length (split_on c (xs @ c # b)) > 1"
      by (induction xs) (auto simp: neq_Nil_conv Suc_le_eq)
    then show ?thesis using yys by auto
  qed
  then show ?case using Cons yys by auto
qed

lemma basename_slash [str_simps]: "basename (d @ CHR ''/'' # f) = basename f"
  by (simp add: basename_def split_on_append_last)

lemma basename_no_slash_in: "CHR ''/'' \<notin> set (basename p)"
  unfolding basename_def by (rule split_on_parts_free [where s = p]) simp

lemma basename_idem [simp]: "basename (basename p) = basename p"
  by (simp add: basename_no_slash basename_no_slash_in)

lemma path_join_relative:
  "\<not> startswith b ''/'' \<Longrightarrow> a \<noteq> [] \<Longrightarrow> last a \<noteq> CHR ''/'' \<Longrightarrow> path_join a b = a @ CHR ''/'' # b"
  by (simp add: path_join_def)

lemma path_join_inj:
  "CHR ''/'' \<notin> set b \<Longrightarrow> CHR ''/'' \<notin> set c \<Longrightarrow> path_join a b = path_join a c \<Longrightarrow> b = c"
  by (auto simp: path_join_def startswith_iff split: if_splits)

lemma split_on_append: "split_on c (a @ c # b) = split_on c a @ split_on c b"
proof (induction a)
  case Nil
  then show ?case by simp
next
  case (Cons x xs)
  obtain y ys where "split_on c xs = y # ys" by (cases "split_on c xs") auto
  with Cons show ?case by simp
qed

end
