(* ===== verification/FileNames.thy ===== *)
theory FileNames
  imports PyString
begin

text \<open>
  The names the program recognises and builds: date directories, snapshot files, per-day logs,
  record ids and the manifest (\<open>browser-visit-snapshot-lib/snapshot_mover.py\<close>,
  \<open>native-host/visits_rebuilder.py\<close>, \<open>native-host/sync_client.py\<close>, \<open>reset.py\<close>), with the date
  check of \<open>snapshot_sealer.py\<close>.

  A regular expression of the source is written as the list of its atoms, matched from the left.
  Its closing \<open>$\<close> is \<^emph>\<open>not\<close> the end of the string: Python also lets it match before one final line
  feed, and \<open>at_dollar\<close> keeps that.
\<close>

section \<open>Anchored patterns\<close>

datatype atom = Digit | Hex | Lit char

fun atom_matches :: "atom \<Rightarrow> char \<Rightarrow> bool" where
  "atom_matches Digit c = is_digit c"
| "atom_matches Hex c = (c \<in> set ''0123456789abcdef'')"
| "atom_matches (Lit l) c = (c = l)"

text \<open>Match the atoms at the front; the result is what is left of the string.\<close>

fun match_atoms :: "atom list \<Rightarrow> string \<Rightarrow> string option" where
  "match_atoms [] s = Some s"
| "match_atoms (a # as) [] = None"
| "match_atoms (a # as) (c # cs) = (if atom_matches a c then match_atoms as cs else None)"

definition at_dollar :: "string \<Rightarrow> bool" where
  "at_dollar rest \<longleftrightarrow> rest = [] \<or> rest = [NL]"

text \<open>What is left for the \<open>.+$\<close> at the end of a pattern: at least one character that is not a line feed.\<close>

definition dot_plus_dollar :: "string \<Rightarrow> bool" where
  "dot_plus_dollar rest \<longleftrightarrow>
     takeWhile (\<lambda>c. c \<noteq> NL) rest \<noteq> [] \<and> at_dollar (dropWhile (\<lambda>c. c \<noteq> NL) rest)"

definition DATE :: "atom list" where
  "DATE = [Digit, Digit, Digit, Digit, Lit (CHR ''-''), Digit, Digit, Lit (CHR ''-''), Digit, Digit]"

definition TIME :: "atom list" where
  "TIME = [Lit (CHR ''T''), Digit, Digit, Lit (CHR ''-''), Digit, Digit, Lit (CHR ''-''), Digit,
           Digit, Lit (CHR ''Z''), Lit (CHR ''-'')]"

text \<open>A string of exactly the shape \<open>YYYY-MM-DD\<close>.\<close>

definition is_date :: "string \<Rightarrow> bool" where
  "is_date s \<longleftrightarrow> match_atoms DATE s = Some []"

lemma match_atoms_Some:
  "match_atoms as s = Some r \<longleftrightarrow>
   (\<exists>p. s = p @ r \<and> list_all2 atom_matches as p)"
proof (induction as s rule: match_atoms.induct)
  case (3 a as c cs)
  then show ?case by (auto simp: list_all2_Cons1)
qed (auto simp: list_all2_Cons1)

lemma match_atoms_append:
  "match_atoms (as @ bs) s = (case match_atoms as s of None \<Rightarrow> None | Some r \<Rightarrow> match_atoms bs r)"
  by (induction as s rule: match_atoms.induct) (auto split: option.splits)

lemma match_atoms_lits: "match_atoms (map Lit p) (p @ s) = Some s"
  by (induction p) auto

lemma match_atoms_lits_Some: "match_atoms (map Lit p) s = Some r \<longleftrightarrow> s = p @ r"
  by (induction p arbitrary: s) (auto split: if_splits, metis list.exhaust match_atoms.simps(2,3)
      option.distinct(1) atom_matches.simps(3) list.inject)

lemma is_date_length: "is_date s \<Longrightarrow> length s = 10"
  by (auto simp: is_date_def match_atoms_Some DATE_def dest!: list_all2_lengthD)

lemma match_DATE_Some: "match_atoms DATE s = Some r \<longleftrightarrow> is_date (take 10 s) \<and> s = take 10 s @ r"
proof
  assume "match_atoms DATE s = Some r"
  then obtain p where p: "s = p @ r" "list_all2 atom_matches DATE p"
    by (auto simp: match_atoms_Some)
  then have "length p = 10" by (auto simp: DATE_def dest!: list_all2_lengthD)
  with p show "is_date (take 10 s) \<and> s = take 10 s @ r"
    by (simp add: is_date_def match_atoms_Some)
next
  assume "is_date (take 10 s) \<and> s = take 10 s @ r"
  then show "match_atoms DATE s = Some r"
    by (auto simp: is_date_def match_atoms_Some)
qed

lemma match_DATE_append: "is_date d \<Longrightarrow> match_atoms DATE (d @ s) = Some s"
  using is_date_length [of d] by (simp add: match_DATE_Some)

lemma list_all2_atom_in:
  "list_all2 atom_matches as p \<Longrightarrow> c \<in> set p \<Longrightarrow> \<exists>a\<in>set as. atom_matches a c"
  by (induction rule: list_all2_induct) auto

lemma is_date_chars: "is_date d \<Longrightarrow> c \<in> set d \<Longrightarrow> is_digit c \<or> c = CHR ''-''"
  unfolding is_date_def match_atoms_Some
  by (auto simp: DATE_def dest!: list_all2_atom_in)

section \<open>The names of the source\<close>

text \<open>\<open>_DATE_DIR_RE.match\<close>: a daily snapshot directory.\<close>

definition DATE_DIR_RE :: "string \<Rightarrow> bool" where
  "DATE_DIR_RE s = (case match_atoms DATE s of None \<Rightarrow> False | Some r \<Rightarrow> at_dollar r)"

text \<open>\<open>_SNAPSHOT_FILENAME_RE.match\<close>: \<open><YYYY-MM-DD>T<HH>-<MM>-<SS>Z-<hash>.<ext>\<close>.\<close>

definition SNAPSHOT_FILENAME_RE :: "string \<Rightarrow> bool" where
  "SNAPSHOT_FILENAME_RE s =
     (case match_atoms (DATE @ TIME) s of None \<Rightarrow> False | Some r \<Rightarrow> dot_plus_dollar r)"

text \<open>\<open>_LOG_FILENAME_RE.match\<close>: a per-day visit log; the result is \<open>group(1)\<close>, the date in the name.\<close>

definition LOG_FILENAME_RE :: "string \<Rightarrow> string option" where
  "LOG_FILENAME_RE s =
     (case match_atoms (map Lit ''browser-visits-'') s of
        None \<Rightarrow> None
      | Some r \<Rightarrow>
          (case match_atoms (DATE @ map Lit ''.log'') r of
             None \<Rightarrow> None
           | Some q \<Rightarrow> if at_dollar q then Some (take 10 r) else None))"

text \<open>\<open>_UUID_RE.fullmatch\<close>: \<open>fullmatch\<close> must consume the whole string, so no line feed can follow.\<close>

definition looks_like_uuid :: "string \<Rightarrow> bool" where
  "looks_like_uuid s \<longleftrightarrow> match_atoms (replicate 32 Hex) s = Some []"

definition MANIFEST_FILENAME :: string where
  "MANIFEST_FILENAME = ''MANIFEST.tsv''"

definition MANIFEST_HEADER :: "string list" where
  "MANIFEST_HEADER = [''filename'', ''tag'', ''timestamp'', ''url'', ''title'']"

definition IGNORED_NAMES :: "string list" where
  "IGNORED_NAMES = [''.DS_Store'']"

definition log_filename_for :: "string \<Rightarrow> string" where
  "log_filename_for date_iso = ''browser-visits-'' @ date_iso @ ''.log''"

text \<open>Field of a TSV line: tabs and line feeds become spaces, carriage returns disappear.\<close>

definition tsv_sanitise :: "string \<Rightarrow> string" where
  "tsv_sanitise s = replace_char CR [] (replace_char NL '' '' (replace_char TAB '' '' s))"

section \<open>Calendar dates\<close>

text \<open>
  \<open>datetime.date.fromisoformat\<close> on a string of the shape \<open>YYYY-MM-DD\<close>; \<open>None\<close> is \<open>ValueError\<close>. The
  other formats it accepts never reach it here, because the shape was checked before.
\<close>

definition digit_val :: "char \<Rightarrow> nat" where
  "digit_val c = of_char c - 48"

definition num_val :: "string \<Rightarrow> nat" where
  "num_val s = foldl (\<lambda>n c. 10 * n + digit_val c) 0 s"

definition is_leap :: "nat \<Rightarrow> bool" where
  "is_leap y \<longleftrightarrow> y mod 4 = 0 \<and> (y mod 100 \<noteq> 0 \<or> y mod 400 = 0)"

definition days_in_month :: "nat \<Rightarrow> nat \<Rightarrow> nat" where
  "days_in_month y m =
     (if m = 2 then (if is_leap y then 29 else 28)
      else if m \<in> {4, 6, 9, 11} then 30 else 31)"

definition date_fromisoformat :: "string \<Rightarrow> (nat \<times> nat \<times> nat) option" where
  "date_fromisoformat s =
     (if is_date s
      then (let y = num_val (take 4 s); m = num_val (take 2 (drop 5 s)); d = num_val (drop 8 s)
            in if 1 \<le> y \<and> 1 \<le> m \<and> m \<le> 12 \<and> 1 \<le> d \<and> d \<le> days_in_month y m
               then Some (y, m, d) else None)
      else None)"

section \<open>Facts about the names\<close>

lemma DATE_DIR_RE_iff: "DATE_DIR_RE s \<longleftrightarrow> (\<exists>d. is_date d \<and> (s = d \<or> s = d @ [NL]))"
proof
  assume "DATE_DIR_RE s"
  then obtain r where "match_atoms DATE s = Some r" "r = [] \<or> r = [NL]"
    by (auto simp: DATE_DIR_RE_def at_dollar_def split: option.splits)
  then show "\<exists>d. is_date d \<and> (s = d \<or> s = d @ [NL])"
    by (metis append_Nil2 match_DATE_Some)
next
  assume "\<exists>d. is_date d \<and> (s = d \<or> s = d @ [NL])"
  then show "DATE_DIR_RE s"
    using match_DATE_append [where s = "[]"] match_DATE_append [where s = "[NL]"]
    by (auto simp: DATE_DIR_RE_def at_dollar_def)
qed

lemma DATE_DIR_RE_date [simp]: "is_date d \<Longrightarrow> DATE_DIR_RE d"
  by (auto simp: DATE_DIR_RE_iff)

lemma LOG_FILENAME_RE_Some:
  "LOG_FILENAME_RE s = Some d \<longleftrightarrow>
   is_date d \<and> (s = log_filename_for d \<or> s = log_filename_for d @ [NL])"
proof
  assume "LOG_FILENAME_RE s = Some d"
  then obtain r q where r: "s = ''browser-visits-'' @ r" and d: "d = take 10 r"
    and q: "match_atoms (DATE @ map Lit ''.log'') r = Some q" and end_q: "q = [] \<or> q = [NL]"
    by (auto simp: LOG_FILENAME_RE_def at_dollar_def match_atoms_lits_Some
        simp del: list.map append.simps split: option.splits if_splits)
  from q obtain t where "match_atoms DATE r = Some t" and t: "t = ''.log'' @ q"
    by (auto simp: match_atoms_append match_atoms_lits_Some simp del: list.map append.simps
        split: option.splits)
  then have "is_date d" and "r = d @ t" by (auto simp: match_DATE_Some d)
  then show "is_date d \<and> (s = log_filename_for d \<or> s = log_filename_for d @ [NL])"
    using r t end_q by (auto simp: log_filename_for_def)
next
  assume *: "is_date d \<and> (s = log_filename_for d \<or> s = log_filename_for d @ [NL])"
  then have m: "match_atoms DATE (d @ ''.log'' @ q) = Some (''.log'' @ q)" for q
    by (simp only: match_DATE_append)
  have "match_atoms (DATE @ map Lit ''.log'') (d @ ''.log'' @ q) = Some q" for q
    by (simp only: match_atoms_append m option.case match_atoms_lits)
  moreover have "match_atoms (map Lit ''browser-visits-'') (''browser-visits-'' @ r) = Some r" for r
    by (rule match_atoms_lits)
  moreover have "take 10 (d @ r) = d" for r
    using * is_date_length by simp
  ultimately have "LOG_FILENAME_RE (''browser-visits-'' @ d @ ''.log'' @ q) =
      (if at_dollar q then Some d else None)" for q
    by (simp only: LOG_FILENAME_RE_def option.case)
  from this [of "[]"] this [of "[NL]"] * show "LOG_FILENAME_RE s = Some d"
    by (auto simp: log_filename_for_def at_dollar_def)
qed

lemma LOG_FILENAME_RE_log [simp]: "is_date d \<Longrightarrow> LOG_FILENAME_RE (log_filename_for d) = Some d"
  by (simp add: LOG_FILENAME_RE_Some)

lemma log_filename_inj [simp]: "log_filename_for d = log_filename_for e \<longleftrightarrow> d = e"
  by (simp add: log_filename_for_def)

lemma is_date_no_slash: "is_date d \<Longrightarrow> CHR ''/'' \<notin> set d"
  by (auto simp: is_digit_def dest!: is_date_chars)

lemma log_filename_no_slash: "CHR ''/'' \<notin> set d \<Longrightarrow> CHR ''/'' \<notin> set (log_filename_for d)"
  by (simp add: log_filename_for_def)

lemma snapshot_starts_with_digit: "SNAPSHOT_FILENAME_RE s \<Longrightarrow> \<exists>c cs. s = c # cs \<and> is_digit c"
  by (cases s) (auto simp: SNAPSHOT_FILENAME_RE_def DATE_def split: option.splits if_splits)

lemma snapshot_not_manifest: "\<not> SNAPSHOT_FILENAME_RE MANIFEST_FILENAME"
  by (auto simp: MANIFEST_FILENAME_def is_digit_def dest: snapshot_starts_with_digit)

lemma snapshot_not_log: "\<not> SNAPSHOT_FILENAME_RE (log_filename_for d)"
  by (auto simp: log_filename_for_def is_digit_def dest: snapshot_starts_with_digit)

lemma manifest_not_log: "log_filename_for d \<noteq> MANIFEST_FILENAME"
  by (simp add: log_filename_for_def MANIFEST_FILENAME_def)

lemma tsv_sanitise_clean: "{TAB, NL, CR} \<inter> set (tsv_sanitise s) = {}"
proof -
  let ?t = "replace_char TAB '' '' s"
  let ?n = "replace_char NL '' '' ?t"
  have "TAB \<notin> set ?t" using set_replace_char [of TAB "'' ''" s] by auto
  moreover from this have "TAB \<notin> set ?n" and "NL \<notin> set ?n"
    using set_replace_char [of NL "'' ''" ?t] by auto
  ultimately show ?thesis
    using set_replace_char [of CR "[]" ?n] by (auto simp: tsv_sanitise_def)
qed

lemma tsv_sanitise_no_tab [simp]: "TAB \<notin> set (tsv_sanitise s)"
  and tsv_sanitise_no_nl [simp]: "NL \<notin> set (tsv_sanitise s)"
  and tsv_sanitise_no_cr [simp]: "CR \<notin> set (tsv_sanitise s)"
  using tsv_sanitise_clean [of s] by auto

lemma tsv_sanitise_id: "{TAB, NL, CR} \<inter> set s = {} \<Longrightarrow> tsv_sanitise s = s"
  by (simp add: tsv_sanitise_def)

lemma tsv_sanitise_idem [simp]: "tsv_sanitise (tsv_sanitise s) = tsv_sanitise s"
  by (rule tsv_sanitise_id) (rule tsv_sanitise_clean)

lemma uuid_length: "looks_like_uuid s \<Longrightarrow> length s = 32"
  by (auto simp: looks_like_uuid_def match_atoms_Some dest!: list_all2_lengthD)

lemma uuid_chars: "looks_like_uuid s \<Longrightarrow> c \<in> set s \<Longrightarrow> atom_matches Hex c"
  unfolding looks_like_uuid_def match_atoms_Some
  by (fastforce dest: list_all2_atom_in)

lemma uuid_no_tab: "looks_like_uuid s \<Longrightarrow> TAB \<notin> set s \<and> NL \<notin> set s \<and> CR \<notin> set s"
  by (auto dest: uuid_chars)

end
