(* ===== verification/Tables.thy ===== *)
theory Tables
  imports FileNames
begin

text \<open>
  The SQLite database the components share (\<open>browser-visit-logger/schema.sql\<close>): one record per
  table's row, one list per table in the order SQLite scans it (rowid order, that is, insertion
  order), and the statement forms the program issues, each as a function of the list.

  A table that was never created, or was dropped, is not in \<open>tables\<close>; a statement that names it
  raises \<open>OperationalError\<close> (see the theory World). A NULL is \<open>None\<close>; only \<open>visits.of_interest\<close> can
  hold one. \<open>of_interest\<close> is a TEXT column, so the integer 1 the rebuilder stores and the text
  \<open>'1'\<close> the sync client stores are the same value.
\<close>

section \<open>Rows and tables\<close>

record visit =
  v_url :: url
  v_timestamp :: timestamp
  v_title :: string
  v_of_interest :: "string option"
  v_read :: int
  v_skimmed :: int

record event =
  e_url :: url
  e_timestamp :: timestamp
  e_filename :: filename
  e_directory :: path

record snapshot =
  s_date :: string
  s_sealed :: int

record mover_error =
  m_key :: string
  m_operation :: string
  m_target :: string
  m_message :: string
  m_first_seen :: timestamp
  m_last_seen :: timestamp
  m_attempts :: int
  m_notified :: int
  m_immediate :: int

record sync_row =
  y_machine_id :: string
  y_cursor_log_date :: string
  y_cursor_line_offset :: int
  y_last_sync_attempt_at :: timestamp
  y_last_sync_success_at :: timestamp
  y_last_error :: string

datatype table = Visits | ReadEvents | SkimmedEvents | Snapshots | MoverErrors | SyncState

text \<open>\<open>read_default\<close> and \<open>skimmed_default\<close> are the DEFAULT of the \<open>directory\<close> columns, fixed when the table is created.\<close>

record database =
  tables :: "table list"
  visits :: "visit list"
  read_events :: "event list"
  skimmed_events :: "event list"
  snapshots :: "snapshot list"
  mover_errors :: "mover_error list"
  sync_state :: "sync_row list"
  read_default :: path
  skimmed_default :: path

definition empty_database :: database where
  "empty_database = \<lparr>tables = [], visits = [], read_events = [], skimmed_events = [],
     snapshots = [], mover_errors = [], sync_state = [], read_default = [], skimmed_default = []\<rparr>"

text \<open>The two tags that carry an event row; each has its events table and its counter column in \<open>visits\<close>.\<close>

datatype event_tag = Read | Skimmed

fun event_table :: "event_tag \<Rightarrow> table" where
  "event_table Read = ReadEvents"
| "event_table Skimmed = SkimmedEvents"

fun events :: "event_tag \<Rightarrow> database \<Rightarrow> event list" where
  "events Read d = read_events d"
| "events Skimmed d = skimmed_events d"

fun set_events :: "event_tag \<Rightarrow> event list \<Rightarrow> database \<Rightarrow> database" where
  "set_events Read es d = d\<lparr>read_events := es\<rparr>"
| "set_events Skimmed es d = d\<lparr>skimmed_events := es\<rparr>"

fun dir_default :: "event_tag \<Rightarrow> database \<Rightarrow> path" where
  "dir_default Read d = read_default d"
| "dir_default Skimmed d = skimmed_default d"

fun counter :: "event_tag \<Rightarrow> visit \<Rightarrow> int" where
  "counter Read v = v_read v"
| "counter Skimmed v = v_skimmed v"

fun bump_counter :: "event_tag \<Rightarrow> visit \<Rightarrow> visit" where
  "bump_counter Read v = v\<lparr>v_read := v_read v + 1\<rparr>"
| "bump_counter Skimmed v = v\<lparr>v_skimmed := v_skimmed v + 1\<rparr>"

definition event_key :: "event \<Rightarrow> url \<times> timestamp" where
  "event_key e = (e_url e, e_timestamp e)"

section \<open>Statements on one keyed table\<close>

definition has_key :: "('r \<Rightarrow> 'k) \<Rightarrow> 'k \<Rightarrow> 'r list \<Rightarrow> bool" where
  "has_key key k t \<longleftrightarrow> list_ex (\<lambda>r. key r = k) t"

text \<open>\<open>INSERT OR IGNORE\<close>: the row count tells whether the row was new.\<close>

definition insert_or_ignore :: "('r \<Rightarrow> 'k) \<Rightarrow> 'r \<Rightarrow> 'r list \<Rightarrow> int \<times> 'r list" where
  "insert_or_ignore key r t = (if has_key key (key r) t then (0, t) else (1, t @ [r]))"

text \<open>\<open>INSERT ... ON CONFLICT(key) DO UPDATE\<close>: \<open>f\<close> rewrites the row that is there.\<close>

definition upsert :: "('r \<Rightarrow> 'k) \<Rightarrow> ('r \<Rightarrow> 'r) \<Rightarrow> 'r \<Rightarrow> 'r list \<Rightarrow> 'r list" where
  "upsert key f r t =
     (if has_key key (key r) t then map (\<lambda>x. if key x = key r then f x else x) t else t @ [r])"

text \<open>\<open>UPDATE ... WHERE\<close>, with its row count, and \<open>DELETE ... WHERE\<close>.\<close>

definition update_where :: "('r \<Rightarrow> bool) \<Rightarrow> ('r \<Rightarrow> 'r) \<Rightarrow> 'r list \<Rightarrow> int \<times> 'r list" where
  "update_where P f t = (int (length (filter P t)), map (\<lambda>x. if P x then f x else x) t)"

definition delete_where :: "('r \<Rightarrow> bool) \<Rightarrow> 'r list \<Rightarrow> 'r list" where
  "delete_where P t = filter (\<lambda>x. \<not> P x) t"

text \<open>\<open>SELECT ... WHERE key = ?\<close> followed by \<open>fetchone\<close>: the first row in scan order.\<close>

definition lookup_key :: "('r \<Rightarrow> 'k) \<Rightarrow> 'k \<Rightarrow> 'r list \<Rightarrow> 'r option" where
  "lookup_key key k t = find (\<lambda>r. key r = k) t"

section \<open>Laws of keyed tables\<close>

definition keyed :: "('r \<Rightarrow> 'k) \<Rightarrow> 'r list \<Rightarrow> bool" where
  "keyed key t \<longleftrightarrow> distinct (map key t)"

lemma has_key_iff: "has_key key k t \<longleftrightarrow> k \<in> key ` set t"
  by (auto simp: has_key_def list_ex_iff)

lemma has_key_append [tbl_simps]:
  "has_key key k (t @ u) \<longleftrightarrow> has_key key k t \<or> has_key key k u"
  by (auto simp: has_key_def)

lemma has_key_simps [simp]:
  "\<not> has_key key k []"
  "has_key key k (r # t) \<longleftrightarrow> key r = k \<or> has_key key k t"
  by (auto simp: has_key_def)

lemma lookup_key_simps [simp]:
  "lookup_key key k [] = None"
  "lookup_key key k (r # t) = (if key r = k then Some r else lookup_key key k t)"
  by (auto simp: lookup_key_def)

lemma lookup_key_None: "lookup_key key k t = None \<longleftrightarrow> \<not> has_key key k t"
  by (induction t) auto

lemma has_key_lookup: "has_key key k t \<longleftrightarrow> lookup_key key k t \<noteq> None"
  by (simp add: lookup_key_None)

lemma lookup_key_SomeD: "lookup_key key k t = Some r \<Longrightarrow> r \<in> set t \<and> key r = k"
  by (induction t) (auto split: if_splits)

lemma lookup_key_unique: "keyed key t \<Longrightarrow> r \<in> set t \<Longrightarrow> lookup_key key (key r) t = Some r"
  by (induction t) (auto simp: keyed_def)

lemma keyed_append_new: "keyed key t \<Longrightarrow> \<not> has_key key (key r) t \<Longrightarrow> keyed key (t @ [r])"
  by (auto simp: keyed_def has_key_iff)

lemma keyed_insert_or_ignore: "keyed key t \<Longrightarrow> keyed key (snd (insert_or_ignore key r t))"
  by (simp add: insert_or_ignore_def keyed_append_new)

lemma map_key_update:
  "(\<And>x. key (f x) = key x) \<Longrightarrow> map key (map (\<lambda>x. if P x then f x else x) t) = map key t"
  by (induction t) auto

lemma keyed_update: "(\<And>x. key (f x) = key x) \<Longrightarrow> keyed key t \<Longrightarrow> keyed key (snd (update_where P f t))"
  by (simp add: keyed_def update_where_def map_key_update del: map_map)

lemma has_key_update:
  "(\<And>x. key (f x) = key x) \<Longrightarrow> has_key key k (snd (update_where P f t)) \<longleftrightarrow> has_key key k t"
  by (induction t) (auto simp: update_where_def)

lemma keyed_upsert:
  assumes "\<And>x. key (f x) = key x" and "keyed key t"
  shows "keyed key (upsert key f r t)"
proof (cases "has_key key (key r) t")
  case True
  then show ?thesis
    using assms by (simp add: upsert_def keyed_def map_key_update del: map_map)
next
  case False
  with assms(2) show ?thesis by (simp add: upsert_def keyed_append_new)
qed

lemma keyed_delete: "keyed key t \<Longrightarrow> keyed key (delete_where P t)"
  by (simp add: keyed_def delete_where_def distinct_map_filter_key)

lemma has_key_insert_or_ignore [tbl_simps]:
  "has_key key k (snd (insert_or_ignore key r t)) \<longleftrightarrow> k = key r \<or> has_key key k t"
  by (auto simp: insert_or_ignore_def tbl_simps)

lemma insert_or_ignore_old [simp]:
  "has_key key (key r) t \<Longrightarrow> insert_or_ignore key r t = (0, t)"
  by (simp add: insert_or_ignore_def)

lemma insert_or_ignore_new:
  "\<not> has_key key (key r) t \<Longrightarrow> insert_or_ignore key r t = (1, t @ [r])"
  by (simp add: insert_or_ignore_def)

lemma lookup_append: "lookup_key key k (t @ u) =
  (case lookup_key key k t of None \<Rightarrow> lookup_key key k u | Some r \<Rightarrow> Some r)"
  by (induction t) auto

lemma lookup_insert_or_ignore:
  "lookup_key key k (snd (insert_or_ignore key r t)) =
   (case lookup_key key k t of None \<Rightarrow> if k = key r then Some r else None | Some s \<Rightarrow> Some s)"
proof (cases "has_key key (key r) t")
  case True
  then show ?thesis
    by (auto simp: has_key_lookup split: option.splits)
next
  case False
  then show ?thesis
    by (auto simp: insert_or_ignore_new lookup_append split: option.splits)
qed

lemma lookup_map_key:
  "(\<And>x. key (f x) = key x) \<Longrightarrow>
   lookup_key key k (map (\<lambda>x. if key x = j then f x else x) t) =
   (if k = j then map_option f (lookup_key key k t) else lookup_key key k t)"
  by (induction t) auto

lemma lookup_upsert:
  assumes "\<And>x. key (f x) = key x"
  shows "lookup_key key k (upsert key f r t) =
    (if k = key r
     then Some (case lookup_key key k t of None \<Rightarrow> r | Some x \<Rightarrow> f x)
     else lookup_key key k t)"
proof (cases "has_key key (key r) t")
  case True
  then obtain x where "lookup_key key (key r) t = Some x"
    by (cases "lookup_key key (key r) t") (auto simp: lookup_key_None)
  then show ?thesis
    using True assms by (simp add: upsert_def lookup_map_key)
next
  case False
  then have "upsert key f r t = t @ [r]" and "lookup_key key (key r) t = None"
    by (simp_all add: upsert_def lookup_key_None)
  then show ?thesis
    by (auto simp: lookup_append split: option.splits)
qed

lemma lookup_delete_key:
  "lookup_key key k (delete_where (\<lambda>x. key x = j) t) =
   (if k = j then None else lookup_key key k t)"
  by (induction t) (auto simp: delete_where_def)

lemma update_where_none: "(\<And>r. r \<in> set t \<Longrightarrow> \<not> P r) \<Longrightarrow> update_where P f t = (0, t)"
  by (auto simp: update_where_def filter_empty_conv intro!: map_idI_set)

section \<open>The SQL the components share\<close>

text \<open>\<open>INSERT OR IGNORE INTO visits (url, timestamp, title)\<close>; the other columns take their defaults.\<close>

definition new_visit :: "url \<Rightarrow> timestamp \<Rightarrow> string \<Rightarrow> visit" where
  "new_visit url ts title = \<lparr>v_url = url, v_timestamp = ts, v_title = title,
     v_of_interest = None, v_read = 0, v_skimmed = 0\<rparr>"

definition sql_insert_visit :: "url \<Rightarrow> timestamp \<Rightarrow> string \<Rightarrow> database \<Rightarrow> unit \<times> database" where
  "sql_insert_visit url ts title d =
     ((), d\<lparr>visits := snd (insert_or_ignore v_url (new_visit url ts title) (visits d))\<rparr>)"

text \<open>\<open>UPDATE visits SET of_interest = 1 WHERE url = ?\<close>\<close>

definition sql_set_of_interest :: "url \<Rightarrow> database \<Rightarrow> int \<times> database" where
  "sql_set_of_interest url d =
     (let (n, vs) = update_where (\<lambda>v. v_url v = url) (\<lambda>v. v\<lparr>v_of_interest := Some ''1''\<rparr>) (visits d)
      in (n, d\<lparr>visits := vs\<rparr>))"

text \<open>\<open>INSERT OR IGNORE INTO <tag>_events\<close>\<close>

definition sql_insert_event :: "event_tag \<Rightarrow> event \<Rightarrow> database \<Rightarrow> int \<times> database" where
  "sql_insert_event tg e d =
     (let (n, es) = insert_or_ignore event_key e (events tg d) in (n, set_events tg es d))"

text \<open>\<open>UPDATE visits SET <tag> = <tag> + 1 WHERE url = ?\<close>\<close>

definition sql_bump :: "event_tag \<Rightarrow> url \<Rightarrow> database \<Rightarrow> unit \<times> database" where
  "sql_bump tg url d =
     ((), d\<lparr>visits := snd (update_where (\<lambda>v. v_url v = url) (bump_counter tg) (visits d))\<rparr>)"

text \<open>\<open>INSERT OR IGNORE INTO snapshots (date, sealed) VALUES (?, 0)\<close> and the upserts of \<open>sealed\<close>.\<close>

definition sql_insert_snapshot :: "string \<Rightarrow> database \<Rightarrow> unit \<times> database" where
  "sql_insert_snapshot date d =
     ((), d\<lparr>snapshots := snd (insert_or_ignore s_date \<lparr>s_date = date, s_sealed = 0\<rparr> (snapshots d))\<rparr>)"

definition sql_upsert_snapshot :: "string \<Rightarrow> int \<Rightarrow> database \<Rightarrow> unit \<times> database" where
  "sql_upsert_snapshot date sealed d =
     ((), d\<lparr>snapshots := upsert s_date (\<lambda>s. s\<lparr>s_sealed := sealed\<rparr>)
              \<lparr>s_date = date, s_sealed = sealed\<rparr> (snapshots d)\<rparr>)"

text \<open>DDL: \<open>CREATE TABLE IF NOT EXISTS\<close> and \<open>DROP TABLE IF EXISTS\<close>.\<close>

definition create_table :: "table \<Rightarrow> database \<Rightarrow> database" where
  "create_table t d = (if t \<in> set (tables d) then d else d\<lparr>tables := tables d @ [t]\<rparr>)"

definition create_events :: "event_tag \<Rightarrow> path \<Rightarrow> database \<Rightarrow> database" where
  "create_events tg dflt d =
     (if event_table tg \<in> set (tables d) then d
      else (case tg of
              Read \<Rightarrow> (create_table ReadEvents d)\<lparr>read_default := dflt\<rparr>
            | Skimmed \<Rightarrow> (create_table SkimmedEvents d)\<lparr>skimmed_default := dflt\<rparr>))"

fun drop_table :: "table \<Rightarrow> database \<Rightarrow> database" where
  "drop_table Visits d = d\<lparr>tables := removeAll Visits (tables d), visits := []\<rparr>"
| "drop_table ReadEvents d = d\<lparr>tables := removeAll ReadEvents (tables d), read_events := []\<rparr>"
| "drop_table SkimmedEvents d = d\<lparr>tables := removeAll SkimmedEvents (tables d), skimmed_events := []\<rparr>"
| "drop_table Snapshots d = d\<lparr>tables := removeAll Snapshots (tables d), snapshots := []\<rparr>"
| "drop_table MoverErrors d = d\<lparr>tables := removeAll MoverErrors (tables d), mover_errors := []\<rparr>"
| "drop_table SyncState d = d\<lparr>tables := removeAll SyncState (tables d), sync_state := []\<rparr>"

end
