(* ===== verification/World.thy ===== *)
theory World
  imports Tables
begin

text \<open>
  The state the program runs in and the effects it has on it: a file store, one SQLite database
  with its open transaction, the clock, and what was printed. A Python function that touches any of
  it is a function \<open>world \<Rightarrow> (exn + 'a) \<times> world\<close>: it returns a value or raises an exception, and either
  way leaves a new world.

  The operating system and SQLite can fail at any call. Each file operation first takes the head of
  \<open>fs_faults\<close>, each statement the head of \<open>db_faults\<close>: \<open>Some\<close> makes that call raise instead, so a
  theorem that holds for every fault list holds for every pattern of failures. A write that fails
  leaves a prefix of its text behind, whose length the fault says.

  What is idealised: paths are resolved from the root, without symbolic links, \<open>..\<close> or a second
  file system; a file is the text it decodes to and its permission bits; a file that is read is read
  at once.
\<close>

section \<open>Exceptions\<close>

datatype errno = ENOENT | ENOTDIR | EISDIR | EEXIST | EACCES | EIO | ENOSPC | EROFS | EDQUOT | EAGAIN
  | Errno int | NoErrno

text \<open>
  \<open>OperationalError\<close> is its own constructor because the program tells it from the rest of
  \<open>sqlite3.DatabaseError\<close>; \<open>InterfaceError\<close> is the part of \<open>sqlite3.Error\<close> outside \<open>DatabaseError\<close>.
  \<open>ClientError\<close> carries the error code of an AWS call, \<open>TimeoutError\<close> is a subclass of \<open>OSError\<close>.
\<close>

datatype exn =
    OSError errno string
  | OperationalError string
  | DatabaseError string
  | InterfaceError string
  | ValueError string
  | TypeError string
  | RuntimeError string
  | RpcError string
  | ClientError "string option" string
  | TimeoutError string
  | SystemExit int

fun is_os_error :: "exn \<Rightarrow> bool" where
  "is_os_error (OSError _ _) = True"
| "is_os_error (TimeoutError _) = True"
| "is_os_error _ = False"

fun is_sqlite_error :: "exn \<Rightarrow> bool" where
  "is_sqlite_error (OperationalError _) = True"
| "is_sqlite_error (DatabaseError _) = True"
| "is_sqlite_error (InterfaceError _) = True"
| "is_sqlite_error _ = False"

text \<open>\<open>str(exc)\<close>.\<close>

fun exn_str :: "exn \<Rightarrow> string" where
  "exn_str (OSError _ s) = s"
| "exn_str (OperationalError s) = s"
| "exn_str (DatabaseError s) = s"
| "exn_str (InterfaceError s) = s"
| "exn_str (ValueError s) = s"
| "exn_str (TypeError s) = s"
| "exn_str (RuntimeError s) = s"
| "exn_str (RpcError s) = s"
| "exn_str (ClientError _ s) = s"
| "exn_str (TimeoutError s) = s"
| "exn_str (SystemExit _) = []"

datatype db_fault = Busy string | Corrupt string | Misuse string

fun db_exn :: "db_fault \<Rightarrow> exn" where
  "db_exn (Busy s) = OperationalError s"
| "db_exn (Corrupt s) = DatabaseError s"
| "db_exn (Misuse s) = InterfaceError s"

lemma db_exn_sqlite [simp]: "is_sqlite_error (db_exn f)"
  by (cases f) auto

lemma sqlite_not_os: "is_sqlite_error e \<Longrightarrow> \<not> is_os_error e"
  by (cases e) auto

section \<open>The file store\<close>

datatype node = Dir | File (content: string) (mode: nat)

type_synonym comps = "string list"
type_synonym store = "(comps \<times> node) list"

definition comps_of :: "path \<Rightarrow> comps" where
  "comps_of p = filter (\<lambda>c. c \<noteq> [] \<and> c \<noteq> ''.'') (split_on (CHR ''/'') p)"

definition node_at :: "store \<Rightarrow> comps \<Rightarrow> node option" where
  "node_at fs c = (if c = [] then Some Dir else map_option snd (lookup_key fst c fs))"

definition set_node :: "comps \<Rightarrow> node \<Rightarrow> store \<Rightarrow> store" where
  "set_node c n fs = upsert fst (\<lambda>x. (fst x, n)) (c, n) fs"

definition del_node :: "comps \<Rightarrow> store \<Rightarrow> store" where
  "del_node c fs = delete_where (\<lambda>x. fst x = c) fs"

text \<open>The entries of a directory, in the order the store holds them.\<close>

definition children :: "comps \<Rightarrow> store \<Rightarrow> string list" where
  "children c fs = map (last \<circ> fst) (filter (\<lambda>x. fst x \<noteq> [] \<and> butlast (fst x) = c) fs)"

definition readable :: "nat \<Rightarrow> bool" where
  "readable m \<longleftrightarrow> (m div 256) mod 2 = 1"

definition writable :: "nat \<Rightarrow> bool" where
  "writable m \<longleftrightarrow> (m div 128) mod 2 = 1"

abbreviation mode_444 :: nat where "mode_444 \<equiv> 292"
abbreviation mode_644 :: nat where "mode_644 \<equiv> 420"

lemma modes [simp]: "readable 292" "\<not> writable 292" "readable 420" "writable 420"
  by (simp_all add: readable_def writable_def)

lemma node_at_root [simp]: "node_at fs [] = Some Dir"
  by (simp add: node_at_def)

lemma node_at_set_node [simp]:
  "c \<noteq> [] \<Longrightarrow> node_at (set_node c n fs) k = (if k = c then Some n else node_at fs k)"
  by (auto simp: node_at_def set_node_def lookup_upsert split: option.splits)

lemma node_at_del_node [simp]:
  "c \<noteq> [] \<Longrightarrow> node_at (del_node c fs) k = (if k = c then None else node_at fs k)"
  by (auto simp: node_at_def del_node_def lookup_delete_key)

definition store_keyed :: "store \<Rightarrow> bool" where
  "store_keyed fs \<longleftrightarrow> keyed fst fs"

lemma store_keyed_set [simp]: "store_keyed fs \<Longrightarrow> store_keyed (set_node c n fs)"
  by (simp add: store_keyed_def set_node_def keyed_upsert)

lemma store_keyed_del [simp]: "store_keyed fs \<Longrightarrow> store_keyed (del_node c fs)"
  by (simp add: store_keyed_def del_node_def keyed_delete)

lemma set_children: "n \<in> set (children c fs) \<longleftrightarrow> node_at fs (c @ [n]) \<noteq> None"
proof -
  have "n \<in> set (children c fs) \<longleftrightarrow> (\<exists>x\<in>set fs. c @ [n] = fst x)"
    by (force simp: children_def snoc_eq_iff_butlast image_iff)
  also have "\<dots> \<longleftrightarrow> has_key fst (c @ [n]) fs"
    by (auto simp: has_key_iff)
  finally show ?thesis
    by (simp add: node_at_def has_key_lookup)
qed

lemma distinct_children:
  assumes "store_keyed fs"
  shows "distinct (children c fs)"
proof -
  let ?F = "filter (\<lambda>x. fst x \<noteq> [] \<and> butlast (fst x) = c) fs"
  have "distinct (map fst ?F)"
    using assms by (simp add: store_keyed_def keyed_def distinct_map_filter_key)
  moreover have "map fst ?F = map (\<lambda>n. c @ [n]) (children c fs)"
    by (auto simp: children_def)
  ultimately show ?thesis
    by (simp add: distinct_map)
qed

section \<open>The world\<close>

text \<open>
  \<open>pushed\<close> is the trace of the requests the sync client sent to its server: whether the server accepted
  it, and the lines (date, line number, text).
\<close>

type_synonym log_line = "string \<times> int \<times> string"

record world =
  files :: store
  db :: database
  disk :: database
  in_tx :: bool
  fs_faults :: "(errno \<times> string \<times> nat) option list"
  db_faults :: "db_fault option list"
  clock :: "nat \<Rightarrow> timestamp"
  reads :: nat
  today :: string
  out :: "string list"
  err :: "string list"
  pushed :: "(bool \<times> log_line list) list"

text \<open>
  An effectful computation over a state: it returns or raises, and leaves a new state either way. \<open>'a io\<close> is
  the case of this world; the tools that talk to AWS run over a state of their own.
\<close>

type_synonym ('s, 'a) prog = "'s \<Rightarrow> (exn + 'a) \<times> 's"

type_synonym 'a io = "(world, 'a) prog"

definition ret :: "'a \<Rightarrow> ('s, 'a) prog" where
  "ret a w = (Inr a, w)"

definition throw :: "exn \<Rightarrow> ('s, 'a) prog" where
  "throw e w = (Inl e, w)"

definition bnd :: "('s, 'a) prog \<Rightarrow> ('a \<Rightarrow> ('s, 'b) prog) \<Rightarrow> ('s, 'b) prog" where
  "bnd m f w = (case m w of (Inl e, w') \<Rightarrow> (Inl e, w') | (Inr a, w') \<Rightarrow> f a w')"

definition thn :: "('s, 'a) prog \<Rightarrow> ('s, 'b) prog \<Rightarrow> ('s, 'b) prog" where
  "thn m n = bnd m (\<lambda>_. n)"

text \<open>\<open>try ... except\<close>: the handler gets every exception and re-raises what it does not catch.\<close>

definition catch :: "('s, 'a) prog \<Rightarrow> (exn \<Rightarrow> ('s, 'a) prog) \<Rightarrow> ('s, 'a) prog" where
  "catch m h w = (case m w of (Inl e, w') \<Rightarrow> h e w' | (Inr a, w') \<Rightarrow> (Inr a, w'))"

text \<open>\<open>try ... finally\<close> with a clean-up that cannot raise.\<close>

definition lastly :: "('s, 'a) prog \<Rightarrow> ('s \<Rightarrow> 's) \<Rightarrow> ('s, 'a) prog" where
  "lastly m c w = (case m w of (r, w') \<Rightarrow> (r, c w'))"

definition unless :: "bool \<Rightarrow> ('s, unit) prog \<Rightarrow> ('s, unit) prog" where
  "unless b m = (if b then ret () else m)"

definition gets :: "('s \<Rightarrow> 'a) \<Rightarrow> ('s, 'a) prog" where
  "gets f w = (Inr (f w), w)"

text \<open>Loops: \<open>for x in xs\<close>, without and with a local state.\<close>

fun for_each :: "'a list \<Rightarrow> ('a \<Rightarrow> ('s, unit) prog) \<Rightarrow> ('s, unit) prog" where
  "for_each [] body = ret ()"
| "for_each (x # xs) body = bnd (body x) (\<lambda>_. for_each xs body)"

fun fold_io :: "('b \<Rightarrow> 'a \<Rightarrow> ('s, 'b) prog) \<Rightarrow> 'b \<Rightarrow> 'a list \<Rightarrow> ('s, 'b) prog" where
  "fold_io body s [] = ret s"
| "fold_io body s (x # xs) = bnd (body s x) (\<lambda>s'. fold_io body s' xs)"

section \<open>Files\<close>

definition exists :: "path \<Rightarrow> world \<Rightarrow> bool" where
  "exists p w \<longleftrightarrow> node_at (files w) (comps_of p) \<noteq> None"

definition isdir :: "path \<Rightarrow> world \<Rightarrow> bool" where
  "isdir p w \<longleftrightarrow> node_at (files w) (comps_of p) = Some Dir"

definition isfile :: "path \<Rightarrow> world \<Rightarrow> bool" where
  "isfile p w \<longleftrightarrow> (\<exists>s m. node_at (files w) (comps_of p) = Some (File s m))"

lemma isfile_code [code]:
  "isfile p w = (case node_at (files w) (comps_of p) of Some (File _ _) \<Rightarrow> True | _ \<Rightarrow> False)"
  by (auto simp: isfile_def split: option.splits node.splits)

definition fs_op :: "'a io \<Rightarrow> 'a io" where
  "fs_op f w =
     (case fs_faults w of
        [] \<Rightarrow> f w
      | None # fl \<Rightarrow> f (w\<lparr>fs_faults := fl\<rparr>)
      | Some (e, msg, k) # fl \<Rightarrow> (Inl (OSError e msg), w\<lparr>fs_faults := fl\<rparr>))"

definition os_raise :: "errno \<Rightarrow> 'a io" where
  "os_raise e = throw (OSError e ''os error'')"

text \<open>The parent of a path that is about to be created must be a directory.\<close>

definition parent_error :: "comps \<Rightarrow> store \<Rightarrow> errno option" where
  "parent_error c fs =
     (case node_at fs (butlast c) of
        Some Dir \<Rightarrow> None
      | Some (File _ _) \<Rightarrow> Some ENOTDIR
      | None \<Rightarrow> Some ENOENT)"

definition listdir :: "path \<Rightarrow> string list io" where
  "listdir p = fs_op (\<lambda>w.
     (case node_at (files w) (comps_of p) of
        None \<Rightarrow> os_raise ENOENT w
      | Some (File _ _) \<Rightarrow> os_raise ENOTDIR w
      | Some Dir \<Rightarrow> ret (children (comps_of p) (files w)) w))"

definition unlink :: "path \<Rightarrow> unit io" where
  "unlink p = fs_op (\<lambda>w.
     (case node_at (files w) (comps_of p) of
        None \<Rightarrow> os_raise ENOENT w
      | Some Dir \<Rightarrow> os_raise EISDIR w
      | Some (File _ _) \<Rightarrow> ret () (w\<lparr>files := del_node (comps_of p) (files w)\<rparr>)))"

definition chmod :: "path \<Rightarrow> nat \<Rightarrow> unit io" where
  "chmod p m = fs_op (\<lambda>w.
     (case node_at (files w) (comps_of p) of
        None \<Rightarrow> os_raise ENOENT w
      | Some Dir \<Rightarrow> ret () w
      | Some (File s _) \<Rightarrow> ret () (w\<lparr>files := set_node (comps_of p) (File s m) (files w)\<rparr>)))"

definition open_read :: "path \<Rightarrow> unit io" where
  "open_read p = fs_op (\<lambda>w.
     (case node_at (files w) (comps_of p) of
        None \<Rightarrow> os_raise ENOENT w
      | Some Dir \<Rightarrow> os_raise EISDIR w
      | Some (File _ m) \<Rightarrow> if readable m then ret () w else os_raise EACCES w))"

text \<open>What a handle opened for reading delivers, line ends translated.\<close>

definition read_handle :: "path \<Rightarrow> string io" where
  "read_handle p = fs_op (\<lambda>w.
     (case node_at (files w) (comps_of p) of
        Some (File s _) \<Rightarrow> ret (univ_nl s) w
      | _ \<Rightarrow> os_raise EIO w))"

text \<open>\<open>open(path, "rb").read()\<close>: opening and reading a file in one step.\<close>

definition read_binary :: "path \<Rightarrow> string io" where
  "read_binary p = fs_op (\<lambda>w.
     (case node_at (files w) (comps_of p) of
        None \<Rightarrow> os_raise ENOENT w
      | Some Dir \<Rightarrow> os_raise EISDIR w
      | Some (File s m) \<Rightarrow> if readable m then ret s w else os_raise EACCES w))"

text \<open>\<open>open(p, 'w')\<close> and \<open>open(p, 'a')\<close>: a missing file is created, 0o644.\<close>

definition open_write :: "bool \<Rightarrow> path \<Rightarrow> unit io" where
  "open_write keep p = fs_op (\<lambda>w.
     (case node_at (files w) (comps_of p) of
        Some Dir \<Rightarrow> os_raise EISDIR w
      | Some (File s m) \<Rightarrow>
          if writable m
          then ret () (w\<lparr>files := set_node (comps_of p) (File (if keep then s else []) m) (files w)\<rparr>)
          else os_raise EACCES w
      | None \<Rightarrow>
          (case parent_error (comps_of p) (files w) of
             Some e \<Rightarrow> os_raise e w
           | None \<Rightarrow> ret () (w\<lparr>files := set_node (comps_of p) (File [] mode_644) (files w)\<rparr>))))"

definition append_node :: "comps \<Rightarrow> string \<Rightarrow> store \<Rightarrow> store" where
  "append_node c s fs =
     (case node_at fs c of
        Some (File old m) \<Rightarrow> set_node c (File (old @ s) m) fs
      | _ \<Rightarrow> fs)"

text \<open>Write through an open handle: text goes to the end of the file; a failing write leaves a prefix.\<close>

definition write_handle :: "path \<Rightarrow> string \<Rightarrow> unit io" where
  "write_handle p s w =
     (case fs_faults w of
        Some (e, msg, k) # fl \<Rightarrow>
          (Inl (OSError e msg),
           w\<lparr>fs_faults := fl, files := append_node (comps_of p) (take k s) (files w)\<rparr>)
      | fl \<Rightarrow> (Inr (), w\<lparr>fs_faults := tl fl, files := append_node (comps_of p) s (files w)\<rparr>))"

definition makedirs_step :: "comps \<Rightarrow> comps \<Rightarrow> unit io" where
  "makedirs_step full c = fs_op (\<lambda>w.
     (case node_at (files w) c of
        Some Dir \<Rightarrow> ret () w
      | Some (File _ _) \<Rightarrow> os_raise (if c = full then EEXIST else ENOTDIR) w
      | None \<Rightarrow>
          (case parent_error c (files w) of
             Some e \<Rightarrow> os_raise e w
           | None \<Rightarrow> ret () (w\<lparr>files := set_node c Dir (files w)\<rparr>))))"

text \<open>\<open>os.makedirs(p, exist_ok=True)\<close>: each prefix in turn.\<close>

definition makedirs :: "path \<Rightarrow> unit io" where
  "makedirs p = for_each (map (\<lambda>n. take n (comps_of p)) [1..<Suc (length (comps_of p))])
     (makedirs_step (comps_of p))"

text \<open>
  \<open>shutil.move\<close> within one file system: into \<open>dst\<close> when that is a directory, else a rename, which
  replaces an existing file whatever its permission bits.
\<close>

definition rename_tree :: "comps \<Rightarrow> comps \<Rightarrow> store \<Rightarrow> store" where
  "rename_tree c d fs =
     map (\<lambda>x. if take (length c) (fst x) = c then (d @ drop (length c) (fst x), snd x) else x) fs"

definition move :: "path \<Rightarrow> path \<Rightarrow> unit io" where
  "move src dst = fs_op (\<lambda>w.
     (let fs = files w; c = comps_of src;
          real = (if node_at fs (comps_of dst) = Some Dir then path_join dst (basename src) else dst);
          d = comps_of real
      in case node_at fs c of
           None \<Rightarrow> os_raise ENOENT w
         | Some n \<Rightarrow>
             if node_at fs (comps_of dst) = Some Dir \<and> node_at fs d \<noteq> None then os_raise NoErrno w
             else
               (case parent_error d fs of
                  Some e \<Rightarrow> os_raise e w
                | None \<Rightarrow>
                    (case n of
                       File s m \<Rightarrow> ret () (w\<lparr>files := set_node d (File s m) (del_node c fs)\<rparr>)
                     | Dir \<Rightarrow>
                         if node_at fs d \<noteq> None then os_raise EEXIST w
                         else ret () (w\<lparr>files := rename_tree c d fs\<rparr>)))))"

section \<open>The database connection\<close>

definition db_op :: "'a io \<Rightarrow> 'a io" where
  "db_op f w =
     (case db_faults w of
        [] \<Rightarrow> f w
      | None # fl \<Rightarrow> f (w\<lparr>db_faults := fl\<rparr>)
      | Some x # fl \<Rightarrow> (Inl (db_exn x), w\<lparr>db_faults := fl\<rparr>))"

definition have_tables :: "table list \<Rightarrow> database \<Rightarrow> bool" where
  "have_tables ts d \<longleftrightarrow> list_all (\<lambda>t. t \<in> set (tables d)) ts"

text \<open>A statement that changes rows: it opens a transaction when none is open.\<close>

definition sql :: "table list \<Rightarrow> (database \<Rightarrow> 'a \<times> database) \<Rightarrow> 'a io" where
  "sql ts f = db_op (\<lambda>w.
     if have_tables ts (db w)
     then (Inr (fst (f (db w))), w\<lparr>db := snd (f (db w)), in_tx := True\<rparr>)
     else (Inl (OperationalError ''no such table''), w))"

definition select :: "table list \<Rightarrow> (database \<Rightarrow> 'a) \<Rightarrow> 'a io" where
  "select ts f = db_op (\<lambda>w.
     if have_tables ts (db w) then (Inr (f (db w)), w)
     else (Inl (OperationalError ''no such table''), w))"

text \<open>DDL takes effect at once outside a transaction; \<open>executescript\<close> commits first.\<close>

definition ddl :: "(database \<Rightarrow> database) \<Rightarrow> unit io" where
  "ddl f = db_op (\<lambda>w.
     (Inr (), w\<lparr>db := f (db w), disk := (if in_tx w then disk w else f (db w))\<rparr>))"

definition executescript :: "(database \<Rightarrow> database) \<Rightarrow> unit io" where
  "executescript f = db_op (\<lambda>w. (Inr (), w\<lparr>db := f (db w), disk := f (db w), in_tx := False\<rparr>))"

definition commit :: "unit io" where
  "commit = db_op (\<lambda>w. (Inr (), w\<lparr>disk := db w, in_tx := False\<rparr>))"

definition connect :: "unit io" where
  "connect = db_op (\<lambda>w. (Inr (), w\<lparr>db := disk w, in_tx := False\<rparr>))"

text \<open>\<open>close\<close> drops what was not committed.\<close>

definition close :: "world \<Rightarrow> world" where
  "close w = w\<lparr>db := disk w, in_tx := False\<rparr>"

section \<open>Clock and console\<close>

definition now_iso :: "timestamp io" where
  "now_iso w = (Inr (clock w (reads w)), w\<lparr>reads := Suc (reads w)\<rparr>)"

definition print_out :: "string \<Rightarrow> unit io" where
  "print_out s w = (Inr (), w\<lparr>out := out w @ [s]\<rparr>)"

definition print_err :: "string \<Rightarrow> unit io" where
  "print_err s w = (Inr (), w\<lparr>err := err w @ [s]\<rparr>)"

end
