(* ===== verification/Effects.thy ===== *)
theory Effects
  imports World
begin

text \<open>
  Reasoning about the effectful functions. Three judgements, each with one rule per combinator:
  \<open>wp m Q E w\<close> (running \<open>m\<close> from \<open>w\<close> ends with \<open>Q\<close> of the result or with \<open>E\<close> of the exception),
  \<open>raises R m\<close> (every exception of \<open>m\<close> satisfies \<open>R\<close>, whatever fails) and \<open>keeps I m\<close> (\<open>m\<close> preserves \<open>I\<close>,
  whatever fails). \<open>calm w\<close> says that nothing is going to fail; there the operations compute, and
  the equations below run them.
\<close>

section \<open>Weakest preconditions\<close>

definition wp :: "('s, 'a) prog \<Rightarrow> ('a \<Rightarrow> 's \<Rightarrow> bool) \<Rightarrow> (exn \<Rightarrow> 's \<Rightarrow> bool) \<Rightarrow> 's \<Rightarrow> bool" where
  "wp m Q E w \<longleftrightarrow> (case m w of (Inl e, w') \<Rightarrow> E e w' | (Inr a, w') \<Rightarrow> Q a w')"

lemma wp_ret [wp_simps]: "wp (ret a) Q E w = Q a w"
  by (simp add: wp_def ret_def)

lemma wp_throw [wp_simps]: "wp (throw e) Q E w = E e w"
  by (simp add: wp_def throw_def)

lemma wp_gets [wp_simps]: "wp (gets f) Q E w = Q (f w) w"
  by (simp add: wp_def gets_def)

lemma wp_bnd [wp_simps]: "wp (bnd m f) Q E w = wp m (\<lambda>a. wp (f a) Q E) E w"
  by (auto simp: wp_def bnd_def split: prod.splits sum.splits)

lemma wp_thn [wp_simps]: "wp (thn m n) Q E w = wp m (\<lambda>_. wp n Q E) E w"
  by (simp add: thn_def wp_bnd)

lemma wp_catch [wp_simps]: "wp (catch m h) Q E w = wp m Q (\<lambda>e. wp (h e) Q E) w"
  by (auto simp: wp_def catch_def split: prod.splits sum.splits)

lemma wp_lastly [wp_simps]: "wp (lastly m c) Q E w = wp m (\<lambda>a w'. Q a (c w')) (\<lambda>e w'. E e (c w')) w"
  by (auto simp: wp_def lastly_def split: prod.splits sum.splits)

lemma wp_if [wp_simps]: "wp (if b then m else n) Q E w = (if b then wp m Q E w else wp n Q E w)"
  by simp

lemma wp_unless [wp_simps]: "wp (unless b m) Q E w = (if b then Q () w else wp m Q E w)"
  by (simp add: unless_def wp_ret)

lemma wp_now_iso [wp_simps]: "wp now_iso Q E w = Q (clock w (reads w)) (w\<lparr>reads := Suc (reads w)\<rparr>)"
  by (simp add: wp_def now_iso_def)

lemma wp_print [wp_simps]:
  "wp (print_out s) Q E w = Q () (w\<lparr>out := out w @ [s]\<rparr>)"
  "wp (print_err s) Q E w = Q () (w\<lparr>err := err w @ [s]\<rparr>)"
  by (simp_all add: wp_def print_out_def print_err_def)

lemma wp_mono:
  "wp m Q E w \<Longrightarrow> (\<And>a w'. Q a w' \<Longrightarrow> Q' a w') \<Longrightarrow> (\<And>e w'. E e w' \<Longrightarrow> E' e w') \<Longrightarrow> wp m Q' E' w"
  by (auto simp: wp_def split: prod.splits sum.splits)

lemma wp_conj:
  "wp m Q E w \<Longrightarrow> wp m Q' E' w \<Longrightarrow> wp m (\<lambda>a w'. Q a w' \<and> Q' a w') (\<lambda>e w'. E e w' \<and> E' e w') w"
  by (auto simp: wp_def split: prod.splits sum.splits)

lemma wp_run: "m w = (Inr a, w') \<Longrightarrow> wp m Q E w \<Longrightarrow> Q a w'"
  by (simp add: wp_def)

lemma wp_snd: "wp m (\<lambda>_. I) (\<lambda>_. I) w \<longleftrightarrow> I (snd (m w))"
  by (auto simp: wp_def split: prod.splits sum.splits)

lemma wp_for_each:
  assumes "I w" and "\<And>x w. x \<in> set xs \<Longrightarrow> I w \<Longrightarrow> wp (body x) (\<lambda>_. I) E w"
  shows "wp (for_each xs body) (\<lambda>_. I) E w"
  using assms
proof (induction xs arbitrary: w)
  case Nil
  then show ?case by (simp add: wp_simps)
next
  case (Cons x xs)
  have "wp (body x) (\<lambda>_. I) E w" by (rule Cons.prems(2)) (simp_all add: Cons.prems(1))
  then show ?case
    by (auto simp: wp_simps elim!: wp_mono intro!: Cons.IH Cons.prems(2))
qed

section \<open>Which exceptions can escape\<close>

definition raises :: "(exn \<Rightarrow> bool) \<Rightarrow> ('s, 'a) prog \<Rightarrow> bool" where
  "raises R m \<longleftrightarrow> (\<forall>w. wp m (\<lambda>_ _. True) (\<lambda>e _. R e) w)"

named_theorems raises_rules

lemma raisesD: "raises R m \<Longrightarrow> m w = (Inl e, w') \<Longrightarrow> R e"
  by (auto simp: raises_def wp_def dest!: spec [where x = w])

lemma raisesI: "(\<And>w e w'. m w = (Inl e, w') \<Longrightarrow> R e) \<Longrightarrow> raises R m"
  by (auto simp: raises_def wp_def split: prod.splits sum.splits)

lemma raises_ret [raises_rules]: "raises R (ret a)"
  by (simp add: raises_def wp_simps)

lemma raises_throw [raises_rules]: "R e \<Longrightarrow> raises R (throw e)"
  by (simp add: raises_def wp_simps)

lemma raises_gets [raises_rules]: "raises R (gets f)"
  by (simp add: raises_def wp_simps)

lemma raises_bnd [raises_rules]: "raises R m \<Longrightarrow> (\<And>a. raises R (f a)) \<Longrightarrow> raises R (bnd m f)"
  by (rule raisesI) (auto simp: bnd_def dest: raisesD split: prod.splits sum.splits)

lemma raises_thn [raises_rules]: "raises R m \<Longrightarrow> raises R n \<Longrightarrow> raises R (thn m n)"
  by (simp add: thn_def raises_bnd)

lemma raises_catch: "raises S m \<Longrightarrow> (\<And>e. S e \<Longrightarrow> raises R (h e)) \<Longrightarrow> raises R (catch m h)"
  by (rule raisesI) (auto simp: catch_def dest: raisesD split: prod.splits sum.splits)

lemma raises_lastly [raises_rules]: "raises R m \<Longrightarrow> raises R (lastly m c)"
  by (auto simp: raises_def wp_simps)

lemma raises_if [raises_rules]:
  "(b \<Longrightarrow> raises R m) \<Longrightarrow> (\<not> b \<Longrightarrow> raises R n) \<Longrightarrow> raises R (if b then m else n)"
  by simp

lemma raises_unless [raises_rules]: "(\<not> b \<Longrightarrow> raises R m) \<Longrightarrow> raises R (unless b m)"
  by (simp add: unless_def raises_ret)

lemma raises_option [raises_rules]:
  "(x = None \<Longrightarrow> raises R m) \<Longrightarrow> (\<And>a. x = Some a \<Longrightarrow> raises R (f a)) \<Longrightarrow>
   raises R (case x of None \<Rightarrow> m | Some a \<Rightarrow> f a)"
  by (cases x) auto

lemma raises_for_each [raises_rules]:
  "(\<And>x. x \<in> set xs \<Longrightarrow> raises R (body x)) \<Longrightarrow> raises R (for_each xs body)"
  by (induction xs) (auto intro: raises_rules)

lemma raises_fold_io [raises_rules]:
  "(\<And>s x. x \<in> set xs \<Longrightarrow> raises R (body s x)) \<Longrightarrow> raises R (fold_io body s xs)"
  by (induction xs arbitrary: s) (auto intro: raises_rules)

lemma raises_now_iso [raises_rules]: "raises R now_iso"
  by (simp add: raises_def wp_simps)

lemma raises_print [raises_rules]: "raises R (print_out s)" "raises R (print_err s)"
  by (auto simp: raises_def wp_def print_out_def print_err_def)

lemma raises_mono: "raises R m \<Longrightarrow> (\<And>e. R e \<Longrightarrow> S e) \<Longrightarrow> raises S m"
  by (rule raisesI) (auto dest: raisesD)

lemma raises_fs_op:
  assumes "\<And>w e w'. f w = (Inl e, w') \<Longrightarrow> is_os_error e"
  shows "raises is_os_error (fs_op f)"
  using assms
  by (auto simp: raises_def wp_def fs_op_def split: list.splits option.splits prod.splits sum.splits)

lemma raises_db_op:
  assumes "\<And>w e w'. f w = (Inl e, w') \<Longrightarrow> is_sqlite_error e"
  shows "raises is_sqlite_error (db_op f)"
  using assms
  by (auto simp: raises_def wp_def db_op_def split: list.splits option.splits prod.splits sum.splits)

lemma os_raises [raises_rules]:
  "raises is_os_error (listdir p)" "raises is_os_error (unlink p)" "raises is_os_error (chmod p m)"
  "raises is_os_error (open_read p)" "raises is_os_error (read_handle p)"
  "raises is_os_error (open_write k p)" "raises is_os_error (move p q)"
  unfolding listdir_def unlink_def chmod_def open_read_def read_handle_def open_write_def move_def
  by (rule raises_fs_op; auto simp: os_raise_def throw_def ret_def Let_def
      split: option.splits node.splits if_splits)+

lemma write_handle_raises [raises_rules]: "raises is_os_error (write_handle p s)"
  by (auto simp: raises_def wp_def write_handle_def split: list.splits option.splits)

lemma makedirs_raises [raises_rules]: "raises is_os_error (makedirs p)"
proof -
  have "raises is_os_error (makedirs_step f c)" for f c
    unfolding makedirs_step_def
    by (rule raises_fs_op) (auto simp: os_raise_def throw_def ret_def
        split: option.splits node.splits if_splits)
  then show ?thesis
    unfolding makedirs_def by (auto intro: raises_rules)
qed

lemma sql_raises [raises_rules]:
  "raises is_sqlite_error (sql ts f)" "raises is_sqlite_error (select ts g)"
  "raises is_sqlite_error (ddl h)" "raises is_sqlite_error (executescript h)"
  "raises is_sqlite_error commit" "raises is_sqlite_error connect"
  unfolding sql_def select_def ddl_def executescript_def commit_def connect_def
  by (rule raises_db_op; auto split: if_splits)+

section \<open>What is preserved whatever fails\<close>

definition keeps :: "('s \<Rightarrow> bool) \<Rightarrow> ('s, 'a) prog \<Rightarrow> bool" where
  "keeps I m \<longleftrightarrow> (\<forall>w. I w \<longrightarrow> I (snd (m w)))"

named_theorems keeps_rules

lemma keepsD: "keeps I m \<Longrightarrow> I w \<Longrightarrow> I (snd (m w))"
  by (simp add: keeps_def)

lemma keeps_ret [keeps_rules]: "keeps I (ret a)"
  by (simp add: keeps_def ret_def)

lemma keeps_throw [keeps_rules]: "keeps I (throw e)"
  by (simp add: keeps_def throw_def)

lemma keeps_gets [keeps_rules]: "keeps I (gets f)"
  by (simp add: keeps_def gets_def)

lemma keeps_wp: "keeps I m \<longleftrightarrow> (\<forall>w. I w \<longrightarrow> wp m (\<lambda>_. I) (\<lambda>_. I) w)"
  by (simp add: keeps_def wp_snd)

lemma keeps_bnd [keeps_rules]: "keeps I m \<Longrightarrow> (\<And>a. keeps I (f a)) \<Longrightarrow> keeps I (bnd m f)"
  by (auto simp: keeps_wp wp_simps elim!: wp_mono)

lemma keeps_thn [keeps_rules]: "keeps I m \<Longrightarrow> keeps I n \<Longrightarrow> keeps I (thn m n)"
  by (simp add: thn_def keeps_bnd)

lemma keeps_catch [keeps_rules]: "keeps I m \<Longrightarrow> (\<And>e. keeps I (h e)) \<Longrightarrow> keeps I (catch m h)"
  by (auto simp: keeps_wp wp_simps elim!: wp_mono)

lemma keeps_lastly: "keeps I m \<Longrightarrow> (\<And>w. I w \<Longrightarrow> I (c w)) \<Longrightarrow> keeps I (lastly m c)"
  by (auto simp: keeps_wp wp_simps elim!: wp_mono)

lemma keeps_if [keeps_rules]:
  "(b \<Longrightarrow> keeps I m) \<Longrightarrow> (\<not> b \<Longrightarrow> keeps I n) \<Longrightarrow> keeps I (if b then m else n)"
  by simp

lemma keeps_unless [keeps_rules]: "(\<not> b \<Longrightarrow> keeps I m) \<Longrightarrow> keeps I (unless b m)"
  by (simp add: unless_def keeps_ret)

lemma keeps_option [keeps_rules]:
  "(x = None \<Longrightarrow> keeps I m) \<Longrightarrow> (\<And>a. x = Some a \<Longrightarrow> keeps I (f a)) \<Longrightarrow>
   keeps I (case x of None \<Rightarrow> m | Some a \<Rightarrow> f a)"
  by (cases x) auto

lemma keeps_for_each [keeps_rules]:
  "(\<And>x. x \<in> set xs \<Longrightarrow> keeps I (body x)) \<Longrightarrow> keeps I (for_each xs body)"
  by (induction xs) (auto intro: keeps_rules)

lemma keeps_gets_bnd: "(\<And>w. keeps I (g (f w))) \<Longrightarrow> keeps I (bnd (gets f) g)"
  by (auto simp: keeps_def bnd_def gets_def)

lemma keeps_fold_io [keeps_rules]:
  "(\<And>s x. x \<in> set xs \<Longrightarrow> keeps I (body s x)) \<Longrightarrow> keeps I (fold_io body s xs)"
  by (induction xs arbitrary: s) (auto intro: keeps_rules)

text \<open>Invariants that do not look at the failures to come, nor at the clock.\<close>

definition blind :: "(world \<Rightarrow> bool) \<Rightarrow> bool" where
  "blind I \<longleftrightarrow> (\<forall>w fl dl n. I w \<longrightarrow> I (w\<lparr>fs_faults := fl\<rparr>) \<and> I (w\<lparr>db_faults := dl\<rparr>) \<and> I (w\<lparr>reads := n\<rparr>))"

lemma keeps_fs_op: "blind I \<Longrightarrow> keeps I f \<Longrightarrow> keeps I (fs_op f)"
  by (auto simp: keeps_def blind_def fs_op_def split: list.splits option.splits)

lemma keeps_db_op: "blind I \<Longrightarrow> keeps I f \<Longrightarrow> keeps I (db_op f)"
  by (auto simp: keeps_def blind_def db_op_def split: list.splits option.splits)

lemma keeps_now_iso: "blind I \<Longrightarrow> keeps I now_iso"
  by (auto simp: keeps_def blind_def now_iso_def)

lemma keeps_sql:
  assumes "blind I"
    and "\<And>w. I w \<Longrightarrow> have_tables ts (db w) \<Longrightarrow> I (w\<lparr>db := snd (f (db w)), in_tx := True\<rparr>)"
  shows "keeps I (sql ts f)"
  unfolding sql_def by (rule keeps_db_op) (auto simp: assms keeps_def)

lemma keeps_select: "blind I \<Longrightarrow> keeps I (select ts f)"
  unfolding select_def by (rule keeps_db_op) (auto simp: keeps_def)

lemma keeps_commit:
  assumes "blind I" and "\<And>w. I w \<Longrightarrow> I (w\<lparr>disk := db w, in_tx := False\<rparr>)"
  shows "keeps I commit"
  unfolding commit_def by (rule keeps_db_op) (auto simp: assms keeps_def)

lemma keeps_executescript:
  assumes "blind I" and "\<And>w. I w \<Longrightarrow> I (w\<lparr>db := f (db w), disk := f (db w), in_tx := False\<rparr>)"
  shows "keeps I (executescript f)"
  unfolding executescript_def by (rule keeps_db_op) (auto simp: assms keeps_def)

text \<open>An invariant of single files: it survives any change of the node at \<open>c\<close>.\<close>

definition off_node :: "comps \<Rightarrow> (world \<Rightarrow> bool) \<Rightarrow> bool" where
  "off_node c I \<longleftrightarrow> (\<forall>w n. I w \<longrightarrow> I (w\<lparr>files := set_node c n (files w)\<rparr>) \<and> I (w\<lparr>files := del_node c (files w)\<rparr>))"

lemma keeps_read_only:
  assumes "blind I"
  shows "keeps I (listdir p)" "keeps I (open_read p)" "keeps I (read_handle p)"
  unfolding listdir_def open_read_def read_handle_def
  by (rule keeps_fs_op [OF assms],
      simp add: keeps_def os_raise_def throw_def ret_def split: option.split node.split)+

lemma keeps_write:
  assumes "blind I" and "off_node (comps_of p) I"
  shows "keeps I (unlink p)" "keeps I (chmod p m)" "keeps I (open_write keep p)" "keeps I (write_handle p s)"
proof -
  show "keeps I (unlink p)" "keeps I (chmod p m)" "keeps I (open_write keep p)"
    unfolding unlink_def chmod_def open_write_def
    by (rule keeps_fs_op [OF assms(1)],
        use assms(2) in \<open>simp add: keeps_def off_node_def os_raise_def throw_def ret_def split: option.split node.split\<close>)+
  have "I (w\<lparr>fs_faults := fl, files := append_node (comps_of p) t (files w)\<rparr>)" if "I w" for w t fl
  proof -
    have "I (w\<lparr>fs_faults := fl\<rparr>)" using that assms(1) by (simp add: blind_def)
    with assms(2) have "I (w\<lparr>fs_faults := fl, files := set_node (comps_of p) n (files w)\<rparr>)" for n
      unfolding off_node_def by fastforce
    with \<open>I (w\<lparr>fs_faults := fl\<rparr>)\<close> show ?thesis
      by (auto simp: append_node_def split: option.split node.split)
  qed
  then show "keeps I (write_handle p s)"
    by (auto simp: keeps_def write_handle_def split: list.split option.split)
qed

section \<open>Runs in which nothing fails\<close>

definition calm :: "world \<Rightarrow> bool" where
  "calm w \<longleftrightarrow> fs_faults w = [] \<and> db_faults w = []"

lemma calm_update [simp]:
  "calm (w\<lparr>files := fs\<rparr>) = calm w" "calm (w\<lparr>db := d\<rparr>) = calm w" "calm (w\<lparr>disk := d\<rparr>) = calm w"
  "calm (w\<lparr>in_tx := t\<rparr>) = calm w" "calm (w\<lparr>reads := n\<rparr>) = calm w" "calm (w\<lparr>out := o'\<rparr>) = calm w"
  "calm (w\<lparr>err := o'\<rparr>) = calm w" "calm (w\<lparr>pushed := ps\<rparr>) = calm w"
  by (simp_all add: calm_def)

lemma calm_fs_op [simp]: "calm w \<Longrightarrow> fs_op f w = f w"
  by (simp add: fs_op_def calm_def)

lemma calm_db_op [simp]: "calm w \<Longrightarrow> db_op f w = f w"
  by (simp add: db_op_def calm_def)

lemma calm_fs_faults [simp]: "calm w \<Longrightarrow> fs_faults w = []"
  by (simp add: calm_def)

lemma run_ret [io_simps]: "ret a w = (Inr a, w)"
  by (simp add: ret_def)

lemma run_throw [io_simps]: "throw e w = (Inl e, w)"
  by (simp add: throw_def)

lemma run_gets [io_simps]: "gets f w = (Inr (f w), w)"
  by (simp add: gets_def)

lemma run_bnd [io_simps]: "bnd m f w = (case m w of (Inl e, w') \<Rightarrow> (Inl e, w') | (Inr a, w') \<Rightarrow> f a w')"
  by (simp add: bnd_def)

lemma run_thn [io_simps]: "thn m n w = (case m w of (Inl e, w') \<Rightarrow> (Inl e, w') | (Inr a, w') \<Rightarrow> n w')"
  by (simp add: thn_def bnd_def)

lemma run_catch [io_simps]:
  "catch m h w = (case m w of (Inl e, w') \<Rightarrow> h e w' | (Inr a, w') \<Rightarrow> (Inr a, w'))"
  by (simp add: catch_def)

lemma run_lastly [io_simps]: "lastly m c w = (case m w of (r, w') \<Rightarrow> (r, c w'))"
  by (simp add: lastly_def)

lemma run_unless [io_simps]: "unless b m w = (if b then (Inr (), w) else m w)"
  by (simp add: unless_def ret_def)

lemma run_now_iso [io_simps]: "now_iso w = (Inr (clock w (reads w)), w\<lparr>reads := Suc (reads w)\<rparr>)"
  by (simp add: now_iso_def)

lemma run_print [io_simps]:
  "print_out s w = (Inr (), w\<lparr>out := out w @ [s]\<rparr>)" "print_err s w = (Inr (), w\<lparr>err := err w @ [s]\<rparr>)"
  by (simp_all add: print_out_def print_err_def)

lemma run_sql [io_simps]:
  "calm w \<Longrightarrow> have_tables ts (db w) \<Longrightarrow>
   sql ts f w = (Inr (fst (f (db w))), w\<lparr>db := snd (f (db w)), in_tx := True\<rparr>)"
  by (simp add: sql_def)

lemma run_select [io_simps]:
  "calm w \<Longrightarrow> have_tables ts (db w) \<Longrightarrow> select ts f w = (Inr (f (db w)), w)"
  by (simp add: select_def)

lemma run_commit [io_simps]: "calm w \<Longrightarrow> commit w = (Inr (), w\<lparr>disk := db w, in_tx := False\<rparr>)"
  by (simp add: commit_def)

lemma run_executescript [io_simps]:
  "calm w \<Longrightarrow> executescript f w = (Inr (), w\<lparr>db := f (db w), disk := f (db w), in_tx := False\<rparr>)"
  by (simp add: executescript_def)

lemma run_ddl [io_simps]:
  "calm w \<Longrightarrow> ddl f w = (Inr (), w\<lparr>db := f (db w), disk := (if in_tx w then disk w else f (db w))\<rparr>)"
  by (simp add: ddl_def)

lemma run_connect [io_simps]: "calm w \<Longrightarrow> connect w = (Inr (), w\<lparr>db := disk w, in_tx := False\<rparr>)"
  by (simp add: connect_def)

lemma run_listdir [io_simps]:
  "calm w \<Longrightarrow> isdir p w \<Longrightarrow> listdir p w = (Inr (children (comps_of p) (files w)), w)"
  by (simp add: listdir_def isdir_def ret_def)

lemma run_unlink [io_simps]:
  "calm w \<Longrightarrow> isfile p w \<Longrightarrow> unlink p w = (Inr (), w\<lparr>files := del_node (comps_of p) (files w)\<rparr>)"
  by (auto simp: unlink_def isfile_def ret_def)

lemma run_write_handle [io_simps]:
  "calm w \<Longrightarrow> write_handle p s w = (Inr (), w\<lparr>files := append_node (comps_of p) s (files w)\<rparr>)"
  by (simp add: write_handle_def calm_def)

lemma run_for_each:
  assumes "I w"
    and "\<And>x w. x \<in> set xs \<Longrightarrow> I w \<Longrightarrow> body x w = (Inr (), step x w) \<and> I (step x w)"
  shows "for_each xs body w = (Inr (), foldl (\<lambda>w x. step x w) w xs) \<and> I (foldl (\<lambda>w x. step x w) w xs)"
  using assms
proof (induction xs arbitrary: w)
  case Nil
  then show ?case by (simp add: io_simps)
next
  case (Cons x xs)
  have "body x w = (Inr (), step x w) \<and> I (step x w)"
    by (rule Cons.prems(2)) (simp_all add: Cons.prems(1))
  then show ?case
    using Cons.IH [of "step x w"] Cons.prems(2) by (simp add: io_simps)
qed

lemma run_fold_io:
  assumes "I w"
    and "\<And>s x w. x \<in> set xs \<Longrightarrow> I w \<Longrightarrow>
      body s x w = (Inr (fst (step (s, w) x)), snd (step (s, w) x)) \<and> I (snd (step (s, w) x))"
  shows "fold_io body s xs w =
      (Inr (fst (foldl step (s, w) xs)), snd (foldl step (s, w) xs)) \<and> I (snd (foldl step (s, w) xs))"
  using assms
proof (induction xs arbitrary: s w)
  case Nil
  then show ?case by (simp add: io_simps)
next
  case (Cons x xs)
  have "body s x w = (Inr (fst (step (s, w) x)), snd (step (s, w) x)) \<and> I (snd (step (s, w) x))"
    by (rule Cons.prems(2)) (simp_all add: Cons.prems(1))
  then show ?case
    using Cons.IH [of "snd (step (s, w) x)" "fst (step (s, w) x)"] Cons.prems(2)
    by (simp add: io_simps)
qed

section \<open>Rules for the file and database operations\<close>

text \<open>For every pattern of failures: the exception's condition must hold of the state the call found.\<close>

lemma wp_fs_op:
  assumes "\<And>fl. wp f Q E (w\<lparr>fs_faults := fl\<rparr>)"
    and "\<And>e fl. is_os_error e \<Longrightarrow> E e (w\<lparr>fs_faults := fl\<rparr>)"
  shows "wp (fs_op f) Q E w"
proof -
  have "wp f Q E w" using assms(1) [of "fs_faults w"] by simp
  then show ?thesis
    using assms by (auto simp: wp_def fs_op_def split: list.splits option.splits)
qed

lemma wp_db_op:
  assumes "\<And>dl. wp f Q E (w\<lparr>db_faults := dl\<rparr>)"
    and "\<And>e dl. is_sqlite_error e \<Longrightarrow> E e (w\<lparr>db_faults := dl\<rparr>)"
  shows "wp (db_op f) Q E w"
proof -
  have "wp f Q E w" using assms(1) [of "db_faults w"] by simp
  then show ?thesis
    using assms by (auto simp: wp_def db_op_def split: list.splits option.splits)
qed

lemma wp_os_raise [wp_simps]: "wp (os_raise e) Q E w = E (OSError e ''os error'') w"
  by (simp add: os_raise_def wp_simps)

lemma wp_listdir:
  assumes "\<And>fl. isdir p w \<Longrightarrow> Q (children (comps_of p) (files w)) (w\<lparr>fs_faults := fl\<rparr>)"
    and "\<And>e fl. is_os_error e \<Longrightarrow> E e (w\<lparr>fs_faults := fl\<rparr>)"
  shows "wp (listdir p) Q E w"
  unfolding listdir_def
  by (rule wp_fs_op) (auto simp: wp_def os_raise_def throw_def ret_def assms isdir_def
      split: option.splits node.splits)

lemma wp_unlink:
  assumes "\<And>fl. isfile p w \<Longrightarrow> Q () (w\<lparr>fs_faults := fl, files := del_node (comps_of p) (files w)\<rparr>)"
    and "\<And>e fl. is_os_error e \<Longrightarrow> E e (w\<lparr>fs_faults := fl\<rparr>)"
  shows "wp (unlink p) Q E w"
  unfolding unlink_def
  by (rule wp_fs_op) (auto simp: wp_def os_raise_def throw_def ret_def assms isfile_def
      split: option.splits node.splits)

lemma wp_chmod:
  assumes "\<And>fl s m. node_at (files w) (comps_of p) = Some (File s m) \<Longrightarrow>
      Q () (w\<lparr>fs_faults := fl, files := set_node (comps_of p) (File s k) (files w)\<rparr>)"
    and "\<And>fl. isdir p w \<Longrightarrow> Q () (w\<lparr>fs_faults := fl\<rparr>)"
    and "\<And>e fl. is_os_error e \<Longrightarrow> E e (w\<lparr>fs_faults := fl\<rparr>)"
  shows "wp (chmod p k) Q E w"
  unfolding chmod_def
  by (rule wp_fs_op) (auto simp: wp_def os_raise_def throw_def ret_def assms isdir_def
      split: option.splits node.splits)

lemma wp_open_read:
  assumes "\<And>fl. isfile p w \<Longrightarrow> Q () (w\<lparr>fs_faults := fl\<rparr>)"
    and "\<And>e fl. is_os_error e \<Longrightarrow> E e (w\<lparr>fs_faults := fl\<rparr>)"
  shows "wp (open_read p) Q E w"
  unfolding open_read_def
  by (rule wp_fs_op) (auto simp: wp_def os_raise_def throw_def ret_def assms isfile_def
      split: option.splits node.splits)

lemma wp_read_handle:
  assumes "\<And>fl s m. node_at (files w) (comps_of p) = Some (File s m) \<Longrightarrow>
      Q (univ_nl s) (w\<lparr>fs_faults := fl\<rparr>)"
    and "\<And>e fl. is_os_error e \<Longrightarrow> E e (w\<lparr>fs_faults := fl\<rparr>)"
  shows "wp (read_handle p) Q E w"
  unfolding read_handle_def
  by (rule wp_fs_op) (auto simp: wp_def os_raise_def throw_def ret_def assms
      split: option.splits node.splits)

lemma wp_open_write:
  assumes "\<And>fl s m. node_at (files w) (comps_of p) = Some (File s m) \<Longrightarrow>
      Q () (w\<lparr>fs_faults := fl, files := set_node (comps_of p) (File (if keep then s else []) m) (files w)\<rparr>)"
    and "\<And>fl. node_at (files w) (comps_of p) = None \<Longrightarrow>
      Q () (w\<lparr>fs_faults := fl, files := set_node (comps_of p) (File [] mode_644) (files w)\<rparr>)"
    and "\<And>e fl. is_os_error e \<Longrightarrow> E e (w\<lparr>fs_faults := fl\<rparr>)"
  shows "wp (open_write keep p) Q E w"
  unfolding open_write_def
  by (cases keep; rule wp_fs_op; insert assms;
      auto simp: wp_def os_raise_def throw_def ret_def split: option.splits node.splits)

lemma wp_write_handle:
  assumes "\<And>fl. Q () (w\<lparr>fs_faults := fl, files := append_node (comps_of p) s (files w)\<rparr>)"
    and "\<And>e fl k. is_os_error e \<Longrightarrow>
      E e (w\<lparr>fs_faults := fl, files := append_node (comps_of p) (take k s) (files w)\<rparr>)"
  shows "wp (write_handle p s) Q E w"
  by (auto simp: wp_def write_handle_def assms split: list.splits option.splits)

lemma wp_select:
  assumes "\<And>dl. Q (f (db w)) (w\<lparr>db_faults := dl\<rparr>)"
    and "\<And>e dl. is_sqlite_error e \<Longrightarrow> E e (w\<lparr>db_faults := dl\<rparr>)"
  shows "wp (select ts f) Q E w"
  unfolding select_def by (rule wp_db_op) (auto simp: wp_def assms)

lemma wp_sql:
  assumes "\<And>dl. Q (fst (f (db w))) (w\<lparr>db_faults := dl, db := snd (f (db w)), in_tx := True\<rparr>)"
    and "\<And>e dl. is_sqlite_error e \<Longrightarrow> E e (w\<lparr>db_faults := dl\<rparr>)"
  shows "wp (sql ts f) Q E w"
  unfolding sql_def by (rule wp_db_op) (auto simp: wp_def assms)

lemma wp_commit:
  assumes "\<And>dl. Q () (w\<lparr>db_faults := dl, disk := db w, in_tx := False\<rparr>)"
    and "\<And>e dl. is_sqlite_error e \<Longrightarrow> E e (w\<lparr>db_faults := dl\<rparr>)"
  shows "wp commit Q E w"
  unfolding commit_def by (rule wp_db_op) (auto simp: wp_def assms)

lemma wp_connect:
  assumes "\<And>dl. Q () (w\<lparr>db_faults := dl, db := disk w, in_tx := False\<rparr>)"
    and "\<And>e dl. is_sqlite_error e \<Longrightarrow> E e (w\<lparr>db_faults := dl\<rparr>)"
  shows "wp connect Q E w"
  unfolding connect_def by (rule wp_db_op) (auto simp: wp_def assms)

lemma wp_keeps: "keeps I m \<Longrightarrow> I w \<Longrightarrow> (\<And>a w'. I w' \<Longrightarrow> Q a w') \<Longrightarrow> (\<And>e w'. I w' \<Longrightarrow> E e w') \<Longrightarrow> wp m Q E w"
  by (rule wp_mono [of m "\<lambda>_. I" "\<lambda>_. I"]) (auto simp: keeps_wp)

lemma wp_keeps_total:
  "keeps I m \<Longrightarrow> raises (\<lambda>_. False) m \<Longrightarrow> I w \<Longrightarrow> (\<And>a w'. I w' \<Longrightarrow> Q a w') \<Longrightarrow> wp m Q E w"
  by (cases "m w"; cases "fst (m w)")
    (auto simp: wp_def keeps_def raises_def dest!: spec [where x = w])

lemma wp_fold_io:
  assumes "I [] s w"
    and "\<And>ys x s w. x \<in> set xs \<Longrightarrow> I ys s w \<Longrightarrow> wp (body s x) (I (ys @ [x])) E w"
  shows "wp (fold_io body s xs) (I xs) E w"
proof -
  have "I zs s w \<Longrightarrow> set ys \<subseteq> set xs \<Longrightarrow> wp (fold_io body s ys) (I (zs @ ys)) E w" for zs ys
  proof (induction ys arbitrary: zs s w)
    case Nil
    then show ?case by (simp add: wp_simps)
  next
    case (Cons y ys)
    have "wp (body s y) (I (zs @ [y])) E w"
      using Cons.prems by (intro assms(2)) auto
    then show ?case
      unfolding fold_io.simps wp_bnd
      by (rule wp_mono) (use Cons.IH [where zs = "zs @ [y]"] Cons.prems in auto)
  qed
  from this [of "[]" xs] assms(1) show ?thesis by simp
qed

lemma wp_for_each_trace:
  assumes "I [] w"
    and "\<And>ys x w. x \<in> set xs \<Longrightarrow> I ys w \<Longrightarrow> wp (body x) (\<lambda>_. I (ys @ [x])) E w"
  shows "wp (for_each xs body) (\<lambda>_. I xs) E w"
proof -
  have "I zs w \<Longrightarrow> set ys \<subseteq> set xs \<Longrightarrow> wp (for_each ys body) (\<lambda>_. I (zs @ ys)) E w" for zs ys
  proof (induction ys arbitrary: zs w)
    case Nil
    then show ?case by (simp add: wp_simps)
  next
    case (Cons y ys)
    have "wp (body y) (\<lambda>_. I (zs @ [y])) E w"
      using Cons.prems by (intro assms(2)) auto
    then show ?case
      unfolding for_each.simps wp_bnd
      by (rule wp_mono) (use Cons.IH [where zs = "zs @ [y]"] Cons.prems in auto)
  qed
  from this [of "[]" xs] assms(1) show ?thesis by simp
qed

end
