(* ===== verification/MoverErrors.thy ===== *)
theory MoverErrors
  imports Effects
begin

text \<open>
  The error log of \<open>browser-visit-snapshot-lib/snapshot_mover.py\<close>: one row of \<open>mover_errors\<close> per
  operation and target, upserted on every failure, deleted when the operation succeeds or the file
  is put right, together with the functions that create the tables.

  The locale \<open>error_log\<close> is the contract of such a log; the model of this module and, in the theory
  SyncClient, the one of \<open>sync_client.py\<close> are its two interpretations.
\<close>

section \<open>Settings\<close>

text \<open>
  The module globals of \<open>snapshot_mover.py\<close> and \<open>host.py\<close>, which the command lines override.
  \<open>host_importable\<close> is whether \<open>import host\<close> finds \<open>native-host/host.py\<close> on \<open>sys.path\<close>.
\<close>

record config =
  LOG_DIR :: path
  ICLOUD_SNAPSHOTS_DIR :: path
  DOWNLOADS_SNAPSHOTS_DIR :: path
  DB_FILE :: path
  MATCH_BY_FILENAME_ONLY :: bool
  host_importable :: bool

section \<open>Creating the tables\<close>

text \<open>What \<open>schema.sql\<close> creates, with the Downloads directory as the default of the \<open>directory\<close> columns.\<close>

definition schema_sql :: "path \<Rightarrow> database \<Rightarrow> database" where
  "schema_sql downloads d =
     create_table SyncState (create_table MoverErrors (create_table Snapshots
       (create_events Skimmed downloads (create_events Read downloads (create_table Visits d)))))"

text \<open>\<open>import host\<close> is the first thing both functions do; a missing module is not an \<open>sqlite3.Error\<close>.\<close>

definition ensure_snapshots_table :: "config \<Rightarrow> unit io" where
  "ensure_snapshots_table cfg =
     (if host_importable cfg
      then thn (executescript (schema_sql (DOWNLOADS_SNAPSHOTS_DIR cfg))) commit
      else throw (RuntimeError ''ModuleNotFoundError: No module named host''))"

definition ensure_mover_errors_table :: "config \<Rightarrow> unit io" where
  "ensure_mover_errors_table cfg =
     (if host_importable cfg
      then thn (executescript (schema_sql (DOWNLOADS_SNAPSHOTS_DIR cfg))) commit
      else throw (RuntimeError ''ModuleNotFoundError: No module named host''))"

section \<open>Recording and clearing\<close>

definition is_immediate :: "string \<Rightarrow> exn \<Rightarrow> bool" where
  "is_immediate op exc \<longleftrightarrow>
     op \<in> set [''top_level'', ''rewrite_manifest'', ''invalid_filename'', ''orphan_file'',
              ''manifest_invalid'']
     \<or> (case exc of
          OSError e _ \<Rightarrow> e \<in> set [ENOSPC, EROFS, EDQUOT]
        | DatabaseError _ \<Rightarrow> True
        | _ \<Rightarrow> False)"

definition error_key :: "string \<Rightarrow> string \<Rightarrow> string" where
  "error_key op target = op @ '':'' @ target"

definition new_error :: "string \<Rightarrow> string \<Rightarrow> string \<Rightarrow> string \<Rightarrow> timestamp \<Rightarrow> int \<Rightarrow> mover_error" where
  "new_error key op target message now immediate = \<lparr>m_key = key, m_operation = op, m_target = target,
     m_message = message, m_first_seen = now, m_last_seen = now, m_attempts = 1, m_notified = 0,
     m_immediate = immediate\<rparr>"

text \<open>The \<open>ON CONFLICT(key) DO UPDATE\<close> of the statement.\<close>

definition again :: "string \<Rightarrow> timestamp \<Rightarrow> int \<Rightarrow> mover_error \<Rightarrow> mover_error" where
  "again message now immediate r = r\<lparr>m_attempts := m_attempts r + 1, m_last_seen := now,
     m_message := message, m_immediate := max (m_immediate r) immediate\<rparr>"

definition upsert_error ::
    "string \<Rightarrow> string \<Rightarrow> string \<Rightarrow> string \<Rightarrow> timestamp \<Rightarrow> int \<Rightarrow> mover_error list \<Rightarrow> mover_error list" where
  "upsert_error key op target message now immediate t =
     upsert m_key (again message now immediate) (new_error key op target message now immediate) t"

definition record_error :: "string \<Rightarrow> string \<Rightarrow> exn \<Rightarrow> unit io" where
  "record_error op target exc =
     bnd now_iso (\<lambda>now.
       let message = take 500 (tsv_sanitise (exn_str exc));
           immediate = (if is_immediate op exc then 1 else 0)
       in thn (sql [MoverErrors] (\<lambda>d. ((), d\<lparr>mover_errors :=
                 upsert_error (error_key op target) op target message now immediate (mover_errors d)\<rparr>)))
              commit)"

text \<open>\<open>except sqlite3.Error\<close>: logged, never raised.\<close>

definition ignore_sqlite :: "unit io \<Rightarrow> unit io" where
  "ignore_sqlite m = catch m (\<lambda>e. if is_sqlite_error e then ret () else throw e)"

definition try_record_error :: "string \<Rightarrow> string \<Rightarrow> exn \<Rightarrow> unit io" where
  "try_record_error op target exc = ignore_sqlite (record_error op target exc)"

definition clear_error :: "string \<Rightarrow> string \<Rightarrow> unit io" where
  "clear_error op target =
     thn (sql [MoverErrors] (\<lambda>d. ((), d\<lparr>mover_errors :=
            delete_where (\<lambda>r. m_key r = error_key op target) (mover_errors d)\<rparr>)))
         commit"

definition try_clear_error :: "string \<Rightarrow> string \<Rightarrow> unit io" where
  "try_clear_error op target = ignore_sqlite (clear_error op target)"

definition reconcile_dir_scoped_errors :: "string \<Rightarrow> path \<Rightarrow> string list \<Rightarrow> unit io" where
  "reconcile_dir_scoped_errors op dir_path current_strays =
     ignore_sqlite
       (bnd (select [MoverErrors] (\<lambda>d. map (\<lambda>r. (m_key r, m_target r))
               (filter (\<lambda>r. m_operation r = op) (mover_errors d)))) (\<lambda>prior.
        let prefix = path_join dir_path [] in
        thn (for_each prior (\<lambda>(key, target).
               if startswith target prefix \<and> target \<notin> set current_strays
               then sql [MoverErrors] (\<lambda>d. ((), d\<lparr>mover_errors :=
                      delete_where (\<lambda>r. m_key r = key) (mover_errors d)\<rparr>))
               else ret ()))
            commit))"

section \<open>The contract of an error log\<close>

text \<open>
  \<open>note k r\<close> upserts under the key \<open>k\<close>, \<open>forget k\<close> deletes. The laws speak of \<open>find k\<close> only: what is seen
  under one key after an operation on another, and how a repeated failure changes its row.
\<close>

locale error_log =
  fixes find :: "string \<Rightarrow> 'log \<Rightarrow> mover_error option"
    and note_failure :: "string \<Rightarrow> string \<Rightarrow> string \<Rightarrow> string \<Rightarrow> timestamp \<Rightarrow> int \<Rightarrow> 'log \<Rightarrow> 'log"
    and forget :: "string \<Rightarrow> 'log \<Rightarrow> 'log"
  assumes note_first: "find k l = None \<Longrightarrow>
      find k (note_failure k op tgt msg now imm l) = Some (new_error k op tgt msg now imm)"
    and note_again: "find k l = Some r \<Longrightarrow>
      find k (note_failure k op tgt msg now imm l) = Some (again msg now imm r)"
    and note_other: "k \<noteq> j \<Longrightarrow> find k (note_failure j op tgt msg now imm l) = find k l"
    and forget_same: "find k (forget k l) = None"
    and forget_other: "k \<noteq> j \<Longrightarrow> find k (forget j l) = find k l"
begin

text \<open>A run of failures of one operation on one target: each with its message, time and severity.\<close>

primrec note_all ::
    "string \<Rightarrow> string \<Rightarrow> string \<Rightarrow> (string \<times> timestamp \<times> int) list \<Rightarrow> 'log \<Rightarrow> 'log" where
  "note_all k op tgt [] l = l"
| "note_all k op tgt (f # fs) l =
     note_all k op tgt fs (note_failure k op tgt (fst f) (fst (snd f)) (snd (snd f)) l)"

lemma note_all_known:
  assumes "find k l = Some r"
  shows "\<exists>s. find k (note_all k op tgt fs l) = Some s
    \<and> m_attempts s = m_attempts r + int (length fs)
    \<and> m_first_seen s = m_first_seen r \<and> m_notified s = m_notified r
    \<and> m_immediate s = fold max (map (snd \<circ> snd) fs) (m_immediate r)"
  using assms
proof (induction fs arbitrary: l r)
  case Nil
  then show ?case by simp
next
  case (Cons f fs)
  have "find k (note_failure k op tgt (fst f) (fst (snd f)) (snd (snd f)) l)
      = Some (again (fst f) (fst (snd f)) (snd (snd f)) r)"
    by (rule note_again) (rule Cons.prems)
  from Cons.IH [OF this] show ?case
    by (auto simp: again_def max.commute)
qed

text \<open>\<open>n\<close> failures in a row leave one row that counts them and keeps the time of the first.\<close>

lemma streak:
  assumes "find k l = None"
  shows "\<exists>s. find k (note_all k op tgt ((msg, now, imm) # fs) l) = Some s
    \<and> m_attempts s = 1 + int (length fs) \<and> m_first_seen s = now \<and> m_notified s = 0
    \<and> m_immediate s = fold max (map (snd \<circ> snd) fs) imm"
proof -
  have "find k (note_failure k op tgt msg now imm l) = Some (new_error k op tgt msg now imm)"
    by (rule note_first) (rule assms)
  from note_all_known [OF this, of op tgt fs] show ?thesis
    by (simp add: new_error_def)
qed

lemma forget_note: "find k (forget k (note_failure k op tgt msg now imm l)) = None"
  by (rule forget_same)

end

lemma again_key [simp]: "m_key (again msg now imm r) = m_key r"
  by (simp add: again_def)

lemma new_error_sel [simp]:
  "m_key (new_error k op tgt msg now imm) = k"
  "m_operation (new_error k op tgt msg now imm) = op"
  "m_target (new_error k op tgt msg now imm) = tgt"
  by (simp_all add: new_error_def)

lemma again_sel [simp]:
  "m_operation (again msg now imm r) = m_operation r" "m_target (again msg now imm r) = m_target r"
  by (simp_all add: again_def)

interpretation mover_log: error_log "lookup_key m_key" upsert_error "\<lambda>k. delete_where (\<lambda>r. m_key r = k)"
  by unfold_locales (auto simp: upsert_error_def lookup_upsert lookup_delete_key)

section \<open>Facts the sealing code rests on\<close>

lemma try_record_raises [raises_rules]: "raises R (try_record_error op target exc)"
proof -
  have "raises is_sqlite_error (record_error op target exc)"
    unfolding record_error_def Let_def by (auto intro!: raises_rules)
  then show ?thesis
    unfolding try_record_error_def ignore_sqlite_def
    by (rule raises_catch) (auto intro: raises_rules)
qed

lemma try_clear_raises [raises_rules]: "raises R (try_clear_error op target)"
proof -
  have "raises is_sqlite_error (clear_error op target)"
    unfolding clear_error_def by (auto intro!: raises_rules)
  then show ?thesis
    unfolding try_clear_error_def ignore_sqlite_def
    by (rule raises_catch) (auto intro: raises_rules)
qed

lemma reconcile_raises [raises_rules]: "raises R (reconcile_dir_scoped_errors op dir strays)"
  unfolding reconcile_dir_scoped_errors_def ignore_sqlite_def
  by (rule raises_catch [where S = is_sqlite_error])
    (auto intro!: raises_rules split: prod.splits)

text \<open>Error bookkeeping never touches a file, nor any table but \<open>mover_errors\<close>.\<close>

lemma keeps_ignore_sqlite [keeps_rules]: "keeps I m \<Longrightarrow> keeps I (ignore_sqlite m)"
  unfolding ignore_sqlite_def by (auto intro!: keeps_rules)

definition errors_only :: "(world \<Rightarrow> bool) \<Rightarrow> bool" where
  "errors_only I \<longleftrightarrow> blind I
     \<and> (\<forall>w es b. I w \<longrightarrow> I (w\<lparr>db := (db w)\<lparr>mover_errors := es\<rparr>, in_tx := b\<rparr>))
     \<and> (\<forall>w. I w \<longrightarrow> I (w\<lparr>disk := db w, in_tx := False\<rparr>))"

lemma errors_only_sql:
  "errors_only I \<Longrightarrow> keeps I (sql ts (\<lambda>d. ((), d\<lparr>mover_errors := f (mover_errors d)\<rparr>)))"
  unfolding errors_only_def by (rule keeps_sql) auto

lemma errors_only_commit: "errors_only I \<Longrightarrow> keeps I commit"
  unfolding errors_only_def by (rule keeps_commit) auto

lemma errors_only_blind: "errors_only I \<Longrightarrow> blind I"
  by (simp add: errors_only_def)

lemma keeps_try_record: "errors_only I \<Longrightarrow> keeps I (try_record_error op target exc)"
  unfolding try_record_error_def record_error_def Let_def
  by (intro keeps_rules keeps_now_iso errors_only_sql errors_only_commit errors_only_blind)

lemma keeps_try_clear: "errors_only I \<Longrightarrow> keeps I (try_clear_error op target)"
  unfolding try_clear_error_def clear_error_def
  by (intro keeps_rules errors_only_sql errors_only_commit)

lemma keeps_reconcile: "errors_only I \<Longrightarrow> keeps I (reconcile_dir_scoped_errors op dir strays)"
  unfolding reconcile_dir_scoped_errors_def Let_def
  by (auto intro!: keeps_rules keeps_select errors_only_sql errors_only_commit errors_only_blind
      split: prod.splits)

section \<open>Runs without failures\<close>

lemma run_record_error [io_simps]:
  assumes "calm w" and "MoverErrors \<in> set (tables (db w))"
  shows "record_error op target exc w =
    (let d = (db w)\<lparr>mover_errors := upsert_error (error_key op target) op target
               (take 500 (tsv_sanitise (exn_str exc))) (clock w (reads w))
               (if is_immediate op exc then 1 else 0) (mover_errors (db w))\<rparr>
     in (Inr (), w\<lparr>reads := Suc (reads w), db := d, disk := d, in_tx := False\<rparr>))"
  using assms by (simp add: record_error_def io_simps Let_def have_tables_def)

lemma run_try_record_error [io_simps]:
  "calm w \<Longrightarrow> MoverErrors \<in> set (tables (db w)) \<Longrightarrow>
   try_record_error op target exc w = record_error op target exc w"
  by (simp add: try_record_error_def ignore_sqlite_def io_simps Let_def)

lemma run_clear_error [io_simps]:
  assumes "calm w" and "MoverErrors \<in> set (tables (db w))"
  shows "clear_error op target w =
    (let d = (db w)\<lparr>mover_errors := delete_where (\<lambda>r. m_key r = error_key op target) (mover_errors (db w))\<rparr>
     in (Inr (), w\<lparr>db := d, disk := d, in_tx := False\<rparr>))"
  using assms by (simp add: clear_error_def io_simps Let_def have_tables_def)

lemma run_try_clear_error [io_simps]:
  "calm w \<Longrightarrow> MoverErrors \<in> set (tables (db w)) \<Longrightarrow>
   try_clear_error op target w = clear_error op target w"
  by (simp add: try_clear_error_def ignore_sqlite_def io_simps Let_def)

text \<open>Which rows \<open>reconcile_dir_scoped_errors\<close> drops, as one condition on the row.\<close>

definition stale :: "mover_error list \<Rightarrow> string \<Rightarrow> path \<Rightarrow> string list \<Rightarrow> mover_error \<Rightarrow> bool" where
  "stale t op dir strays r \<longleftrightarrow>
     (\<exists>p\<in>set t. m_key p = m_key r \<and> m_operation p = op \<and> startswith (m_target p) (path_join dir [])
        \<and> m_target p \<notin> set strays)"

lemma stale_keyed:
  "keyed m_key t \<Longrightarrow> r \<in> set t \<Longrightarrow> stale t op dir strays r \<longleftrightarrow>
     m_operation r = op \<and> startswith (m_target r) (path_join dir []) \<and> m_target r \<notin> set strays"
  unfolding stale_def keyed_def by (metis distinct_key_unique)

text \<open>Deleting keys one by one is one filter.\<close>

lemma foldl_delete_keys:
  "foldl (\<lambda>w x. if P x then w\<lparr>db := (db w)\<lparr>mover_errors := delete_where (\<lambda>r. m_key r = fst x)
       (mover_errors (db w))\<rparr>, in_tx := True\<rparr> else w) w xs =
   w\<lparr>db := (db w)\<lparr>mover_errors := filter (\<lambda>r. \<not> (\<exists>x\<in>set xs. P x \<and> m_key r = fst x)) (mover_errors (db w))\<rparr>,
     in_tx := in_tx w \<or> (\<exists>x\<in>set xs. P x)\<rparr>"
proof (induction xs arbitrary: w)
  case Nil
  then show ?case by simp
next
  case (Cons x xs)
  have "filter (\<lambda>r. \<not> (\<exists>y\<in>set xs. P y \<and> m_key r = fst y)) (filter (\<lambda>r. m_key r \<noteq> fst x) t) =
      filter (\<lambda>r. \<not> (\<exists>y\<in>set (x # xs). P y \<and> m_key r = fst y)) t" if "P x" for t
    using that by (induction t) auto
  moreover have "(\<exists>y\<in>set (x # xs). P y \<and> m_key r = fst y) = (\<exists>y\<in>set xs. P y \<and> m_key r = fst y)"
    if "\<not> P x" for r
    using that by auto
  ultimately show ?case
    by (auto simp: Cons.IH delete_where_def)
qed

lemma run_reconcile [io_simps]:
  assumes calm: "calm w" and tbl: "MoverErrors \<in> set (tables (db w))"
  shows "reconcile_dir_scoped_errors op dir strays w =
    (let d = (db w)\<lparr>mover_errors := filter (\<lambda>r. \<not> stale (mover_errors (db w)) op dir strays r)
               (mover_errors (db w))\<rparr>
     in (Inr (), w\<lparr>db := d, disk := d, in_tx := False\<rparr>))"
proof -
  let ?prior = "map (\<lambda>r. (m_key r, m_target r)) (filter (\<lambda>r. m_operation r = op) (mover_errors (db w)))"
  let ?P = "\<lambda>x. startswith (snd x) (path_join dir []) \<and> snd x \<notin> set strays"
  let ?step = "\<lambda>w x. if ?P x then w\<lparr>db := (db w)\<lparr>mover_errors := delete_where (\<lambda>r. m_key r = fst x)
       (mover_errors (db w))\<rparr>, in_tx := True\<rparr> else w"
  let ?body = "\<lambda>(key, target). if startswith target (path_join dir []) \<and> target \<notin> set strays
       then sql [MoverErrors] (\<lambda>d. ((), d\<lparr>mover_errors := delete_where (\<lambda>r. m_key r = key) (mover_errors d)\<rparr>))
       else ret ()"
  have run: "for_each ?prior ?body w = (Inr (), foldl ?step w ?prior)
      \<and> (calm (foldl ?step w ?prior) \<and> MoverErrors \<in> set (tables (db (foldl ?step w ?prior))))"
    by (rule run_for_each) (auto simp: calm tbl io_simps have_tables_def split: prod.splits)
  have st: "(\<exists>x\<in>set ?prior. ?P x \<and> m_key r = fst x) = stale (mover_errors (db w)) op dir strays r" for r
    by (auto simp: stale_def)
  have "foldl ?step w ?prior =
      w\<lparr>db := (db w)\<lparr>mover_errors := filter (\<lambda>r. \<not> stale (mover_errors (db w)) op dir strays r)
               (mover_errors (db w))\<rparr>, in_tx := in_tx w \<or> (\<exists>x\<in>set ?prior. ?P x)\<rparr>"
    unfolding foldl_delete_keys [where P = ?P] st ..
  with run show ?thesis
    by (simp add: reconcile_dir_scoped_errors_def ignore_sqlite_def io_simps calm tbl have_tables_def
        Let_def)
qed

section \<open>A run of failures of one operation\<close>

text \<open>What each failure of the list writes: message, time, severity.\<close>

fun failure_list :: "string \<Rightarrow> (nat \<Rightarrow> timestamp) \<Rightarrow> nat \<Rightarrow> exn list \<Rightarrow> (string \<times> timestamp \<times> int) list" where
  "failure_list op clk n [] = []"
| "failure_list op clk n (e # es) =
     (take 500 (tsv_sanitise (exn_str e)), clk n, if is_immediate op e then 1 else 0)
     # failure_list op clk (Suc n) es"

lemma failure_list_length [simp]: "length (failure_list op clk n es) = length es"
  by (induction es arbitrary: n) auto

lemma failure_list_immediate:
  "fold max (map (snd \<circ> snd) (failure_list op clk n es)) i =
   max i (if list_ex (is_immediate op) es then 1 else (0::int))" if "0 \<le> i"
  using that by (induction es arbitrary: n i) auto

lemma run_failures:
  "calm w \<Longrightarrow> MoverErrors \<in> set (tables (db w)) \<Longrightarrow>
   \<exists>w'. for_each es (try_record_error op target) w = (Inr (), w')
     \<and> mover_errors (db w') = error_log.note_all upsert_error (error_key op target) op target
         (failure_list op (clock w) (reads w) es) (mover_errors (db w))
     \<and> (es \<noteq> [] \<longrightarrow> disk w' = db w')"
proof (induction es arbitrary: w)
  case Nil
  then show ?case by (simp add: io_simps mover_log.note_all.simps)
next
  case (Cons e es)
  define d where "d = (db w)\<lparr>mover_errors := upsert_error (error_key op target) op target
               (take 500 (tsv_sanitise (exn_str e))) (clock w (reads w))
               (if is_immediate op e then 1 else 0) (mover_errors (db w))\<rparr>"
  let ?w = "w\<lparr>reads := Suc (reads w), db := d, disk := d, in_tx := False\<rparr>"
  have step: "try_record_error op target e w = (Inr (), ?w)"
    using Cons.prems by (simp add: io_simps Let_def d_def)
  have "calm ?w" "MoverErrors \<in> set (tables (db ?w))"
    using Cons.prems by (simp_all add: d_def)
  from Cons.IH [OF this] step show ?case
    by (cases es) (auto simp: io_simps mover_log.note_all.simps d_def)
qed

section \<open>Well-formed error tables\<close>

text \<open>Every row is filed under the key of its operation and target, and no operation has a colon.\<close>

definition log_ok :: "mover_error list \<Rightarrow> bool" where
  "log_ok t \<longleftrightarrow> keyed m_key t
     \<and> list_all (\<lambda>r. m_key r = error_key (m_operation r) (m_target r) \<and> CHR '':'' \<notin> set (m_operation r)) t"

definition reported :: "mover_error list \<Rightarrow> string \<Rightarrow> string \<Rightarrow> bool" where
  "reported t op target \<longleftrightarrow> has_key m_key (error_key op target) t"

lemma error_key_inj:
  assumes "CHR '':'' \<notin> set op" and "CHR '':'' \<notin> set op'" and "error_key op t = error_key op' t'"
  shows "op = op' \<and> t = t'"
proof -
  have "takeWhile (\<lambda>c. c \<noteq> CHR '':'') (error_key o1 t1) = o1" if "CHR '':'' \<notin> set o1" for o1 t1
    using that by (induction o1) (auto simp: error_key_def)
  with assms show ?thesis
    by (metis append_same_eq error_key_def same_append_eq append_Cons append_Nil list.inject)
qed

lemma log_ok_upsert:
  assumes "log_ok t" and "CHR '':'' \<notin> set op"
  shows "log_ok (upsert_error (error_key op target) op target msg now imm t)"
proof -
  have "keyed m_key (upsert_error (error_key op target) op target msg now imm t)"
    using assms(1) by (auto simp: log_ok_def upsert_error_def intro!: keyed_upsert)
  then show ?thesis
    using assms by (auto simp: log_ok_def upsert_error_def upsert_def list_all_iff)
qed

lemma reported_upsert:
  assumes "CHR '':'' \<notin> set op" and "CHR '':'' \<notin> set op'"
  shows "reported (upsert_error (error_key op target) op target msg now imm t) op' x
    \<longleftrightarrow> reported t op' x \<or> op' = op \<and> x = target"
proof -
  have "error_key op' x = error_key op target \<longleftrightarrow> op' = op \<and> x = target"
    using error_key_inj [OF assms(2,1)] by auto
  then show ?thesis
    by (auto simp: reported_def has_key_lookup upsert_error_def lookup_upsert split: option.splits)
qed

lemma log_ok_filter: "log_ok t \<Longrightarrow> log_ok (filter P t)"
  by (auto simp: log_ok_def list_all_iff keyed_def distinct_map_filter_key)

lemma reported_iff:
  "log_ok t \<Longrightarrow> CHR '':'' \<notin> set op \<Longrightarrow> reported t op x \<longleftrightarrow> (\<exists>r\<in>set t. m_operation r = op \<and> m_target r = x)"
  by (auto simp: reported_def has_key_iff log_ok_def list_all_iff dest!: error_key_inj)

lemma reported_reconciled:
  assumes ok: "log_ok t" and op: "CHR '':'' \<notin> set op" "CHR '':'' \<notin> set op'"
  shows "reported (filter (\<lambda>r. \<not> stale t op dir strays r) t) op' x \<longleftrightarrow>
     reported t op' x \<and> \<not> (op' = op \<and> startswith x (path_join dir []) \<and> x \<notin> set strays)"
proof -
  have "stale t op dir strays r \<longleftrightarrow>
     m_operation r = op \<and> startswith (m_target r) (path_join dir []) \<and> m_target r \<notin> set strays" if "r \<in> set t" for r
    using ok that by (intro stale_keyed) (simp_all add: log_ok_def)
  then show ?thesis
    unfolding reported_iff [OF log_ok_filter [OF ok] op(2)] reported_iff [OF ok op(2)] by auto
qed

section \<open>Properties\<close>

text \<open>The input of many examples: an empty store, the tables of the schema, nothing fails.\<close>

definition sample_world :: world where
  "sample_world = \<lparr>files = [], db = schema_sql ''/dl'' empty_database, disk = schema_sql ''/dl'' empty_database,
     in_tx = False, fs_faults = [], db_faults = [], clock = (\<lambda>_. ''2024-01-02T00:00:00Z''), reads = 0,
     today = ''2024-01-05'', out = [], err = [], pushed = []\<rparr>"

text \<open>
  Failures of one operation on one target, however many, leave one row in \<open>mover_errors\<close>: it
  counts them, keeps the time of the first and the \<open>notified\<close> flag, and is immediate as soon as one
  of them was; the row is committed.
\<close>

theorem error_streak:
  assumes "calm w" and "MoverErrors \<in> set (tables (db w))" and "es \<noteq> []"
    and "lookup_key m_key (error_key op target) (mover_errors (db w)) = None"
  shows "\<exists>w' r. for_each es (try_record_error op target) w = (Inr (), w')
     \<and> lookup_key m_key (error_key op target) (mover_errors (disk w')) = Some r
     \<and> m_attempts r = int (length es) \<and> m_first_seen r = clock w (reads w) \<and> m_notified r = 0
     \<and> m_immediate r = (if list_ex (is_immediate op) es then 1 else 0)"
proof -
  obtain e fs where es: "es = e # fs" using assms(3) by (cases es) auto
  obtain w' where run: "for_each es (try_record_error op target) w = (Inr (), w')"
    and log: "mover_errors (disk w') = error_log.note_all upsert_error (error_key op target) op target
         (failure_list op (clock w) (reads w) es) (mover_errors (db w))"
    using run_failures [OF assms(1,2), of es op target] assms(3) by auto
  have "failure_list op (clock w) (reads w) es =
     (take 500 (tsv_sanitise (exn_str e)), clock w (reads w), if is_immediate op e then 1 else 0)
     # failure_list op (clock w) (Suc (reads w)) fs"
    by (simp add: es)
  with log mover_log.streak [OF assms(4), of op target
      "take 500 (tsv_sanitise (exn_str e))" "clock w (reads w)" "if is_immediate op e then 1 else 0"
      "failure_list op (clock w) (Suc (reads w)) fs"]
  obtain r where "lookup_key m_key (error_key op target) (mover_errors (disk w')) = Some r"
    and "m_attempts r = int (length es)" and "m_first_seen r = clock w (reads w)" and "m_notified r = 0"
    and "m_immediate r = (if list_ex (is_immediate op) es then 1 else 0)"
    by (auto simp: es failure_list_immediate split: if_splits)
  with run show ?thesis by blast
qed

theorem error_streak_witness:
  "\<exists>w' r. for_each [OSError EACCES ''a'', OSError ENOSPC ''b''] (try_record_error ''seal'' ''/d'') sample_world
       = (Inr (), w')
     \<and> lookup_key m_key (error_key ''seal'' ''/d'') (mover_errors (disk w')) = Some r
     \<and> m_attempts r = 2 \<and> m_immediate r = 1"
  using error_streak [of sample_world "[OSError EACCES ''a'', OSError ENOSPC ''b'']" "''seal''" "''/d''"]
  by (auto simp: sample_world_def schema_sql_def create_table_def create_events_def empty_database_def
      calm_def is_immediate_def)

end
