(* ===== verification/Host.thy ===== *)
theory Host
  imports MoverErrors
begin

text \<open>
  \<open>browser-visit-logger/native-host/host.py\<close>: the schema with the Downloads directory substituted into
  it, and the statements that record a visit and a tag.
\<close>

section \<open>The schema text\<close>

definition DOWNLOADS_DIR_SENTINEL :: string where
  "DOWNLOADS_DIR_SENTINEL = ''__BVL_DOWNLOADS_SNAPSHOTS_DIR__''"


text \<open>The argument is the text of \<open>schema.sql\<close>.\<close>

definition load_schema_sql :: "string \<Rightarrow> path \<Rightarrow> string" where
  "load_schema_sql schema downloads =
     replace_all DOWNLOADS_DIR_SENTINEL (replace_char QUOTE [QUOTE, QUOTE] downloads) schema"

definition ensure_db :: "config \<Rightarrow> unit io" where
  "ensure_db cfg = thn (executescript (schema_sql (DOWNLOADS_SNAPSHOTS_DIR cfg))) commit"

section \<open>Recording a visit and its tags\<close>

definition insert_event :: "config \<Rightarrow> event_tag \<Rightarrow> url \<Rightarrow> timestamp \<Rightarrow> filename \<Rightarrow> bool io" where
  "insert_event cfg tg url timestamp filename =
     bnd (select [Visits] (\<lambda>d. has_key v_url url (visits d))) (\<lambda>there.
     thn (if there
          then bnd (sql [event_table tg] (sql_insert_event tg
                 \<lparr>e_url = url, e_timestamp = timestamp, e_filename = basename filename,
                  e_directory = DOWNLOADS_SNAPSHOTS_DIR cfg\<rparr>)) (\<lambda>rowcount.
               if rowcount > 0 then sql [Visits] (sql_bump tg url) else ret ())
          else ret ())
       (thn commit (ret there)))"

definition insert_visit :: "timestamp \<Rightarrow> url \<Rightarrow> string \<Rightarrow> unit io" where
  "insert_visit timestamp url title = thn (sql [Visits] (sql_insert_visit url timestamp title)) commit"

definition tag_visit :: "config \<Rightarrow> url \<Rightarrow> string \<Rightarrow> timestamp \<Rightarrow> filename \<Rightarrow> bool io" where
  "tag_visit cfg url tag tag_timestamp filename =
     (if tag = ''of_interest''
      then bnd (sql [Visits] (sql_set_of_interest url)) (\<lambda>rowcount. thn commit (ret (rowcount > 0)))
      else if tag = ''read'' then insert_event cfg Read url tag_timestamp filename
      else if tag = ''skimmed'' then insert_event cfg Skimmed url tag_timestamp filename
      else ret False)"

section \<open>The invariant of the database\<close>

text \<open>
  Every URL has one visit, every (URL, timestamp) one event of each kind, every event has its visit,
  and the counters of a visit count its events.
\<close>

definition events_of :: "event_tag \<Rightarrow> url \<Rightarrow> database \<Rightarrow> event list" where
  "events_of tg url d = filter (\<lambda>e. e_url e = url) (events tg d)"

definition counts_ok :: "event_tag \<Rightarrow> database \<Rightarrow> bool" where
  "counts_ok tg d \<longleftrightarrow> list_all (\<lambda>v. counter tg v = int (length (events_of tg (v_url v) d))) (visits d)"

definition visited :: "event_tag \<Rightarrow> database \<Rightarrow> bool" where
  "visited tg d \<longleftrightarrow> list_all (\<lambda>e. has_key v_url (e_url e) (visits d)) (events tg d)"

definition db_ok :: "database \<Rightarrow> bool" where
  "db_ok d \<longleftrightarrow> keyed v_url (visits d) \<and> keyed event_key (read_events d) \<and> keyed event_key (skimmed_events d)
     \<and> counts_ok Read d \<and> counts_ok Skimmed d \<and> visited Read d \<and> visited Skimmed d"

section \<open>The statements as functions of the database\<close>

text \<open>What a visit and an event do to the database, in one piece.\<close>

definition db_event :: "event_tag \<Rightarrow> event \<Rightarrow> database \<Rightarrow> database" where
  "db_event tg e d =
     (if has_key event_key (event_key e) (events tg d) then d
      else snd (sql_bump tg (e_url e) (set_events tg (events tg d @ [e]) d)))"

lemma events_set [simp]: "events tg (set_events tg' es d) = (if tg = tg' then es else events tg d)"
  by (cases tg; cases tg') simp_all

lemma events_update [simp]:
  "events tg (d\<lparr>visits := vs\<rparr>) = events tg d" "events tg (d\<lparr>snapshots := ss\<rparr>) = events tg d"
  "events tg (d\<lparr>mover_errors := es\<rparr>) = events tg d" "events tg (d\<lparr>sync_state := ys\<rparr>) = events tg d"
  by (cases tg; simp)+

lemma visits_set_events [simp]: "visits (set_events tg es d) = visits d"
  by (cases tg) simp_all

lemma events_bump [simp]: "events tg (snd (sql_bump tg' url d)) = events tg d"
  by (cases tg) (simp_all add: sql_bump_def)

lemma events_insert_visit [simp]: "events tg (snd (sql_insert_visit url ts title d)) = events tg d"
  by (cases tg) (simp_all add: sql_insert_visit_def)

lemma events_of_interest [simp]: "events tg (snd (sql_set_of_interest url d)) = events tg d"
  by (cases tg) (simp_all add: sql_set_of_interest_def update_where_def)

lemma db_event_old: "has_key event_key (event_key e) (events tg d) \<Longrightarrow> db_event tg e d = d"
  by (simp add: db_event_def)

lemma sql_insert_event_split:
  "sql_insert_event tg e d =
     (if has_key event_key (event_key e) (events tg d) then (0, d)
      else (1, set_events tg (events tg d @ [e]) d))"
  by (cases tg) (auto simp: sql_insert_event_def insert_or_ignore_def)

section \<open>The statements keep the invariant\<close>

lemma db_ok_tag: "db_ok d \<Longrightarrow> keyed event_key (events tg d) \<and> counts_ok tg d \<and> visited tg d"
  by (cases tg) (auto simp: db_ok_def)

lemma db_okI:
  "keyed v_url (visits d) \<Longrightarrow> (\<And>tg. keyed event_key (events tg d) \<and> counts_ok tg d \<and> visited tg d) \<Longrightarrow> db_ok d"
  unfolding db_ok_def using events.simps by metis

lemma new_visit_sel [simp]:
  "v_url (new_visit u t ti) = u" "counter tg (new_visit u t ti) = 0" "v_timestamp (new_visit u t ti) = t"
  by (cases tg; simp add: new_visit_def)+

lemma bump_sel [simp]:
  "v_url (bump_counter tg v) = v_url v" "v_timestamp (bump_counter tg v) = v_timestamp v"
  "v_of_interest (bump_counter tg v) = v_of_interest v"
  "counter tg' (bump_counter tg v) = counter tg' v + (if tg' = tg then 1 else 0)"
  by (cases tg; cases tg'; simp)+

lemma db_ok_insert_visit:
  assumes "db_ok d"
  shows "db_ok (snd (sql_insert_visit url ts title d))"
proof (rule db_okI)
  let ?d = "snd (sql_insert_visit url ts title d)"
  show "keyed v_url (visits ?d)"
    using assms by (simp add: sql_insert_visit_def db_ok_def keyed_insert_or_ignore)
  fix tg
  have t: "keyed event_key (events tg d)" "counts_ok tg d" "visited tg d"
    using db_ok_tag [OF assms] by blast+
  have none: "events_of tg url d = []" if "\<not> has_key v_url url (visits d)"
    using t(3) that by (auto simp: visited_def list_all_iff events_of_def filter_empty_conv)
  have "counts_ok tg ?d"
    using t(2) none
    by (cases "has_key v_url url (visits d)")
      (auto simp: counts_ok_def events_of_def sql_insert_visit_def insert_or_ignore_def)
  moreover have "visited tg ?d"
    using t(3) by (auto simp: visited_def list_all_iff sql_insert_visit_def tbl_simps)
  ultimately show "keyed event_key (events tg ?d) \<and> counts_ok tg ?d \<and> visited tg ?d"
    using t(1) by simp
qed

lemma db_ok_of_interest:
  assumes "db_ok d"
  shows "db_ok (snd (sql_set_of_interest url d))"
proof (rule db_okI)
  let ?d = "snd (sql_set_of_interest url d)"
  have v: "visits ?d = snd (update_where (\<lambda>v. v_url v = url) (\<lambda>v. v\<lparr>v_of_interest := Some ''1''\<rparr>) (visits d))"
    by (simp add: sql_set_of_interest_def update_where_def)
  show "keyed v_url (visits ?d)"
    unfolding v using assms by (intro keyed_update) (simp_all add: db_ok_def)
  fix tg
  have "counter tg (x\<lparr>v_of_interest := y\<rparr>) = counter tg x" for x y by (cases tg) simp_all
  then have "counts_ok tg ?d"
    using db_ok_tag [OF assms, of tg]
    by (auto simp: counts_ok_def events_of_def v update_where_def list_all_iff)
  moreover have "visited tg ?d"
    using db_ok_tag [OF assms, of tg] by (simp add: visited_def v has_key_update)
  ultimately show "keyed event_key (events tg ?d) \<and> counts_ok tg ?d \<and> visited tg ?d"
    using db_ok_tag [OF assms, of tg] by simp
qed

lemma db_ok_event:
  assumes ok: "db_ok d" and there: "has_key v_url (e_url e) (visits d)"
  shows "db_ok (db_event tg e d)"
proof (cases "has_key event_key (event_key e) (events tg d)")
  case True
  then show ?thesis using ok by (simp add: db_event_def)
next
  case False
  let ?d = "snd (sql_bump tg (e_url e) (set_events tg (events tg d @ [e]) d))"
  have v: "visits ?d = snd (update_where (\<lambda>v. v_url v = e_url e) (bump_counter tg) (visits d))"
    by (simp add: sql_bump_def)
  have "db_ok ?d"
  proof (rule db_okI)
    show "keyed v_url (visits ?d)"
      unfolding v using ok by (intro keyed_update) (simp_all add: db_ok_def)
    fix tg'
    note t = db_ok_tag [OF ok, of tg']
    have "keyed event_key (events tg' ?d)"
      using t False by (auto simp: keyed_append_new)
    moreover have "counts_ok tg' ?d"
      using t by (auto simp: counts_ok_def events_of_def v update_where_def list_all_iff)
    moreover have "visited tg' ?d"
      using t there by (auto simp: visited_def v has_key_update)
    ultimately show "keyed event_key (events tg' ?d) \<and> counts_ok tg' ?d \<and> visited tg' ?d" by blast
  qed
  then show ?thesis using False by (simp add: db_event_def)
qed

section \<open>The operations compute these functions\<close>

text \<open>
  Whatever fails: an operation that returns has done exactly \<open>f\<close> and committed it; one that raises has
  committed nothing. No file changes either way.
\<close>

definition commits :: "'a io \<Rightarrow> (database \<Rightarrow> 'a \<times> database) \<Rightarrow> bool" where
  "commits m f \<longleftrightarrow> (\<forall>w. wp m
     (\<lambda>r w'. r = fst (f (db w)) \<and> db w' = snd (f (db w)) \<and> disk w' = db w' \<and> files w' = files w)
     (\<lambda>_ w'. disk w' = disk w \<and> files w' = files w) w)"

lemma commitsD:
  "commits m f \<Longrightarrow> wp m
     (\<lambda>r w'. r = fst (f (db w)) \<and> db w' = snd (f (db w)) \<and> disk w' = db w' \<and> files w' = files w)
     (\<lambda>_ w'. disk w' = disk w \<and> files w' = files w) w"
  by (simp add: commits_def)

lemma insert_visit_commits: "commits (insert_visit ts url title) (sql_insert_visit url ts title)"
  unfolding commits_def insert_visit_def wp_thn
  by (auto intro!: wp_sql wp_commit simp: sql_insert_visit_def)

definition new_event :: "config \<Rightarrow> url \<Rightarrow> timestamp \<Rightarrow> filename \<Rightarrow> event" where
  "new_event cfg url ts filename = \<lparr>e_url = url, e_timestamp = ts, e_filename = basename filename,
     e_directory = DOWNLOADS_SNAPSHOTS_DIR cfg\<rparr>"

lemma new_event_sel [simp]: "e_url (new_event cfg url ts f) = url" "e_timestamp (new_event cfg url ts f) = ts"
  "event_key (new_event cfg url ts f) = (url, ts)"
  by (simp_all add: new_event_def event_key_def)

definition db_tag_event :: "config \<Rightarrow> event_tag \<Rightarrow> url \<Rightarrow> timestamp \<Rightarrow> filename \<Rightarrow> database \<Rightarrow> bool \<times> database" where
  "db_tag_event cfg tg url ts filename d =
     (if has_key v_url url (visits d) then (True, db_event tg (new_event cfg url ts filename) d) else (False, d))"

lemma insert_event_commits: "commits (insert_event cfg tg url ts f) (db_tag_event cfg tg url ts f)"
proof (unfold commits_def, intro allI)
  fix w :: world
  let ?d = "db_tag_event cfg tg url ts f (db w)"
  let ?E = "\<lambda>_ w'. disk w' = disk w \<and> files w' = files w"
  let ?Q = "\<lambda>r w'. r = fst ?d \<and> db w' = snd ?d \<and> disk w' = db w' \<and> files w' = files w"
  have fin: "wp (thn commit (ret r)) ?Q ?E w'"
    if "db w' = snd ?d" "disk w' = disk w" "files w' = files w" "r = fst ?d" for w' r
    unfolding wp_thn wp_ret using that by (auto intro!: wp_commit)
  have bump: "wp (sql [Visits] (sql_bump tg url)) (\<lambda>_. wp (thn commit (ret True)) ?Q ?E) ?E w'"
    if "snd (sql_bump tg url (db w')) = snd ?d" "fst ?d" "disk w' = disk w" "files w' = files w" for w'
    using that by (intro wp_sql fin) simp_all
  show "wp (insert_event cfg tg url ts f) ?Q ?E w"
    unfolding insert_event_def wp_bnd wp_thn [of "if _ then _ else _"] wp_if wp_ret new_event_def [symmetric]
  proof (intro wp_select)
    fix dl
    let ?w = "w\<lparr>db_faults := dl\<rparr>"
    let ?e = "new_event cfg url ts f"
    show "if has_key v_url url (visits (db w))
        then wp (sql [event_table tg] (sql_insert_event tg ?e)) (\<lambda>rowcount w'. if 0 < rowcount
             then wp (sql [Visits] (sql_bump tg url)) (\<lambda>_. wp (thn commit (ret (has_key v_url url (visits (db w))))) ?Q ?E) ?E w'
             else wp (thn commit (ret (has_key v_url url (visits (db w))))) ?Q ?E w') ?E ?w
        else wp (thn commit (ret (has_key v_url url (visits (db w))))) ?Q ?E ?w"
    proof (cases "has_key v_url url (visits (db w))")
      case True
      then have d: "?d = (True, db_event tg ?e (db w))" by (simp add: db_tag_event_def)
      show ?thesis
        unfolding if_P [OF True]
        using fin [of _ True, unfolded d, simplified] bump [unfolded d, simplified]
        by (intro wp_sql; cases "has_key event_key (event_key ?e) (events tg (db w))")
          (simp_all add: True sql_insert_event_split d db_event_def)
    next
      case False
      then have d: "?d = (False, db w)" by (simp add: db_tag_event_def)
      show ?thesis unfolding if_not_P [OF False] using False by (intro fin) (simp_all add: d)
    qed
  qed simp_all
qed

lemma of_interest_commits:
  "commits (tag_visit cfg url ''of_interest'' ts f)
     (\<lambda>d. (0 < fst (sql_set_of_interest url d), snd (sql_set_of_interest url d)))"
  unfolding commits_def tag_visit_def
  by (auto simp: wp_simps intro!: wp_sql wp_commit)

lemma tag_read_commits: "commits (tag_visit cfg url ''read'' ts f) (db_tag_event cfg Read url ts f)"
  and tag_skimmed_commits: "commits (tag_visit cfg url ''skimmed'' ts f) (db_tag_event cfg Skimmed url ts f)"
  by (simp_all add: tag_visit_def insert_event_commits)

lemma db_ok_tag_event: "db_ok d \<Longrightarrow> db_ok (snd (db_tag_event cfg tg url ts f d))"
  by (simp add: db_tag_event_def db_ok_event)

text \<open>The invariant over the open transaction and the committed state, and what is left when a call raises.\<close>

definition sound :: "world \<Rightarrow> bool" where
  "sound w \<longleftrightarrow> db_ok (db w) \<and> db_ok (disk w)"

lemma commits_sound:
  assumes "commits m f" and "\<And>d. db_ok d \<Longrightarrow> db_ok (snd (f d))" and "sound w"
  shows "wp m (\<lambda>_. sound) (\<lambda>_ w'. db_ok (disk w')) w"
  by (rule wp_mono [OF commitsD [OF assms(1)]]) (use assms(2,3) in \<open>auto simp: sound_def\<close>)

lemma tag_visit_sound:
  assumes "sound w"
  shows "wp (tag_visit cfg url tag ts f) (\<lambda>_. sound) (\<lambda>_ w'. db_ok (disk w')) w"
proof -
  consider "tag = ''of_interest''" | "tag = ''read''" | "tag = ''skimmed''"
    | "tag_visit cfg url tag ts f = ret False"
    unfolding tag_visit_def by metis
  then show ?thesis
  proof cases
    case 1
    then show ?thesis
      using commits_sound [OF of_interest_commits _ assms] by (simp add: db_ok_of_interest)
  next
    case 2
    then show ?thesis
      using commits_sound [OF tag_read_commits _ assms] by (simp add: db_ok_tag_event)
  next
    case 3
    then show ?thesis
      using commits_sound [OF tag_skimmed_commits _ assms] by (simp add: db_ok_tag_event)
  next
    case 4
    then show ?thesis using assms by (simp add: wp_simps)
  qed
qed

section \<open>The substituted schema\<close>

text \<open>The body of an SQL string literal, up to its closing quote; a doubled quote stands for one.\<close>

fun literal_body :: "string \<Rightarrow> (string \<times> string) option" where
  "literal_body [] = None"
| "literal_body [c] = (if c = QUOTE then Some ([], []) else None)"
| "literal_body (c # d # s) =
     (if c \<noteq> QUOTE then map_option (\<lambda>(b, r). (c # b, r)) (literal_body (d # s))
      else if d = QUOTE then map_option (\<lambda>(b, r). (QUOTE # b, r)) (literal_body s)
      else Some ([], d # s))"

lemma literal_body_escaped:
  "rest = [] \<or> hd rest \<noteq> QUOTE \<Longrightarrow>
   literal_body (replace_char QUOTE [QUOTE, QUOTE] p @ QUOTE # rest) = Some (p, rest)"
proof (induction p)
  case Nil
  then show ?case by (cases rest) (auto simp: str_simps)
next
  case (Cons x p)
  have ne: "replace_char QUOTE [QUOTE, QUOTE] p @ QUOTE # rest \<noteq> []" by simp
  from Cons show ?case
    by (cases "replace_char QUOTE [QUOTE, QUOTE] p @ QUOTE # rest") (auto simp: str_simps)
qed

lemma startswith_barrier:
  "c \<notin> set p \<Longrightarrow> startswith (a @ c # b) p \<longleftrightarrow> startswith a p"
  by (auto simp: startswith_iff append_eq_append_conv2 append_eq_Cons_conv Cons_eq_append_conv)

lemma replace_all_barrier:
  "c \<notin> set pat \<Longrightarrow>
   replace_all pat rep (a @ c # b) = replace_all pat rep a @ c # replace_all pat rep b"
proof (induction pat rep a rule: replace_all.induct)
  case (1 pat rep)
  then have "\<not> (pat \<noteq> [] \<and> startswith (c # b) pat)"
    by (cases pat) (auto simp: startswith_def)
  then show ?case by auto
next
  case (2 pat rep x xs)
  show ?case
  proof (cases "pat \<noteq> [] \<and> startswith (x # xs) pat")
    case True
    then have "startswith (x # xs @ c # b) pat"
      using startswith_barrier [OF 2(3), of "x # xs" b] by simp
    moreover have "length pat \<le> length (x # xs)"
      using True unfolding startswith_iff by (metis length_append le_add1)
    ultimately have "startswith (x # xs @ c # b) pat"
      and "drop (length pat) (x # xs @ c # b) = drop (length pat) (x # xs) @ c # b"
      by (auto simp: drop_Cons' simp del: append_Cons simp flip: append_Cons)
    with True 2 show ?thesis by simp
  next
    case False
    then have "\<not> (pat \<noteq> [] \<and> startswith (x # xs @ c # b) pat)"
      using startswith_barrier [OF 2(3), of "x # xs" b] by simp
    with False 2 show ?thesis by auto
  qed
qed

section \<open>Properties\<close>

text \<open>
  The Downloads directory survives its way into the DDL: wherever the schema has the sentinel as an
  SQL literal, the loaded schema has a literal that SQLite reads back as exactly that path, whatever
  quotes the path contains.
\<close>

theorem schema_default_is_path:
  assumes "\<not> contains a DOWNLOADS_DIR_SENTINEL" and "b = [] \<or> hd b \<noteq> QUOTE \<and> hd b \<noteq> CHR ''_''"
  shows "\<exists>rest. load_schema_sql (a @ QUOTE # DOWNLOADS_DIR_SENTINEL @ QUOTE # b) downloads = a @ QUOTE # rest
     \<and> literal_body rest = Some (downloads, load_schema_sql b downloads)"
proof -
  let ?e = "replace_char QUOTE [QUOTE, QUOTE] downloads"
  have q: "QUOTE \<notin> set DOWNLOADS_DIR_SENTINEL" and ne: "DOWNLOADS_DIR_SENTINEL \<noteq> []"
    by (simp_all add: DOWNLOADS_DIR_SENTINEL_def)
  have s: "replace_all DOWNLOADS_DIR_SENTINEL ?e DOWNLOADS_DIR_SENTINEL = ?e"
    by (simp add: DOWNLOADS_DIR_SENTINEL_def startswith_def)
  have "load_schema_sql (a @ QUOTE # DOWNLOADS_DIR_SENTINEL @ QUOTE # b) downloads
      = a @ QUOTE # ?e @ QUOTE # load_schema_sql b downloads"
    by (simp add: load_schema_sql_def replace_all_barrier [OF q] s replace_all_none [OF assms(1)])
  moreover have "load_schema_sql b downloads = [] \<or> hd (load_schema_sql b downloads) \<noteq> QUOTE"
    using assms(2) by (cases b) (auto simp: load_schema_sql_def DOWNLOADS_DIR_SENTINEL_def startswith_def)
  ultimately show ?thesis
    using literal_body_escaped by auto
qed

theorem schema_default_is_path_witness:
  "\<exists>rest. load_schema_sql (''DEFAULT '' @ QUOTE # DOWNLOADS_DIR_SENTINEL @ QUOTE # '', PRIMARY KEY'')
       (''/home/o'' @ QUOTE # ''neil'') = ''DEFAULT '' @ QUOTE # rest
     \<and> literal_body rest = Some (''/home/o'' @ QUOTE # ''neil'',
         load_schema_sql '', PRIMARY KEY'' (''/home/o'' @ QUOTE # ''neil''))"
proof (rule schema_default_is_path)
  show "\<not> contains ''DEFAULT '' DOWNLOADS_DIR_SENTINEL" by code_simp
  show "'', PRIMARY KEY'' = [] \<or> hd '', PRIMARY KEY'' \<noteq> QUOTE \<and> hd '', PRIMARY KEY'' \<noteq> CHR ''_''" by simp
qed

text \<open>
  Tagging a page read is all or nothing. A call that returns reports whether the page is known,
  and then has committed the event and one increment of the counter if the event was new, and nothing
  otherwise; a call that raises has committed nothing.
\<close>

theorem tag_read_atomic:
  "case tag_visit cfg url ''read'' ts f w of
     (Inr known, w') \<Rightarrow> known = has_key v_url url (visits (db w))
       \<and> disk w' = (if known \<and> \<not> has_key event_key (url, ts) (read_events (db w))
           then snd (sql_bump Read url ((db w)\<lparr>read_events := read_events (db w) @ [new_event cfg url ts f]\<rparr>))
           else db w)
   | (Inl e, w') \<Rightarrow> disk w' = disk w"
  using commitsD [OF tag_read_commits, of cfg url ts f w]
  by (auto simp: wp_def db_tag_event_def db_event_def split: prod.splits sum.splits)

text \<open>
  Whatever tag is set and whatever fails, the committed database stays consistent: unique URLs and
  events, every event with its visit, and counters that equal the number of events.
\<close>

theorem tag_keeps_consistent:
  assumes "db_ok (db w)" and "db_ok (disk w)"
  shows "db_ok (disk (snd (tag_visit cfg url tag ts f w)))"
proof -
  have "sound w" using assms by (simp add: sound_def)
  from tag_visit_sound [OF this, of cfg url tag ts f] show ?thesis
    by (auto simp: wp_def sound_def split: prod.splits sum.splits)
qed

theorem tag_keeps_consistent_witness:
  "db_ok (disk (snd (tag_visit \<lparr>LOG_DIR = ''/l'', ICLOUD_SNAPSHOTS_DIR = ''/i'', DOWNLOADS_SNAPSHOTS_DIR = ''/d'',
       DB_FILE = ''/v'', MATCH_BY_FILENAME_ONLY = False, host_importable = True\<rparr>
     ''http://a/'' ''read'' ''t'' ''x/f.html'' (sample_world\<lparr>db_faults := [None, None, Some (Busy ''locked'')]\<rparr>))))"
  by (rule tag_keeps_consistent)
    (simp_all add: sample_world_def schema_sql_def create_table_def create_events_def empty_database_def
      db_ok_def keyed_def counts_ok_def visited_def)

end
