(* ===== verification/Replay.thy ===== *)
theory Replay
  imports Host
begin

text \<open>
  The contract of a log replay. Both ways the program replays a log (the rebuilder from files, the sync
  client from its peers) rest on the same laws: an action, once applied, is \<open>covered\<close>; no later action
  uncovers it; applying a covered action changes nothing. What is delivered twice, in whatever order,
  is then applied once. The rebuilder's actions are interpreted here, the sync client's in its theory.
\<close>

section \<open>The contract\<close>

locale idempotent_replay =
  fixes apply_one :: "'act \<Rightarrow> 'db \<Rightarrow> 'db" and covered :: "'act \<Rightarrow> 'db \<Rightarrow> bool"
  assumes applied_covered: "covered a (apply_one a d)"
    and covered_mono: "covered a d \<Longrightarrow> covered a (apply_one b d)"
    and covered_noop: "covered a d \<Longrightarrow> apply_one a d = d"
begin

definition apply_all :: "'act list \<Rightarrow> 'db \<Rightarrow> 'db" where
  "apply_all as d = foldl (\<lambda>d a. apply_one a d) d as"

lemma apply_all_simps [simp]:
  "apply_all [] d = d" "apply_all (a # as) d = apply_all as (apply_one a d)"
  "apply_all (as @ bs) d = apply_all bs (apply_all as d)"
  by (simp_all add: apply_all_def)

lemma covered_later: "covered a d \<Longrightarrow> covered a (apply_all as d)"
  by (induction as arbitrary: d) (simp_all add: covered_mono)

lemma all_covered: "a \<in> set as \<Longrightarrow> covered a (apply_all as d)"
  by (induction as arbitrary: d) (auto intro: covered_later applied_covered)

lemma covered_noop_all: "(\<And>b. b \<in> set bs \<Longrightarrow> covered b d) \<Longrightarrow> apply_all bs d = d"
  by (induction bs) (simp_all add: covered_noop)

text \<open>Actions that were all applied before, in any order and number, change nothing.\<close>

lemma redelivery: "set bs \<subseteq> set as \<Longrightarrow> apply_all bs (apply_all as d) = apply_all as d"
  by (rule covered_noop_all) (auto intro: all_covered)

text \<open>A repeated delivery inside the stream can be dropped.\<close>

lemma drop_duplicate: "a \<in> set as \<Longrightarrow> apply_all (as @ a # bs) d = apply_all (as @ bs) d"
  by (simp add: covered_noop all_covered)

lemma remdups_earlier:
  "apply_all (foldl (\<lambda>acc a. if a \<in> set acc then acc else acc @ [a]) cs as) d = apply_all (cs @ as) d"
proof (induction as arbitrary: cs)
  case Nil
  then show ?case by simp
next
  case (Cons a as)
  show ?case
  proof (cases "a \<in> set cs")
    case True
    then show ?thesis using Cons [of cs] drop_duplicate [OF True, of as d] by simp
  next
    case False
    then show ?thesis using Cons [of "cs @ [a]"] by simp
  qed
qed

end

section \<open>The rebuilder's actions\<close>

record action =
  a_timestamp :: timestamp
  a_url :: url
  a_title :: string
  a_tag :: string
  a_filename :: filename

definition db_action :: "config \<Rightarrow> action \<Rightarrow> database \<Rightarrow> database" where
  "db_action cfg a d =
     (let d' = snd (sql_insert_visit (a_url a) (a_timestamp a) (a_title a) d)
      in if a_tag a = ''of_interest'' then snd (sql_set_of_interest (a_url a) d')
         else if a_tag a = ''read'' then db_event Read (new_event cfg (a_url a) (a_timestamp a) (a_filename a)) d'
         else if a_tag a = ''skimmed'' then db_event Skimmed (new_event cfg (a_url a) (a_timestamp a) (a_filename a)) d'
         else d')"

definition of_interest_set :: "url \<Rightarrow> database \<Rightarrow> bool" where
  "of_interest_set url d \<longleftrightarrow> list_all (\<lambda>v. v_url v = url \<longrightarrow> v_of_interest v = Some ''1'') (visits d)"

definition db_covered :: "action \<Rightarrow> database \<Rightarrow> bool" where
  "db_covered a d \<longleftrightarrow> has_key v_url (a_url a) (visits d)
     \<and> (a_tag a = ''of_interest'' \<longrightarrow> of_interest_set (a_url a) d)
     \<and> (a_tag a = ''read'' \<longrightarrow> has_key event_key (a_url a, a_timestamp a) (read_events d))
     \<and> (a_tag a = ''skimmed'' \<longrightarrow> has_key event_key (a_url a, a_timestamp a) (skimmed_events d))"

text \<open>What each statement does to the three conditions.\<close>

lemma has_visit_insert [simp]:
  "has_key v_url u (visits (snd (sql_insert_visit url ts ti d))) \<longleftrightarrow> u = url \<or> has_key v_url u (visits d)"
  by (simp add: sql_insert_visit_def tbl_simps)

lemma has_visit_of_interest [simp]:
  "has_key v_url u (visits (snd (sql_set_of_interest url d))) \<longleftrightarrow> has_key v_url u (visits d)"
proof -
  have "has_key v_url u (snd (update_where (\<lambda>v. v_url v = url) (\<lambda>v. v\<lparr>v_of_interest := Some ''1''\<rparr>) (visits d)))
      \<longleftrightarrow> has_key v_url u (visits d)"
    by (rule has_key_update) simp
  then show ?thesis by (simp add: sql_set_of_interest_def update_where_def)
qed

lemma has_visit_event [simp]:
  "has_key v_url u (visits (db_event tg e d)) \<longleftrightarrow> has_key v_url u (visits d)"
proof -
  have "has_key v_url u (snd (update_where (\<lambda>v. v_url v = e_url e) (bump_counter tg) (visits d)))
      \<longleftrightarrow> has_key v_url u (visits d)"
    by (rule has_key_update) simp
  then show ?thesis by (simp add: db_event_def sql_bump_def)
qed

lemma has_event_event [simp]:
  "has_key event_key k (events tg (db_event tg' e d)) \<longleftrightarrow>
     has_key event_key k (events tg d) \<or> tg = tg' \<and> k = event_key e"
  by (auto simp: db_event_def tbl_simps)

lemma interest_insert:
  "of_interest_set u d \<Longrightarrow> has_key v_url u (visits d) \<Longrightarrow> of_interest_set u (snd (sql_insert_visit url ts ti d))"
  by (auto simp: of_interest_set_def sql_insert_visit_def insert_or_ignore_def)

lemma interest_of_interest:
  "of_interest_set u d \<or> u = url \<Longrightarrow> of_interest_set u (snd (sql_set_of_interest url d))"
  by (auto simp: of_interest_set_def sql_set_of_interest_def update_where_def list_all_iff)

lemma interest_event: "of_interest_set u d \<Longrightarrow> of_interest_set u (db_event tg e d)"
  by (auto simp: of_interest_set_def db_event_def sql_bump_def update_where_def list_all_iff)

lemma insert_visit_again: "has_key v_url url (visits d) \<Longrightarrow> snd (sql_insert_visit url ts ti d) = d"
  by (simp add: sql_insert_visit_def)

lemma of_interest_again: "of_interest_set url d \<Longrightarrow> snd (sql_set_of_interest url d) = d"
proof -
  assume "of_interest_set url d"
  then have "map (\<lambda>v. if v_url v = url then v\<lparr>v_of_interest := Some ''1''\<rparr> else v) (visits d) = visits d"
    by (intro map_idI_set) (auto simp: of_interest_set_def list_all_iff)
  then show ?thesis by (simp add: sql_set_of_interest_def update_where_def)
qed

lemma has_event_insert [simp]:
  "has_key event_key k (read_events (snd (sql_insert_visit url ts ti d))) = has_key event_key k (read_events d)"
  "has_key event_key k (skimmed_events (snd (sql_insert_visit url ts ti d))) = has_key event_key k (skimmed_events d)"
  "has_key event_key k (read_events (snd (sql_set_of_interest url d))) = has_key event_key k (read_events d)"
  "has_key event_key k (skimmed_events (snd (sql_set_of_interest url d))) = has_key event_key k (skimmed_events d)"
  by (simp_all flip: events.simps)

lemma has_event_event' [simp]:
  "has_key event_key k (read_events (db_event tg e d)) \<longleftrightarrow>
     has_key event_key k (read_events d) \<or> tg = Read \<and> k = event_key e"
  "has_key event_key k (skimmed_events (db_event tg e d)) \<longleftrightarrow>
     has_key event_key k (skimmed_events d) \<or> tg = Skimmed \<and> k = event_key e"
  using has_event_event [of k Read tg e d] has_event_event [of k Skimmed tg e d] by auto

lemma db_action_covered: "db_covered a (db_action cfg a d)"
  by (auto simp: db_covered_def db_action_def Let_def intro: interest_of_interest)

lemma db_action_mono: "db_covered a d \<Longrightarrow> db_covered a (db_action cfg b d)"
  by (auto simp: db_covered_def db_action_def Let_def
      intro!: interest_of_interest interest_insert interest_event)

lemma db_action_noop: "db_covered a d \<Longrightarrow> db_action cfg a d = d"
  by (auto simp: db_covered_def db_action_def Let_def insert_visit_again of_interest_again db_event_old)

interpretation rebuild_replay: idempotent_replay "db_action cfg" db_covered
  by unfold_locales (simp_all add: db_action_covered db_action_mono db_action_noop)

section \<open>The invariant\<close>

lemma db_ok_action: "db_ok d \<Longrightarrow> db_ok (db_action cfg a d)"
  by (auto simp: db_action_def Let_def intro!: db_ok_insert_visit db_ok_of_interest db_ok_event)

end
