(* ===== verification/SyncClient.thy ===== *)
theory SyncClient
  imports Replay
begin

text \<open>
  \<open>browser-visit-logger/native-host/sync_client.py\<close>: pushing the lines of the local logs past the own
  cursor to the sync server, and pulling the lines of the peers past theirs into the database and a
  mirror of their logs.

  The other end of the connection is the parameter \<open>service\<close>, which says for each request whether it fails, and
  which chunks a pull delivers before it ends or fails; \<open>Relay\<close> puts the sync server and a network there. Reading the
  configuration file is left out: \<open>main\<close> starts from the machine id and the endpoint it found.
\<close>

section \<open>Parameters\<close>

text \<open>
  A request of the log of requests: whether it succeeded, and its lines. A chunk of a pull: the peer and its
  lines. What the server answers may depend on the requests that were made before: \<open>push_error\<close> says whether
  the next one fails, \<open>pull\<close> gives for the cursors the chunks and the error that ends the stream.
\<close>

type_synonym requests = "(bool \<times> log_line list) list"
type_synonym chunk = "string \<times> log_line list"

record service =
  push_error :: "requests \<Rightarrow> log_line list \<Rightarrow> exn option"
  pull :: "requests \<Rightarrow> (string \<times> string \<times> int) list \<Rightarrow> chunk list \<times> exn option"
  stubs_error :: "exn option"
  lock_error :: "exn option"

record sync_config =
  S_LOG_DIR :: path
  PEER_LOGS_DIR :: path
  LOCK_FILE :: path
  TLS_DIR :: path
  SYNC_INTERVAL_SECONDS :: int

section \<open>The database\<close>

definition open_db :: "unit io" where
  "open_db = thn connect
     (thn (ddl (create_table Visits))
       (thn (for_each [Read, Skimmed] (\<lambda>tg. ddl (create_events tg [])))
         (thn (ddl (create_table SyncState)) (ddl (create_table MoverErrors)))))"

definition get_cursor :: "string \<Rightarrow> (string \<times> int) io" where
  "get_cursor machine_id =
     bnd (select [SyncState] (\<lambda>d. lookup_key y_machine_id machine_id (sync_state d))) (\<lambda>row.
     case row of
       None \<Rightarrow> ret ([], - 1)
     | Some r \<Rightarrow> ret (y_cursor_log_date r, y_cursor_line_offset r))"

definition sync_row_defaults :: "string \<Rightarrow> sync_row" where
  "sync_row_defaults machine_id = \<lparr>y_machine_id = machine_id, y_cursor_log_date = [], y_cursor_line_offset = 0,
     y_last_sync_attempt_at = [], y_last_sync_success_at = [], y_last_error = []\<rparr>"

definition set_cursor :: "string \<Rightarrow> string \<Rightarrow> int \<Rightarrow> unit io" where
  "set_cursor machine_id date offset =
     bnd now_iso (\<lambda>now.
     let f = (\<lambda>r. r\<lparr>y_cursor_log_date := date, y_cursor_line_offset := offset, y_last_sync_success_at := now\<rparr>)
     in sql [SyncState] (\<lambda>d. ((), d\<lparr>sync_state :=
          upsert y_machine_id f (f (sync_row_defaults machine_id)) (sync_state d)\<rparr>)))"

definition mark_attempt :: "string \<Rightarrow> string \<Rightarrow> unit io" where
  "mark_attempt machine_id error =
     bnd now_iso (\<lambda>now.
     let f = (\<lambda>r. r\<lparr>y_last_sync_attempt_at := now, y_last_error := error\<rparr>)
     in sql [SyncState] (\<lambda>d. ((), d\<lparr>sync_state :=
          upsert y_machine_id f (f (sync_row_defaults machine_id)) (sync_state d)\<rparr>)))"

text \<open>
  \<open>datetime.fromisoformat\<close> on the formats \<open>isoformat\<close> writes, \<open>YYYY-MM-DDTHH:MM:SS[.ffffff][+HH:MM]\<close>, in
  microseconds; the flag tells whether it has an offset. \<open>None\<close> is \<open>ValueError\<close>.
\<close>

definition day_number :: "nat \<times> nat \<times> nat \<Rightarrow> int" where
  "day_number x = (case x of (y, m, d) \<Rightarrow>
     (let p = int y - 1
      in 365 * p + p div 4 - p div 100 + p div 400 + int (sum_list (map (days_in_month y) [1..<m]) + d)))"

definition two_digits :: "string \<Rightarrow> bool" where
  "two_digits s \<longleftrightarrow> length s = 2 \<and> list_all is_digit s"

definition iso_offset :: "string \<Rightarrow> (int \<times> bool) option" where
  "iso_offset s =
     (if s = [] then Some (0, False)
      else if length s = 6 \<and> (hd s = CHR ''+'' \<or> hd s = CHR ''-'') \<and> two_digits (take 2 (drop 1 s))
        \<and> s ! 3 = CHR '':'' \<and> two_digits (drop 4 s)
      then (let m = int (60 * num_val (take 2 (drop 1 s)) + num_val (drop 4 s))
            in Some (if hd s = CHR ''-'' then - m else m, True))
      else None)"

definition iso_micros :: "string \<Rightarrow> (int \<times> bool) option" where
  "iso_micros s =
     (case date_fromisoformat (take 10 s) of
        None \<Rightarrow> None
      | Some day \<Rightarrow>
          (let t = drop 10 s; h = take 2 (drop 1 t); mi = take 2 (drop 4 t); sec = take 2 (drop 7 t);
               rest = drop 9 t;
               frac = (if rest \<noteq> [] \<and> hd rest = CHR ''.'' then take 6 (drop 1 rest) else []);
               zone = (if frac = [] then rest else drop 7 rest)
           in if 9 \<le> length t \<and> hd t = CHR ''T'' \<and> t ! 3 = CHR '':'' \<and> t ! 6 = CHR '':''
                \<and> two_digits h \<and> two_digits mi \<and> two_digits sec
                \<and> num_val h < 24 \<and> num_val mi < 60 \<and> num_val sec < 60
                \<and> (frac = [] \<or> length frac = 6 \<and> list_all is_digit frac)
              then
                (case iso_offset zone of
                   None \<Rightarrow> None
                 | Some (off, aware) \<Rightarrow>
                     Some (1000000 * (86400 * day_number day + 3600 * int (num_val h)
                             + 60 * (int (num_val mi) - off) + int (num_val sec)) + int (num_val frac), aware))
              else None))"

text \<open>A last attempt without an offset cannot be subtracted from the current time: \<open>TypeError\<close>.\<close>

definition should_skip :: "sync_config \<Rightarrow> string \<Rightarrow> bool io" where
  "should_skip cfg machine_id =
     bnd (select [SyncState] (\<lambda>d. lookup_key y_machine_id machine_id (sync_state d))) (\<lambda>row.
     case row of
       None \<Rightarrow> ret False
     | Some r \<Rightarrow>
         if y_last_sync_attempt_at r = [] then ret False
         else
           (case iso_micros (y_last_sync_attempt_at r) of
              None \<Rightarrow> ret False
            | Some (prev, aware) \<Rightarrow>
                bnd now_iso (\<lambda>now.
                if \<not> aware then throw (TypeError ''offset-naive and offset-aware datetimes'')
                else
                  (let t = (case iso_micros now of None \<Rightarrow> 0 | Some (t, _) \<Rightarrow> t)
                   in ret (t - prev < 1000000 * SYNC_INTERVAL_SECONDS cfg)))))"

text \<open>The error log of this module: its keys have a bar where those of the mover have a colon.\<close>

definition sync_error_key :: "string \<Rightarrow> string \<Rightarrow> string" where
  "sync_error_key operation target = operation @ ''|'' @ target"

definition sync_upsert_error ::
    "string \<Rightarrow> string \<Rightarrow> string \<Rightarrow> string \<Rightarrow> timestamp \<Rightarrow> int \<Rightarrow> mover_error list \<Rightarrow> mover_error list" where
  "sync_upsert_error key operation target message now immediate t =
     upsert m_key
       (\<lambda>r. r\<lparr>m_message := message, m_last_seen := now, m_attempts := m_attempts r + 1,
             m_immediate := max (m_immediate r) immediate\<rparr>)
       \<lparr>m_key = key, m_operation = operation, m_target = target, m_message = message, m_first_seen = now,
        m_last_seen = now, m_attempts = 1, m_notified = 0, m_immediate = immediate\<rparr> t"

definition sync_record_error :: "string \<Rightarrow> string \<Rightarrow> string \<Rightarrow> bool \<Rightarrow> unit io" where
  "sync_record_error operation target message immediate =
     bnd now_iso (\<lambda>now.
     sql [MoverErrors] (\<lambda>d. ((), d\<lparr>mover_errors :=
       sync_upsert_error (sync_error_key operation target) operation target message now
         (if immediate then 1 else 0) (mover_errors d)\<rparr>)))"

definition sync_clear_error :: "string \<Rightarrow> string \<Rightarrow> unit io" where
  "sync_clear_error operation target =
     sql [MoverErrors] (\<lambda>d. ((), d\<lparr>mover_errors :=
       delete_where (\<lambda>r. m_key r = sync_error_key operation target) (mover_errors d)\<rparr>))"

section \<open>The local logs\<close>

definition list_local_log_dates :: "sync_config \<Rightarrow> string list io" where
  "list_local_log_dates cfg =
     bnd (gets (isdir (S_LOG_DIR cfg))) (\<lambda>there.
     if \<not> there then ret []
     else bnd (listdir (S_LOG_DIR cfg)) (\<lambda>names. ret (sort (List.map_filter LOG_FILENAME_RE names))))"

text \<open>\<open>enumerate\<close>.\<close>

definition enumerate_int :: "'a list \<Rightarrow> (int \<times> 'a) list" where
  "enumerate_int xs = zip (map int [0..<length xs]) xs"

definition lines_after :: "string \<Rightarrow> int \<Rightarrow> (int \<times> string) list" where
  "lines_after text after_offset =
     map (\<lambda>(i, raw). (i, rstrip_char NL raw))
       (filter (\<lambda>(i, raw). \<not> i \<le> after_offset) (enumerate_int (file_lines text)))"

definition read_log_lines_after :: "sync_config \<Rightarrow> string \<Rightarrow> int \<Rightarrow> (int \<times> string) list io" where
  "read_log_lines_after cfg date after_offset =
     (let path = path_join (S_LOG_DIR cfg) (log_filename_for date) in
      bnd (gets (isfile path)) (\<lambda>file.
      if \<not> file then ret []
      else thn (open_read path) (bnd (read_handle path) (\<lambda>text. ret (lines_after text after_offset)))))"

definition append_peer_line :: "sync_config \<Rightarrow> string \<Rightarrow> string \<Rightarrow> string \<Rightarrow> unit io" where
  "append_peer_line cfg peer date raw =
     (let d = path_join (PEER_LOGS_DIR cfg) peer; path = path_join d (log_filename_for date) in
      thn (makedirs d) (thn (open_write True path) (write_handle path (raw @ [NL]))))"

section \<open>Replaying a pulled line\<close>

text \<open>\<open>INSERT OR IGNORE INTO <tag>_events (url, timestamp, filename)\<close>: the directory takes its default.\<close>

definition default_event :: "event_tag \<Rightarrow> url \<Rightarrow> timestamp \<Rightarrow> filename \<Rightarrow> database \<Rightarrow> event" where
  "default_event tg url timestamp filename d =
     \<lparr>e_url = url, e_timestamp = timestamp, e_filename = filename, e_directory = dir_default tg d\<rparr>"

definition replay_event :: "event_tag \<Rightarrow> url \<Rightarrow> timestamp \<Rightarrow> filename \<Rightarrow> unit io" where
  "replay_event tg url timestamp filename =
     bnd (sql [event_table tg] (\<lambda>d. sql_insert_event tg (default_event tg url timestamp filename d) d)) (\<lambda>rowcount.
     if rowcount \<noteq> 0 then sql [Visits] (sql_bump tg url) else ret ())"

definition replay_into_db :: "string \<Rightarrow> unit io" where
  "replay_into_db raw =
     (let fields = split_on TAB raw in
      if length fields = 2 then ret ()
      else if length fields < 4 then ret ()
      else
        (let timestamp = fields ! 1; url = fields ! 2; title = fields ! 3 in
         thn (sql [Visits] (sql_insert_visit url timestamp title))
           (if length fields = 4 then ret ()
            else
              (let tag = fields ! 4 in
               if tag = ''of_interest'' then sql [Visits] (\<lambda>d. ((), snd (sql_set_of_interest url d)))
               else if tag = ''read'' \<and> 6 \<le> length fields then replay_event Read url timestamp (fields ! 5)
               else if tag = ''skimmed'' \<and> 6 \<le> length fields then replay_event Skimmed url timestamp (fields ! 5)
               else ret ()))))"

section \<open>Push\<close>

definition is_auth_error :: "exn \<Rightarrow> bool" where
  "is_auth_error e \<longleftrightarrow>
     (let s = lower (exn_str e)
      in contains s ''unauthenticated'' \<or> contains s ''permission_denied'' \<or> contains s ''certificate'')"

text \<open>\<open>except Exception\<close>.\<close>

fun is_python_exception :: "exn \<Rightarrow> bool" where
  "is_python_exception (SystemExit _) = False"
| "is_python_exception _ = True"

text \<open>One \<open>PushLogs\<close> request.\<close>

definition push_rpc :: "service \<Rightarrow> log_line list \<Rightarrow> unit io" where
  "push_rpc srv lines w =
     (case push_error srv (pushed w) lines of
        None \<Rightarrow> (Inr (), w\<lparr>pushed := pushed w @ [(True, lines)]\<rparr>)
      | Some e \<Rightarrow> (Inl e, w\<lparr>pushed := pushed w @ [(False, lines)]\<rparr>))"

text \<open>The handler \<open>except Exception as e: record_error(...); raise\<close> of both directions.\<close>

definition record_and_raise :: "string \<Rightarrow> string \<Rightarrow> exn \<Rightarrow> 'a io" where
  "record_and_raise operation endpoint e =
     (if is_python_exception e
      then thn (sync_record_error operation endpoint (exn_str e) (is_auth_error e)) (throw e)
      else throw e)"

definition send_push :: "service \<Rightarrow> string \<Rightarrow> log_line list \<Rightarrow> unit io" where
  "send_push srv endpoint lines =
     catch (thn (push_rpc srv lines) (sync_clear_error ''sync_push'' endpoint))
       (record_and_raise ''sync_push'' endpoint)"

text \<open>The loop state: the batch being collected and the position of the last line read.\<close>

type_synonym push_state = "log_line list \<times> string \<times> int"

definition push_line :: "service \<Rightarrow> string \<Rightarrow> string \<Rightarrow> push_state \<Rightarrow> int \<times> string \<Rightarrow> push_state io" where
  "push_line srv endpoint d st line =
     (let pb_lines = fst st @ [(d, fst line, snd line)] in
      if 500 \<le> length pb_lines
      then thn (send_push srv endpoint pb_lines) (ret ([], d, fst line))
      else ret (pb_lines, d, fst line))"

definition push_date :: "service \<Rightarrow> sync_config \<Rightarrow> string \<Rightarrow> string \<times> int \<Rightarrow> push_state \<Rightarrow> string \<Rightarrow> push_state io" where
  "push_date srv cfg endpoint cur st d =
     (let start_off = (if d = fst cur then snd cur else - 1) in
      bnd (read_log_lines_after cfg d start_off) (\<lambda>lines. fold_io (push_line srv endpoint d) st lines))"

definition do_push :: "service \<Rightarrow> sync_config \<Rightarrow> string \<Rightarrow> string \<Rightarrow> unit io" where
  "do_push srv cfg machine_id endpoint =
     bnd (get_cursor machine_id) (\<lambda>cur.
     bnd (list_local_log_dates cfg) (\<lambda>local_dates.
     let dates = (if fst cur \<noteq> [] then filter (\<lambda>d. fst cur \<le> d) local_dates else local_dates) in
     bnd (fold_io (push_date srv cfg endpoint cur) ([], cur) dates) (\<lambda>(pb_lines, pos).
     thn (if pb_lines \<noteq> [] then send_push srv endpoint pb_lines else ret ())
       (if pos \<noteq> cur then set_cursor machine_id (fst pos) (snd pos) else ret ()))))"

section \<open>Pull\<close>

definition pull_line :: "sync_config \<Rightarrow> string \<Rightarrow> string \<times> int \<Rightarrow> log_line \<Rightarrow> (string \<times> int) io" where
  "pull_line cfg peer pos line =
     (case line of (date, offset, raw) \<Rightarrow>
        thn (append_peer_line cfg peer date raw)
          (thn (replay_into_db raw) (ret (date, offset))))"

definition pull_chunk :: "sync_config \<Rightarrow> string \<times> log_line list \<Rightarrow> unit io" where
  "pull_chunk cfg chunk =
     bnd (get_cursor (fst chunk)) (\<lambda>cur.
     bnd (fold_io (pull_line cfg (fst chunk)) cur (snd chunk)) (\<lambda>pos.
     set_cursor (fst chunk) (fst pos) (snd pos)))"

definition do_pull :: "service \<Rightarrow> sync_config \<Rightarrow> string \<Rightarrow> string \<Rightarrow> unit io" where
  "do_pull srv cfg machine_id endpoint =
     bnd (select [SyncState] (\<lambda>d. map (\<lambda>r. (y_machine_id r, y_cursor_log_date r, y_cursor_line_offset r)) (sync_state d)))
       (\<lambda>cursors.
     catch
       (bnd (gets (\<lambda>w. pull srv (pushed w) cursors)) (\<lambda>(chunks, failure).
        thn (for_each chunks (pull_chunk cfg))
          (thn (case failure of None \<Rightarrow> ret () | Some e \<Rightarrow> throw e)
            (sync_clear_error ''sync_pull'' endpoint))))
       (record_and_raise ''sync_pull'' endpoint))"

section \<open>One invocation\<close>

text \<open>\<open>os.open(path, O_RDWR | O_CREAT, 0o600)\<close>.\<close>

definition os_open_create :: "path \<Rightarrow> unit io" where
  "os_open_create p = fs_op (\<lambda>w.
     (case node_at (files w) (comps_of p) of
        Some Dir \<Rightarrow> os_raise EISDIR w
      | Some (File s m) \<Rightarrow> if readable m \<and> writable m then ret () w else os_raise EACCES w
      | None \<Rightarrow>
          (case parent_error (comps_of p) (files w) of
             Some e \<Rightarrow> os_raise e w
           | None \<Rightarrow> ret () (w\<lparr>files := set_node (comps_of p) (File [] 384) (files w)\<rparr>))))"

definition file_lock :: "service \<Rightarrow> sync_config \<Rightarrow> unit io" where
  "file_lock srv cfg =
     thn (makedirs (dirname (LOCK_FILE cfg)))
       (thn (os_open_create (LOCK_FILE cfg))
         (case lock_error srv of
            None \<Rightarrow> ret ()
          | Some (OSError EAGAIN s) \<Rightarrow> throw (SystemExit 0)
          | Some e \<Rightarrow> throw e))"

definition build_channel :: "service \<Rightarrow> sync_config \<Rightarrow> bool \<Rightarrow> unit io" where
  "build_channel srv cfg insecure =
     (case stubs_error srv of
        Some e \<Rightarrow> throw e
      | None \<Rightarrow>
          if insecure then ret ()
          else for_each [''client.crt'', ''client.key'', ''server-ca.crt''] (\<lambda>f.
            thn (open_read (path_join (TLS_DIR cfg) f))
              (bnd (read_handle (path_join (TLS_DIR cfg) f)) (\<lambda>_. ret ()))))"

text \<open>The two \<open>try\<close> blocks of \<open>main\<close>.\<close>

definition handshake :: "service \<Rightarrow> sync_config \<Rightarrow> bool \<Rightarrow> string \<Rightarrow> string \<Rightarrow> bool io" where
  "handshake srv cfg insecure machine_id endpoint =
     catch (thn (build_channel srv cfg insecure) (ret True))
       (\<lambda>e. if is_python_exception e
            then thn (mark_attempt machine_id (exn_str e))
                   (thn (sync_record_error ''sync_handshake'' endpoint (exn_str e) True)
                     (thn commit (ret False)))
            else throw e)"

definition exchange :: "service \<Rightarrow> sync_config \<Rightarrow> string \<Rightarrow> string \<Rightarrow> int io" where
  "exchange srv cfg machine_id endpoint =
     catch
       (thn (do_push srv cfg machine_id endpoint)
         (thn commit
           (thn (do_pull srv cfg machine_id endpoint)
             (thn commit
               (thn (mark_attempt machine_id []) (thn commit (ret 0)))))))
       (\<lambda>e. if is_python_exception e
            then thn (mark_attempt machine_id (exn_str e)) (thn commit (ret 1))
            else throw e)"

definition sync_session :: "service \<Rightarrow> sync_config \<Rightarrow> bool \<Rightarrow> bool \<Rightarrow> string \<Rightarrow> string \<Rightarrow> int io" where
  "sync_session srv cfg insecure force machine_id endpoint =
     bnd (if force then ret False else should_skip cfg machine_id) (\<lambda>skip.
     if skip then ret 0
     else
       thn (mark_attempt machine_id [])
         (thn commit
           (bnd (handshake srv cfg insecure machine_id endpoint) (\<lambda>channel.
            if channel then exchange srv cfg machine_id endpoint else ret 1))))"

text \<open>\<open>None\<close> or an empty text for the machine id or the endpoint: not configured.\<close>

definition sync_main ::
    "service \<Rightarrow> sync_config \<Rightarrow> bool \<Rightarrow> bool \<Rightarrow> string \<Rightarrow> string \<Rightarrow> int io" where
  "sync_main srv cfg insecure force machine_id endpoint =
     (if machine_id = [] then ret 2
      else if endpoint = [] then ret 0
      else
        thn (file_lock srv cfg)
          (thn open_db
            (lastly (sync_session srv cfg insecure force machine_id endpoint) close)))"

end
