(* ===== verification/SyncCorrect.thy ===== *)
theory SyncCorrect
  imports SyncClient "HOL-Library.Sublist"
begin

text \<open>
  What the operations of SyncClient compute. A pulled line is an action on the database
  (\<open>db_sync\<close>), and the actions satisfy the contract of a replay; a push sends the lines past the cursor
  (\<open>pending_lines\<close>) in batches (\<open>batches\<close>), whatever fails; both leave the rest of the state alone.
\<close>

text \<open>The rules of the combinators for a precondition that is not applied to a state.\<close>

lemma wp_fun:
  "wp (ret a) Q E = Q a" "wp (throw e) Q E = E e"
  "wp (bnd m f) Q E = wp m (\<lambda>a. wp (f a) Q E) E"
  "wp (thn k n) Q E = wp k (\<lambda>_. wp n Q E) E"
  "wp (catch n h) Q E = wp n Q (\<lambda>e. wp (h e) Q E)"
  by (simp_all add: fun_eq_iff wp_simps)

section \<open>The error log\<close>

interpretation sync_log: error_log "lookup_key m_key" sync_upsert_error "\<lambda>k. delete_where (\<lambda>r. m_key r = k)"
  by unfold_locales (auto simp: sync_upsert_error_def lookup_upsert lookup_delete_key again_def new_error_def)

section \<open>Replay of a pulled line\<close>

text \<open>The action in a line: a result line and a short line have none; an unknown or incomplete tag is no tag.\<close>

definition sync_action :: "string \<Rightarrow> action option" where
  "sync_action raw =
     (let f = split_on TAB raw; n = length f;
          tag = (if n < 5 then []
                 else if f ! 4 = ''of_interest'' \<or> (f ! 4 = ''read'' \<or> f ! 4 = ''skimmed'') \<and> 6 \<le> n then f ! 4
                 else [])
      in if n < 4 then None
         else Some \<lparr>a_timestamp = f ! 1, a_url = f ! 2, a_title = f ! 3, a_tag = tag,
                    a_filename = (if 6 \<le> n then f ! 5 else [])\<rparr>)"

definition db_sync_action :: "action \<Rightarrow> database \<Rightarrow> database" where
  "db_sync_action a d =
     (let d' = snd (sql_insert_visit (a_url a) (a_timestamp a) (a_title a) d)
      in if a_tag a = ''of_interest'' then snd (sql_set_of_interest (a_url a) d')
         else if a_tag a = ''read''
         then db_event Read (default_event Read (a_url a) (a_timestamp a) (a_filename a) d') d'
         else if a_tag a = ''skimmed''
         then db_event Skimmed (default_event Skimmed (a_url a) (a_timestamp a) (a_filename a) d') d'
         else d')"

definition db_sync :: "string \<Rightarrow> database \<Rightarrow> database" where
  "db_sync raw d = (case sync_action raw of None \<Rightarrow> d | Some a \<Rightarrow> db_sync_action a d)"

definition sync_covered :: "string \<Rightarrow> database \<Rightarrow> bool" where
  "sync_covered raw d = (case sync_action raw of None \<Rightarrow> True | Some a \<Rightarrow> db_covered a d)"

lemma default_event_sel [simp]:
  "e_url (default_event tg u ts f d) = u" "event_key (default_event tg u ts f d) = (u, ts)"
  by (simp_all add: default_event_def event_key_def)

lemma db_sync_action_covered: "db_covered a (db_sync_action a d)"
  by (auto simp: db_covered_def db_sync_action_def Let_def intro: interest_of_interest)

lemma db_sync_action_mono: "db_covered a d \<Longrightarrow> db_covered a (db_sync_action b d)"
  by (auto simp: db_covered_def db_sync_action_def Let_def
      intro!: interest_of_interest interest_insert interest_event)

lemma db_sync_action_noop: "db_covered a d \<Longrightarrow> db_sync_action a d = d"
  by (auto simp: db_covered_def db_sync_action_def Let_def insert_visit_again of_interest_again db_event_old)

lemma db_ok_sync_action: "db_ok d \<Longrightarrow> db_ok (db_sync_action a d)"
  by (auto simp: db_sync_action_def Let_def intro!: db_ok_insert_visit db_ok_of_interest db_ok_event)

interpretation sync_replay: idempotent_replay db_sync sync_covered
  by unfold_locales
    (auto simp: sync_covered_def db_sync_def db_sync_action_covered db_sync_action_mono db_sync_action_noop
       split: option.splits)

lemma db_ok_sync: "db_ok d \<Longrightarrow> db_ok (db_sync raw d)"
  by (simp add: db_sync_def db_ok_sync_action split: option.split)

lemma default_event_set [simp]: "default_event tg u ts f (set_events tg' es d) = default_event tg u ts f d"
  by (cases tg; cases tg') (simp_all add: default_event_def)

text \<open>What a line leaves alone.\<close>

lemma event_tables [simp]:
  "tables (db_event tg e d) = tables d" "sync_state (db_event tg e d) = sync_state d"
  "mover_errors (db_event tg e d) = mover_errors d"
  by (cases tg; simp add: db_event_def sql_bump_def)+

lemma sync_frame [simp]:
  "tables (db_sync raw d) = tables d" "sync_state (db_sync raw d) = sync_state d"
  "mover_errors (db_sync raw d) = mover_errors d"
  by (auto simp: db_sync_def db_sync_action_def Let_def sql_insert_visit_def sql_set_of_interest_def
      update_where_def split: option.split)

section \<open>Runs in which no statement fails\<close>

definition quiet :: "world \<Rightarrow> bool" where
  "quiet w \<longleftrightarrow> db_faults w = [] \<and>
     list_all (\<lambda>t. t \<in> set (tables (db w))) [Visits, ReadEvents, SkimmedEvents, SyncState, MoverErrors]"

lemma quiet_have_tables: "quiet w \<Longrightarrow> Snapshots \<notin> set ts \<Longrightarrow> have_tables ts (db w)"
proof -
  assume q: "quiet w" and ts: "Snapshots \<notin> set ts"
  have "t \<in> set (tables (db w))" if "t \<noteq> Snapshots" for t
    using q that by (cases t) (simp_all add: quiet_def)
  with ts show ?thesis by (metis have_tables_def list_all_iff)
qed

lemma quiet_sql:
  "quiet w \<Longrightarrow> Snapshots \<notin> set ts \<Longrightarrow>
   sql ts f w = (Inr (fst (f (db w))), w\<lparr>db := snd (f (db w)), in_tx := True\<rparr>)"
  using quiet_have_tables [of w ts] by (simp add: sql_def db_op_def quiet_def)

lemma quiet_select:
  "quiet w \<Longrightarrow> Snapshots \<notin> set ts \<Longrightarrow> select ts f w = (Inr (f (db w)), w)"
  using quiet_have_tables [of w ts] by (simp add: select_def db_op_def quiet_def)

lemma quiet_commit: "quiet w \<Longrightarrow> commit w = (Inr (), w\<lparr>disk := db w, in_tx := False\<rparr>)"
  by (simp add: commit_def db_op_def quiet_def)

lemma quiet_update [simp]:
  "quiet (w\<lparr>files := fs\<rparr>) = quiet w" "quiet (w\<lparr>disk := d\<rparr>) = quiet w" "quiet (w\<lparr>in_tx := t\<rparr>) = quiet w"
  "quiet (w\<lparr>reads := n\<rparr>) = quiet w" "quiet (w\<lparr>pushed := ps\<rparr>) = quiet w" "quiet (w\<lparr>fs_faults := fl\<rparr>) = quiet w"
  by (simp_all add: quiet_def)

lemma quiet_db [simp]: "tables d = tables (db w) \<Longrightarrow> quiet (w\<lparr>db := d\<rparr>) = quiet w"
  by (simp add: quiet_def)

lemma statement_tables [simp]:
  "tables (snd (sql_insert_visit u ts ti d)) = tables d" "tables (snd (sql_set_of_interest u d)) = tables d"
  "tables (snd (sql_insert_event tg e d)) = tables d" "tables (snd (sql_bump tg u d)) = tables d"
  by (cases tg; simp add: sql_insert_visit_def sql_set_of_interest_def update_where_def
      sql_insert_event_def insert_or_ignore_def sql_bump_def)+

lemma event_not_snapshots [simp]: "event_table tg \<noteq> Snapshots" "Snapshots \<noteq> event_table tg"
  by (cases tg; simp)+

lemma run_replay_event:
  assumes "quiet w"
  shows "\<exists>b. replay_event tg u ts f w =
    (Inr (), w\<lparr>db := db_event tg (default_event tg u ts f (db w)) (db w), in_tx := b\<rparr>)"
proof (cases "has_key event_key (u, ts) (events tg (db w))")
  case True
  with assms show ?thesis
    by (intro exI [of _ True]) (simp add: replay_event_def io_simps quiet_sql sql_insert_event_split db_event_def)
next
  case False
  have "tables (set_events tg es d) = tables d" for es d by (cases tg) simp_all
  with False assms show ?thesis
    by (intro exI [of _ True]) (simp add: replay_event_def io_simps quiet_sql sql_insert_event_split db_event_def)
qed

lemma run_replay:
  assumes "quiet w"
  shows "\<exists>b. replay_into_db raw w = (Inr (), w\<lparr>db := db_sync raw (db w), in_tx := b\<rparr>)"
proof -
  let ?f = "split_on TAB raw"
  let ?w = "w\<lparr>db := snd (sql_insert_visit (?f ! 2) (?f ! 1) (?f ! 3) (db w)), in_tx := True\<rparr>"
  have q: "quiet ?w" using assms by simp
  have w: "w = w\<lparr>db := db w, in_tx := in_tx w\<rparr>" by simp
  have ev: "\<exists>b. replay_event tg u ts f ?w =
      (Inr (), w\<lparr>db := db_event tg (default_event tg u ts f (db ?w)) (db ?w), in_tx := b\<rparr>)" for tg u ts f
    using run_replay_event [OF q, of tg u ts f] by simp
  consider "length ?f < 4" | "length ?f = 4" | "5 \<le> length ?f" by linarith
  then show ?thesis
  proof cases
    case 1
    then have "db_sync raw (db w) = db w" by (simp add: db_sync_def sync_action_def Let_def)
    with 1 show ?thesis
      by (intro exI [of _ "in_tx w"]) (auto simp: replay_into_db_def Let_def io_simps)
  next
    case 2
    with assms show ?thesis
      by (intro exI [of _ True])
        (simp add: replay_into_db_def db_sync_def sync_action_def db_sync_action_def Let_def io_simps quiet_sql)
  next
    case 3
    let ?tag = "?f ! 4"
    have start: "replay_into_db raw w =
        (if ?tag = ''of_interest'' then sql [Visits] (\<lambda>d. ((), snd (sql_set_of_interest (?f ! 2) d)))
         else if ?tag = ''read'' \<and> 6 \<le> length ?f then replay_event Read (?f ! 2) (?f ! 1) (?f ! 5)
         else if ?tag = ''skimmed'' \<and> 6 \<le> length ?f then replay_event Skimmed (?f ! 2) (?f ! 1) (?f ! 5)
         else ret ()) ?w"
      using 3 assms by (simp add: replay_into_db_def Let_def io_simps quiet_sql)
    have act: "db_sync raw (db w) =
        (if ?tag = ''of_interest'' then snd (sql_set_of_interest (?f ! 2) (db ?w))
         else if ?tag = ''read'' \<and> 6 \<le> length ?f
         then db_event Read (default_event Read (?f ! 2) (?f ! 1) (?f ! 5) (db ?w)) (db ?w)
         else if ?tag = ''skimmed'' \<and> 6 \<le> length ?f
         then db_event Skimmed (default_event Skimmed (?f ! 2) (?f ! 1) (?f ! 5) (db ?w)) (db ?w)
         else db ?w)"
      using 3 by (simp add: db_sync_def sync_action_def db_sync_action_def Let_def)
    consider "?tag = ''of_interest''" | "?tag = ''read'' \<and> 6 \<le> length ?f" | "?tag = ''skimmed'' \<and> 6 \<le> length ?f"
      | "?tag \<noteq> ''of_interest''" "\<not> (?tag = ''read'' \<and> 6 \<le> length ?f)" "\<not> (?tag = ''skimmed'' \<and> 6 \<le> length ?f)"
      by blast
    then show ?thesis
    proof cases
      case 1
      then show ?thesis unfolding start act by (intro exI [of _ True]) (simp add: quiet_sql assms)
    next
      case 2
      then have r: "replay_into_db raw w = replay_event Read (?f ! 2) (?f ! 1) (?f ! 5) ?w"
        and a: "db_sync raw (db w) = db_event Read (default_event Read (?f ! 2) (?f ! 1) (?f ! 5) (db ?w)) (db ?w)"
        by (simp_all add: start act)
      show ?thesis
        unfolding r a using ev [of Read "?f ! 2" "?f ! 1" "?f ! 5"] by simp
    next
      case 3
      then have r: "replay_into_db raw w = replay_event Skimmed (?f ! 2) (?f ! 1) (?f ! 5) ?w"
        and a: "db_sync raw (db w) = db_event Skimmed (default_event Skimmed (?f ! 2) (?f ! 1) (?f ! 5) (db ?w)) (db ?w)"
        by (simp_all add: start act)
      show ?thesis
        unfolding r a using ev [of Skimmed "?f ! 2" "?f ! 1" "?f ! 5"] by simp
    next
      case 4
      show ?thesis
        unfolding start act if_not_P [OF 4(1)] if_not_P [OF 4(2)] if_not_P [OF 4(3)]
        by (intro exI [of _ True]) (simp add: ret_def)
    qed
  qed
qed

section \<open>The lines to push\<close>

text \<open>
  The specification of a push: the log lines past the cursor in the order of date and line number,
  and how a list is cut into batches.
\<close>

definition local_dates :: "sync_config \<Rightarrow> store \<Rightarrow> string list" where
  "local_dates cfg fs =
     (if node_at fs (comps_of (S_LOG_DIR cfg)) = Some Dir
      then sort (List.map_filter LOG_FILENAME_RE (children (comps_of (S_LOG_DIR cfg)) fs)) else [])"

definition log_text :: "sync_config \<Rightarrow> store \<Rightarrow> string \<Rightarrow> string" where
  "log_text cfg fs d =
     (case node_at fs (comps_of (path_join (S_LOG_DIR cfg) (log_filename_for d))) of
        Some (File s _) \<Rightarrow> univ_nl s
      | _ \<Rightarrow> [])"

definition date_lines :: "sync_config \<Rightarrow> store \<Rightarrow> string \<times> int \<Rightarrow> string \<Rightarrow> log_line list" where
  "date_lines cfg fs cur d =
     map (\<lambda>x. (d, fst x, snd x)) (lines_after (log_text cfg fs d) (if d = fst cur then snd cur else - 1))"

definition pending_dates :: "sync_config \<Rightarrow> store \<Rightarrow> string \<times> int \<Rightarrow> string list" where
  "pending_dates cfg fs cur =
     (if fst cur \<noteq> [] then filter (\<lambda>d. fst cur \<le> d) (local_dates cfg fs) else local_dates cfg fs)"

definition pending_lines :: "sync_config \<Rightarrow> store \<Rightarrow> string \<times> int \<Rightarrow> log_line list" where
  "pending_lines cfg fs cur = concat (map (date_lines cfg fs cur) (pending_dates cfg fs cur))"

definition line_pos :: "log_line \<Rightarrow> string \<times> int" where
  "line_pos l = (fst l, fst (snd l))"

definition end_pos :: "string \<times> int \<Rightarrow> log_line list \<Rightarrow> string \<times> int" where
  "end_pos cur ls = (if ls = [] then cur else line_pos (last ls))"

definition cursor_of :: "string \<Rightarrow> database \<Rightarrow> string \<times> int" where
  "cursor_of m d =
     (case lookup_key y_machine_id m (sync_state d) of
        None \<Rightarrow> ([], - 1)
      | Some r \<Rightarrow> (y_cursor_log_date r, y_cursor_line_offset r))"

function batches :: "nat \<Rightarrow> 'a list \<Rightarrow> 'a list list" where
  "batches n xs = (if xs = [] \<or> n = 0 then [] else take n xs # batches n (drop n xs))"
  by pat_completeness auto
termination by (relation "measure (\<lambda>(n, xs). length xs)") auto

declare batches.simps [simp del]

lemma batches_unique:
  assumes "list_all (\<lambda>b. length b = n) bs" and "length pb < n"
  shows "batches n (concat bs @ pb) = bs @ (if pb = [] then [] else [pb])"
  using assms
proof (induction bs)
  case Nil
  then show ?case by (simp add: batches.simps [of n pb] batches.simps [of n "[]"])
next
  case (Cons b bs)
  then show ?case by (subst batches.simps) auto
qed

lemma concat_batches: "0 < n \<Longrightarrow> concat (batches n xs) = xs"
proof (induction n xs rule: batches.induct)
  case (1 n xs)
  then show ?case by (subst batches.simps) auto
qed

lemma batches_bound: "b \<in> set (batches n xs) \<Longrightarrow> b \<noteq> [] \<and> length b \<le> n"
proof (induction n xs rule: batches.induct)
  case (1 n xs)
  from 1(2) have ne: "\<not> (xs = [] \<or> n = 0)" by (cases "xs = [] \<or> n = 0") (auto simp: batches.simps [of n xs])
  with 1(2) have "b = take n xs \<or> b \<in> set (batches n (drop n xs))" by (simp add: batches.simps [of n xs])
  with ne 1(1) show ?case by auto
qed

section \<open>What a push does\<close>

text \<open>A push changes no file and nothing but \<open>mover_errors\<close> until it sets the cursor.\<close>

definition push_frame :: "world \<Rightarrow> world \<Rightarrow> bool" where
  "push_frame w w' \<longleftrightarrow> files w' = files w \<and> disk w' = disk w \<and> (db w')\<lparr>mover_errors := []\<rparr> = (db w)\<lparr>mover_errors := []\<rparr>"

lemma push_frame_refl [simp]: "push_frame w w"
  by (simp add: push_frame_def)

lemma push_frame_trans: "push_frame u v \<Longrightarrow> push_frame v w \<Longrightarrow> push_frame u w"
  by (auto simp: push_frame_def)

lemma push_frame_db:
  assumes "push_frame w w'"
  shows "sync_state (db w') = sync_state (db w)" "visits (db w') = visits (db w)"
    "events tg (db w') = events tg (db w)" "tables (db w') = tables (db w)"
proof -
  have eq: "(db w')\<lparr>mover_errors := []\<rparr> = (db w)\<lparr>mover_errors := []\<rparr>"
    using assms by (simp add: push_frame_def)
  show "sync_state (db w') = sync_state (db w)" "visits (db w') = visits (db w)"
    "events tg (db w') = events tg (db w)" "tables (db w') = tables (db w)"
    using arg_cong [OF eq, of sync_state] arg_cong [OF eq, of visits] arg_cong [OF eq, of "events tg"]
      arg_cong [OF eq, of tables] by simp_all
qed

lemma push_frame_cursor: "push_frame w w' \<Longrightarrow> cursor_of m (db w') = cursor_of m (db w)"
  by (simp add: cursor_of_def push_frame_db)

lemma push_frame_update [simp]:
  "push_frame w (w'\<lparr>db_faults := dl\<rparr>) = push_frame w w'" "push_frame w (w'\<lparr>fs_faults := fl\<rparr>) = push_frame w w'"
  "push_frame w (w'\<lparr>reads := n\<rparr>) = push_frame w w'" "push_frame w (w'\<lparr>in_tx := b\<rparr>) = push_frame w w'"
  "push_frame w (w'\<lparr>pushed := ps\<rparr>) = push_frame w w'"
  by (simp_all add: push_frame_def)

lemma wp_push_rpc [wp_simps]:
  "wp (push_rpc srv ls) Q E w =
     (case push_error srv (pushed w) ls of
        None \<Rightarrow> Q () (w\<lparr>pushed := pushed w @ [(True, ls)]\<rparr>)
      | Some e \<Rightarrow> E e (w\<lparr>pushed := pushed w @ [(False, ls)]\<rparr>))"
  by (simp add: wp_def push_rpc_def split: option.split)

lemma wp_record_and_raise:
  assumes "\<And>e' w'. push_frame w w' \<Longrightarrow> pushed w' = pushed w \<Longrightarrow> E e' w'"
  shows "wp (record_and_raise op endpoint e) Q E w"
proof -
  have "wp (sync_record_error op endpoint s b) (\<lambda>_. E e) E w" for s b
    unfolding sync_record_error_def Let_def wp_bnd wp_now_iso
    by (rule wp_sql; rule assms) (auto simp: push_frame_def)
  then show ?thesis
    using assms by (simp add: record_and_raise_def wp_fun)
qed

lemma wp_send_push:
  "wp (send_push srv endpoint ls)
     (\<lambda>_ w'. push_frame w w' \<and> pushed w' = pushed w @ [(True, ls)])
     (\<lambda>_ w'. push_frame w w' \<and> (\<exists>b. pushed w' = pushed w @ [(b, ls)])) w"
proof -
  let ?E = "\<lambda>_ w'. push_frame w w' \<and> (\<exists>b. pushed w' = pushed w @ [(b, ls)])"
  have handler: "wp (record_and_raise ''sync_push'' endpoint e) Q ?E w'" if "?E e w'" for e w' Q
    using that by (intro wp_record_and_raise) (auto intro: push_frame_trans)
  have "wp (sync_clear_error ''sync_push'' endpoint) (\<lambda>_ w'. push_frame w w' \<and> pushed w' = pushed w @ [(True, ls)])
      (\<lambda>e. wp (record_and_raise ''sync_push'' endpoint e) Q ?E) (w\<lparr>pushed := pushed w @ [(True, ls)]\<rparr>)" for Q
    unfolding sync_clear_error_def
    by (rule wp_sql; (rule handler)?) (auto simp: push_frame_def)
  then show ?thesis
    unfolding send_push_def wp_catch wp_thn wp_push_rpc
    by (cases "push_error srv (pushed w) ls") (auto intro!: handler)
qed

section \<open>The push loop\<close>

text \<open>
  The state of the loop after the lines \<open>done\<close>: full batches went out, the rest is collected, nothing else
  changed.
\<close>

definition push_inv :: "world \<Rightarrow> string \<times> int \<Rightarrow> log_line list \<Rightarrow> push_state \<Rightarrow> world \<Rightarrow> bool" where
  "push_inv w cur ls st w' \<longleftrightarrow> push_frame w w' \<and> snd st = end_pos cur ls \<and> length (fst st) < 500
     \<and> (\<exists>bs. pushed w' = pushed w @ map (Pair True) bs \<and> concat bs @ fst st = ls
            \<and> list_all (\<lambda>b. length b = 500) bs)"

text \<open>What an exception leaves: accepted batches that are a prefix of the lines, and at most one that is open.\<close>

definition push_err :: "world \<Rightarrow> log_line list \<Rightarrow> world \<Rightarrow> bool" where
  "push_err w ls w' \<longleftrightarrow> push_frame w w'
     \<and> (\<exists>bs rest. pushed w' = pushed w @ map (Pair True) bs @ map (Pair False) rest
            \<and> prefix (concat bs @ concat rest) ls \<and> length rest \<le> 1
            \<and> list_all (\<lambda>b. b \<noteq> [] \<and> length b \<le> 500) (bs @ rest))"

lemma push_inv_err: "push_inv w cur ls st w' \<Longrightarrow> prefix ls all \<Longrightarrow> push_err w all w'"
proof -
  assume "push_inv w cur ls st w'" "prefix ls all"
  then obtain bs where "push_frame w w'" "pushed w' = pushed w @ map (Pair True) bs" "prefix (concat bs) all"
      "list_all (\<lambda>b. length b = 500) bs"
    unfolding push_inv_def by (metis append_prefixD)
  moreover from this(4) have "list_all (\<lambda>b. b \<noteq> [] \<and> length b \<le> 500) bs" by (auto simp: list_all_iff)
  ultimately show ?thesis
    unfolding push_err_def by (intro conjI exI [of _ bs] exI [of _ "[]"]) auto
qed

lemma push_inv_blind [simp]:
  "push_inv w cur ls st (w'\<lparr>fs_faults := fl\<rparr>) = push_inv w cur ls st w'"
  by (simp add: push_inv_def)

lemma send_push_err:
  assumes "push_inv w cur ls st w'" and "push_frame w' w''" and "pushed w'' = pushed w' @ [(b, fst st @ extra)]"
    and "prefix (ls @ extra) all" and len: "fst st @ extra \<noteq> []" "length (fst st @ extra) \<le> 500"
  shows "push_err w all w''"
proof -
  obtain bs where bs: "pushed w' = pushed w @ map (Pair True) bs" "concat bs @ fst st = ls"
      and b500: "list_all (\<lambda>b. length b = 500) bs"
    using assms(1) by (auto simp: push_inv_def)
  have b: "list_all (\<lambda>b. b \<noteq> [] \<and> length b \<le> 500) (bs @ [fst st @ extra])"
    using b500 len by (auto simp: list_all_iff)
  have f: "push_frame w w''" using assms(1,2) by (auto simp: push_inv_def intro: push_frame_trans)
  have pre: "prefix (concat bs @ fst st @ extra) all" using assms(4) bs(2) by (metis append.assoc)
  show ?thesis
  proof (cases b)
    case True
    with f pre show ?thesis
      unfolding push_err_def using bs(1) assms(3) b
      by (intro conjI exI [of _ "bs @ [fst st @ extra]"] exI [of _ "[]"]) auto
  next
    case False
    with f pre show ?thesis
      unfolding push_err_def using bs(1) assms(3) b
      by (intro conjI exI [of _ bs] exI [of _ "[fst st @ extra]"]) auto
  qed
qed

lemma push_line_step:
  assumes inv: "push_inv w cur ls st w'" and pre: "prefix (ls @ [(d, x)]) all"
  shows "wp (push_line srv endpoint d st x) (push_inv w cur (ls @ [(d, x)])) (\<lambda>_. push_err w all) w'"
proof -
  let ?pb = "fst st @ [(d, fst x, snd x)]"
  have pos: "end_pos cur (ls @ [(d, x)]) = (d, fst x)" by (simp add: end_pos_def line_pos_def)
  obtain bs where bs: "pushed w' = pushed w @ map (Pair True) bs" "concat bs @ fst st = ls"
      "list_all (\<lambda>b. length b = 500) bs" and f: "push_frame w w'" and l: "length (fst st) < 500"
    using inv by (auto simp: push_inv_def)
  show ?thesis
  proof (cases "500 \<le> length ?pb")
    case True
    have ok: "push_inv w cur (ls @ [(d, x)]) ([], d, fst x) w''"
      if "push_frame w' w''" "pushed w'' = pushed w' @ [(True, ?pb)]" for w''
      using that bs f l True unfolding push_inv_def
      by (intro conjI) (auto simp: pos intro: push_frame_trans intro!: exI [of _ "bs @ [?pb]"])
    have bad: "push_err w all w''" if "push_frame w' w''" "pushed w'' = pushed w' @ [(b, ?pb)]" for w'' b
      by (rule send_push_err [OF inv that(1), of b "[(d, x)]"]) (use that pre l in auto)
    have "wp (send_push srv endpoint ?pb) (\<lambda>_. push_inv w cur (ls @ [(d, x)]) ([], d, fst x)) (\<lambda>_. push_err w all) w'"
      by (rule wp_mono [OF wp_send_push]) (use ok bad in blast)+
    then show ?thesis
      unfolding push_line_def Let_def if_P [OF True] wp_fun .
  next
    case False
    then have "push_inv w cur (ls @ [(d, x)]) (?pb, d, fst x) w'"
      unfolding push_inv_def using bs f by (intro conjI exI [of _ bs]) (simp_all add: pos)
    then show ?thesis
      unfolding push_line_def Let_def if_not_P [OF False] wp_fun .
  qed
qed

text \<open>Folds whose invariant speaks of what was consumed, as a prefix of all there is.\<close>

lemma wp_fold_io_prefix:
  assumes "I [] s w"
    and "\<And>ys x zs s w. xs = ys @ x # zs \<Longrightarrow> I ys s w \<Longrightarrow> wp (body s x) (I (ys @ [x])) E w"
  shows "wp (fold_io body s xs) (I xs) E w"
proof -
  have "I ys s w \<Longrightarrow> xs = ys @ zs \<Longrightarrow> wp (fold_io body s zs) (I xs) E w" for ys zs
  proof (induction zs arbitrary: ys s w)
    case Nil
    then show ?case by (simp add: wp_simps)
  next
    case (Cons z zs)
    have "wp (body s z) (I (ys @ [z])) E w"
      using Cons.prems by (intro assms(2)) auto
    then show ?case
      unfolding fold_io.simps wp_bnd
      by (rule wp_mono) (use Cons.IH [where ys = "ys @ [z]"] Cons.prems in auto)
  qed
  from this [of "[]" xs] assms(1) show ?thesis by simp
qed

lemma wp_for_each_prefix:
  assumes "I [] w"
    and "\<And>ys x zs w. xs = ys @ x # zs \<Longrightarrow> I ys w \<Longrightarrow> wp (body x) (\<lambda>_. I (ys @ [x])) E w"
  shows "wp (for_each xs body) (\<lambda>_. I xs) E w"
proof -
  have "I ys w \<Longrightarrow> xs = ys @ zs \<Longrightarrow> wp (for_each zs body) (\<lambda>_. I xs) E w" for ys zs
  proof (induction zs arbitrary: ys w)
    case Nil
    then show ?case by (simp add: wp_simps)
  next
    case (Cons z zs)
    have "wp (body z) (\<lambda>_. I (ys @ [z])) E w"
      using Cons.prems by (intro assms(2)) auto
    then show ?case
      unfolding for_each.simps wp_bnd
      by (rule wp_mono) (use Cons.IH [where ys = "ys @ [z]"] Cons.prems in auto)
  qed
  from this [of "[]" xs] assms(1) show ?thesis by simp
qed

lemma push_lines_step:
  assumes "push_inv w cur ls st w'" and "prefix (ls @ map (Pair d) xs) all"
  shows "wp (fold_io (push_line srv endpoint d) st xs) (push_inv w cur (ls @ map (Pair d) xs)) (\<lambda>_. push_err w all) w'"
proof (rule wp_fold_io_prefix [where I = "\<lambda>ys. push_inv w cur (ls @ map (Pair d) ys)"])
  show "push_inv w cur (ls @ map (Pair d) []) st w'" using assms(1) by simp
  fix ys x zs s v
  assume xs: "xs = ys @ x # zs" and i: "push_inv w cur (ls @ map (Pair d) ys) s v"
  have "prefix ((ls @ map (Pair d) ys) @ [(d, x)]) all"
    using assms(2) unfolding xs by (auto simp: prefix_def)
  from push_line_step [OF i this]
  show "wp (push_line srv endpoint d s x) (push_inv w cur (ls @ map (Pair d) (ys @ [x]))) (\<lambda>_. push_err w all) v"
    by simp
qed

lemma read_lines:
  assumes "files w = fs" and "\<And>fl. P (w\<lparr>fs_faults := fl\<rparr>)"
    and "\<And>fl. Q (lines_after (log_text cfg fs d) off) (w\<lparr>fs_faults := fl\<rparr>)"
  shows "wp (read_log_lines_after cfg d off) Q (\<lambda>_. P) w"
proof -
  have none: "Q [] w" if "\<not> isfile (path_join (S_LOG_DIR cfg) (log_filename_for d)) w"
    using assms(3) [of "fs_faults w"] that assms(1)
    by (auto simp: isfile_def log_text_def lines_after_def enumerate_int_def
        split: option.splits node.splits)
  let ?p = "path_join (S_LOG_DIR cfg) (log_filename_for d)"
  show ?thesis
  proof (cases "isfile ?p w")
    case True
    have "wp (open_read ?p) (\<lambda>_. wp (read_handle ?p) (\<lambda>a. Q (lines_after a off)) (\<lambda>_. P)) (\<lambda>_. P) w"
    proof (rule wp_open_read)
      fix fl
      show "wp (read_handle ?p) (\<lambda>a. Q (lines_after a off)) (\<lambda>_. P) (w\<lparr>fs_faults := fl\<rparr>)"
        by (rule wp_read_handle) (use assms in \<open>auto simp: log_text_def\<close>)
    qed (use assms in auto)
    with True show ?thesis
      by (simp add: read_log_lines_after_def Let_def wp_fun wp_gets)
  next
    case False
    then show ?thesis
      using none by (simp add: read_log_lines_after_def Let_def wp_bnd wp_gets wp_ret)
  qed
qed

lemma push_dates_step:
  assumes "push_inv w cur (concat (map (date_lines cfg (files w) cur) ds)) st w'"
    and "prefix (concat (map (date_lines cfg (files w) cur) (ds @ [d]))) all"
  shows "wp (push_date srv cfg endpoint cur st d)
     (push_inv w cur (concat (map (date_lines cfg (files w) cur) (ds @ [d])))) (\<lambda>_. push_err w all) w'"
proof -
  let ?off = "if d = fst cur then snd cur else - 1"
  let ?xs = "lines_after (log_text cfg (files w) d) ?off"
  have lines: "date_lines cfg (files w) cur d = map (Pair d) ?xs"
    by (simp add: date_lines_def)
  have pre: "prefix (concat (map (date_lines cfg (files w) cur) ds) @ map (Pair d) ?xs) all"
    using assms(2) by (simp add: lines)
  have err: "push_err w all (w'\<lparr>fs_faults := fl\<rparr>)" for fl
    using push_inv_err [OF assms(1) append_prefixD [OF pre]] by (simp add: push_err_def)
  have fs: "files w' = files w" using assms(1) by (simp add: push_inv_def push_frame_def)
  show ?thesis
    unfolding push_date_def Let_def wp_bnd
  proof (rule read_lines [where P = "push_err w all", OF fs err])
    fix fl
    have "push_inv w cur (concat (map (date_lines cfg (files w) cur) ds)) st (w'\<lparr>fs_faults := fl\<rparr>)"
      using assms(1) by simp
    from push_lines_step [OF this pre, of srv endpoint]
    show "wp (fold_io (push_line srv endpoint d) st ?xs)
        (push_inv w cur (concat (map (date_lines cfg (files w) cur) (ds @ [d])))) (\<lambda>_. push_err w all) (w'\<lparr>fs_faults := fl\<rparr>)"
      by (simp add: lines)
  qed
qed

lemma push_dates_loop:
  "wp (fold_io (push_date srv cfg endpoint cur) ([], cur) ds)
     (push_inv w cur (concat (map (date_lines cfg (files w) cur) ds)))
     (\<lambda>_. push_err w (concat (map (date_lines cfg (files w) cur) ds))) w"
proof (rule wp_fold_io_prefix [where I = "\<lambda>ys. push_inv w cur (concat (map (date_lines cfg (files w) cur) ys))"])
  show "push_inv w cur (concat (map (date_lines cfg (files w) cur) [])) ([], cur) w"
    by (simp add: push_inv_def end_pos_def)
  fix ys x zs st w'
  assume "ds = ys @ x # zs" and "push_inv w cur (concat (map (date_lines cfg (files w) cur) ys)) st w'"
  then show "wp (push_date srv cfg endpoint cur st x)
      (push_inv w cur (concat (map (date_lines cfg (files w) cur) (ys @ [x]))))
      (\<lambda>_. push_err w (concat (map (date_lines cfg (files w) cur) ds))) w'"
    by (intro push_dates_step) auto
qed

lemma wp_get_cursor:
  assumes "\<And>dl. Q (cursor_of m (db w)) (w\<lparr>db_faults := dl\<rparr>)" and "\<And>e dl. E e (w\<lparr>db_faults := dl\<rparr>)"
  shows "wp (get_cursor m) Q E w"
  unfolding get_cursor_def wp_bnd
  by (rule wp_select) (use assms in \<open>auto simp: cursor_of_def wp_ret split: option.split\<close>)

lemma wp_local_dates:
  assumes "\<And>fl. Q (local_dates cfg (files w)) (w\<lparr>fs_faults := fl\<rparr>)" and "\<And>e fl. E e (w\<lparr>fs_faults := fl\<rparr>)"
  shows "wp (list_local_log_dates cfg) Q E w"
proof -
  have now: "Q (local_dates cfg (files w)) w" using assms(1) [of "fs_faults w"] by simp
  show ?thesis
  proof (cases "isdir (S_LOG_DIR cfg) w")
    case True
    then have d: "local_dates cfg (files w) =
        sort (List.map_filter LOG_FILENAME_RE (children (comps_of (S_LOG_DIR cfg)) (files w)))"
      by (simp add: local_dates_def isdir_def)
    have "wp (listdir (S_LOG_DIR cfg)) (\<lambda>names. Q (sort (List.map_filter LOG_FILENAME_RE names))) E w"
      by (rule wp_listdir) (use assms in \<open>auto simp: d\<close>)
    with True show ?thesis by (simp add: list_local_log_dates_def wp_fun wp_gets)
  next
    case False
    with now show ?thesis by (simp add: list_local_log_dates_def wp_fun wp_gets local_dates_def isdir_def)
  qed
qed

lemma wp_set_cursor:
  assumes "\<And>w'. files w' = files w \<Longrightarrow> disk w' = disk w \<Longrightarrow> pushed w' = pushed w \<Longrightarrow>
      (\<And>k. cursor_of k (db w') = (if k = m then (date, off) else cursor_of k (db w))) \<Longrightarrow> Q () w'"
    and "\<And>e w'. push_frame w w' \<Longrightarrow> pushed w' = pushed w \<Longrightarrow> E e w'"
  shows "wp (set_cursor m date off) Q E w"
  unfolding set_cursor_def Let_def wp_bnd wp_now_iso
  by (rule wp_sql) (auto intro!: assms simp: cursor_of_def lookup_upsert sync_row_defaults_def split: option.split)

text \<open>Whatever fails, a push that returns has sent exactly the pending lines and moved the cursor to their end.\<close>

lemma wp_do_push:
  assumes "\<And>w'. files w' = files w \<Longrightarrow> disk w' = disk w \<Longrightarrow>
      pushed w' = pushed w @ map (Pair True) (batches 500 (pending_lines cfg (files w) (cursor_of m (db w)))) \<Longrightarrow>
      (\<And>k. cursor_of k (db w') = (if k = m then end_pos (cursor_of m (db w))
          (pending_lines cfg (files w) (cursor_of m (db w))) else cursor_of k (db w))) \<Longrightarrow> Q () w'"
    and "\<And>e w'. push_err w (pending_lines cfg (files w) (cursor_of m (db w))) w' \<Longrightarrow> E e w'"
  shows "wp (do_push srv cfg m endpoint) Q E w"
proof -
  let ?cur = "cursor_of m (db w)"
  let ?L = "pending_lines cfg (files w) ?cur"
  have err0: "E e w'" if "push_frame w w'" "pushed w' = pushed w" for e w'
    by (rule assms(2)) (use that in \<open>auto simp: push_err_def intro!: exI [of _ "[]"]\<close>)
  have last: "wp (if pos \<noteq> ?cur then set_cursor m (fst pos) (snd pos) else ret ()) Q E w'"
    if f: "push_frame w w'" and p: "pushed w' = pushed w @ map (Pair True) (batches 500 ?L)"
      and pos: "pos = end_pos ?cur ?L" for pos w'
  proof -
    have fr: "files w' = files w" "disk w' = disk w" using f by (simp_all add: push_frame_def)
    have err: "E e w''" if "push_frame w' w''" "pushed w'' = pushed w'" for e w''
    proof (rule assms(2))
      show "push_err w ?L w''"
        unfolding push_err_def
        by (intro conjI exI [of _ "batches 500 ?L"] exI [of _ "[]"] push_frame_trans [OF f that(1)])
          (use that p batches_bound [of _ 500 ?L] in \<open>auto simp: concat_batches list_all_iff\<close>)
    qed
    show ?thesis
    proof (cases "pos = ?cur")
      case True
      then show ?thesis
        using p pos by (auto simp: wp_ret fr push_frame_cursor [OF f] intro!: assms(1))
    next
      case False
      have "wp (set_cursor m (fst pos) (snd pos)) Q E w'"
        by (rule wp_set_cursor) (auto intro!: assms(1) err simp: fr p push_frame_cursor [OF f] pos)
      with False show ?thesis by simp
    qed
  qed
  have rest: "wp (thn (if pb \<noteq> [] then send_push srv endpoint pb else ret ())
       (if pos \<noteq> ?cur then set_cursor m (fst pos) (snd pos) else ret ())) Q E w'"
    if i: "push_inv w ?cur ?L (pb, pos) w'" for pb pos w'
  proof -
    obtain bs where bs: "pushed w' = pushed w @ map (Pair True) bs" "concat bs @ pb = ?L"
        "list_all (\<lambda>b. length b = 500) bs" and f: "push_frame w w'" and l: "length pb < 500"
        and pos: "pos = end_pos ?cur ?L"
      using i by (auto simp: push_inv_def)
    have cut: "batches 500 ?L = bs @ (if pb = [] then [] else [pb])"
      using batches_unique [OF bs(3) l] bs(2) by simp
    show ?thesis
    proof (cases "pb = []")
      case True
      then show ?thesis unfolding wp_fun using last [OF f _ pos] bs(1) cut by (simp add: wp_fun)
    next
      case False
      have "wp (send_push srv endpoint pb) (\<lambda>_. wp (if pos \<noteq> ?cur then set_cursor m (fst pos) (snd pos) else ret ()) Q E) E w'"
      proof (rule wp_mono [OF wp_send_push])
        fix a w''
        assume "push_frame w' w'' \<and> pushed w'' = pushed w' @ [(True, pb)]"
        then show "wp (if pos \<noteq> ?cur then set_cursor m (fst pos) (snd pos) else ret ()) Q E w''"
          by (intro last pos) (use f bs(1) cut False in \<open>auto intro: push_frame_trans\<close>)
      next
        fix e w''
        assume "push_frame w' w'' \<and> (\<exists>b. pushed w'' = pushed w' @ [(b, pb)])"
        then show "E e w''"
          using send_push_err [OF i, of w'' _ "[]" ?L] False l by (auto intro: assms(2))
      qed
      with False show ?thesis by (simp add: wp_fun)
    qed
  qed
  show ?thesis
    unfolding do_push_def wp_fun
  proof (rule wp_get_cursor)
    fix dl
    let ?w = "w\<lparr>db_faults := dl\<rparr>"
    show "wp (list_local_log_dates cfg) (\<lambda>ds. wp (let dates = if fst ?cur \<noteq> [] then filter ((\<le>) (fst ?cur)) ds else ds
        in bnd (fold_io (push_date srv cfg endpoint ?cur) ([], ?cur) dates)
          (\<lambda>(pb_lines, pos). thn (if pb_lines \<noteq> [] then send_push srv endpoint pb_lines else ret ())
             (if pos \<noteq> ?cur then set_cursor m (fst pos) (snd pos) else ret ()))) Q E) E ?w"
    proof (rule wp_local_dates)
      fix fl
      let ?v = "?w\<lparr>fs_faults := fl\<rparr>"
      let ?ds = "pending_dates cfg (files w) ?cur"
      have "wp (fold_io (push_date srv cfg endpoint ?cur) ([], ?cur) ?ds)
          (\<lambda>st. wp (case st of (pb_lines, pos) \<Rightarrow> thn (if pb_lines \<noteq> [] then send_push srv endpoint pb_lines else ret ())
             (if pos \<noteq> ?cur then set_cursor m (fst pos) (snd pos) else ret ())) Q E) E ?v"
      proof (rule wp_mono [OF push_dates_loop])
        fix st w'
        assume "push_inv ?v ?cur (concat (map (date_lines cfg (files ?v) ?cur) ?ds)) st w'"
        then have "push_inv w ?cur ?L st w'" by (simp add: pending_lines_def push_inv_def push_frame_def)
        then show "wp (case st of (pb_lines, pos) \<Rightarrow> thn (if pb_lines \<noteq> [] then send_push srv endpoint pb_lines else ret ())
             (if pos \<noteq> ?cur then set_cursor m (fst pos) (snd pos) else ret ())) Q E w'"
          using rest by (cases st) auto
      next
        fix e w'
        assume "push_err ?v (concat (map (date_lines cfg (files ?v) ?cur) ?ds)) w'"
        then show "E e w'"
          by (intro assms(2)) (simp add: pending_lines_def push_err_def push_frame_def)
      qed
      then show "wp (let dates = if fst ?cur \<noteq> [] then filter ((\<le>) (fst ?cur)) (local_dates cfg (files ?w)) else local_dates cfg (files ?w)
        in bnd (fold_io (push_date srv cfg endpoint ?cur) ([], ?cur) dates)
          (\<lambda>(pb_lines, pos). thn (if pb_lines \<noteq> [] then send_push srv endpoint pb_lines else ret ())
             (if pos \<noteq> ?cur then set_cursor m (fst pos) (snd pos) else ret ()))) Q E ?v"
        by (simp add: Let_def wp_fun pending_dates_def cong: if_cong split del: if_split)
    qed (auto intro!: err0 simp: push_frame_def)
  qed (auto intro!: err0 simp: push_frame_def)
qed

end
