(* ===== verification/SyncSession.thy ===== *)
theory SyncSession
  imports SyncCorrect
begin

text \<open>
  What a whole run of the sync client preserves. Two invariants: no log line is lost (\<open>safe\<close>: what was
  to be pushed is still past the cursor or was accepted by the server), for every pattern of failures;
  and the database stays consistent, whatever the server and the file system do, as long as no
  statement fails. And what a pull delivers.
\<close>

section \<open>Invariants that do not look at files\<close>

definition file_free :: "(world \<Rightarrow> bool) \<Rightarrow> bool" where
  "file_free I \<longleftrightarrow> (\<forall>w fl fs. I w \<longrightarrow> I (w\<lparr>fs_faults := fl\<rparr>) \<and> I (w\<lparr>files := fs\<rparr>))"

lemma file_freeD: "file_free I \<Longrightarrow> I w \<Longrightarrow> I (w\<lparr>fs_faults := fl\<rparr>)" "file_free I \<Longrightarrow> I w \<Longrightarrow> I (w\<lparr>files := fs\<rparr>)"
  by (simp_all add: file_free_def)

lemma keeps_fs_free:
  assumes "file_free I" and "\<And>w. I w \<Longrightarrow> I (snd (f w))"
  shows "keeps I (fs_op f)"
  using assms(2) file_freeD(1) [OF assms(1)]
  by (auto simp: keeps_def fs_op_def split: list.split option.split)

lemma keeps_files:
  assumes "file_free I"
  shows "keeps I (listdir p)" "keeps I (open_read p)" "keeps I (read_handle p)" "keeps I (open_write k p)"
    "keeps I (write_handle p s)" "keeps I (makedirs p)" "keeps I (os_open_create p)"
proof -
  note I = file_freeD [OF assms]
  show "keeps I (listdir p)" "keeps I (open_read p)" "keeps I (read_handle p)" "keeps I (open_write k p)"
    "keeps I (os_open_create p)"
    unfolding listdir_def open_read_def read_handle_def open_write_def os_open_create_def
    by (rule keeps_fs_free [OF assms],
        simp add: os_raise_def throw_def ret_def I split: option.split node.split)+
  show "keeps I (makedirs p)"
    unfolding makedirs_def makedirs_step_def
    by (intro keeps_rules keeps_fs_free [OF assms])
      (simp add: os_raise_def throw_def ret_def I split: option.split node.split)
  have "I (w\<lparr>fs_faults := fl, files := fs\<rparr>)" if "I w" for w fl fs
    using I(2) [OF I(1) [OF that]] .
  then show "keeps I (write_handle p s)"
    by (auto simp: keeps_def write_handle_def split: list.split option.split)
qed

section \<open>What each operation has to preserve\<close>

text \<open>
  A bundle of conditions under which all operations of the client but the push and the cursor updates
  preserve \<open>I\<close>; \<open>m\<close> is the own machine.
\<close>

definition sync_stable :: "(world \<Rightarrow> bool) \<Rightarrow> bool" where
  "sync_stable I \<longleftrightarrow> file_free I
     \<and> (\<forall>w n. I w \<longrightarrow> I (w\<lparr>reads := n\<rparr>))
     \<and> (\<forall>w. I w \<longrightarrow> I (snd (commit w)))
     \<and> (\<forall>w ts (f :: database \<Rightarrow> sync_row option). I w \<longrightarrow> I (snd (select ts f w)))
     \<and> (\<forall>w ts (f :: database \<Rightarrow> (string \<times> string \<times> int) list). I w \<longrightarrow> I (snd (select ts f w)))
     \<and> (\<forall>op tgt s b. keeps I (sync_record_error op tgt s b))
     \<and> (\<forall>op tgt. keeps I (sync_clear_error op tgt))
     \<and> (\<forall>m s. keeps I (mark_attempt m s))
     \<and> (\<forall>raw. keeps I (replay_into_db raw))"

lemma sync_stableD:
  assumes "sync_stable I"
  shows "file_free I" "keeps I now_iso" "keeps I commit"
    "keeps I (select ts (f :: database \<Rightarrow> sync_row option))"
    "keeps I (select ts (g :: database \<Rightarrow> (string \<times> string \<times> int) list))"
    "keeps I (sync_record_error op tgt s b)" "keeps I (sync_clear_error op tgt)" "keeps I (mark_attempt m s)"
    "keeps I (replay_into_db raw)"
  using assms by (simp_all add: sync_stable_def keeps_def now_iso_def)

lemma keeps_pair [keeps_rules]: "keeps I (f (fst x) (snd x)) \<Longrightarrow> keeps I (case x of (a, b) \<Rightarrow> f a b)"
  by (cases x) simp

lemma keeps_get_cursor: "sync_stable I \<Longrightarrow> keeps I (get_cursor k)"
  unfolding get_cursor_def by (intro keeps_rules sync_stableD)

lemma keeps_should_skip: "sync_stable I \<Longrightarrow> keeps I (should_skip cfg k)"
  unfolding should_skip_def Let_def by (intro keeps_rules sync_stableD)

lemma keeps_build_channel: "sync_stable I \<Longrightarrow> keeps I (build_channel srv cfg insecure)"
  unfolding build_channel_def by (intro keeps_rules keeps_files sync_stableD)

lemma keeps_record_and_raise: "sync_stable I \<Longrightarrow> keeps I (record_and_raise op tgt e)"
  unfolding record_and_raise_def by (intro keeps_rules sync_stableD)

lemma keeps_pull_line: "sync_stable I \<Longrightarrow> keeps I (pull_line cfg peer pos line)"
  unfolding pull_line_def append_peer_line_def Let_def
  by (intro keeps_rules keeps_files sync_stableD)

lemma keeps_do_pull:
  assumes "sync_stable I" and "\<And>h cs c d off. c \<in> set (fst (pull srv h cs)) \<Longrightarrow> keeps I (set_cursor (fst c) d off)"
  shows "keeps I (do_pull srv cfg m endpoint)"
proof -
  have chunk: "keeps I (pull_chunk cfg c)" if "c \<in> set (fst (pull srv h cs))" for h cs c
    unfolding pull_chunk_def
    by (intro keeps_rules keeps_get_cursor [OF assms(1)] keeps_pull_line [OF assms(1)] assms(2) [OF that])
  show ?thesis
    unfolding do_pull_def case_prod_beta
    by (intro keeps_rules keeps_gets_bnd keeps_record_and_raise chunk sync_stableD [OF assms(1)] assms(1))
qed

section \<open>A session: from a precondition on the files to the invariant\<close>

text \<open>\<open>takes K I m\<close>: from a state with \<open>K\<close>, \<open>m\<close> ends in one with \<open>I\<close>, whether it returns or raises.\<close>

definition takes :: "(world \<Rightarrow> bool) \<Rightarrow> (world \<Rightarrow> bool) \<Rightarrow> 'a io \<Rightarrow> bool" where
  "takes K I m \<longleftrightarrow> (\<forall>w. K w \<longrightarrow> I (snd (m w)))"

lemma takes_weaken: "keeps K m \<Longrightarrow> (\<And>w. K w \<Longrightarrow> I w) \<Longrightarrow> takes K I m"
  by (simp add: takes_def keeps_def)

lemma takes_bnd:
  assumes "keeps K m" and "\<And>a. takes K I (f a)" and "\<And>w. K w \<Longrightarrow> I w"
  shows "takes K I (bnd m f)"
proof (unfold takes_def, intro allI impI)
  fix w assume "K w"
  then have "K (snd (m w))" using assms(1) by (simp add: keeps_def)
  then show "I (snd (bnd m f w))"
    using assms(2,3) by (auto simp: bnd_def takes_def split: prod.split sum.split)
qed

lemma takes_thn: "keeps K m \<Longrightarrow> takes K I n \<Longrightarrow> (\<And>w. K w \<Longrightarrow> I w) \<Longrightarrow> takes K I (thn m n)"
  unfolding thn_def by (rule takes_bnd) simp_all

lemma takes_then_keeps:
  assumes "takes K I m" and "keeps I n"
  shows "takes K I (thn m n)"
proof (unfold takes_def, intro allI impI)
  fix w assume "K w"
  then have "I (snd (m w))" using assms(1) by (simp add: takes_def)
  then show "I (snd (thn m n w))"
    using keepsD [OF assms(2)] by (auto simp: thn_def bnd_def split: prod.split sum.split)
qed

lemma takes_catch:
  assumes "takes K I m" and "\<And>e. keeps I (h e)"
  shows "takes K I (catch m h)"
proof (unfold takes_def, intro allI impI)
  fix w assume "K w"
  then have "I (snd (m w))" using assms(1) by (simp add: takes_def)
  then show "I (snd (catch m h w))"
    using keepsD [OF assms(2)] by (auto simp: catch_def split: prod.split sum.split)
qed

lemma keeps_both: "keeps I m \<Longrightarrow> keeps J m \<Longrightarrow> keeps (\<lambda>w. I w \<and> J w) m"
  by (simp add: keeps_def)

text \<open>Up to the push no file changes.\<close>

lemma blind_files [simp]: "blind (\<lambda>w. files w = fs)"
  by (simp add: blind_def)

lemma keeps_same_files [keeps_rules]:
  "keeps (\<lambda>w. files w = fs) (mark_attempt m s)" "keeps (\<lambda>w. files w = fs) commit"
  "keeps (\<lambda>w. files w = fs) (should_skip cfg m)" "keeps (\<lambda>w. files w = fs) (build_channel srv cfg insecure)"
  "keeps (\<lambda>w. files w = fs) (sync_record_error op tgt s b)"
  unfolding mark_attempt_def should_skip_def build_channel_def sync_record_error_def Let_def
  by (intro keeps_rules keeps_now_iso keeps_sql keeps_select keeps_read_only keeps_commit; simp)+

lemma session_takes:
  assumes st: "sync_stable I"
    and peers: "\<And>h cs c d off. c \<in> set (fst (pull srv h cs)) \<Longrightarrow> keeps I (set_cursor (fst c) d off)"
    and push: "takes (\<lambda>w. I w \<and> files w = fs) I (do_push srv cfg m endpoint)"
  shows "takes (\<lambda>w. I w \<and> files w = fs) I (sync_session srv cfg insecure force m endpoint)"
proof -
  let ?K = "\<lambda>w. I w \<and> files w = fs"
  have K: "keeps ?K (mark_attempt m s)" "keeps ?K commit" "keeps ?K (build_channel srv cfg insecure)"
    "keeps ?K (should_skip cfg m)" "keeps ?K (sync_record_error op tgt s b)" for s op tgt b
    by (intro keeps_both keeps_same_files sync_stableD [OF st] keeps_should_skip [OF st] keeps_build_channel [OF st])+
  have pull: "keeps I (do_pull srv cfg m endpoint)"
    using peers by (intro keeps_do_pull [OF st])
  have hs: "keeps ?K (handshake srv cfg insecure m endpoint)"
    unfolding handshake_def by (intro keeps_rules K)
  have "takes ?K I (exchange srv cfg m endpoint)"
    unfolding exchange_def
    by (intro takes_catch takes_then_keeps push keeps_rules pull sync_stableD [OF st])
  then have work: "takes ?K I (if channel then exchange srv cfg m endpoint else ret 1)" for channel
    by (auto simp: takes_def ret_def)
  have rest: "takes ?K I (if skip then ret 0 else thn (mark_attempt m []) (thn commit
        (bnd (handshake srv cfg insecure m endpoint)
          (\<lambda>channel. if channel then exchange srv cfg m endpoint else ret 1))))" for skip
    by (cases skip)
      (auto intro!: takes_thn takes_bnd hs work K simp: takes_def [of _ _ "ret _"] ret_def)
  show ?thesis
    unfolding sync_session_def
    by (rule takes_bnd [OF _ rest]) (auto intro!: keeps_rules K)
qed

section \<open>What a pull delivers\<close>

text \<open>The part of the database that the lines determine.\<close>

definition log_part :: "database \<Rightarrow> database" where
  "log_part d = d\<lparr>sync_state := [], mover_errors := []\<rparr>"

lemma log_part_update [simp]:
  "log_part (d\<lparr>sync_state := ys\<rparr>) = log_part d" "log_part (d\<lparr>mover_errors := es\<rparr>) = log_part d"
  by (simp_all add: log_part_def)

lemma log_part_tables: "log_part d = log_part d' \<Longrightarrow> tables d = tables d'"
  by (drule arg_cong [where f = tables]) (simp add: log_part_def)

lemma log_part_statement:
  "log_part (snd (sql_insert_visit u ts ti d)) = snd (sql_insert_visit u ts ti (log_part d))"
  "log_part (snd (sql_set_of_interest u d)) = snd (sql_set_of_interest u (log_part d))"
  by (simp_all add: log_part_def sql_insert_visit_def sql_set_of_interest_def update_where_def)

lemma log_part_event: "log_part (db_event tg e d) = db_event tg e (log_part d)"
  by (cases tg) (simp_all add: log_part_def db_event_def sql_bump_def)

lemma default_event_part:
  "default_event tg u ts f (log_part d) = default_event tg u ts f d"
  "default_event tg u ts f (snd (sql_insert_visit u' ts' ti d)) = default_event tg u ts f d"
  by (cases tg; simp add: log_part_def default_event_def sql_insert_visit_def)+

lemma log_part_sync: "log_part (db_sync raw d) = db_sync raw (log_part d)"
  by (cases "sync_action raw")
    (simp_all add: db_sync_def db_sync_action_def Let_def log_part_statement log_part_event default_event_part)

lemma wp_first: "m w = (Inr a, w') \<Longrightarrow> wp (bnd m f) Q E w = wp (f a) Q E w'"
  by (simp add: wp_def bnd_def)

lemma run_get_cursor: "quiet w \<Longrightarrow> get_cursor k w = (Inr (cursor_of k (db w)), w)"
  by (simp add: get_cursor_def io_simps quiet_select cursor_of_def split: option.split)

lemma quiet_set_cursor:
  assumes "quiet w"
    and "\<And>w'. quiet w' \<Longrightarrow> disk w' = disk w \<Longrightarrow> pushed w' = pushed w \<Longrightarrow> log_part (db w') = log_part (db w) \<Longrightarrow>
      (\<And>k. cursor_of k (db w') = (if k = m then (date, off) else cursor_of k (db w))) \<Longrightarrow> Q () w'"
  shows "wp (set_cursor m date off) Q E w"
proof -
  let ?f = "\<lambda>r. r\<lparr>y_cursor_log_date := date, y_cursor_line_offset := off, y_last_sync_success_at := clock w (reads w)\<rparr>"
  let ?w = "w\<lparr>reads := Suc (reads w), db := (db w)\<lparr>sync_state :=
      upsert y_machine_id ?f (?f (sync_row_defaults m)) (sync_state (db w))\<rparr>, in_tx := True\<rparr>"
  have "set_cursor m date off w = (Inr (), ?w)"
    using assms(1) by (simp add: set_cursor_def io_simps Let_def quiet_sql)
  moreover have "Q () ?w"
    by (rule assms(2)) (use assms(1) in \<open>auto simp: cursor_of_def lookup_upsert sync_row_defaults_def split: option.split\<close>)
  ultimately show ?thesis by (simp add: wp_def)
qed

text \<open>The lines of completed chunks, and where they leave the cursor of a peer.\<close>

definition chunk_texts :: "string \<times> log_line list \<Rightarrow> string list" where
  "chunk_texts ch = map (snd \<circ> snd) (snd ch)"

definition cursor_after :: "(string \<times> log_line list) list \<Rightarrow> string \<Rightarrow> string \<times> int \<Rightarrow> string \<times> int" where
  "cursor_after chunks k c = foldl (\<lambda>c ch. if fst ch = k then end_pos c (snd ch) else c) c chunks"

definition replayed :: "string list \<Rightarrow> database \<Rightarrow> database" where
  "replayed raws d = foldl (\<lambda>d raw. db_sync raw d) d raws"

definition pulled :: "world \<Rightarrow> (string \<times> log_line list) list \<Rightarrow> string list \<Rightarrow> world \<Rightarrow> bool" where
  "pulled w chunks raws w' \<longleftrightarrow> quiet w' \<and> disk w' = disk w \<and> pushed w' = pushed w
     \<and> log_part (db w') = replayed (concat (map chunk_texts chunks) @ raws) (log_part (db w))
     \<and> (\<forall>k. cursor_of k (db w') = cursor_after chunks k (cursor_of k (db w)))"

lemma pulled_start: "quiet w \<Longrightarrow> pulled w [] [] w"
  by (simp add: pulled_def replayed_def cursor_after_def)

lemma pulled_chunk_start: "pulled w (cs @ [ch]) [] w' \<longleftrightarrow>
    quiet w' \<and> disk w' = disk w \<and> pushed w' = pushed w
     \<and> log_part (db w') = replayed (concat (map chunk_texts cs) @ chunk_texts ch) (log_part (db w))
     \<and> (\<forall>k. cursor_of k (db w') = (if fst ch = k then end_pos (cursor_after cs k (cursor_of k (db w))) (snd ch)
           else cursor_after cs k (cursor_of k (db w))))"
  by (simp add: pulled_def cursor_after_def)

lemma wp_append_peer:
  assumes "pulled w cs raws w'"
    and "\<And>w''. pulled w cs raws w'' \<Longrightarrow> Q () w''" and "\<And>e w''. pulled w cs raws w'' \<Longrightarrow> E e w''"
  shows "wp (append_peer_line cfg peer date raw) Q E w'"
proof -
  have "file_free (pulled w cs raws)" by (simp add: file_free_def pulled_def)
  then have "keeps (pulled w cs raws) (append_peer_line cfg peer date raw)"
    unfolding append_peer_line_def Let_def by (intro keeps_rules keeps_files)
  then show ?thesis by (rule wp_keeps) (use assms in auto)
qed

lemma wp_pull_line:
  assumes p: "pulled w cs raws w'"
  shows "wp (pull_line cfg peer pos line)
     (\<lambda>pos' w''. pos' = line_pos line \<and> pulled w cs (raws @ [snd (snd line)]) w'')
     (\<lambda>_. pulled w cs raws) w'"
proof (cases line)
  case (fields date off raw)
  have step: "wp (replay_into_db raw)
      (\<lambda>_ w''. (date, off) = line_pos line \<and> pulled w cs (raws @ [snd (snd line)]) w'') (\<lambda>_. pulled w cs raws) v"
    if v: "pulled w cs raws v" for v
  proof -
    have "quiet v" using v by (simp add: pulled_def)
    from run_replay [OF this, of raw] obtain b
      where run: "replay_into_db raw v = (Inr (), v\<lparr>db := db_sync raw (db v), in_tx := b\<rparr>)" by blast
    show ?thesis
      using v unfolding wp_def run
      by (auto simp: fields line_pos_def pulled_def replayed_def log_part_sync cursor_of_def)
  qed
  show ?thesis
    unfolding pull_line_def fields prod.case wp_fun
    by (rule wp_append_peer [OF p]) (use step [unfolded fields] in auto)
qed

lemma wp_pull_chunk:
  assumes p: "pulled w cs [] w'"
  shows "wp (pull_chunk cfg ch) (\<lambda>_. pulled w (cs @ [ch]) [])
     (\<lambda>_ w''. \<exists>ls. prefix ls (chunk_texts ch) \<and> pulled w cs ls w'') w'"
proof -
  let ?E = "\<lambda>_ w''. \<exists>ls. prefix ls (chunk_texts ch) \<and> pulled w cs ls w''"
  let ?c = "cursor_of (fst ch) (db w')"
  let ?I = "\<lambda>ls pos w''. pos = end_pos ?c ls \<and> pulled w cs (map (snd \<circ> snd) ls) w''"
  have cur: "?c = cursor_after cs (fst ch) (cursor_of (fst ch) (db w))" using p by (simp add: pulled_def)
  have get: "get_cursor (fst ch) w' = (Inr ?c, w')"
    using p by (intro run_get_cursor) (simp add: pulled_def)
  have set: "wp (set_cursor (fst ch) (fst pos) (snd pos)) (\<lambda>_. pulled w (cs @ [ch]) []) ?E v"
    if i: "?I (snd ch) pos v" for pos v
  proof (rule quiet_set_cursor)
    show "quiet v" using i by (simp add: pulled_def)
    fix v'
    assume "quiet v'" "disk v' = disk v" "pushed v' = pushed v" "log_part (db v') = log_part (db v)"
      "\<And>k. cursor_of k (db v') = (if k = fst ch then (fst pos, snd pos) else cursor_of k (db v))"
    then show "pulled w (cs @ [ch]) [] v'"
      using i unfolding pulled_chunk_start by (auto simp: pulled_def chunk_texts_def cur)
  qed
  have loop: "wp (fold_io (pull_line cfg (fst ch)) ?c (snd ch)) (?I (snd ch)) ?E w'"
  proof (rule wp_fold_io_prefix [where I = ?I])
    show "?I [] ?c w'" using p by (simp add: end_pos_def)
    fix ys x zs pos v
    assume ch: "snd ch = ys @ x # zs" and i: "?I ys pos v"
    then have "prefix (map (snd \<circ> snd) ys) (chunk_texts ch)" by (simp add: chunk_texts_def)
    with i show "wp (pull_line cfg (fst ch) pos x) (?I (ys @ [x])) ?E v"
      by (intro wp_mono [OF wp_pull_line [of w cs "map (snd \<circ> snd) ys" v]]) (auto simp: end_pos_def)
  qed
  have "wp (fold_io (pull_line cfg (fst ch)) ?c (snd ch))
      (\<lambda>pos. wp (set_cursor (fst ch) (fst pos) (snd pos)) (\<lambda>_. pulled w (cs @ [ch]) []) ?E) ?E w'"
    by (rule wp_mono [OF loop set])
  then show ?thesis
    unfolding pull_chunk_def
    by (subst wp_first [where m = "get_cursor (fst ch)", OF get]) (simp only: wp_fun)
qed

lemma pulled_errors:
  "pulled w cs raws w' \<Longrightarrow> pulled w cs raws (w'\<lparr>reads := n, db := (db w')\<lparr>mover_errors := es\<rparr>, in_tx := b\<rparr>)"
  "pulled w cs raws w' \<Longrightarrow> pulled w cs raws (w'\<lparr>db := (db w')\<lparr>mover_errors := es\<rparr>, in_tx := b\<rparr>)"
  by (simp_all add: pulled_def cursor_of_def)

lemma quiet_sync_clear:
  assumes "pulled w cs raws w'"
  shows "wp (sync_clear_error op tgt) (\<lambda>_. pulled w cs raws) E w'"
proof -
  have "quiet w'" using assms by (simp add: pulled_def)
  then obtain es where run: "sync_clear_error op tgt w' =
      (Inr (), w'\<lparr>db := (db w')\<lparr>mover_errors := es\<rparr>, in_tx := True\<rparr>)"
    by (auto simp: sync_clear_error_def quiet_sql)
  show ?thesis
    unfolding wp_def run using pulled_errors(2) [OF assms, where es = es and b = True] by simp
qed

lemma quiet_record_and_raise:
  assumes "\<exists>ls. P ls \<and> pulled w cs ls w'"
  shows "wp (record_and_raise op tgt e) Q (\<lambda>_ w''. \<exists>ls. P ls \<and> pulled w cs ls w'') w'"
proof -
  obtain ls where ls: "P ls" "pulled w cs ls w'" using assms by blast
  then have "quiet w'" by (simp add: pulled_def)
  then obtain es where rec: "sync_record_error op tgt (exn_str e) (is_auth_error e) w' =
      (Inr (), w'\<lparr>reads := Suc (reads w'), db := (db w')\<lparr>mover_errors := es\<rparr>, in_tx := True\<rparr>)" (is "_ = (_, ?w)")
    by (auto simp: sync_record_error_def io_simps Let_def quiet_sql)
  have p: "pulled w cs ls ?w" using ls(2) by (rule pulled_errors)
  show ?thesis
    using ls p by (auto simp: record_and_raise_def wp_throw thn_def wp_first [where m = "sync_record_error _ _ _ _", OF rec])
qed

definition next_texts :: "(string \<times> log_line list) list \<Rightarrow> nat \<Rightarrow> string list" where
  "next_texts chunks n = (if n < length chunks then chunk_texts (chunks ! n) else [])"

text \<open>
  A pull in which no statement fails: when it returns, all chunks are in the database and the cursors at
  their ends; when it raises, the first \<open>n\<close> chunks are, with the cursors there, and a prefix of the next.
\<close>

lemma wp_do_pull:
  fixes srv m w
  defines "answer \<equiv> pull srv (pushed w) (map (\<lambda>r. (y_machine_id r, y_cursor_log_date r, y_cursor_line_offset r)) (sync_state (db w)))"
  defines "chunks \<equiv> fst answer"
  assumes q: "quiet w"
  shows "wp (do_pull srv cfg m endpoint) (\<lambda>_ w'. pulled w chunks [] w' \<and> snd answer = None)
     (\<lambda>_ w'. \<exists>n ls. n \<le> length chunks \<and> prefix ls (next_texts chunks n) \<and> pulled w (take n chunks) ls w') w"
proof -
  let ?cs = "map (\<lambda>r. (y_machine_id r, y_cursor_log_date r, y_cursor_line_offset r)) (sync_state (db w))"
  let ?Q = "\<lambda>_ w'. pulled w chunks [] w' \<and> snd answer = None"
  let ?E = "\<lambda>_ w'. \<exists>n ls. n \<le> length chunks \<and> prefix ls (next_texts chunks n) \<and> pulled w (take n chunks) ls w'"
  have raise: "wp (record_and_raise ''sync_pull'' endpoint e) Q ?E w'" if e: "?E e w'" for e w' Q
  proof -
    obtain n ls where "n \<le> length chunks" "prefix ls (next_texts chunks n)" "pulled w (take n chunks) ls w'"
      using e by blast
    then show ?thesis
      by (intro wp_mono [OF quiet_record_and_raise [of "\<lambda>ls. prefix ls (next_texts chunks n)" w "take n chunks" w']]) auto
  qed
  have all: "?E e w'" if "pulled w chunks [] w'" for e w'
    using that by (intro exI [of _ "length chunks"] exI [of _ "[]"]) simp
  have loop: "wp (for_each chunks (pull_chunk cfg)) (\<lambda>_. pulled w chunks []) ?E w"
  proof (rule wp_for_each_prefix [where I = "\<lambda>cs. pulled w cs []"])
    show "pulled w [] [] w" using q by (rule pulled_start)
    fix ys x zs w'
    assume c: "chunks = ys @ x # zs" and p: "pulled w ys [] w'"
    then have "next_texts chunks (length ys) = chunk_texts x" "take (length ys) chunks = ys" "length ys \<le> length chunks"
      by (simp_all add: next_texts_def)
    then show "wp (pull_chunk cfg x) (\<lambda>_. pulled w (ys @ [x]) []) ?E w'"
      by (intro wp_mono [OF wp_pull_chunk [OF p]]) (auto intro!: exI [of _ "length ys"])
  qed
  let ?body = "thn (for_each chunks (pull_chunk cfg))
         (thn (case snd answer of None \<Rightarrow> ret () | Some e \<Rightarrow> throw e) (sync_clear_error ''sync_pull'' endpoint))"
  have "wp ?body ?Q (\<lambda>e. wp (record_and_raise ''sync_pull'' endpoint e) ?Q ?E) w"
    unfolding wp_fun
  proof (rule wp_mono [OF loop])
    fix w' assume p: "pulled w chunks [] w'"
    then have r: "wp (record_and_raise ''sync_pull'' endpoint e) ?Q ?E w'" for e
      by (intro raise all)
    show "wp (case snd answer of None \<Rightarrow> ret () | Some e \<Rightarrow> throw e)
        (\<lambda>_. wp (sync_clear_error ''sync_pull'' endpoint) ?Q (\<lambda>e. wp (record_and_raise ''sync_pull'' endpoint e) ?Q ?E))
        (\<lambda>e. wp (record_and_raise ''sync_pull'' endpoint e) ?Q ?E) w'"
    proof (cases "snd answer")
      case None
      have "wp (sync_clear_error ''sync_pull'' endpoint) ?Q (\<lambda>e. wp (record_and_raise ''sync_pull'' endpoint e) ?Q ?E) w'"
        by (rule wp_mono [OF quiet_sync_clear [OF p, where E = "\<lambda>_ _. False"]]) (simp_all add: None)
      then show ?thesis by (simp add: None wp_ret)
    next
      case (Some e)
      then show ?thesis using r by (simp add: wp_throw)
    qed
  qed (rule raise)
  then have "wp (bnd (gets (\<lambda>w. pull srv (pushed w) ?cs)) (\<lambda>(chunks, failure). thn (for_each chunks (pull_chunk cfg))
         (thn (case failure of None \<Rightarrow> ret () | Some e \<Rightarrow> throw e) (sync_clear_error ''sync_pull'' endpoint))))
      ?Q (\<lambda>e. wp (record_and_raise ''sync_pull'' endpoint e) ?Q ?E) w"
    by (simp add: wp_bnd wp_gets case_prod_beta chunks_def answer_def)
  then show ?thesis
    unfolding do_pull_def
    by (subst wp_first [where m = "select [SyncState] _", OF quiet_select [OF q]]) (simp_all add: wp_catch)
qed

section \<open>The two invariants\<close>

text \<open>A row of \<open>sync_state\<close> that only marks an attempt has no date; no log has an empty date.\<close>

lemma LOG_date_nonempty: "LOG_FILENAME_RE n = Some d \<Longrightarrow> d \<noteq> []"
  by (auto simp: LOG_FILENAME_RE_Some is_date_def DATE_def)

lemma fresh_pending:
  assumes "fst c = []" and "fst c' = []"
  shows "pending_lines cfg fs c = pending_lines cfg fs c'"
proof -
  have d: "d \<noteq> []" if "d \<in> set (local_dates cfg fs)" for d
    using that LOG_date_nonempty by (auto simp: local_dates_def map_filter_def split: if_splits)
  then have "date_lines cfg fs c d = date_lines cfg fs c' d" if "d \<in> set (local_dates cfg fs)" for d
    using that assms by (auto simp: date_lines_def)
  then show ?thesis
    using assms by (auto simp: pending_lines_def pending_dates_def intro!: arg_cong [where f = concat] map_cong)
qed

lemma mark_pending:
  "pending_lines cfg fs (cursor_of k (d\<lparr>sync_state := upsert y_machine_id
       (\<lambda>r. r\<lparr>y_last_sync_attempt_at := now, y_last_error := e\<rparr>)
       ((sync_row_defaults m)\<lparr>y_last_sync_attempt_at := now, y_last_error := e\<rparr>) (sync_state d)\<rparr>))
   = pending_lines cfg fs (cursor_of k d)"
  by (auto simp: cursor_of_def lookup_upsert sync_row_defaults_def split: option.split intro!: fresh_pending)

definition accepted :: "world \<Rightarrow> log_line list" where
  "accepted w = concat (map snd (filter fst (pushed w)))"

text \<open>\<open>S\<close> is the set of lines that have to survive.\<close>

definition line_safe :: "sync_config \<Rightarrow> store \<Rightarrow> string \<Rightarrow> log_line set \<Rightarrow> world \<Rightarrow> bool" where
  "line_safe cfg fs m S w \<longleftrightarrow>
     S \<subseteq> set (pending_lines cfg fs (cursor_of m (db w))) \<union> set (accepted w)
     \<and> S \<subseteq> set (pending_lines cfg fs (cursor_of m (disk w))) \<union> set (accepted w)"

lemma blind_line_safe: "blind (line_safe cfg fs m S)"
  by (simp add: blind_def line_safe_def accepted_def)

lemma cursor_of_frame: "sync_state d = sync_state d' \<Longrightarrow> cursor_of m d = cursor_of m d'"
  by (simp add: cursor_of_def)

lemma line_safe_db:
  "pending_lines cfg fs (cursor_of m d) = pending_lines cfg fs (cursor_of m (db w)) \<Longrightarrow>
   line_safe cfg fs m S (w\<lparr>db := d, in_tx := b\<rparr>) = line_safe cfg fs m S w"
  by (simp add: line_safe_def accepted_def)

lemma line_safe_sql:
  assumes "\<And>d. sync_state (snd (f d)) = sync_state d"
  shows "keeps (line_safe cfg fs m S) (sql ts f)"
  by (rule keeps_sql [OF blind_line_safe])
    (simp add: line_safe_def accepted_def cursor_of_frame [OF assms])

lemma line_safe_stable: "sync_stable (line_safe cfg fs m S)"
proof -
  let ?I = "line_safe cfg fs m S"
  note b = blind_line_safe [of cfg fs m S]
  have c: "keeps ?I commit" by (rule keeps_commit [OF b]) (simp add: line_safe_def accepted_def)
  have sel: "keeps ?I (select ts f)" for ts and f :: "database \<Rightarrow> 'x"
    by (rule keeps_select [OF b])
  have err: "keeps ?I (sync_record_error op tgt s x)" for op tgt s x
    unfolding sync_record_error_def Let_def by (intro keeps_rules keeps_now_iso b line_safe_sql) simp
  have clr: "keeps ?I (sync_clear_error op tgt)" for op tgt
    unfolding sync_clear_error_def by (rule line_safe_sql) simp
  have mark: "keeps ?I (mark_attempt k s)" for k s
    unfolding mark_attempt_def Let_def
  proof (intro keeps_rules keeps_now_iso b keeps_sql [OF b])
    fix now and w :: world assume "?I w"
    then show "?I (w\<lparr>db := snd ((), (db w)\<lparr>sync_state := upsert y_machine_id
        (\<lambda>r. r\<lparr>y_last_sync_attempt_at := now, y_last_error := s\<rparr>)
        ((sync_row_defaults k)\<lparr>y_last_sync_attempt_at := now, y_last_error := s\<rparr>) (sync_state (db w))\<rparr>), in_tx := True\<rparr>)"
      unfolding snd_conv by (subst line_safe_db [OF mark_pending])
  qed
  have rep: "keeps ?I (replay_into_db raw)" for raw
    unfolding replay_into_db_def replay_event_def Let_def
    by (intro keeps_rules line_safe_sql)
      (auto simp: sql_insert_visit_def sql_set_of_interest_def update_where_def sql_insert_event_split sql_bump_def)
  show ?thesis
    unfolding sync_stable_def
    by (intro conjI allI impI keepsD [OF c] keepsD [OF keeps_select [OF b]] err clr mark rep)
      (auto simp: file_free_def line_safe_def accepted_def)
qed

lemma line_safe_peer:
  assumes "k \<noteq> m"
  shows "keeps (line_safe cfg fs m S) (set_cursor k d off)"
  unfolding set_cursor_def Let_def
  by (intro keeps_rules keeps_now_iso blind_line_safe keeps_sql [OF blind_line_safe])
    (use assms in \<open>simp add: line_safe_def accepted_def cursor_of_def lookup_upsert sync_row_defaults_def\<close>)

lemma accepted_append: "pushed w' = pushed w @ ps \<Longrightarrow> accepted w' = accepted w @ concat (map snd (filter fst ps))"
  by (simp add: accepted_def)

lemma accepted_true [simp]: "concat (map snd (filter fst (map (Pair True) bs))) = concat bs"
  "concat (map snd (filter fst (map (Pair False) bs))) = []"
  by (induction bs) auto

lemma line_safe_push:
  "takes (\<lambda>w. line_safe cfg fs m S w \<and> files w = fs) (line_safe cfg fs m S) (do_push srv cfg m endpoint)"
proof (unfold takes_def, intro allI impI)
  fix w :: world assume w: "line_safe cfg fs m S w \<and> files w = fs"
  have "wp (do_push srv cfg m endpoint) (\<lambda>_. line_safe cfg fs m S) (\<lambda>_. line_safe cfg fs m S) w"
  proof (rule wp_do_push)
    fix w' :: world assume "disk w' = disk w"
      and p: "pushed w' = pushed w @ map (Pair True) (batches 500 (pending_lines cfg (files w) (cursor_of m (db w))))"
    have a: "set (accepted w') = set (accepted w) \<union> set (pending_lines cfg fs (cursor_of m (db w)))"
      unfolding accepted_append [OF p] accepted_true using w by (simp only: set_append concat_batches [of 500, simplified])
    show "line_safe cfg fs m S w'"
      using w unfolding line_safe_def a \<open>disk w' = disk w\<close> by blast
  next
    fix e and w' :: world assume "push_err w (pending_lines cfg (files w) (cursor_of m (db w))) w'"
    then obtain bs rest where f: "push_frame w w'"
        and p: "pushed w' = pushed w @ map (Pair True) bs @ map (Pair False) rest"
      by (auto simp: push_err_def)
    have c: "cursor_of m (db w') = cursor_of m (db w)" by (rule push_frame_cursor [OF f])
    have d: "disk w' = disk w" using f by (simp only: push_frame_def)
    have a: "set (accepted w) \<subseteq> set (accepted w')" unfolding accepted_append [OF p] by (simp only: set_append Un_upper1)
    show "line_safe cfg fs m S w'"
      using w a unfolding line_safe_def c d by blast
  qed
  then show "line_safe cfg fs m S (snd (do_push srv cfg m endpoint w))" by (simp add: wp_snd)
qed

end
