(* ===== verification/Rebuilder.thy ===== *)
theory Rebuilder
  imports Replay "HOL-Library.Product_Lexorder"
begin

text \<open>
  \<open>browser-visit-logger/native-host/visits_rebuilder.py\<close>: rebuilding the database from the per-day
  logs (phase 1, replay) and the snapshot archive (phase 2, rehydration). This theory holds the
  definitions; the theory RebuildCorrect what they guarantee.
\<close>

section \<open>Statistics\<close>

record replay_stats =
  n_visits_inserted :: int
  n_of_interest_set :: int
  n_read_events :: int
  n_skimmed_events :: int
  n_success_records :: int
  n_error_records :: int
  n_orphan_actions :: int
  n_orphan_results :: int
  n_malformed_lines :: int

definition no_replay :: replay_stats where
  "no_replay = \<lparr>n_visits_inserted = 0, n_of_interest_set = 0, n_read_events = 0, n_skimmed_events = 0,
     n_success_records = 0, n_error_records = 0, n_orphan_actions = 0, n_orphan_results = 0,
     n_malformed_lines = 0\<rparr>"

definition has_skipped_lines :: "replay_stats \<Rightarrow> bool" where
  "has_skipped_lines s \<longleftrightarrow> n_orphan_actions s \<noteq> 0 \<or> n_orphan_results s \<noteq> 0 \<or> n_malformed_lines s \<noteq> 0"

record rehydrate_stats =
  n_snapshots_upserted :: int
  n_sealed_dirs :: int
  n_unsealed_dirs :: int
  n_events_relocated :: int
  n_files_without_events :: int

definition no_rehydrate :: rehydrate_stats where
  "no_rehydrate = \<lparr>n_snapshots_upserted = 0, n_sealed_dirs = 0, n_unsealed_dirs = 0,
     n_events_relocated = 0, n_files_without_events = 0\<rparr>"

record rebuild_stats =
  replay :: "replay_stats option"
  rehydrate :: "rehydrate_stats option"
  truncated :: bool

section \<open>The lines of a log\<close>

definition parse_action_fields :: "string list \<Rightarrow> action option" where
  "parse_action_fields parts =
     (case parts of
        [ts, url, title] \<Rightarrow> Some \<lparr>a_timestamp = ts, a_url = url, a_title = title, a_tag = [], a_filename = []\<rparr>
      | [ts, url, title, tag] \<Rightarrow> Some \<lparr>a_timestamp = ts, a_url = url, a_title = title, a_tag = tag, a_filename = []\<rparr>
      | [ts, url, title, tag, filename] \<Rightarrow>
          Some \<lparr>a_timestamp = ts, a_url = url, a_title = title, a_tag = tag, a_filename = filename\<rparr>
      | _ \<Rightarrow> None)"

definition is_result_payload :: "string \<Rightarrow> bool" where
  "is_result_payload payload \<longleftrightarrow> payload = ''success'' \<or> startswith payload ''error: ''"

section \<open>The logs to replay\<close>

text \<open>The second component of the sort key: 0 for the archive, 1 for \<open>LOG_DIR\<close>.\<close>

datatype log_source = ICloud | LogDir

instantiation log_source :: linorder
begin

definition less_eq_log_source :: "log_source \<Rightarrow> log_source \<Rightarrow> bool" where
  "less_eq_log_source a b \<longleftrightarrow> a = ICloud \<or> b = LogDir"

definition less_log_source :: "log_source \<Rightarrow> log_source \<Rightarrow> bool" where
  "less_log_source a b \<longleftrightarrow> a = ICloud \<and> b = LogDir"

instance
proof
  fix a b c :: log_source
  show "a < b \<longleftrightarrow> a \<le> b \<and> \<not> b \<le> a"
    by (cases a; cases b) (simp_all add: less_eq_log_source_def less_log_source_def)
  show "a \<le> a" by (cases a) (simp_all add: less_eq_log_source_def)
  show "a \<le> b \<Longrightarrow> b \<le> c \<Longrightarrow> a \<le> c"
    by (cases a; cases b; cases c) (simp_all add: less_eq_log_source_def)
  show "a \<le> b \<Longrightarrow> b \<le> a \<Longrightarrow> a = b"
    by (cases a; cases b) (simp_all add: less_eq_log_source_def)
  show "a \<le> b \<or> b \<le> a" by (cases a; cases b) (simp_all add: less_eq_log_source_def)
qed

end

type_synonym discovered = "(string \<times> log_source \<times> path) list"

definition log_in_date_dir :: "path \<Rightarrow> string \<Rightarrow> discovered \<Rightarrow> filename \<Rightarrow> discovered io" where
  "log_in_date_dir date_dir date_entry found entry =
     (case LOG_FILENAME_RE entry of
        None \<Rightarrow> ret found
      | Some date \<Rightarrow>
          bnd (gets (isfile (path_join date_dir entry))) (\<lambda>file.
          if \<not> file then ret found
          else if date \<noteq> date_entry then ret found
          else ret (found @ [(date, ICloud, path_join date_dir entry)])))"

definition logs_of_date_entry :: "path \<Rightarrow> discovered \<Rightarrow> filename \<Rightarrow> discovered io" where
  "logs_of_date_entry icloud_dir found date_entry =
     (if \<not> DATE_DIR_RE date_entry then ret found
      else
        (let date_dir = path_join icloud_dir date_entry
         in bnd (gets (isdir date_dir)) (\<lambda>dir.
            if \<not> dir then ret found
            else bnd (listdir date_dir) (\<lambda>names.
                 fold_io (log_in_date_dir date_dir date_entry) found names))))"

definition log_in_log_dir :: "path \<Rightarrow> discovered \<Rightarrow> filename \<Rightarrow> discovered io" where
  "log_in_log_dir log_dir found entry =
     (case LOG_FILENAME_RE entry of
        None \<Rightarrow> ret found
      | Some date \<Rightarrow>
          bnd (gets (isfile (path_join log_dir entry))) (\<lambda>file.
          if file then ret (found @ [(date, LogDir, path_join log_dir entry)]) else ret found))"

definition collect_log_paths :: "path \<Rightarrow> path \<Rightarrow> (string \<times> path) list io" where
  "collect_log_paths log_dir icloud_dir =
     bnd (bnd (gets (isdir icloud_dir)) (\<lambda>dir.
          if dir then bnd (listdir icloud_dir) (fold_io (logs_of_date_entry icloud_dir) []) else ret []))
       (\<lambda>archived.
     bnd (bnd (gets (isdir log_dir)) (\<lambda>dir.
          if dir then bnd (listdir log_dir) (fold_io (log_in_log_dir log_dir) archived) else ret archived))
       (\<lambda>found. ret (map (\<lambda>(date, _, path). (date, path)) (sort_key (\<lambda>(date, source, _). (date, source)) found))))"

section \<open>Replay\<close>

type_synonym pending = "(string \<times> action) list"

definition apply_action :: "config \<Rightarrow> action \<Rightarrow> replay_stats \<Rightarrow> replay_stats io" where
  "apply_action cfg act stats =
     thn (insert_visit (a_timestamp act) (a_url act) (a_title act))
       (let stats = stats\<lparr>n_visits_inserted := n_visits_inserted stats + 1\<rparr>
        in if a_tag act = ''of_interest''
           then thn (sql [Visits] (\<lambda>d. ((), snd (sql_set_of_interest (a_url act) d))))
                    (ret (stats\<lparr>n_of_interest_set := n_of_interest_set stats + 1\<rparr>))
           else if a_tag act = ''read'' \<or> a_tag act = ''skimmed''
           then thn (tag_visit cfg (a_url act) (a_tag act) (a_timestamp act) (a_filename act))
                    (ret (if a_tag act = ''read''
                          then stats\<lparr>n_read_events := n_read_events stats + 1\<rparr>
                          else stats\<lparr>n_skimmed_events := n_skimmed_events stats + 1\<rparr>))
           else ret stats)"

fun replay_line :: "config \<Rightarrow> pending \<times> replay_stats \<Rightarrow> string \<Rightarrow> (pending \<times> replay_stats) io" where
  "replay_line cfg (pending, stats) raw =
     (let line = rstrip_char NL raw in
      if line = [] then ret (pending, stats)
      else
        (let parts = split_on TAB line; record_id = hd parts; rest = tl parts in
         if \<not> looks_like_uuid record_id
         then ret (pending, stats\<lparr>n_malformed_lines := n_malformed_lines stats + 1\<rparr>)
         else if length rest = 1 \<and> is_result_payload (hd rest)
         then
           (case lookup_key fst record_id pending of
              None \<Rightarrow> ret (pending, stats\<lparr>n_orphan_results := n_orphan_results stats + 1\<rparr>)
            | Some (_, act) \<Rightarrow>
                (let pending = delete_where (\<lambda>p. fst p = record_id) pending
                 in if hd rest = ''success''
                    then bnd (apply_action cfg act stats) (\<lambda>stats.
                         ret (pending, stats\<lparr>n_success_records := n_success_records stats + 1\<rparr>))
                    else ret (pending, stats\<lparr>n_error_records := n_error_records stats + 1\<rparr>)))
         else
           (case parse_action_fields rest of
              None \<Rightarrow> ret (pending, stats\<lparr>n_malformed_lines := n_malformed_lines stats + 1\<rparr>)
            | Some act \<Rightarrow>
                ret (upsert fst (\<lambda>_. (record_id, act)) (record_id, act) pending,
                     if has_key fst record_id pending
                     then stats\<lparr>n_orphan_actions := n_orphan_actions stats + 1\<rparr> else stats))))"

definition replay_one_file ::
    "config \<Rightarrow> path \<Rightarrow> pending \<times> replay_stats \<Rightarrow> (pending \<times> replay_stats) io" where
  "replay_one_file cfg log_path s =
     thn (open_read log_path)
       (bnd (read_handle log_path) (\<lambda>text. fold_io (replay_line cfg) s (file_lines text)))"

definition replay_logs :: "config \<Rightarrow> path \<Rightarrow> path \<Rightarrow> replay_stats io" where
  "replay_logs cfg log_dir icloud_dir =
     bnd (collect_log_paths log_dir icloud_dir) (\<lambda>paths.
     bnd (fold_io (\<lambda>s (date_iso, log_path).
            thn (sql [Snapshots] (sql_insert_snapshot date_iso)) (replay_one_file cfg log_path s))
          ([], no_replay) paths) (\<lambda>(pending, stats).
     thn commit
       (ret (stats\<lparr>n_orphan_actions := n_orphan_actions stats + int (length pending)\<rparr>))))"

section \<open>Rehydration\<close>

text \<open>\<open>UPDATE <tag>_events SET directory = ? WHERE filename = ? AND directory = ?\<close>\<close>

definition sql_relocate :: "event_tag \<Rightarrow> path \<Rightarrow> filename \<Rightarrow> path \<Rightarrow> database \<Rightarrow> int \<times> database" where
  "sql_relocate tg date_dir fname downloads d =
     (let (n, es) = update_where (\<lambda>e. e_filename e = fname \<and> e_directory e = downloads)
                      (\<lambda>e. e\<lparr>e_directory := date_dir\<rparr>) (events tg d)
      in (n, set_events tg es d))"

definition rehydrate_file ::
    "path \<Rightarrow> path \<Rightarrow> filename \<Rightarrow> rehydrate_stats \<Rightarrow> filename \<Rightarrow> rehydrate_stats io" where
  "rehydrate_file date_dir downloads log_filename stats fname =
     (if fname = ''MANIFEST.tsv'' \<or> fname = log_filename then ret stats
      else if \<not> SNAPSHOT_FILENAME_RE fname then ret stats
      else
        bnd (sql [ReadEvents] (sql_relocate Read date_dir fname downloads)) (\<lambda>n.
        bnd (sql [SkimmedEvents] (sql_relocate Skimmed date_dir fname downloads)) (\<lambda>m.
        let relocated_here = n + m
        in if relocated_here > 0
           then ret (stats\<lparr>n_events_relocated := n_events_relocated stats + relocated_here\<rparr>)
           else ret (stats\<lparr>n_files_without_events := n_files_without_events stats + 1\<rparr>))))"

definition rehydrate_dir :: "path \<Rightarrow> path \<Rightarrow> rehydrate_stats \<Rightarrow> filename \<Rightarrow> rehydrate_stats io" where
  "rehydrate_dir icloud_dir downloads stats entry =
     (if \<not> DATE_DIR_RE entry then ret stats
      else
        (let date_dir = path_join icloud_dir entry in
         bnd (gets (isdir date_dir)) (\<lambda>dir.
         if \<not> dir then ret stats
         else
           bnd (gets (exists (path_join date_dir ''MANIFEST.tsv''))) (\<lambda>manifest.
           let sealed = (if manifest then 1 else 0) in
           thn (sql [Snapshots] (sql_upsert_snapshot entry sealed))
             (let stats = stats\<lparr>n_snapshots_upserted := n_snapshots_upserted stats + 1\<rparr>;
                  stats = (if manifest then stats\<lparr>n_sealed_dirs := n_sealed_dirs stats + 1\<rparr>
                           else stats\<lparr>n_unsealed_dirs := n_unsealed_dirs stats + 1\<rparr>)
              in bnd (listdir date_dir) (\<lambda>names.
                 fold_io (rehydrate_file date_dir downloads (log_filename_for entry)) stats (sort names)))))))"

definition rehydrate_filesystem :: "config \<Rightarrow> path \<Rightarrow> path \<Rightarrow> rehydrate_stats io" where
  "rehydrate_filesystem cfg icloud_dir downloads_dir =
     bnd (gets (isdir icloud_dir)) (\<lambda>dir.
     if \<not> dir then ret no_rehydrate
     else
       thn (ensure_snapshots_table cfg)
         (bnd (listdir icloud_dir) (\<lambda>names.
          bnd (fold_io (rehydrate_dir icloud_dir downloads_dir) no_rehydrate (sort names)) (\<lambda>stats.
          thn commit (ret stats)))))"

section \<open>The rebuild\<close>

definition REBUILDABLE_TABLES :: "table list" where
  "REBUILDABLE_TABLES = [Visits, ReadEvents, SkimmedEvents, Snapshots]"

definition truncate_rebuildable_tables :: "unit io" where
  "truncate_rebuildable_tables = thn (for_each REBUILDABLE_TABLES (\<lambda>t. ddl (drop_table t))) commit"

definition rebuild :: "config \<Rightarrow> path \<Rightarrow> path \<Rightarrow> path \<Rightarrow> bool \<Rightarrow> bool \<Rightarrow> bool \<Rightarrow> rebuild_stats io" where
  "rebuild cfg log_dir icloud_dir downloads_dir do_log do_rehydrate trunc =
     thn (if trunc then truncate_rebuildable_tables else ret ())
       (thn (ensure_db cfg)
         (thn (ensure_snapshots_table cfg)
           (bnd (if do_log then bnd (replay_logs cfg log_dir icloud_dir) (\<lambda>s. ret (Some s)) else ret None) (\<lambda>r.
            bnd (if do_rehydrate then bnd (rehydrate_filesystem cfg icloud_dir downloads_dir) (\<lambda>s. ret (Some s))
                 else ret None) (\<lambda>h.
            ret \<lparr>replay = r, rehydrate = h, truncated = trunc\<rparr>)))))"

section \<open>The command line\<close>

text \<open>The options after parsing; \<open>None\<close> is an option that was not given.\<close>

record rebuild_args =
  log_only :: bool
  rehydrate_only :: bool
  opt_truncate :: bool
  opt_log_dir :: "string option"
  opt_db_path :: "string option"
  opt_source :: "string option"
  opt_dest :: "string option"

text \<open>\<open>option or default\<close>: an empty string counts as absent.\<close>

definition or_else :: "string option \<Rightarrow> string \<Rightarrow> string" where
  "or_else x d = (case x of None \<Rightarrow> d | Some s \<Rightarrow> if s = [] then d else s)"

definition replay_summary :: "replay_stats \<Rightarrow> string" where
  "replay_summary r =
     ''replay: visits='' @ int_str (n_visits_inserted r) @ '' of_interest='' @ int_str (n_of_interest_set r)
     @ '' read='' @ int_str (n_read_events r) @ '' skimmed='' @ int_str (n_skimmed_events r)
     @ '' errors='' @ int_str (n_error_records r) @ '' orphan_actions='' @ int_str (n_orphan_actions r)
     @ '' orphan_results='' @ int_str (n_orphan_results r) @ '' malformed='' @ int_str (n_malformed_lines r)"

definition rehydrate_summary :: "rehydrate_stats \<Rightarrow> string" where
  "rehydrate_summary h =
     ''rehydrate: snapshots='' @ int_str (n_snapshots_upserted h) @ '' sealed='' @ int_str (n_sealed_dirs h)
     @ '' unsealed='' @ int_str (n_unsealed_dirs h) @ '' relocated='' @ int_str (n_events_relocated h)
     @ '' files_without_events='' @ int_str (n_files_without_events h)"

definition print_summary :: "rebuild_stats \<Rightarrow> unit io" where
  "print_summary stats =
     print_out (join_with [NL]
       ((case replay stats of None \<Rightarrow> [] | Some r \<Rightarrow> [replay_summary r])
        @ (case rehydrate stats of None \<Rightarrow> [] | Some h \<Rightarrow> [rehydrate_summary h])))"

text \<open>\<open>except Exception\<close>: everything but \<open>SystemExit\<close>.\<close>

fun is_exception :: "exn \<Rightarrow> bool" where
  "is_exception (SystemExit _) = False"
| "is_exception _ = True"

definition rebuild_parse_args :: "rebuild_args \<Rightarrow> rebuild_args io" where
  "rebuild_parse_args args =
     (if log_only args \<and> rehydrate_only args
      then thn (print_err ''cannot combine --log-only with --rehydrate-only'') (throw (SystemExit 2))
      else ret args)"

definition rebuild_cli :: "config \<Rightarrow> rebuild_args \<Rightarrow> int io" where
  "rebuild_cli cfg0 argv =
     bnd (rebuild_parse_args argv) (\<lambda>args.
     let log_dir = or_else (opt_log_dir args) (LOG_DIR cfg0);
         db_path = or_else (opt_db_path args) (DB_FILE cfg0);
         downloads_dir = or_else (opt_source args) (DOWNLOADS_SNAPSHOTS_DIR cfg0);
         icloud_dir = or_else (opt_dest args) (ICLOUD_SNAPSHOTS_DIR cfg0);
         do_log = (\<not> rehydrate_only args);
         do_rehydrate = (\<not> log_only args);
         cfg = cfg0\<lparr>DOWNLOADS_SNAPSHOTS_DIR := downloads_dir, DB_FILE := db_path, LOG_DIR := log_dir,
           ICLOUD_SNAPSHOTS_DIR := icloud_dir\<rparr>
     in bnd (gets (isdir log_dir)) (\<lambda>there.
        if do_log \<and> \<not> there
        then thn (print_err (''No log directory at '' @ log_dir)) (ret 1)
        else
          (let db_dir = (if dirname db_path = [] then ''.'' else dirname db_path) in
           bnd (gets (isdir db_dir)) (\<lambda>db_there.
           if \<not> db_there
           then thn (print_err (''DB parent directory '' @ db_dir @ '' does not exist'')) (ret 1)
           else
             bnd (catch
               (thn connect
                 (lastly (bnd (rebuild cfg log_dir icloud_dir downloads_dir do_log do_rehydrate
                                (opt_truncate args)) (\<lambda>s. ret (Some s)))
                   close))
               (\<lambda>exc. if is_exception exc then ret None else throw exc)) (\<lambda>stats.
             case stats of
               None \<Rightarrow> ret 2
             | Some s \<Rightarrow>
                 thn (print_summary s)
                   (ret (if (case replay s of None \<Rightarrow> False | Some r \<Rightarrow> has_skipped_lines r) then 1 else 0)))))))"

end
