(* ===== verification/SyncProperties.thy ===== *)
theory SyncProperties
  imports SyncSession Rebuilder
begin

text \<open>
  The properties of the sync client: what a push sends, that no line is lost and nothing is sent twice,
  what a pull delivers, that pulled lines can be delivered again, that both replays of the program agree
  on them, and what is left when something fails.
\<close>

section \<open>Consistency\<close>

definition consistent :: "world \<Rightarrow> bool" where
  "consistent w \<longleftrightarrow> quiet w \<and> db_ok (db w) \<and> db_ok (disk w)"

lemma db_ok_other [simp]:
  "db_ok (d\<lparr>sync_state := ys\<rparr>) = db_ok d" "db_ok (d\<lparr>mover_errors := es\<rparr>) = db_ok d"
  by (simp_all add: db_ok_def counts_ok_def visited_def events_of_def)

lemma consistent_update [simp]:
  "consistent (w\<lparr>files := fs\<rparr>) = consistent w" "consistent (w\<lparr>fs_faults := fl\<rparr>) = consistent w"
  "consistent (w\<lparr>reads := n\<rparr>) = consistent w" "consistent (w\<lparr>pushed := ps\<rparr>) = consistent w"
  by (simp_all add: consistent_def)

lemma consistent_sql:
  assumes "Snapshots \<notin> set ts" and "\<And>d. db_ok d \<Longrightarrow> db_ok (snd (f d))" and "\<And>d. tables (snd (f d)) = tables d"
  shows "keeps consistent (sql ts f)"
  using assms by (auto simp: keeps_def consistent_def quiet_sql)

lemma consistent_select: "keeps consistent (select ts f)"
  by (auto simp: keeps_def consistent_def select_def db_op_def quiet_def)

lemma consistent_now: "keeps consistent now_iso"
  by (simp add: keeps_def now_iso_def)

lemma consistent_set_cursor: "keeps consistent (set_cursor k d off)"
  unfolding set_cursor_def Let_def by (intro keeps_rules consistent_now consistent_sql) simp_all

lemma consistent_stable: "sync_stable consistent"
proof -
  have c: "keeps consistent commit" by (auto simp: keeps_def consistent_def quiet_commit)
  have err: "keeps consistent (sync_record_error op tgt s x)" for op tgt s x
    unfolding sync_record_error_def Let_def by (intro keeps_rules consistent_now consistent_sql) simp_all
  have clr: "keeps consistent (sync_clear_error op tgt)" for op tgt
    unfolding sync_clear_error_def by (rule consistent_sql) simp_all
  have mark: "keeps consistent (mark_attempt k s)" for k s
    unfolding mark_attempt_def Let_def by (intro keeps_rules consistent_now consistent_sql) simp_all
  have rep: "keeps consistent (replay_into_db raw)" for raw
  proof (unfold keeps_def, intro allI impI)
    fix w assume w: "consistent w"
    then obtain b where "replay_into_db raw w = (Inr (), w\<lparr>db := db_sync raw (db w), in_tx := b\<rparr>)"
      using run_replay [of w raw] by (auto simp: consistent_def)
    then show "consistent (snd (replay_into_db raw w))"
      using w by (simp add: consistent_def db_ok_sync)
  qed
  show ?thesis
    unfolding sync_stable_def
    by (intro conjI allI impI keepsD [OF c] keepsD [OF consistent_select] err clr mark rep)
      (simp_all add: file_free_def)
qed

lemma keeps_do_push:
  assumes st: "sync_stable I" and "\<And>d off. keeps I (set_cursor m d off)" and "\<And>ls. keeps I (push_rpc srv ls)"
  shows "keeps I (do_push srv cfg m endpoint)"
  unfolding do_push_def push_date_def push_line_def send_push_def read_log_lines_after_def
    list_local_log_dates_def Let_def
  by (intro keeps_rules keeps_get_cursor keeps_files keeps_record_and_raise assms sync_stableD [OF st])

section \<open>Push\<close>

text \<open>
  C13. A push sends the log lines past the cursor, in order of date and line number and in batches of
  500, and moves the cursor to the last of them; when it raises, what the server accepted is a prefix of
  those lines, and the cursor has not moved. This holds whatever the server, the file system and the
  database do.
\<close>

theorem push_sends_pending:
  "case do_push srv cfg m endpoint w of
     (Inr _, w') \<Rightarrow>
       pushed w' = pushed w @ map (Pair True) (batches 500 (pending_lines cfg (files w) (cursor_of m (db w))))
       \<and> cursor_of m (db w') = end_pos (cursor_of m (db w)) (pending_lines cfg (files w) (cursor_of m (db w)))
   | (Inl e, w') \<Rightarrow>
       (\<exists>bs rest. pushed w' = pushed w @ map (Pair True) bs @ map (Pair False) rest
          \<and> prefix (concat bs @ concat rest) (pending_lines cfg (files w) (cursor_of m (db w))) \<and> length rest \<le> 1)
       \<and> cursor_of m (db w') = cursor_of m (db w)"
proof -
  let ?L = "pending_lines cfg (files w) (cursor_of m (db w))"
  have "wp (do_push srv cfg m endpoint)
     (\<lambda>_ w'. pushed w' = pushed w @ map (Pair True) (batches 500 ?L) \<and> cursor_of m (db w') = end_pos (cursor_of m (db w)) ?L)
     (\<lambda>_ w'. push_err w ?L w') w"
    by (rule wp_do_push) auto
  then show ?thesis
    by (auto simp: wp_def push_err_def push_frame_cursor split: prod.splits sum.splits)
qed

text \<open>
  No request of a push is empty and none has more than 500 lines, whatever fails.
\<close>

theorem push_request_bounds:
  "list_all (\<lambda>b. snd b \<noteq> [] \<and> length (snd b) \<le> 500)
     (drop (length (pushed w)) (pushed (snd (do_push srv cfg m endpoint w))))"
proof -
  let ?L = "pending_lines cfg (files w) (cursor_of m (db w))"
  let ?P = "\<lambda>w'. list_all (\<lambda>b. snd b \<noteq> [] \<and> length (snd b) \<le> 500) (drop (length (pushed w)) (pushed w'))"
  have "wp (do_push srv cfg m endpoint) (\<lambda>_. ?P) (\<lambda>_. ?P) w"
    by (rule wp_do_push)
      (use batches_bound [of _ 500 ?L] in \<open>auto simp: push_err_def list_all_iff\<close>)
  then show ?thesis by (simp add: wp_snd)
qed

lemma sorted_map_last: "sorted (map f xs) \<Longrightarrow> x \<in> set xs \<Longrightarrow> f x \<le> f (last xs)"
  by (induction xs) auto

lemma lines_after_twice:
  assumes "lines_after t i \<noteq> []"
  shows "lines_after t (fst (last (lines_after t i))) = []"
proof -
  let ?P = "\<lambda>j. filter (\<lambda>x. \<not> fst x \<le> j) (enumerate_int (file_lines t))"
  have s: "sorted (map fst (enumerate_int (file_lines t)))"
    by (simp add: enumerate_int_def sorted_wrt_map)
  have e: "lines_after t j = map (\<lambda>x. (fst x, rstrip_char NL (snd x))) (?P j)" for j
    by (simp add: lines_after_def case_prod_beta')
  have "?P i \<noteq> []" using assms by (simp add: e)
  then have l: "fst (last (lines_after t i)) = fst (last (?P i))" by (simp add: e last_map)
  have i: "\<not> fst (last (?P i)) \<le> i"
    using last_in_set [OF \<open>?P i \<noteq> []\<close>] by simp
  have "fst x \<le> fst (last (?P i))" if x: "x \<in> set (enumerate_int (file_lines t))" for x
  proof (cases "fst x \<le> i")
    case True
    with i show ?thesis by simp
  next
    case False
    have "sorted (map fst (?P i))" using s by (rule sorted_filter)
    then show ?thesis by (rule sorted_map_last) (use x False in simp)
  qed
  then show ?thesis
    unfolding l by (subst e) (simp add: filter_empty_conv)
qed

lemma last_concat_split:
  "concat (map f xs) \<noteq> [] \<Longrightarrow> \<exists>pre x post. xs = pre @ x # post \<and> f x \<noteq> [] \<and> (\<forall>y\<in>set post. f y = [])
     \<and> last (concat (map f xs)) = last (f x)"
proof (induction xs rule: rev_induct)
  case Nil
  then show ?case by simp
next
  case (snoc y xs)
  show ?case
  proof (cases "f y = []")
    case True
    with snoc obtain pre x post where "xs = pre @ x # post" "f x \<noteq> []" "\<forall>y\<in>set post. f y = []"
        "last (concat (map f xs)) = last (f x)" by auto
    with True show ?thesis by (intro exI [of _ pre] exI [of _ x] exI [of _ "post @ [y]"]) auto
  next
    case False
    then show ?thesis by (intro exI [of _ xs] exI [of _ y] exI [of _ "[]"]) auto
  qed
qed

lemma pending_drained: "pending_lines cfg fs (end_pos cur (pending_lines cfg fs cur)) = []"
proof (cases "pending_lines cfg fs cur = []")
  case True
  then show ?thesis by (simp add: end_pos_def)
next
  case False
  let ?f = "date_lines cfg fs cur"
  from last_concat_split [OF False [unfolded pending_lines_def]] obtain pre d post
    where ds: "pending_dates cfg fs cur = pre @ d # post" and ne: "?f d \<noteq> []"
      and post: "\<forall>e\<in>set post. ?f e = []" and l: "last (pending_lines cfg fs cur) = last (?f d)"
    unfolding pending_lines_def by blast
  let ?off = "if d = fst cur then snd cur else - 1"
  let ?i = "fst (last (lines_after (log_text cfg fs d) ?off))"
  have nl: "lines_after (log_text cfg fs d) ?off \<noteq> []" using ne by (simp add: date_lines_def)
  have c: "end_pos cur (pending_lines cfg fs cur) = (d, ?i)"
    using False nl by (simp add: end_pos_def l line_pos_def date_lines_def last_map)
  have sd: "sorted (pending_dates cfg fs cur)" by (simp add: pending_dates_def local_dates_def sorted_wrt_filter)
  have d: "d \<in> set (local_dates cfg fs)" "fst cur \<le> d"
  proof -
    have "d \<in> set (pending_dates cfg fs cur)" by (simp add: ds)
    then show "d \<in> set (local_dates cfg fs)" "fst cur \<le> d" by (auto simp: pending_dates_def split: if_splits)
  qed
  then have dne: "d \<noteq> []" using LOG_date_nonempty by (auto simp: local_dates_def map_filter_def split: if_splits)
  have "date_lines cfg fs (d, ?i) e = []" if e: "e \<in> set (local_dates cfg fs)" "d \<le> e" for e
  proof (cases "e = d")
    case True
    then show ?thesis using lines_after_twice [OF nl] by (simp add: date_lines_def)
  next
    case False
    then have gt: "d < e" using e(2) by simp
    then have "e \<in> set (pending_dates cfg fs cur)" using e d(2) by (auto simp: pending_dates_def)
    moreover have "e \<notin> set pre" using sd gt unfolding ds by (auto simp: sorted_append)
    ultimately have "e \<in> set post" using False ds by auto
    with post have "date_lines cfg fs cur e = []" by blast
    moreover have "e \<noteq> fst cur" using gt d(2) by auto
    ultimately show ?thesis using False by (simp add: date_lines_def)
  qed
  then show ?thesis using dne unfolding c by (simp add: pending_lines_def pending_dates_def)
qed

text \<open>
  A second push sends nothing, whatever fails in it: after a push that returned, no request is made
  until a log has grown.
\<close>

theorem second_push_sends_nothing:
  "case do_push srv cfg m endpoint w of
     (Inr _, w') \<Rightarrow> pushed (snd (do_push srv' cfg m endpoint' w')) = pushed w'
   | _ \<Rightarrow> True"
proof -
  have "wp (do_push srv cfg m endpoint)
     (\<lambda>_ w'. pushed (snd (do_push srv' cfg m endpoint' w')) = pushed w') (\<lambda>_ _. True) w"
  proof (rule wp_do_push)
    fix w' :: world
    assume "files w' = files w" and "\<And>k. cursor_of k (db w') = (if k = m then end_pos (cursor_of m (db w))
          (pending_lines cfg (files w) (cursor_of m (db w))) else cursor_of k (db w))"
    then have none: "pending_lines cfg (files w') (cursor_of m (db w')) = []" by (simp add: pending_drained)
    have "wp (do_push srv' cfg m endpoint') (\<lambda>_ v. pushed v = pushed w') (\<lambda>_ v. pushed v = pushed w') w'"
      by (rule wp_do_push) (auto simp: none batches.simps [of _ "[]"] push_err_def list_all_iff)
    then show "pushed (snd (do_push srv' cfg m endpoint' w')) = pushed w'" by (simp add: wp_snd)
  qed simp
  then show ?thesis by (auto simp: wp_def split: prod.splits sum.splits)
qed

text \<open>
  C4. No log line is lost: every line that was past the cursor when a session starts is, when it ends,
  still past the committed cursor or accepted by the server. This holds for every pattern of
  failures, on a server that does not deliver a machine its own lines.
\<close>

theorem no_line_lost:
  assumes "db w = disk w" and "\<And>h cs. m \<notin> fst ` set (fst (pull srv h cs))"
  shows "set (pending_lines cfg (files w) (cursor_of m (disk w))) \<subseteq>
     (let w' = snd (sync_session srv cfg insecure force m endpoint w)
      in set (pending_lines cfg (files w) (cursor_of m (disk w'))) \<union> set (accepted w'))"
proof -
  let ?S = "set (pending_lines cfg (files w) (cursor_of m (disk w)))"
  have "takes (\<lambda>v. line_safe cfg (files w) m ?S v \<and> files v = files w) (line_safe cfg (files w) m ?S)
      (sync_session srv cfg insecure force m endpoint)"
  proof (rule session_takes [OF line_safe_stable])
    fix h cs c d off assume "c \<in> set (fst (pull srv h cs))"
    then show "keeps (line_safe cfg (files w) m ?S) (set_cursor (fst c) d off)"
      using assms(2) [of h cs] by (intro line_safe_peer) auto
  qed (rule line_safe_push)
  moreover have "line_safe cfg (files w) m ?S w" using assms(1) by (simp add: line_safe_def)
  ultimately show ?thesis by (simp add: takes_def line_safe_def Let_def)
qed

definition sample_service :: service where
  "sample_service = \<lparr>push_error = (\<lambda>h _. if h = [] then Some (RpcError ''deadline'') else None),
     pull = (\<lambda>_ _. ([(''peer'', [(''2024-01-02'', 7, ''id'')])], Some (RpcError ''unavailable''))),
     stubs_error = None, lock_error = None\<rparr>"

definition sample_sync :: sync_config where
  "sample_sync = \<lparr>S_LOG_DIR = ''/l'', PEER_LOGS_DIR = ''/p'', LOCK_FILE = ''/c/sync.lock'', TLS_DIR = ''/c/tls'',
     SYNC_INTERVAL_SECONDS = 60\<rparr>"

theorem no_line_lost_witness:
  "let w = sample_world\<lparr>files := [([''l''], Dir), ([''l'', ''browser-visits-2024-01-02.log''], File ''a'' 420)]\<rparr>;
       w' = snd (sync_session sample_service sample_sync True True ''me'' ''host:1'' w)
   in set (pending_lines sample_sync (files w) (cursor_of ''me'' (disk w))) \<subseteq>
      set (pending_lines sample_sync (files w) (cursor_of ''me'' (disk w'))) \<union> set (accepted w')"
  unfolding Let_def
  by (rule no_line_lost [unfolded Let_def]) (simp_all add: sample_world_def sample_service_def)

section \<open>Consistency of the database\<close>

text \<open>
  A session keeps the database consistent, committed and in memory, whatever the server and the file
  system do, as long as no SQL statement fails.
\<close>

lemma session_keeps_consistent:
  assumes "consistent w"
  shows "consistent (snd (sync_session srv cfg insecure force m endpoint w))"
proof -
  have rpc: "keeps consistent (push_rpc srv' ls)" for srv' ls
    by (auto simp: keeps_def push_rpc_def split: option.split)
  have "keeps consistent (do_push srv cfg m endpoint)"
    by (rule keeps_do_push [OF consistent_stable consistent_set_cursor rpc])
  then have "takes (\<lambda>v. consistent v \<and> files v = files w) consistent (do_push srv cfg m endpoint)"
    by (simp add: takes_def keeps_def)
  then have "takes (\<lambda>v. consistent v \<and> files v = files w) consistent (sync_session srv cfg insecure force m endpoint)"
    by (intro session_takes consistent_stable consistent_set_cursor)
  then show ?thesis using assms by (simp add: takes_def)
qed

section \<open>Pull\<close>

text \<open>
  C17. A pull in which no SQL statement fails: if it returns, the database is the one that replaying all
  delivered lines in order gives, and the cursor of each peer is at the last line of its last chunk; if
  it raises, the same holds of the first \<open>n\<close> chunks and, beyond them, a prefix of the next chunk's lines
  whose cursor has not moved. So no cursor passes a line that is not in the database.
\<close>

theorem pull_delivers:
  assumes "quiet w"
    and "chunks = fst (pull srv (pushed w) (map (\<lambda>r. (y_machine_id r, y_cursor_log_date r, y_cursor_line_offset r)) (sync_state (db w))))"
  shows "case do_pull srv cfg m endpoint w of
     (Inr _, w') \<Rightarrow> log_part (db w') = replayed (concat (map chunk_texts chunks)) (log_part (db w))
       \<and> (\<forall>k. cursor_of k (db w') = cursor_after chunks k (cursor_of k (db w)))
   | (Inl e, w') \<Rightarrow> \<exists>n ls. n \<le> length chunks \<and> prefix ls (next_texts chunks n)
       \<and> log_part (db w') = replayed (concat (map chunk_texts (take n chunks)) @ ls) (log_part (db w))
       \<and> (\<forall>k. cursor_of k (db w') = cursor_after (take n chunks) k (cursor_of k (db w)))"
  using wp_do_pull [OF assms(1), of srv cfg m endpoint] unfolding assms(2) [symmetric]
  by (auto simp: wp_def pulled_def split: prod.splits sum.splits) blast?

theorem pull_delivers_witness:
  "case do_pull sample_service sample_sync ''me'' ''host:1'' sample_world of
     (Inr _, w') \<Rightarrow> False
   | (Inl e, w') \<Rightarrow> \<exists>n ls. n \<le> 1 \<and> prefix ls (next_texts [(''peer'', [(''2024-01-02'', 7, ''id'')])] n)
       \<and> log_part (db w') = replayed (concat (map chunk_texts (take n [(''peer'', [(''2024-01-02'', 7, ''id'')])])) @ ls)
            (log_part (db sample_world))"
proof -
  have q: "quiet sample_world"
    by (simp add: quiet_def sample_world_def schema_sql_def create_table_def create_events_def empty_database_def)
  have r: "isl (fst (do_pull sample_service sample_sync ''me'' ''host:1'' sample_world))"
    by code_simp
  from pull_delivers [OF q refl, of sample_service sample_sync "''me''" "''host:1''"] r show ?thesis
    by (auto simp: sample_service_def split: prod.splits sum.splits)
qed

lemma run_replays:
  "quiet w \<Longrightarrow> \<exists>b. for_each raws replay_into_db w = (Inr (), w\<lparr>db := replayed raws (db w), in_tx := b\<rparr>)"
proof (induction raws arbitrary: w)
  case Nil
  then show ?case by (intro exI [of _ "in_tx w"]) (simp add: ret_def replayed_def)
next
  case (Cons raw raws)
  from run_replay [OF Cons.prems, of raw] obtain b
    where r: "replay_into_db raw w = (Inr (), w\<lparr>db := db_sync raw (db w), in_tx := b\<rparr>)" by blast
  have "quiet (w\<lparr>db := db_sync raw (db w), in_tx := b\<rparr>)" using Cons.prems by simp
  from Cons.IH [OF this] show ?case by (simp add: io_simps r replayed_def)
qed

text \<open>
  Lines that were pulled before can be delivered again, in any order and number: replaying them
  leaves the database exactly as it was.
\<close>

theorem redelivery_changes_nothing:
  assumes "quiet w" and "set bs \<subseteq> set as"
  shows "\<exists>v v'. for_each as replay_into_db w = (Inr (), v) \<and> for_each bs replay_into_db v = (Inr (), v')
     \<and> db v' = db v"
proof -
  obtain b where a: "for_each as replay_into_db w = (Inr (), w\<lparr>db := replayed as (db w), in_tx := b\<rparr>)" (is "_ = (_, ?v)")
    using run_replays [OF assms(1)] by blast
  have t: "tables (replayed as d) = tables d" for d
    unfolding replayed_def by (induction as arbitrary: d) auto
  have "quiet ?v" using assms(1) t by simp
  from run_replays [OF this, of bs] obtain c
    where c: "for_each bs replay_into_db ?v = (Inr (), ?v\<lparr>db := replayed bs (db ?v), in_tx := c\<rparr>)" by blast
  have "replayed bs (replayed as (db w)) = replayed as (db w)"
    using sync_replay.redelivery [OF assms(2)] by (simp add: replayed_def sync_replay.apply_all_def)
  then show ?thesis using a c by (intro exI conjI) (assumption | simp)+
qed

theorem redelivery_changes_nothing_witness:
  "\<exists>v v'. for_each [''i'' @ [TAB] @ ''t'' @ [TAB] @ ''u'' @ [TAB] @ ''T'' @ [TAB] @ ''read'' @ [TAB] @ ''f'', ''x''] replay_into_db sample_world = (Inr (), v)
     \<and> for_each [''x'', ''i'' @ [TAB] @ ''t'' @ [TAB] @ ''u'' @ [TAB] @ ''T'' @ [TAB] @ ''read'' @ [TAB] @ ''f''] replay_into_db v = (Inr (), v')
     \<and> db v' = db v"
  by (rule redelivery_changes_nothing)
    (auto simp: quiet_def sample_world_def schema_sql_def create_table_def create_events_def empty_database_def)

section \<open>Both replays agree\<close>

text \<open>
  The action lines the native host writes: no tag, \<open>of_interest\<close>, or \<open>read\<close> or \<open>skimmed\<close> with a file name. What
  the two replays keep alike is the visits and the keys of the events; the sync client stores another
  file name and directory.
\<close>

definition host_line :: "string \<Rightarrow> bool" where
  "host_line raw \<longleftrightarrow>
     (let f = split_on TAB raw
      in length f = 4 \<or> length f = 5 \<and> f ! 4 = ''of_interest''
         \<or> length f = 6 \<and> (f ! 4 = ''read'' \<or> f ! 4 = ''skimmed''))"

definition same_history :: "database \<Rightarrow> database \<Rightarrow> bool" where
  "same_history d d' \<longleftrightarrow> visits d = visits d' \<and> map event_key (read_events d) = map event_key (read_events d')
     \<and> map event_key (skimmed_events d) = map event_key (skimmed_events d')"

definition line_action :: "string \<Rightarrow> action" where
  "line_action raw = the (parse_action_fields (tl (split_on TAB raw)))"

lemma same_history_tag: "same_history d d' \<Longrightarrow> map event_key (events tg d) = map event_key (events tg d')"
  by (cases tg) (simp_all add: same_history_def)

lemma same_keys: "map event_key es = map event_key es' \<Longrightarrow> has_key event_key k es = has_key event_key k es'"
  unfolding has_key_iff by (metis image_set)

lemma same_history_event:
  assumes "same_history d d'" and "event_key e = event_key e'"
  shows "same_history (db_event tg e d) (db_event tg e' d')"
proof -
  have u: "e_url e = e_url e'" using assms(2) by (simp add: event_key_def)
  show ?thesis
    using assms same_keys [OF same_history_tag [OF assms(1), of tg]]
    by (cases tg) (auto simp: db_event_def same_history_def sql_bump_def u)
qed

lemma same_history_statement:
  assumes "same_history d d'"
  shows "same_history (snd (sql_insert_visit u ts ti d)) (snd (sql_insert_visit u ts ti d'))"
    "same_history (snd (sql_set_of_interest u d)) (snd (sql_set_of_interest u d'))"
  using assms by (simp_all add: same_history_def sql_insert_visit_def sql_set_of_interest_def update_where_def)

lemma host_line_action: "host_line raw \<Longrightarrow> sync_action raw = Some (line_action raw)"
proof -
  assume "host_line raw"
  then consider a b c d where "split_on TAB raw = [a, b, c, d]"
    | a b c d where "split_on TAB raw = [a, b, c, d, ''of_interest'']"
    | a b c d f tag where "split_on TAB raw = [a, b, c, d, tag, f]" "tag = ''read'' \<or> tag = ''skimmed''"
    by (auto simp: host_line_def Let_def length_Suc_conv eval_nat_numeral)
  then show ?thesis
    by cases (auto simp: sync_action_def line_action_def parse_action_fields_def Let_def)
qed

lemma same_history_step:
  assumes "host_line raw" and h: "same_history d d'"
  shows "same_history (db_sync raw d) (db_action cfg (line_action raw) d')"
proof -
  let ?a = "line_action raw"
  have v: "same_history (snd (sql_insert_visit (a_url ?a) (a_timestamp ?a) (a_title ?a) d))
      (snd (sql_insert_visit (a_url ?a) (a_timestamp ?a) (a_title ?a) d'))"
    by (rule same_history_statement [OF h])
  show ?thesis
    unfolding db_sync_def host_line_action [OF assms(1)] option.case db_sync_action_def db_action_def Let_def
    by (auto intro!: same_history_statement v same_history_event)
qed



section \<open>Failures\<close>

lemma sync_upsert_row:
  "lookup_key m_key k (sync_upsert_error k op tgt msg now imm t) =
     Some (case lookup_key m_key k t of None \<Rightarrow> new_error k op tgt msg now imm | Some r \<Rightarrow> again msg now imm r)"
  by (cases "lookup_key m_key k t") (simp_all add: sync_log.note_first sync_log.note_again)

text \<open>
  A request that fails leaves one row for its endpoint in \<open>mover_errors\<close>: it carries the last message,
  counts the failures so far, keeps the time of the first, and is immediate once one of them was an
  authentication error; a request that succeeds removes it.
\<close>

theorem push_error_row:
  assumes "quiet w" and "\<And>h ls e. push_error srv h ls = Some e \<Longrightarrow> is_python_exception e"
    and "before = lookup_key m_key (sync_error_key ''sync_push'' endpoint) (mover_errors (db w))"
  shows "case send_push srv endpoint ls w of
     (Inr _, w') \<Rightarrow> lookup_key m_key (sync_error_key ''sync_push'' endpoint) (mover_errors (db w')) = None
   | (Inl e, w') \<Rightarrow> lookup_key m_key (sync_error_key ''sync_push'' endpoint) (mover_errors (db w')) =
       Some (let imm = if is_auth_error e then 1 else 0
         in case before of
              None \<Rightarrow> new_error (sync_error_key ''sync_push'' endpoint) ''sync_push'' endpoint (exn_str e) (clock w (reads w)) imm
            | Some r \<Rightarrow> again (exn_str e) (clock w (reads w)) imm r)"
proof (cases "push_error srv (pushed w) ls")
  case None
  then show ?thesis
    using assms(1)
    by (simp add: send_push_def push_rpc_def sync_clear_error_def io_simps quiet_sql sync_log.forget_same)
next
  case (Some e)
  then have e: "is_python_exception e" using assms(2) by blast
  then have "\<not> (\<exists>n. e = SystemExit n)" by auto
  with Some e show ?thesis
    using assms(1,3)
    by (simp add: send_push_def push_rpc_def record_and_raise_def sync_record_error_def io_simps
      quiet_sql Let_def sync_upsert_row)
qed

theorem push_error_row_witness:
  "case send_push sample_service ''host:1'' [(''2024-01-02'', 0, ''x'')] sample_world of
     (Inr _, w') \<Rightarrow> False
   | (Inl e, w') \<Rightarrow> lookup_key m_key (sync_error_key ''sync_push'' ''host:1'') (mover_errors (db w')) =
       Some (new_error (sync_error_key ''sync_push'' ''host:1'') ''sync_push'' ''host:1'' ''deadline'' ''2024-01-02T00:00:00Z'' 0)"
proof -
  have q: "quiet sample_world"
    by (simp add: quiet_def sample_world_def schema_sql_def create_table_def create_events_def empty_database_def)
  have s: "push_error sample_service h ls = Some e \<Longrightarrow> is_python_exception e" for h ls e
    by (auto simp: sample_service_def split: if_splits)
  have r: "fst (send_push sample_service ''host:1'' [(''2024-01-02'', 0, ''x'')] sample_world) = Inl (RpcError ''deadline'')"
    and a: "is_auth_error (RpcError ''deadline'') = False"
    by code_simp+
  have n: "lookup_key m_key (sync_error_key ''sync_push'' ''host:1'') (mover_errors (db sample_world)) = None"
    by (simp add: sample_world_def schema_sql_def create_table_def create_events_def empty_database_def)
  have c: "clock sample_world (reads sample_world) = ''2024-01-02T00:00:00Z''"
    by (simp add: sample_world_def)
  obtain v where "send_push sample_service ''host:1'' [(''2024-01-02'', 0, ''x'')] sample_world = (Inl (RpcError ''deadline''), v)"
    using r by (metis prod.collapse)
  moreover have "case send_push sample_service ''host:1'' [(''2024-01-02'', 0, ''x'')] sample_world of
     (Inr _, w') \<Rightarrow> lookup_key m_key (sync_error_key ''sync_push'' ''host:1'') (mover_errors (db w')) = None
   | (Inl e, w') \<Rightarrow> lookup_key m_key (sync_error_key ''sync_push'' ''host:1'') (mover_errors (db w')) =
       Some (let imm = if is_auth_error e then 1 else 0
         in case None of
              None \<Rightarrow> new_error (sync_error_key ''sync_push'' ''host:1'') ''sync_push'' ''host:1'' (exn_str e)
                (clock sample_world (reads sample_world)) imm
            | Some r \<Rightarrow> again (exn_str e) (clock sample_world (reads sample_world)) imm r)"
    by (rule push_error_row) (use q s n in \<open>auto\<close>)
  ultimately show ?thesis by (simp add: c a)
qed

text \<open>
  The debounce: with a readable last attempt less than the interval ago, a session that is not forced
  returns 0 having read the clock and nothing else; no request goes out.
\<close>

theorem debounce_skips:
  assumes "quiet w" and "lookup_key y_machine_id m (sync_state (db w)) = Some r"
    and "y_last_sync_attempt_at r \<noteq> []" and "iso_micros (y_last_sync_attempt_at r) = Some (t0, True)"
    and "iso_micros (clock w (reads w)) = Some (t, aware)"
    and "t - t0 < 1000000 * SYNC_INTERVAL_SECONDS cfg"
  shows "sync_session srv cfg insecure False m endpoint w = (Inr 0, w\<lparr>reads := Suc (reads w)\<rparr>)"
  using assms by (simp add: sync_session_def should_skip_def io_simps quiet_select)

definition attempted :: world where
  "attempted = sample_world\<lparr>
     db := (db sample_world)\<lparr>sync_state := [(sync_row_defaults ''me'')\<lparr>y_last_sync_attempt_at := ''2024-02-29T23:59:30+00:00''\<rparr>]\<rparr>,
     clock := (\<lambda>_. ''2024-03-01T00:00:29+00:00'')\<rparr>"

theorem debounce_skips_witness:
  "sync_session sample_service sample_sync False False ''me'' ''host:1'' attempted
     = (Inr 0, attempted\<lparr>reads := 1\<rparr>)"
proof -
  let ?w = attempted
  let ?r = "(sync_row_defaults ''me'')\<lparr>y_last_sync_attempt_at := ''2024-02-29T23:59:30+00:00''\<rparr>"
  have t: "iso_micros ''2024-02-29T23:59:30+00:00'' = Some (63844934370000000, True)"
    "iso_micros ''2024-03-01T00:00:29+00:00'' = Some (63844934429000000, True)"
    by code_simp+
  have "sync_session sample_service sample_sync False False ''me'' ''host:1'' ?w = (Inr 0, ?w\<lparr>reads := Suc (reads ?w)\<rparr>)"
  proof (rule debounce_skips)
    show "quiet ?w" by (simp add: attempted_def quiet_def sample_world_def schema_sql_def create_table_def create_events_def empty_database_def)
    show "lookup_key y_machine_id ''me'' (sync_state (db ?w)) = Some ?r"
      by (simp add: attempted_def sync_row_defaults_def)
    show "(63844934429000000::int) - 63844934370000000 < 1000000 * SYNC_INTERVAL_SECONDS sample_sync"
      by (simp add: sample_sync_def)
  qed (simp_all add: t attempted_def)
  then show ?thesis by (simp add: attempted_def sample_world_def)
qed

text \<open>
  While another run holds the lock, this one ends with exit code 0, or with the operating system's
  error when the lock file itself cannot be made, and touches neither the database nor the server.
\<close>

theorem locked_out:
  assumes "m \<noteq> []" and "endpoint \<noteq> []" and "lock_error srv = Some (OSError EAGAIN msg)"
  shows "case sync_main srv cfg insecure force m endpoint w of
     (Inr _, _) \<Rightarrow> False
   | (Inl e, w') \<Rightarrow> (e = SystemExit 0 \<or> is_os_error e) \<and> db w' = db w \<and> disk w' = disk w \<and> pushed w' = pushed w"
proof -
  let ?I = "\<lambda>v. db v = db w \<and> disk v = disk w \<and> pushed v = pushed w"
  have I: "file_free ?I" by (simp add: file_free_def)
  have step: "wp p Q (\<lambda>e v. (e = SystemExit 0 \<or> is_os_error e) \<and> ?I v) v"
    if k: "keeps ?I p" and r: "raises is_os_error p" and v: "?I v" and Q: "\<And>a u. ?I u \<Longrightarrow> Q a u" for p :: "unit io" and Q v
  proof (cases "p v")
    case (Pair r' u)
    then show ?thesis
      using keepsD [OF k v] raisesD [OF r, of v] Q by (cases r') (auto simp: wp_def)
  qed
  have o: "raises is_os_error (os_open_create q)" for q
    unfolding os_open_create_def
    by (rule raises_fs_op) (auto simp: os_raise_def throw_def ret_def split: option.splits node.splits if_splits)
  have "wp (file_lock srv cfg) (\<lambda>_ _. False) (\<lambda>e v. (e = SystemExit 0 \<or> is_os_error e) \<and> ?I v) w"
    unfolding file_lock_def wp_fun assms(3) option.case exn.case errno.case
    by (intro step keeps_files I makedirs_raises o) (simp_all add: wp_throw)
  then have "wp (sync_main srv cfg insecure force m endpoint) (\<lambda>_ _. False)
      (\<lambda>e v. (e = SystemExit 0 \<or> is_os_error e) \<and> ?I v) w"
    using assms(1,2) unfolding sync_main_def by (auto simp: wp_fun intro: wp_mono)
  then show ?thesis by (auto simp: wp_def split: prod.splits sum.splits)
qed

theorem locked_out_witness:
  "case sync_main (sample_service\<lparr>lock_error := Some (OSError EAGAIN ''held'')\<rparr>) sample_sync True False ''me'' ''host:1'' sample_world of
     (Inr _, _) \<Rightarrow> False
   | (Inl e, w') \<Rightarrow> (e = SystemExit 0 \<or> is_os_error e) \<and> db w' = db sample_world
       \<and> disk w' = disk sample_world \<and> pushed w' = pushed sample_world"
  by (rule locked_out) simp_all

text \<open>
  What happens when a statement does fail in the middle of a line: the handlers record the error and
  commit, and with it the event whose counter was not raised.
\<close>

lemma half_line_committed:
  "let srv = sample_service\<lparr>push_error := (\<lambda>_ _. None), pull := (\<lambda>_ _. ([(''peer'', [(''2024-01-02'', 7,
         ''i'' @ [TAB] @ ''t'' @ [TAB] @ ''u'' @ [TAB] @ ''T'' @ [TAB] @ ''read'' @ [TAB] @ ''f'')])], None))\<rparr>;
       w = sample_world\<lparr>db_faults := [None, None, None, None, None, None, Some (Corrupt ''disk I/O error'')]\<rparr>
   in db_ok (disk w) \<and> \<not> db_ok (disk (snd (exchange srv sample_sync ''me'' ''host:1'' w)))"
  by code_simp

end
