(* ===== verification/SyncServer.thy ===== *)
theory SyncServer
  imports SyncCorrect "HOL-Library.Product_Lexorder"
begin

text \<open>
  The sync server (\<open>browser-visit-sync-server\<close>, in Go), the other end of the sync client:
  \<open>internal/store/store.go\<close> (the per-machine mirrors of the logs), \<open>internal/store/replay.go\<close> (the
  canonical database), \<open>internal/server/server.go\<close> (the two calls the client makes) and the check of
  \<open>internal/auth/auth.go\<close> that a caller speaks for itself.

  The state is what lies on the server's disk. The mirror \<open><root>/<machine>/browser-visits-<date>.log\<close> is a
  text under the machine and the date of its name; the canonical database is one of the databases of
  \<open>Tables\<close>. Its file system and its SQL do not fail here; the client's do. Two lines of one request
  with the same date and number, whose order \<open>sort.Slice\<close> leaves open, keep theirs.
\<close>

section \<open>State and errors\<close>

record relay =
  mirror :: "(string \<times> (string \<times> string) list) list"
  canon :: database

datatype server_error = Unauthenticated | Permission_denied | Invalid_argument | Internal string

text \<open>How the client's gRPC library shows a status: the text its exception handlers look at.\<close>

fun status_exn :: "server_error \<Rightarrow> exn" where
  "status_exn Unauthenticated = RpcError ''StatusCode.UNAUTHENTICATED''"
| "status_exn Permission_denied = RpcError ''StatusCode.PERMISSION_DENIED''"
| "status_exn Invalid_argument = RpcError ''StatusCode.INVALID_ARGUMENT''"
| "status_exn (Internal s) = RpcError (''StatusCode.INTERNAL '' @ s)"

section \<open>Mirrors of the logs\<close>

definition machine_files :: "string \<Rightarrow> relay \<Rightarrow> (string \<times> string) list" where
  "machine_files k s = (case lookup_key fst k (mirror s) of None \<Rightarrow> [] | Some (_, fs) \<Rightarrow> fs)"

definition file_text :: "string \<Rightarrow> (string \<times> string) list \<Rightarrow> string" where
  "file_text d fs = (case lookup_key fst d fs of None \<Rightarrow> [] | Some (_, t) \<Rightarrow> t)"

text \<open>\<open>pathFor\<close> makes the directory of the machine, also when nothing is written then.\<close>

definition path_for :: "string \<Rightarrow> relay \<Rightarrow> relay" where
  "path_for k s = s\<lparr>mirror := upsert fst id (k, []) (mirror s)\<rparr>"

definition count_newlines :: "string \<Rightarrow> int" where
  "count_newlines text = int (length (filter (\<lambda>c. c = NL) text))"

definition append_text :: "string \<Rightarrow> string \<Rightarrow> (string \<times> string) list \<Rightarrow> (string \<times> string) list" where
  "append_text d t fs = upsert fst (\<lambda>(e, u). (e, u @ t)) (d, t) fs"

definition append_file :: "string \<Rightarrow> string \<Rightarrow> log_line list \<Rightarrow> relay \<Rightarrow> relay" where
  "append_file k d ls s =
     (let t = concat (map (\<lambda>l. snd (snd l) @ [NL]) ls)
      in s\<lparr>mirror := upsert fst (\<lambda>(k, fs). (k, append_text d t fs)) (k, [(d, t)]) (mirror s)\<rparr>)"

text \<open>The loop over one group: \<open>cur\<close> lines are on disk; the result is the new count and what to write.\<close>

fun take_new :: "int \<Rightarrow> log_line list \<Rightarrow> server_error + int \<times> log_line list" where
  "take_new cur [] = Inr (cur, [])"
| "take_new cur (l # ls) =
     (if fst (snd l) < cur then take_new cur ls
      else if fst (snd l) = cur
      then (case take_new (cur + 1) ls of Inl e \<Rightarrow> Inl e | Inr (n, new) \<Rightarrow> Inr (n, l # new))
      else Inl (Internal ''gap''))"

function group_by_date :: "log_line list \<Rightarrow> log_line list list" where
  "group_by_date [] = []"
| "group_by_date (l # ls) =
     (l # takeWhile (\<lambda>x. fst x = fst l) ls) # group_by_date (dropWhile (\<lambda>x. fst x = fst l) ls)"
  by pat_completeness auto
termination by (relation "measure length") (auto simp: less_Suc_eq_le length_dropWhile_le)

fun append_groups :: "string \<Rightarrow> string \<times> int \<Rightarrow> log_line list list \<Rightarrow> relay \<Rightarrow> (server_error + string \<times> int) \<times> relay" where
  "append_groups k latest [] s = (Inr latest, s)"
| "append_groups k latest (g # gs) s =
     (let d = fst (hd g); s1 = path_for k s in
      case take_new (count_newlines (file_text d (machine_files k s1))) g of
        Inl e \<Rightarrow> (Inl e, s1)
      | Inr (n, new) \<Rightarrow> append_groups k (d, n - 1) gs (if new = [] then s1 else append_file k d new s1))"

definition high_water :: "string \<Rightarrow> relay \<Rightarrow> string \<times> int" where
  "high_water k s =
     (let ds = sort (filter is_date (map fst (machine_files k s)))
      in if ds = [] then ([], - 1)
         else (last ds, count_newlines (file_text (last ds) (machine_files k s)) - 1))"

definition append_log_lines :: "string \<Rightarrow> log_line list \<Rightarrow> relay \<Rightarrow> (server_error + string \<times> int) \<times> relay" where
  "append_log_lines k lines s =
     (if lines = [] then (Inr (high_water k s), s)
      else append_groups k ([], 0) (group_by_date (sort_key line_pos lines)) s)"

text \<open>Reading a mirror back: the lines, and a last one without a line feed if there is one.\<close>

definition go_lines :: "string \<Rightarrow> string list" where
  "go_lines text = (let ps = split_on NL text in if last ps = [] then butlast ps else ps)"

definition lines_since :: "string \<Rightarrow> string \<times> int \<Rightarrow> relay \<Rightarrow> log_line list" where
  "lines_since k since s =
     concat (map (\<lambda>d. map (\<lambda>(i, raw). (d, i, raw))
         (filter (\<lambda>(i, raw). fst since < d \<or> snd since < i) (enumerate_int (go_lines (file_text d (machine_files k s))))))
       (sort (filter (\<lambda>d. is_date d \<and> fst since \<le> d) (map fst (machine_files k s)))))"

definition enrolled_machines :: "relay \<Rightarrow> string list" where
  "enrolled_machines s = sort (map fst (mirror s))"

section \<open>The canonical database\<close>

text \<open>\<open>ReplayLine\<close> by the number of fields; unlike the Python replays it wants them exactly.\<close>

definition vm_tag :: "event_tag \<Rightarrow> url \<Rightarrow> timestamp \<Rightarrow> filename \<Rightarrow> database \<Rightarrow> database" where
  "vm_tag tg url timestamp filename d =
     (let (n, d') = sql_insert_event tg (default_event tg url timestamp filename d) d
      in if n = 0 then d' else snd (sql_bump tg url d'))"

definition vm_replay :: "string \<Rightarrow> database \<Rightarrow> database" where
  "vm_replay raw d =
     (let f = split_on TAB raw; n = length f;
          basic = (\<lambda>d. snd (sql_insert_visit (f ! 2) (f ! 1) (f ! 3) d))
      in if n = 4 then basic d
         else if n = 5 then (if f ! 4 = ''of_interest'' then snd (sql_set_of_interest (f ! 2) (basic d)) else basic d)
         else if n = 6 then
           (if f ! 4 = ''read'' then vm_tag Read (f ! 2) (f ! 1) (f ! 5) (basic d)
            else if f ! 4 = ''skimmed'' then vm_tag Skimmed (f ! 2) (f ! 1) (f ! 5) (basic d)
            else basic d)
         else d)"

section \<open>The calls\<close>

text \<open>\<open>CrossCheck\<close>: \<open>caller\<close> is the machine of the client's certificate, when there was one.\<close>

definition cross_check :: "string option \<Rightarrow> string \<Rightarrow> server_error option" where
  "cross_check caller claimed =
     (case caller of
        None \<Rightarrow> Some Unauthenticated
      | Some c \<Rightarrow> if c \<noteq> claimed then Some Permission_denied else None)"

text \<open>\<open>sort.Slice\<close> sorts the request's lines in place, so they are replayed in that order.\<close>

definition push_logs :: "string option \<Rightarrow> string \<Rightarrow> log_line list \<Rightarrow> relay \<Rightarrow> (server_error + string \<times> int) \<times> relay" where
  "push_logs caller k lines s =
     (case cross_check caller k of
        Some e \<Rightarrow> (Inl e, s)
      | None \<Rightarrow>
          if k = [] then (Inl Invalid_argument, s)
          else if list_ex (\<lambda>l. fst l = []) lines then (Inl Invalid_argument, s)
          else
            (case append_log_lines k lines s of
               (Inl e, s') \<Rightarrow> (Inl e, s')
             | (Inr pos, s') \<Rightarrow>
                 (Inr pos, s'\<lparr>canon := foldl (\<lambda>d l. vm_replay (snd (snd l)) d) (canon s') (sort_key line_pos lines)\<rparr>)))"

text \<open>Where a pull starts for a peer: the last cursor the request has for it.\<close>

definition since_of :: "(string \<times> string \<times> int) list \<Rightarrow> string \<Rightarrow> string \<times> int" where
  "since_of cursors k = (case map_of (rev cursors) k of None \<Rightarrow> ([], - 1) | Some c \<Rightarrow> c)"

definition peer_chunks :: "(string \<times> string \<times> int) list \<Rightarrow> relay \<Rightarrow> string \<Rightarrow> chunk list" where
  "peer_chunks cursors s k = map (Pair k) (batches 128 (lines_since k (since_of cursors k) s))"

definition pull_logs :: "string option \<Rightarrow> string \<Rightarrow> (string \<times> string \<times> int) list \<Rightarrow> relay \<Rightarrow> server_error + chunk list" where
  "pull_logs caller k cursors s =
     (case cross_check caller k of
        Some e \<Rightarrow> Inl e
      | None \<Rightarrow> Inr (concat (map (peer_chunks cursors s) (filter (\<lambda>p. p \<noteq> k) (enrolled_machines s)))))"

end
