(* ===== verification/SyncServerCorrect.thy ===== *)
theory SyncServerCorrect
  imports SyncServer
begin

text \<open>
  The sync server's store is correct: its state stays well formed whatever is pushed; a mirror read back
  holds the lines of the machine's log that were pushed, in order; a batch that continues the mirror
  or overlaps it is accepted and extends it. These are the laws of a relay, which the convergence of the
  laptops rests on.
\<close>

section \<open>Reading a text of complete lines\<close>

definition complete :: "string \<Rightarrow> bool" where
  "complete t \<longleftrightarrow> t = [] \<or> last t = NL"

lemma complete_append [simp]: "complete (t @ u @ [NL])" "complete [] = True"
  by (simp_all add: complete_def)

lemma go_lines_Nil [simp]: "go_lines [] = []"
  by (simp add: go_lines_def)

lemma go_lines_append: "complete t \<Longrightarrow> NL \<notin> set raw \<Longrightarrow> go_lines (t @ raw @ [NL]) = go_lines t @ [raw]"
proof (induction t rule: length_induct)
  case (1 t)
  show ?case
  proof (cases t)
    case Nil
    with 1 show ?thesis by (simp add: go_lines_def split_on_append_sep)
  next
    case (Cons x xs)
    have "t \<noteq> []" and "last t = NL" using 1(2) Cons by (auto simp: complete_def)
    then have "NL \<in> set t" by (metis last_in_set)
    then obtain l r where t: "t = l @ NL # r" and free: "NL \<notin> set l" by (metis split_list_first)
    have "complete r" using \<open>last t = NL\<close> t by (auto simp: complete_def split: if_splits)
    then have IH: "go_lines (r @ raw @ [NL]) = go_lines r @ [raw]" using 1 t by simp
    have step: "go_lines (l @ NL # u) = l # go_lines u" for u
      using free by (simp add: go_lines_def split_on_append_sep Let_def)
    have "go_lines (t @ raw @ [NL]) = l # go_lines (r @ raw @ [NL])"
      unfolding t by (simp add: step)
    also have "\<dots> = go_lines t @ [raw]" unfolding t by (simp add: step IH)
    finally show ?thesis .
  qed
qed

lemma go_lines_append_lines:
  "complete t \<Longrightarrow> \<forall>r\<in>set rs. NL \<notin> set r \<Longrightarrow> go_lines (t @ concat (map (\<lambda>r. r @ [NL]) rs)) = go_lines t @ rs"
proof (induction rs rule: rev_induct)
  case (snoc r rs)
  have "complete (t @ concat (map (\<lambda>r. r @ [NL]) rs))"
    using snoc.prems(1) by (cases rs rule: rev_cases) (auto simp: complete_def)
  from go_lines_append [OF this, of r] snoc show ?case by simp
qed simp

lemma count_go_lines: "complete t \<Longrightarrow> count_newlines t = int (length (go_lines t))"
proof -
  assume c: "complete t"
  have parts: "length (split_on NL t) = Suc (length (filter (\<lambda>c. c = NL) t))"
    by (induction t) (auto simp: Suc_length_conv)
  have "last (split_on NL t) = []"
  proof (cases t rule: rev_cases)
    case (snoc u x)
    with c have "x = NL" by (simp add: complete_def)
    with snoc show ?thesis using split_on_append_last [of NL u "[]"] by simp
  qed simp
  with parts show ?thesis by (simp add: count_newlines_def go_lines_def)
qed

section \<open>The lines of the files of a machine\<close>

definition files_lines :: "(string \<times> string) list \<Rightarrow> log_line list" where
  "files_lines fs = concat (map (\<lambda>d. map (Pair d) (enumerate_int (go_lines (file_text d fs))))
     (sort (filter is_date (map fst fs))))"

definition mirrored :: "relay \<Rightarrow> string \<Rightarrow> log_line list" where
  "mirrored s k = files_lines (machine_files k s)"

lemma mirrored_canon [simp]: "mirrored (s\<lparr>canon := d\<rparr>) k = mirrored s k"
  by (simp add: mirrored_def machine_files_def)

lemma is_date_nonempty: "is_date d \<Longrightarrow> d \<noteq> []"
  by (auto dest: is_date_length)

lemma filter_concat_map: "filter P (concat (map f xs)) = concat (map (filter P \<circ> f) xs)"
  by (induction xs) auto

lemma concat_map_filter_empty: "(\<And>x. x \<in> set xs \<Longrightarrow> \<not> P x \<Longrightarrow> f x = []) \<Longrightarrow> concat (map f (filter P xs)) = concat (map f xs)"
  by (induction xs) auto

text \<open>A pull gives the mirrored lines past the cursor.\<close>

lemma lines_since_filter: "lines_since k c s = filter (\<lambda>l. c < line_pos l) (mirrored s k)"
proof -
  let ?F = "\<lambda>d. enumerate_int (go_lines (file_text d (machine_files k s)))"
  let ?ds = "sort (filter is_date (map fst (machine_files k s)))"
  have "filter (\<lambda>l. c < line_pos l) (mirrored s k) =
      concat (map (\<lambda>d. map (Pair d) (filter (\<lambda>x. c < (d, fst x)) (?F d))) ?ds)"
    by (simp add: mirrored_def files_lines_def filter_concat_map comp_def filter_map_swap line_pos_def)
  also have "\<dots> = concat (map (\<lambda>d. map (Pair d) (filter (\<lambda>x. c < (d, fst x)) (?F d))) (filter (\<lambda>d. fst c \<le> d) ?ds))"
    by (rule sym, rule concat_map_filter_empty) (auto simp: less_prod_def filter_empty_conv)
  also have "filter (\<lambda>d. fst c \<le> d) ?ds = sort (filter (\<lambda>d. is_date d \<and> fst c \<le> d) (map fst (machine_files k s)))"
    by (simp add: filter_sort conj_commute)
  finally show ?thesis
    unfolding lines_since_def
    by (auto simp: less_prod_def case_prod_beta' intro!: arg_cong [where f = concat] map_cong filter_cong)
qed

lemma files_lines_date: "l \<in> set (files_lines fs) \<Longrightarrow> is_date (fst l)"
  by (auto simp: files_lines_def)

lemma length_enumerate [simp]: "length (enumerate_int xs) = length xs"
  by (simp add: enumerate_int_def)

lemma enumerate_int_append:
  "enumerate_int (xs @ ys) = enumerate_int xs @ zip (map (\<lambda>i. int (length xs) + int i) [0..<length ys]) ys"
proof -
  have "map int [length xs..<length xs + length ys] = map (\<lambda>i. int (length xs) + int i) [0..<length ys]"
    by (rule nth_equalityI) simp_all
  moreover
  have "[0..<length xs + length ys] = [0..<length xs] @ [length xs..<length xs + length ys]"
    by (rule upt_add_eq_append) simp
  ultimately show ?thesis by (simp add: enumerate_int_def)
qed

lemma concat_none: "(\<And>y. y \<in> set xs \<Longrightarrow> f y = []) \<Longrightarrow> concat (map f xs) = []"
  by simp

lemma concat_single:
  assumes "distinct xs" and "x \<in> set xs" and "\<And>y. y \<in> set xs \<Longrightarrow> y \<noteq> x \<Longrightarrow> f y = []"
  shows "concat (map f xs) = f x"
proof -
  obtain as bs where xs: "xs = as @ x # bs" using assms(2) by (auto simp: in_set_conv_decomp)
  with assms(1,3) have e: "concat (map f as) = []" "concat (map f bs) = []" by (auto intro!: concat_none)
  show ?thesis unfolding xs map_append list.map concat_append concat.simps e by simp
qed

text \<open>The lines on disk for a date are numbered from zero, and the count of line feeds is their number.\<close>

lemma count_file:
  assumes "keyed fst fs" and "complete (file_text d fs)" and "is_date d"
  shows "count_newlines (file_text d fs) = int (length (filter (\<lambda>l. fst l = d) (files_lines fs)))"
proof -
  let ?ds = "sort (filter is_date (map fst fs))"
  have eq: "filter (\<lambda>l. fst l = d) (files_lines fs) =
      concat (map (\<lambda>e. if e = d then map (Pair d) (enumerate_int (go_lines (file_text d fs))) else []) ?ds)"
    by (auto simp: files_lines_def filter_concat_map filter_map_swap comp_def intro!: arg_cong [where f = concat] map_cong)
  have "length (filter (\<lambda>l. fst l = d) (files_lines fs)) = length (go_lines (file_text d fs))"
  proof (cases "d \<in> fst ` set fs")
    case True
    then show ?thesis
      unfolding eq by (subst concat_single [where x = d]) (use assms(1,3) in \<open>auto simp: keyed_def\<close>)
  next
    case False
    then have "file_text d fs = []"
      by (auto simp: file_text_def lookup_key_None has_key_iff dest!: lookup_key_SomeD split: option.split)
    then show ?thesis unfolding eq by (subst concat_none) (simp_all add: enumerate_int_def)
  qed
  then show ?thesis using count_go_lines [OF assms(2)] by simp
qed

section \<open>Logs\<close>

text \<open>
  What the lines of one machine's logs look like: in the order of the days, numbered from zero on each day,
  without line feeds.
\<close>

definition day_count :: "string \<Rightarrow> log_line list \<Rightarrow> int" where
  "day_count d L = int (length (filter (\<lambda>l. fst l = d) L))"

inductive log_ok :: "log_line list \<Rightarrow> bool" where
  empty_log: "log_ok []"
| next_line: "log_ok L \<Longrightarrow> is_date d \<Longrightarrow> \<forall>l\<in>set L. fst l \<le> d \<Longrightarrow> NL \<notin> set raw \<Longrightarrow> log_ok (L @ [(d, day_count d L, raw)])"

inductive_cases log_ok_snocE: "log_ok (L @ [l])"

lemma day_count_append [simp]: "day_count d (A @ B) = day_count d A + day_count d B"
  by (simp add: day_count_def)

lemma day_count_single [simp]: "day_count d [] = 0" "day_count d [l] = (if fst l = d then 1 else 0)"
  by (simp_all add: day_count_def)

lemma day_count_nonneg [simp]: "0 \<le> day_count d L"
  by (simp add: day_count_def)

lemma day_count_prefix: "prefix A B \<Longrightarrow> day_count d A \<le> day_count d B"
  by (auto simp: prefix_def)

lemma log_ok_prefix: "log_ok L \<Longrightarrow> prefix M L \<Longrightarrow> log_ok M"
  by (induction rule: log_ok.induct) (auto simp: prefix_snoc intro: log_ok.intros)

lemma log_ok_append: "log_ok (A @ B) \<Longrightarrow> log_ok A"
  by (erule log_ok_prefix) simp

lemma log_ok_line:
  assumes "log_ok L" and "l \<in> set L"
  shows "is_date (fst l)" "NL \<notin> set (snd (snd l))" "0 \<le> fst (snd l)" "fst (snd l) < day_count (fst l) L"
proof -
  have "is_date (fst l) \<and> NL \<notin> set (snd (snd l)) \<and> 0 \<le> fst (snd l) \<and> fst (snd l) < day_count (fst l) L"
    using assms by (induction rule: log_ok.induct) auto
  then show "is_date (fst l)" "NL \<notin> set (snd (snd l))" "0 \<le> fst (snd l)" "fst (snd l) < day_count (fst l) L"
    by blast+
qed

lemma log_ok_sorted: "log_ok L \<Longrightarrow> sorted_wrt (<) (map line_pos L)"
proof (induction rule: log_ok.induct)
  case (next_line L d raw)
  have "line_pos l < (d, day_count d L)" if "l \<in> set L" for l
    using next_line(3) log_ok_line(4) [OF next_line(1) that] that by (fastforce simp: line_pos_def less_prod_def)
  with next_line.IH show ?case by (auto simp: sorted_wrt_append line_pos_def)
qed simp

lemma log_ok_dates: "log_ok (A @ B) \<Longrightarrow> a \<in> set A \<Longrightarrow> b \<in> set B \<Longrightarrow> fst a \<le> fst b"
proof (induction B rule: rev_induct)
  case (snoc x B)
  from snoc.prems(1) have "log_ok ((A @ B) @ [x])" by simp
  then have "log_ok (A @ B) \<and> (\<forall>l\<in>set (A @ B). fst l \<le> fst x)" by (rule log_ok_snocE) simp
  with snoc show ?case by auto
qed simp

text \<open>A group of lines of one day, and what the loop over it keeps.\<close>

lemma take_new_skip: "\<forall>l\<in>set g. fst (snd l) < cur \<Longrightarrow> take_new cur (g @ h) = take_new cur h"
  by (induction g) auto

lemma take_new_all:
  "log_ok (M @ g) \<Longrightarrow> \<forall>l\<in>set g. fst l = d \<Longrightarrow> take_new (day_count d M) g = Inr (day_count d (M @ g), g)"
proof (induction g arbitrary: M)
  case (Cons l g)
  have "log_ok (M @ [l])" by (rule log_ok_append [of _ g]) (use Cons.prems in simp)
  then have "fst (snd l) = day_count d M" using Cons.prems(2) by (auto elim: log_ok_snocE)
  moreover have "take_new (day_count d (M @ [l])) g = Inr (day_count d ((M @ [l]) @ g), g)"
    by (rule Cons.IH) (use Cons.prems in auto)
  ultimately show ?case using Cons.prems(2) by simp
qed simp

section \<open>The state of the server\<close>

text \<open>
  Each machine has one directory, each of its days one file, every file ends with a line feed, and the
  canonical database is consistent.
\<close>

definition files_ok :: "(string \<times> string) list \<Rightarrow> bool" where
  "files_ok fs \<longleftrightarrow> keyed fst fs \<and> list_all (\<lambda>x. complete (snd x)) fs"

definition relay_ok :: "relay \<Rightarrow> bool" where
  "relay_ok s \<longleftrightarrow> keyed fst (mirror s) \<and> list_all (\<lambda>x. files_ok (snd x)) (mirror s) \<and> db_ok (canon s)"

lemma list_all_upsert:
  "list_all P t \<Longrightarrow> P r \<Longrightarrow> (\<And>x. P x \<Longrightarrow> P (f x)) \<Longrightarrow> list_all P (upsert key f r t)"
  by (auto simp: upsert_def list_all_iff)

lemma complete_join: "complete t \<Longrightarrow> complete u \<Longrightarrow> complete (u @ t)"
  by (cases "t = []") (simp_all add: complete_def)

lemma files_ok_new [simp]: "files_ok []" "files_ok [(d, t)] = complete t"
  by (simp_all add: files_ok_def keyed_def)

lemma lookup_upsert_pair: "lookup_key fst j (upsert fst (\<lambda>(k, x). (k, F x)) r t) =
    (if j = fst r then Some (case lookup_key fst j t of None \<Rightarrow> r | Some (k, x) \<Rightarrow> (k, F x)) else lookup_key fst j t)"
  by (subst lookup_upsert) (auto split: option.split)

lemma files_ok_append: "files_ok fs \<Longrightarrow> complete t \<Longrightarrow> files_ok (append_text d t fs)"
  unfolding files_ok_def append_text_def
  by (intro conjI keyed_upsert list_all_upsert) (auto simp: complete_join split: prod.splits)

lemma file_text_append: "file_text e (append_text d t fs) = (if e = d then file_text d fs @ t else file_text e fs)"
  unfolding file_text_def append_text_def
  by (subst lookup_upsert) (auto split: option.split dest: lookup_key_SomeD)

lemma complete_file: "files_ok fs \<Longrightarrow> complete (file_text d fs)"
  by (auto simp: files_ok_def file_text_def list_all_iff split: option.split dest!: lookup_key_SomeD)

lemma machine_files_ok: "relay_ok s \<Longrightarrow> files_ok (machine_files k s)"
  by (auto simp: relay_ok_def machine_files_def list_all_iff split: option.split dest!: lookup_key_SomeD)

lemma machine_files_path [simp]: "machine_files j (path_for k s) = machine_files j s"
  unfolding machine_files_def path_for_def
  by (simp, subst lookup_upsert) (auto split: option.split)

lemma machine_files_append: "machine_files j (append_file k d ls s) =
    (if j = k then append_text d (concat (map (\<lambda>l. snd (snd l) @ [NL]) ls)) (machine_files k s) else machine_files j s)"
proof -
  have "append_text d t [] = [(d, t)]" for t by (simp add: append_text_def upsert_def)
  then show ?thesis
    by (auto simp: machine_files_def append_file_def Let_def lookup_upsert_pair split: option.split dest: lookup_key_SomeD)
qed

lemma complete_lines: "complete (concat (map (\<lambda>l. f l @ [NL]) ls))"
  by (cases ls rule: rev_cases) (auto simp: complete_def)

lemma relay_ok_path: "relay_ok s \<Longrightarrow> relay_ok (path_for k s)"
  unfolding relay_ok_def path_for_def
  by (auto intro!: keyed_upsert list_all_upsert)

lemma relay_ok_append: "relay_ok s \<Longrightarrow> relay_ok (append_file k d ls s)"
proof -
  assume s: "relay_ok s"
  let ?t = "concat (map (\<lambda>l. snd (snd l) @ [NL]) ls)"
  have "list_all (\<lambda>x. files_ok (snd x)) (upsert fst (\<lambda>(k, fs). (k, append_text d ?t fs)) (k, [(d, ?t)]) (mirror s))"
    using s by (intro list_all_upsert) (auto simp: relay_ok_def files_ok_append complete_lines)
  then show ?thesis
    using s unfolding relay_ok_def append_file_def Let_def by (auto intro!: keyed_upsert)
qed

lemma relay_ok_groups: "relay_ok s \<Longrightarrow> relay_ok (snd (append_groups k latest gs s))"
  by (induction k latest gs s rule: append_groups.induct)
    (auto simp: Let_def relay_ok_path relay_ok_append split: sum.split)

lemma relay_ok_lines: "relay_ok s \<Longrightarrow> relay_ok (snd (append_log_lines k ls s))"
  by (simp add: append_log_lines_def relay_ok_groups)

section \<open>What an append adds\<close>

lemma concat_insort:
  "f d = [] \<Longrightarrow> concat (map f (insort d ds)) = concat (map f ds)"
  by (induction ds) auto

lemma concat_update:
  assumes "sorted ds" and "distinct ds" and "d \<in> set ds"
    and "\<And>e. e \<in> set ds \<Longrightarrow> d < e \<Longrightarrow> f e = []"
    and "g d = f d @ new" and "\<And>e. e \<noteq> d \<Longrightarrow> g e = f e"
  shows "concat (map g ds) = concat (map f ds) @ new"
proof -
  obtain A B where ds: "ds = A @ d # B" using assms(3) by (auto simp: in_set_conv_decomp)
  have "d \<notin> set A" and B: "d < e" if "e \<in> set B" for e
    using assms(1,2) that unfolding ds by (auto simp: sorted_append less_le)
  moreover have "d \<notin> set A" using assms(2) ds by simp
  ultimately have gA: "map g A = map f A" by (auto intro!: assms(6))
  have e: "f e = []" "g e = []" if "e \<in> set B" for e
    using assms(4) [of e] assms(6) [of e] B [OF that] that by (auto simp: ds)
  then have "concat (map f B) = []" "concat (map g B) = []" by (auto intro!: concat_none)
  then show ?thesis by (simp only: ds map_append list.map concat_append concat.simps gA assms(5)) simp
qed

lemma files_lines_append:
  assumes fs: "files_ok fs" and d: "is_date d" and new: "\<forall>l\<in>set new. fst l = d \<and> NL \<notin> set (snd (snd l))"
    and after: "\<forall>l\<in>set (files_lines fs). fst l \<le> d"
    and num: "map (fst \<circ> snd) new = map (\<lambda>i. day_count d (files_lines fs) + int i) [0..<length new]"
  shows "files_lines (append_text d (concat (map (\<lambda>l. snd (snd l) @ [NL]) new)) fs) = files_lines fs @ new"
proof -
  let ?t = "concat (map (\<lambda>l. snd (snd l) @ [NL]) new)"
  let ?fs = "append_text d ?t fs"
  let ?F = "\<lambda>fs d. map (Pair d) (enumerate_int (go_lines (file_text d fs)))"
  have old: "int (length (go_lines (file_text d fs))) = day_count d (files_lines fs)"
    using count_file [of fs d] count_go_lines complete_file [OF fs] fs d by (simp add: files_ok_def day_count_def)
  have "go_lines (file_text d fs @ concat (map (\<lambda>r. r @ [NL]) (map (snd \<circ> snd) new))) =
      go_lines (file_text d fs) @ map (snd \<circ> snd) new"
    by (rule go_lines_append_lines [OF complete_file [OF fs]]) (use new in auto)
  then have "?F ?fs d = ?F fs d @ map (Pair d) (zip (map (\<lambda>i. int (length (go_lines (file_text d fs))) + int i) [0..<length new]) (map (snd \<circ> snd) new))"
    by (simp add: file_text_append comp_def enumerate_int_append)
  also have "zip (map (\<lambda>i. int (length (go_lines (file_text d fs))) + int i) [0..<length new]) (map (snd \<circ> snd) new) = map snd new"
    unfolding old num [symmetric] by (simp add: zip_map_map zip_same_conv_map comp_def)
  also have "map (Pair d) (map snd new) = new"
    using new by (auto intro!: map_idI_set)
  finally have Fd: "?F ?fs d = ?F fs d @ new" .
  have Fe: "?F ?fs e = ?F fs e" if "e \<noteq> d" for e
    using that by (simp add: file_text_append)
  let ?ds = "sort (filter is_date (map fst fs))"
  have later: "?F fs e = []" if "e \<in> set ?ds" "d < e" for e
  proof (rule ccontr)
    assume "?F fs e \<noteq> []"
    then obtain l where "l \<in> set (?F fs e)" by fastforce
    moreover from this have "fst l = e" by auto
    ultimately show False using after that by (force simp: files_lines_def)
  qed
  have dist: "distinct ?ds" using fs by (simp add: files_ok_def keyed_def distinct_map_filter_key)
  show ?thesis
  proof (cases "d \<in> fst ` set fs")
    case True
    then have "map fst ?fs = map fst fs"
      by (simp add: append_text_def upsert_def has_key_iff comp_def case_prod_beta' if_distrib cong: if_cong)
    then show ?thesis
      unfolding files_lines_def
      by (simp only:, intro concat_update [where f = "?F fs" and g = "?F ?fs" and d = d] dist Fd Fe later)
        (use True d in simp_all)
  next
    case False
    then have "map fst ?fs = map fst fs @ [d]" by (simp add: append_text_def upsert_def has_key_iff)
    then have "sort (filter is_date (map fst ?fs)) = insort d ?ds"
      using d by (intro properties_for_sort) (simp_all add: sorted_insort)
    then have "files_lines ?fs = concat (map (?F ?fs) (insort d ?ds))" by (simp only: files_lines_def)
    also have "\<dots> = concat (map (?F fs) (insort d ?ds)) @ new"
      by (intro concat_update [where f = "?F fs" and g = "?F ?fs" and d = d] Fd Fe)
        (use False dist later in \<open>auto simp: sorted_insort distinct_insort set_insort_key\<close>)
    also have "concat (map (?F fs) (insort d ?ds)) = files_lines fs"
    proof -
      have "file_text d fs = []"
        using False by (auto simp: file_text_def has_key_iff split: option.split dest!: lookup_key_SomeD)
      then show ?thesis unfolding files_lines_def by (intro concat_insort) (simp add: enumerate_int_def)
    qed
    finally show ?thesis .
  qed
qed

section \<open>A batch that continues or overlaps the mirror\<close>

lemma log_ok_numbers:
  "log_ok (M @ g) \<Longrightarrow> \<forall>l\<in>set g. fst l = d \<Longrightarrow>
   map (fst \<circ> snd) g = map (\<lambda>i. day_count d M + int i) [0..<length g]"
proof (induction g rule: rev_induct)
  case (snoc l g)
  have ok: "log_ok ((M @ g) @ [l])" using snoc.prems(1) by simp
  then have "fst (snd l) = day_count (fst l) (M @ g)" by (rule log_ok_snocE) simp
  then have "fst (snd l) = day_count d (M @ g)" using snoc.prems(2) by simp
  moreover have "day_count d g = int (length g)" using snoc.prems(2) by (simp add: day_count_def)
  moreover have "map (fst \<circ> snd) g = map (\<lambda>i. day_count d M + int i) [0..<length g]"
    by (rule snoc.IH) (use log_ok_append [OF ok] snoc.prems(2) in simp_all)
  ultimately show ?case by (simp add: comp_def)
qed simp

text \<open>The new state extends the mirror of \<open>k\<close> inside the log \<open>L\<close> and reaches at least \<open>P\<close>.\<close>

definition extends :: "string \<Rightarrow> log_line list \<Rightarrow> log_line list \<Rightarrow> relay \<Rightarrow> relay \<Rightarrow> bool" where
  "extends k L P s s' \<longleftrightarrow> relay_ok s' \<and> canon s' = canon s \<and> (\<forall>j. j \<noteq> k \<longrightarrow> mirrored s' j = mirrored s j)
     \<and> prefix (mirrored s' k) L \<and> prefix (mirrored s k) (mirrored s' k) \<and> prefix P (mirrored s' k)
     \<and> set (mirrored s' k) \<subseteq> set (mirrored s k) \<union> set P"

lemma extends_trans:
  assumes "extends k L P s s'" and "extends k L Q s' s''" and "prefix P Q"
  shows "extends k L Q s s''"
proof -
  have "set P \<subseteq> set Q" using assms(3) by (rule set_mono_prefix)
  then show ?thesis using assms(1,2) unfolding extends_def by (auto intro: prefix_order.trans)
qed

lemma extends_refl: "relay_ok s \<Longrightarrow> prefix (mirrored s k) L \<Longrightarrow> prefix P (mirrored s k) \<Longrightarrow> extends k L P s s"
  by (simp add: extends_def)

lemma mirrored_path [simp]: "mirrored (path_for k s) j = mirrored s j"
  by (simp add: mirrored_def)

lemma extends_path: "relay_ok s \<Longrightarrow> prefix (mirrored s k) L \<Longrightarrow> prefix P (mirrored s k) \<Longrightarrow> extends k L P s (path_for k s)"
  by (simp add: extends_def relay_ok_path) (simp add: path_for_def)

lemma count_mirror:
  assumes "relay_ok s" and "is_date d"
  shows "count_newlines (file_text d (machine_files k s)) = day_count d (mirrored s k)"
  using machine_files_ok [OF assms(1), of k] assms(2)
  by (subst count_file) (auto simp: files_ok_def complete_file day_count_def mirrored_def)

lemma mirrored_append:
  assumes s: "relay_ok s" and log: "log_ok (mirrored s k @ g)" and d: "\<forall>l\<in>set g. fst l = d" and ne: "g \<noteq> []"
  shows "mirrored (append_file k d g s) j = (if j = k then mirrored s k @ g else mirrored s j)"
proof -
  have in_log: "is_date (fst l)" "NL \<notin> set (snd (snd l))" if "l \<in> set g" for l
    using log_ok_line [OF log, of l] that by simp_all
  have date: "is_date d" using ne d in_log(1) [OF hd_in_set [OF ne]] by simp
  have after: "\<forall>l\<in>set (mirrored s k). fst l \<le> d"
    using log_ok_dates [OF log _ hd_in_set [OF ne]] d ne by auto
  have "files_lines (append_text d (concat (map (\<lambda>l. snd (snd l) @ [NL]) g)) (machine_files k s)) =
      files_lines (machine_files k s) @ g"
    by (rule files_lines_append [OF machine_files_ok [OF s] date])
      (use d in_log after log_ok_numbers [OF log d] in \<open>auto simp: mirrored_def\<close>)
  then show ?thesis by (simp add: mirrored_def machine_files_append)
qed

lemma group_extends:
  assumes s: "relay_ok s" and L: "log_ok L" and M: "prefix (mirrored s k) L" and X: "prefix X (mirrored s k)"
    and g: "prefix (X @ g) L" "\<forall>l\<in>set g. fst l = d" "g \<noteq> []"
  obtains n new where "take_new (count_newlines (file_text d (machine_files k (path_for k s)))) g = Inr (n, new)"
    and "extends k L (X @ g) s (if new = [] then path_for k s else append_file k d new (path_for k s))"
proof -
  let ?M = "mirrored s k" and ?s = "path_for k s"
  have date: "is_date d"
    using log_ok_line(1) [OF log_ok_prefix [OF L g(1)], of "hd g"] g(2,3) by simp
  have count: "count_newlines (file_text d (machine_files k ?s)) = day_count d ?M"
    using count_mirror [OF s date] by simp
  have below: "fst (snd l) < day_count d ?M" if "l \<in> set h" "prefix (X @ h) ?M" "\<forall>l\<in>set h. fst l = d" for l h
    using log_ok_line(4) [OF log_ok_prefix [OF log_ok_prefix [OF L M] that(2)], of l] day_count_prefix [OF that(2), of d] that(1,3)
    by auto
  consider "prefix (X @ g) ?M" | "prefix ?M (X @ g)" using prefix_same_cases [OF g(1) M] by blast
  then show ?thesis
  proof cases
    case 1
    then have "\<forall>l\<in>set g. fst (snd l) < day_count d ?M" using below [of _ g] g(2) by blast
    from take_new_skip [OF this, of "[]"] show ?thesis
      using extends_path [OF s M 1] by (intro that [of "day_count d ?M" "[]"]) (simp_all add: count [simplified])
  next
    case 2
    with X obtain g1 g2 where M': "?M = X @ g1" and g': "g = g1 @ g2"
      by (metis (no_types, lifting) append_assoc prefixE same_append_eq)
    have log: "log_ok (?M @ g2)" using log_ok_prefix [OF L g(1)] by (simp add: M' g')
    have skip: "\<forall>l\<in>set g1. fst (snd l) < day_count d ?M" using below [of _ g1] g(2) by (auto simp: M' g')
    have d2: "\<forall>l\<in>set g2. fst l = d" using g(2) g' by simp
    have t: "take_new (day_count d ?M) g = Inr (day_count d (?M @ g2), g2)"
      unfolding g' take_new_skip [OF skip] by (rule take_new_all [OF log d2])
    have "extends k L (X @ g) s (append_file k d g2 ?s)" if "g2 \<noteq> []"
    proof -
      have m: "mirrored (append_file k d g2 ?s) j = (if j = k then ?M @ g2 else mirrored s j)" for j
        using mirrored_append [OF relay_ok_path [OF s], of k k g2 d j] log d2 that by simp
      have "canon (append_file k d g2 ?s) = canon s" by (simp add: append_file_def path_for_def Let_def)
      then show ?thesis
        using g(1) by (simp add: extends_def m relay_ok_append relay_ok_path s) (auto simp: M' g')
    qed
    moreover have "extends k L (X @ g) s ?s" if "g2 = []"
      using that extends_path [OF s M, of "X @ g"] by (simp add: M' g')
    ultimately show ?thesis using t by (intro that [of "day_count d (?M @ g2)" g2]) (auto simp: count [simplified])
  qed
qed

lemma groups_extend:
  assumes "log_ok L"
  shows "relay_ok s \<Longrightarrow> prefix (mirrored s k) L \<Longrightarrow> prefix (X @ b) L \<Longrightarrow> prefix X (mirrored s k) \<Longrightarrow>
    \<exists>pos s'. append_groups k latest (group_by_date b) s = (Inr pos, s') \<and> extends k L (X @ b) s s'"
proof (induction b arbitrary: s latest X rule: group_by_date.induct)
  case 1
  then show ?case by (simp add: extends_refl)
next
  case (2 l ls)
  let ?d = "fst l" and ?g = "l # takeWhile (\<lambda>x. fst x = fst l) ls" and ?rest = "dropWhile (\<lambda>x. fst x = fst l) ls"
  have b: "l # ls = ?g @ ?rest" by simp
  have g: "prefix (X @ ?g) L" using 2(4) unfolding b by (metis append_assoc append_prefixD)
  have d: "\<forall>x\<in>set ?g. fst x = ?d" by (auto dest: set_takeWhileD)
  obtain n new where t: "take_new (count_newlines (file_text ?d (machine_files k (path_for k s)))) ?g = Inr (n, new)"
    and e: "extends k L (X @ ?g) s (if new = [] then path_for k s else append_file k ?d new (path_for k s))" (is "extends _ _ _ _ ?s")
    using group_extends [OF 2(2) assms 2(3) 2(5) g d] by blast
  have "\<exists>pos s'. append_groups k (?d, n - 1) (group_by_date ?rest) ?s = (Inr pos, s') \<and> extends k L ((X @ ?g) @ ?rest) ?s s'"
  proof (rule 2(1))
    show "relay_ok ?s" "prefix (mirrored ?s k) L" "prefix (X @ ?g) (mirrored ?s k)"
      using e unfolding extends_def by blast+
    show "prefix ((X @ ?g) @ ?rest) L" unfolding append_assoc b [symmetric] by (rule 2(4))
  qed
  then obtain pos s' where run: "append_groups k (?d, n - 1) (group_by_date ?rest) ?s = (Inr pos, s')"
      and e': "extends k L ((X @ ?g) @ ?rest) ?s s'" by blast
  have "append_groups k latest (group_by_date (l # ls)) s = append_groups k (?d, n - 1) (group_by_date ?rest) ?s"
    using t by (simp add: Let_def del: take_new.simps)
  moreover have "extends k L ((X @ ?g) @ ?rest) s s'" by (rule extends_trans [OF e e']) (rule prefixI [OF refl])
  then have "extends k L (X @ l # ls) s s'" unfolding append_assoc b [symmetric] .
  ultimately show ?case using run by auto
qed

section \<open>The canonical database\<close>

definition vm_action :: "string \<Rightarrow> action option" where
  "vm_action raw =
     (let f = split_on TAB raw; n = length f;
          tag = (if n = 5 \<and> f ! 4 = ''of_interest'' \<or> n = 6 \<and> (f ! 4 = ''read'' \<or> f ! 4 = ''skimmed'') then f ! 4 else [])
      in if n = 4 \<or> n = 5 \<or> n = 6
         then Some \<lparr>a_timestamp = f ! 1, a_url = f ! 2, a_title = f ! 3, a_tag = tag,
                    a_filename = (if n = 6 then f ! 5 else [])\<rparr>
         else None)"

definition vm_covered :: "string \<Rightarrow> database \<Rightarrow> bool" where
  "vm_covered raw d = (case vm_action raw of None \<Rightarrow> True | Some a \<Rightarrow> db_covered a d)"

lemma vm_tag_event: "vm_tag tg u ts f d = db_event tg (default_event tg u ts f d) d"
  by (simp add: vm_tag_def db_event_def sql_insert_event_split)

lemma vm_replay_action: "vm_replay raw d = (case vm_action raw of None \<Rightarrow> d | Some a \<Rightarrow> db_sync_action a d)"
  by (simp add: vm_replay_def vm_action_def db_sync_action_def Let_def vm_tag_event)

interpretation vm_log: idempotent_replay vm_replay vm_covered
  by unfold_locales
    (auto simp: vm_replay_action vm_covered_def db_sync_action_covered db_sync_action_mono db_sync_action_noop split: option.splits)

text \<open>Every line of every mirror is in the canonical database.\<close>

definition canon_complete :: "relay \<Rightarrow> bool" where
  "canon_complete s \<longleftrightarrow> (\<forall>k. \<forall>l\<in>set (mirrored s k). vm_covered (snd (snd l)) (canon s))"

section \<open>The calls\<close>

lemma db_ok_vm_replay: "db_ok d \<Longrightarrow> db_ok (vm_replay raw d)"
  by (simp add: vm_replay_action db_ok_sync_action split: option.split)

lemma push_relay_ok: "relay_ok s \<Longrightarrow> relay_ok (snd (push_logs caller k ls s))"
proof -
  assume s: "relay_ok s"
  have fold: "db_ok d \<Longrightarrow> db_ok (foldl (\<lambda>d l. vm_replay (snd (snd l)) d) d xs)" for d and xs :: "log_line list"
    by (rule foldl_invariant) (simp_all add: db_ok_vm_replay)
  have "relay_ok (snd (append_log_lines k ls s))" using s by (rule relay_ok_lines)
  then show ?thesis
    using s fold by (auto simp: push_logs_def relay_ok_def split: option.split prod.split sum.split)
qed

lemma push_extends:
  assumes s: "relay_ok s" "canon_complete s" and k: "k \<noteq> []" and L: "log_ok L"
    and M: "prefix (mirrored s k) L" and b: "prefix (X @ b) L" and X: "prefix X (mirrored s k)"
  obtains pos s' where "push_logs (Some k) k b s = (Inr pos, s')" and "relay_ok s'" and "canon_complete s'"
    and "prefix (mirrored s' k) L" and "prefix (mirrored s k) (mirrored s' k)" and "prefix (X @ b) (mirrored s' k)"
    and "\<forall>j. j \<noteq> k \<longrightarrow> mirrored s' j = mirrored s j"
proof -
  have log: "log_ok (X @ b)" by (rule log_ok_prefix [OF L b])
  have "sorted_wrt (<) (map line_pos b)" using log_ok_sorted [OF log] by (simp add: sorted_wrt_append)
  then have sort: "sort_key line_pos b = b"
    by (intro sort_key_id_if_sorted) (simp add: strict_sorted_imp_sorted)
  obtain pos s1 where run: "append_log_lines k b s = (Inr pos, s1)" and e: "extends k L (X @ b) s s1"
  proof (cases "b = []")
    case True
    then show ?thesis using extends_refl [OF s(1) M X] by (intro that) (simp_all add: append_log_lines_def)
  next
    case False
    then show ?thesis
      using groups_extend [OF L s(1) M b X, of "([], 0)"] that by (auto simp: append_log_lines_def sort)
  qed
  let ?s = "s1\<lparr>canon := foldl (\<lambda>d l. vm_replay (snd (snd l)) d) (canon s1) b\<rparr>"
  have dates: "\<not> list_ex (\<lambda>l. fst l = []) b"
    using log_ok_line(1) [OF log] is_date_nonempty by (fastforce simp: list_ex_iff)
  have push: "push_logs (Some k) k b s = (Inr pos, ?s)"
    using k dates by (simp add: push_logs_def cross_check_def run sort)
  have all: "canon ?s = vm_log.apply_all (map (snd \<circ> snd) b) (canon s)"
    using e by (simp add: extends_def vm_log.apply_all_def foldl_map)
  have "vm_covered (snd (snd l)) (canon ?s)" if l: "l \<in> set (mirrored s1 j)" for l j
  proof -
    consider "l \<in> set (mirrored s j)" | "l \<in> set b"
      using l e X by (cases "j = k") (auto simp: extends_def dest: set_mono_prefix)
    then show ?thesis
      unfolding all using s(2) by cases (auto simp: canon_complete_def intro: vm_log.covered_later vm_log.all_covered)
  qed
  then have "canon_complete ?s" by (simp add: canon_complete_def)
  moreover have "relay_ok ?s" using push_relay_ok [OF s(1), of "Some k" k b] by (simp add: push)
  ultimately show ?thesis using e by (intro that [OF push]) (auto simp: extends_def)
qed

lemma map_of_rev_distinct: "distinct (map fst xs) \<Longrightarrow> map_of (rev xs) = map_of xs"
proof (rule ext)
  fix k assume "distinct (map fst xs)"
  then have "map_of (rev xs) k = Some v \<longleftrightarrow> map_of xs k = Some v" for v
    by (subst (1 2) map_of_eq_Some_iff) (simp_all flip: rev_map)
  then show "map_of (rev xs) k = map_of xs k" by (metis option.exhaust)
qed

lemma filter_tagged:
  assumes "distinct xs" and "\<And>x y. y \<in> set (f x) \<Longrightarrow> fst y = x"
  shows "filter (\<lambda>y. fst y = k) (concat (map f xs)) = (if k \<in> set xs then f k else [])"
proof -
  have one: "filter (\<lambda>y. fst y = k) (f x) = (if x = k then f k else [])" for x
    using assms(2) by (auto simp: filter_empty_conv filter_id_conv)
  then have "filter (\<lambda>y. fst y = k) (concat (map f xs)) = concat (map (\<lambda>x. if x = k then f k else []) xs)"
    by (simp add: filter_concat_map comp_def)
  also have "\<dots> = (if k \<in> set xs then f k else [])"
  proof (cases "k \<in> set xs")
    case True
    then show ?thesis by (subst concat_single [OF assms(1) True]) simp_all
  next
    case False
    then show ?thesis by (subst concat_none) auto
  qed
  finally show ?thesis .
qed

lemma pull_returns:
  assumes s: "relay_ok s" and c: "distinct (map fst cursors)"
  obtains chunks where "pull_logs (Some m) m cursors s = Inr chunks"
    and "\<And>k. concat (map snd (filter (\<lambda>ch. fst ch = k) chunks)) =
      (if k = m then [] else filter (\<lambda>l. (case map_of cursors k of None \<Rightarrow> ([], - 1) | Some p \<Rightarrow> p) < line_pos l) (mirrored s k))"
proof -
  let ?peers = "filter (\<lambda>p. p \<noteq> m) (enrolled_machines s)"
  let ?chunks = "concat (map (peer_chunks cursors s) ?peers)"
  have d: "distinct ?peers" using s by (simp add: enrolled_machines_def relay_ok_def keyed_def)
  have t: "filter (\<lambda>ch. fst ch = k) ?chunks = (if k \<in> set ?peers then peer_chunks cursors s k else [])" for k
    by (rule filter_tagged [OF d]) (auto simp: peer_chunks_def)
  have none: "mirrored s k = []" if "k \<notin> set (enrolled_machines s)" for k
  proof -
    have "machine_files k s = []"
      using that by (auto simp: machine_files_def enrolled_machines_def split: option.split dest!: lookup_key_SomeD)
    then show ?thesis by (simp add: mirrored_def files_lines_def)
  qed
  have all: "concat (map snd (peer_chunks cursors s k)) =
      filter (\<lambda>l. (case map_of cursors k of None \<Rightarrow> ([], - 1) | Some p \<Rightarrow> p) < line_pos l) (mirrored s k)" for k
    by (simp add: peer_chunks_def comp_def concat_batches lines_since_filter since_of_def map_of_rev_distinct [OF c])
  show ?thesis
  proof (rule that [of ?chunks])
    show "pull_logs (Some m) m cursors s = Inr ?chunks" by (simp add: pull_logs_def cross_check_def)
    show "concat (map snd (filter (\<lambda>ch. fst ch = k) ?chunks)) = (if k = m then [] else
        filter (\<lambda>l. (case map_of cursors k of None \<Rightarrow> ([], - 1) | Some p \<Rightarrow> p) < line_pos l) (mirrored s k))" for k
      unfolding t using all [of k] none [of k] by auto
  qed
qed

end
