(* ===== verification/Relay.thy ===== *)
theory Relay
  imports SyncProperties SyncServerCorrect
begin

text \<open>
  A sync client talking to a relay over a network that loses requests and replies and cuts streams.
  The relay is an interface: what its mirrors hold, what a push does to them and what a pull returns
  (\<open>relay_store\<close>). Under its laws a session, whatever fails in it but the SQL, keeps the relay's mirror of
  the machine a prefix of the machine's log and leaves no pulled line uncovered; one that returns 0 has
  pushed everything and covered everything.
\<close>

section \<open>The network\<close>

datatype fate = Delivered | Lost_request | Lost_reply

text \<open>The fate of each push request of a session, and after how many chunks the stream of the pull breaks.\<close>

record network =
  fate_of :: "nat \<Rightarrow> fate"
  cut_after :: "nat option"

type_synonym 's pusher = "string \<Rightarrow> log_line list \<Rightarrow> 's \<Rightarrow> exn option \<times> 's"
type_synonym 's fetcher = "string \<Rightarrow> (string \<times> string \<times> int) list \<Rightarrow> 's \<Rightarrow> exn + chunk list"

text \<open>The relay after the requests \<open>h\<close> of a session of \<open>m\<close>.\<close>

definition after :: "'s pusher \<Rightarrow> string \<Rightarrow> network \<Rightarrow> requests \<Rightarrow> 's \<Rightarrow> 's" where
  "after push m net h s =
     foldl (\<lambda>s r. if fate_of net (fst r) = Lost_request then s else snd (push m (snd (snd r)) s)) s (enumerate 0 h)"

definition serve :: "'s pusher \<Rightarrow> 's fetcher \<Rightarrow> string \<Rightarrow> network \<Rightarrow> 's \<Rightarrow> service" where
  "serve push fetch m net s =
     \<lparr>push_error = (\<lambda>h ls.
        case fate_of net (length h) of
          Delivered \<Rightarrow> fst (push m ls (after push m net h s))
        | Lost_request \<Rightarrow> Some (RpcError ''StatusCode.UNAVAILABLE'')
        | Lost_reply \<Rightarrow> Some (RpcError ''StatusCode.DEADLINE_EXCEEDED'')),
      pull = (\<lambda>h cursors.
        case fetch m cursors (after push m net h s) of
          Inl e \<Rightarrow> ([], Some e)
        | Inr chunks \<Rightarrow>
            (case cut_after net of
               None \<Rightarrow> (chunks, None)
             | Some n \<Rightarrow> (take n chunks, Some (RpcError ''StatusCode.UNAVAILABLE'')))),
      stubs_error = None, lock_error = None\<rparr>"

lemma after_Nil [simp]: "after push m net [] s = s"
  by (simp add: after_def)

lemma after_snoc: "after push m net (h @ [r]) s =
    (if fate_of net (length h) = Lost_request then after push m net h s
     else snd (push m (snd r) (after push m net h s)))"
  by (simp add: after_def enumerate_append_eq)

section \<open>Invariants of the database and the trace\<close>

text \<open>
  \<open>R\<close> relates the requests made so far to a database; the client's work on the databases other than cursors
  keeps it.
\<close>

definition marked :: "string \<Rightarrow> timestamp \<Rightarrow> string \<Rightarrow> database \<Rightarrow> database" where
  "marked k now e d = d\<lparr>sync_state := upsert y_machine_id (\<lambda>r. r\<lparr>y_last_sync_attempt_at := now, y_last_error := e\<rparr>)
       ((sync_row_defaults k)\<lparr>y_last_sync_attempt_at := now, y_last_error := e\<rparr>) (sync_state d)\<rparr>"

definition steady :: "(requests \<Rightarrow> database \<Rightarrow> bool) \<Rightarrow> bool" where
  "steady R \<longleftrightarrow> (\<forall>ps d. R ps d \<longrightarrow>
     (\<forall>es. R ps (d\<lparr>mover_errors := es\<rparr>)) \<and> (\<forall>raw. R ps (db_sync raw d)) \<and> (\<forall>k now e. R ps (marked k now e d)))"

definition on_dbs :: "(requests \<Rightarrow> database \<Rightarrow> bool) \<Rightarrow> world \<Rightarrow> bool" where
  "on_dbs R w \<longleftrightarrow> quiet w \<and> R (pushed w) (db w) \<and> R (pushed w) (disk w)"

lemma on_dbs_update [simp]:
  "on_dbs R (w\<lparr>files := fs\<rparr>) = on_dbs R w" "on_dbs R (w\<lparr>fs_faults := fl\<rparr>) = on_dbs R w"
  "on_dbs R (w\<lparr>reads := n\<rparr>) = on_dbs R w"
  by (simp_all add: on_dbs_def)

lemma on_dbs_sql:
  assumes "Snapshots \<notin> set ts" and "\<And>ps d. R ps d \<Longrightarrow> R ps (snd (f d))" and "\<And>d. tables (snd (f d)) = tables d"
  shows "keeps (on_dbs R) (sql ts f)"
  using assms by (auto simp: keeps_def on_dbs_def quiet_sql)

lemma on_dbs_now: "keeps (on_dbs R) now_iso"
  by (simp add: keeps_def now_iso_def)

lemma steady_stable:
  assumes "steady R"
  shows "sync_stable (on_dbs R)"
proof -
  have R: "R ps (d\<lparr>mover_errors := es\<rparr>)" "R ps (db_sync raw d)" "R ps (marked k now e d)" if "R ps d" for ps d es raw k now e
    using assms that by (simp_all add: steady_def)
  have c: "keeps (on_dbs R) commit" by (auto simp: keeps_def on_dbs_def quiet_commit)
  have sel: "keeps (on_dbs R) (select ts f)" for ts and f :: "database \<Rightarrow> 'x"
    by (auto simp: keeps_def on_dbs_def select_def db_op_def quiet_def)
  have err: "keeps (on_dbs R) (sync_record_error op tgt s x)" for op tgt s x
    unfolding sync_record_error_def Let_def by (intro keeps_rules on_dbs_now on_dbs_sql) (simp_all add: R)
  have clr: "keeps (on_dbs R) (sync_clear_error op tgt)" for op tgt
    unfolding sync_clear_error_def by (rule on_dbs_sql) (simp_all add: R)
  have mark: "keeps (on_dbs R) (mark_attempt k s)" for k s
    unfolding mark_attempt_def Let_def
    by (intro keeps_rules on_dbs_now on_dbs_sql) (simp_all add: R(3) [unfolded marked_def])
  have rep: "keeps (on_dbs R) (replay_into_db raw)" for raw
  proof (unfold keeps_def, intro allI impI)
    fix w assume w: "on_dbs R w"
    then obtain b where "replay_into_db raw w = (Inr (), w\<lparr>db := db_sync raw (db w), in_tx := b\<rparr>)"
      using run_replay [of w raw] by (auto simp: on_dbs_def)
    then show "on_dbs R (snd (replay_into_db raw w))"
      using w by (simp add: on_dbs_def R(2))
  qed
  show ?thesis
    unfolding sync_stable_def
    by (intro conjI allI impI keepsD [OF c] keepsD [OF sel] err clr mark rep)
      (simp_all add: file_free_def)
qed

lemma wp_quiet_commit: "quiet w \<Longrightarrow> wp commit Q E w = Q () (w\<lparr>disk := db w, in_tx := False\<rparr>)"
  by (simp add: wp_def quiet_commit)

lemma wp_with:
  "keeps I m \<Longrightarrow> I w \<Longrightarrow> wp m Q E w \<Longrightarrow> wp m (\<lambda>a w'. I w' \<and> Q a w') (\<lambda>e w'. I w' \<and> E e w') w"
  by (auto simp: keeps_def wp_def split: prod.splits sum.splits dest!: spec [where x = w])

text \<open>A mark never moves a cursor past a dated line.\<close>

lemma cursor_marked: "l \<noteq> [] \<Longrightarrow> (l, i) \<le> cursor_of j (marked k now e d) \<longleftrightarrow> (l, i) \<le> cursor_of j d"
  by (auto simp: cursor_of_def marked_def lookup_upsert sync_row_defaults_def less_eq_prod_def split: option.split)

text \<open>A cursor is fresh or at one of the positions \<open>S\<close>.\<close>

definition at_line :: "(string \<times> int) set \<Rightarrow> string \<times> int \<Rightarrow> bool" where
  "at_line S c \<longleftrightarrow> fst c = [] \<or> c \<in> S"

lemma at_line_marked: "at_line S (cursor_of j (marked k now e d)) = at_line S (cursor_of j d)"
  by (auto simp: at_line_def cursor_of_def marked_def lookup_upsert sync_row_defaults_def split: option.split)

lemma keyed_marked: "keyed y_machine_id (sync_state d) \<Longrightarrow> keyed y_machine_id (sync_state (marked k now e d))"
  by (simp add: marked_def keyed_upsert)

lemma sync_covered_part: "sync_covered raw (log_part d) = sync_covered raw d"
  by (simp add: sync_covered_def db_covered_def log_part_def of_interest_set_def split: option.split)

lemma sync_covered_other [simp]:
  "sync_covered raw (d\<lparr>sync_state := ys\<rparr>) = sync_covered raw d"
  "sync_covered raw (d\<lparr>mover_errors := es\<rparr>) = sync_covered raw d"
  by (simp_all add: sync_covered_def db_covered_def of_interest_set_def split: option.split)

lemma replayed_all: "replayed raws d = sync_replay.apply_all raws d"
  by (simp add: replayed_def sync_replay.apply_all_def)

section \<open>Sorted lines\<close>

lemma sorted_split:
  fixes f :: "'a \<Rightarrow> 'b::linorder"
  shows "sorted_wrt (<) (map f L) \<Longrightarrow> L = filter (\<lambda>l. f l \<le> c) L @ filter (\<lambda>l. c < f l) L"
proof (induction L)
  case (Cons x L)
  show ?case
  proof (cases "f x \<le> c")
    case True
    with Cons show ?thesis by auto
  next
    case False
    with Cons.prems have "\<forall>l\<in>set L. c < f l" by (auto simp: not_le intro: less_trans)
    then have "filter (\<lambda>l. c < f l) L = L" "filter (\<lambda>l. f l \<le> c) L = []"
      by (auto simp: filter_id_conv filter_empty_conv not_le)
    with False show ?thesis by auto
  qed
qed simp

lemma prefix_upto:
  "sorted_wrt (<) (map line_pos L) \<Longrightarrow> prefix (filter (\<lambda>l. line_pos l \<le> c) L) L"
  by (subst (2) sorted_split [of line_pos L c]) simp_all

lemma end_pos_append: "end_pos (end_pos c a) b = end_pos c (a @ b)"
  by (simp add: end_pos_def)

lemma cursor_after_lines:
  "cursor_after chunks k c = end_pos c (concat (map snd (filter (\<lambda>ch. fst ch = k) chunks)))"
proof (induction chunks arbitrary: c)
  case Nil
  then show ?case by (simp add: cursor_after_def end_pos_def)
next
  case (Cons ch chunks)
  have "cursor_after (ch # chunks) k c = cursor_after chunks k (if fst ch = k then end_pos c (snd ch) else c)"
    by (simp add: cursor_after_def)
  then show ?case using Cons.IH by (simp add: end_pos_append)
qed

text \<open>A prefix of the lines past a cursor leaves a cursor that has passed exactly that prefix.\<close>

lemma passed_prefix:
  assumes L: "sorted_wrt (<) (map line_pos L)" and D: "prefix D (filter (\<lambda>l. c < line_pos l) L)"
    and l: "l \<in> set L" "line_pos l \<le> end_pos c D"
  shows "line_pos l \<le> c \<or> l \<in> set D"
proof (cases "D = []")
  case True
  with l show ?thesis by (simp add: end_pos_def)
next
  case False
  let ?F = "filter (\<lambda>l. c < line_pos l) L"
  obtain E where F: "?F = D @ E" using D by (auto simp: prefix_def)
  have s: "sorted_wrt (<) (map line_pos ?F)"
    using L by (simp add: sorted_wrt_map sorted_wrt_filter)
  show ?thesis
  proof (rule disjCI)
    assume "l \<notin> set D"
    show "line_pos l \<le> c"
    proof (rule ccontr)
      assume "\<not> line_pos l \<le> c"
      with l(1) have "l \<in> set ?F" by (simp add: not_le)
      with F \<open>l \<notin> set D\<close> have "l \<in> set E" by auto
      with s have "line_pos (last D) < line_pos l"
        unfolding F using False by (auto simp: sorted_wrt_append)
      then show False using l(2) False by (simp add: end_pos_def)
    qed
  qed
qed

section \<open>What a session keeps of a laptop\<close>

text \<open>
  A cursor for a peer is at a line of its mirror, and the lines up to it are covered; the mirror has the own
  lines up to the own cursor.
\<close>

definition has_tables :: "database \<Rightarrow> bool" where
  "has_tables d \<longleftrightarrow> list_all (\<lambda>t. t \<in> set (tables d)) [Visits, ReadEvents, SkimmedEvents, SyncState, MoverErrors]"

definition peers_ok :: "string \<Rightarrow> (string \<Rightarrow> log_line list) \<Rightarrow> database \<Rightarrow> bool" where
  "peers_ok m R d \<longleftrightarrow> has_tables d \<and> keyed y_machine_id (sync_state d)
     \<and> (\<forall>k. k \<noteq> m \<longrightarrow> at_line (line_pos ` set (R k)) (cursor_of k d)
          \<and> (\<forall>l\<in>set (R k). line_pos l \<le> cursor_of k d \<longrightarrow> sync_covered (snd (snd l)) d))"

definition own_ok :: "string \<Rightarrow> log_line list \<Rightarrow> log_line list \<Rightarrow> database \<Rightarrow> bool" where
  "own_ok m L M d \<longleftrightarrow> at_line (line_pos ` set M) (cursor_of m d) \<and> prefix (filter (\<lambda>l. line_pos l \<le> cursor_of m d) L) M"

text \<open>A request fails only in the network: none that arrives is refused.\<close>

definition answered :: "network \<Rightarrow> requests \<Rightarrow> bool" where
  "answered net h \<longleftrightarrow> (\<forall>i<length h. fst (h ! i) \<longleftrightarrow> fate_of net i = Delivered)"

lemma answered_snoc: "answered net (h @ [r]) \<longleftrightarrow> answered net h \<and> (fst r \<longleftrightarrow> fate_of net (length h) = Delivered)"
  by (auto simp: answered_def nth_append less_Suc_eq)

section \<open>The interface\<close>

text \<open>
  A batch \<open>b\<close> of the log \<open>L\<close> that starts inside the mirror or at its end is accepted; the mirror then reaches the end of
  the batch and stays a prefix of the log; no other mirror changes. A pull returns for each peer the mirrored
  lines past the cursor.
\<close>

locale relay_store =
  fixes rows :: "'s \<Rightarrow> string \<Rightarrow> log_line list" and push :: "'s pusher" and fetch :: "'s fetcher"
    and store_ok :: "'s \<Rightarrow> bool"
  assumes push_law: "store_ok s \<Longrightarrow> m \<noteq> [] \<Longrightarrow> log_ok L \<Longrightarrow> prefix (rows s m) L \<Longrightarrow> prefix (X @ b) L \<Longrightarrow> prefix X (rows s m) \<Longrightarrow>
      fst (push m b s) = None \<and> store_ok (snd (push m b s)) \<and> prefix (rows (snd (push m b s)) m) L
      \<and> prefix (rows s m) (rows (snd (push m b s)) m) \<and> prefix (X @ b) (rows (snd (push m b s)) m)
      \<and> (\<forall>k. k \<noteq> m \<longrightarrow> rows (snd (push m b s)) k = rows s k)"
    and fetch_law: "store_ok s \<Longrightarrow> distinct (map fst cursors) \<Longrightarrow>
      \<exists>chunks. fetch m cursors s = Inr chunks \<and> (\<forall>k. concat (map snd (filter (\<lambda>ch. fst ch = k) chunks)) =
        (if k = m then [] else filter (\<lambda>l. (case map_of cursors k of None \<Rightarrow> ([], - 1) | Some p \<Rightarrow> p) < line_pos l) (rows s k)))"
begin

text \<open>By pushes of \<open>m\<close> the relay came from \<open>s\<close> to \<open>s'\<close>, and has at least the lines \<open>Y\<close> and \<open>X\<close> of its log \<open>L\<close>.\<close>

definition reaches :: "string \<Rightarrow> log_line list \<Rightarrow> 's \<Rightarrow> log_line list \<Rightarrow> log_line list \<Rightarrow> 's \<Rightarrow> bool" where
  "reaches m L s Y X s' \<longleftrightarrow> store_ok s' \<and> (\<forall>k. k \<noteq> m \<longrightarrow> rows s' k = rows s k)
     \<and> prefix (rows s' m) L \<and> prefix Y (rows s' m) \<and> prefix X (rows s' m)"

lemma push_reaches:
  assumes "reaches m L s Y X s'" and "m \<noteq> []" and "log_ok L" and "prefix (X @ b) L"
  shows "fst (push m b s') = None" "reaches m L s Y (X @ b) (snd (push m b s'))"
  using push_law [of s' m L X b] assms by (auto simp: reaches_def intro: prefix_order.trans)

lemma reaches_less: "reaches m L s Y (X @ b) s' \<Longrightarrow> reaches m L s Y X s'"
  by (auto simp: reaches_def dest: append_prefixD)

lemma after_accepted:
  assumes "reaches m L s Y X (after push m net h s)" and "m \<noteq> []" and "log_ok L"
  shows "prefix (X @ concat bs) L \<Longrightarrow> (\<And>i. i < length bs \<Longrightarrow> fate_of net (length h + i) \<noteq> Lost_request) \<Longrightarrow>
    reaches m L s Y (X @ concat bs) (after push m net (h @ map (Pair True) bs) s)"
proof (induction bs rule: rev_induct)
  case Nil
  then show ?case using assms(1) by simp
next
  case (snoc b bs)
  have "prefix ((X @ concat bs) @ b) L" using snoc.prems(1) by simp
  moreover from append_prefixD [OF this] have "reaches m L s Y (X @ concat bs) (after push m net (h @ map (Pair True) bs) s)"
    using snoc.prems(2) by (intro snoc.IH) simp_all
  ultimately have "reaches m L s Y ((X @ concat bs) @ b) (snd (push m b (after push m net (h @ map (Pair True) bs) s)))"
    using push_reaches(2) assms(2,3) by blast
  moreover have "fate_of net (length h + length bs) \<noteq> Lost_request" using snoc.prems(2) [of "length bs"] by simp
  ultimately show ?case
    using after_snoc [of push m net "h @ map (Pair True) bs" "(True, b)" s] by simp
qed

lemma after_any:
  assumes "reaches m L s Y X (after push m net h s)" and "m \<noteq> []" and "log_ok L" and "prefix (X @ b) L"
  shows "reaches m L s Y X (after push m net (h @ [(f, b)]) s)"
  using reaches_less [OF push_reaches(2) [OF assms]] assms(1) by (simp add: after_snoc)

section \<open>What a session keeps of the relay\<close>

text \<open>Exactly the requests the relay answered without an error are marked as accepted.\<close>

definition traced :: "string \<Rightarrow> network \<Rightarrow> 's \<Rightarrow> requests \<Rightarrow> bool" where
  "traced m net s h \<longleftrightarrow> (\<forall>i<length h. fst (h ! i) \<longleftrightarrow> push_error (serve push fetch m net s) (take i h) (snd (h ! i)) = None)"

lemma traced_snoc: "traced m net s (h @ [r]) \<longleftrightarrow>
    traced m net s h \<and> (fst r \<longleftrightarrow> push_error (serve push fetch m net s) h (snd r) = None)"
  by (auto simp: traced_def nth_append less_Suc_eq)

lemma traced_fate:
  "traced m net s h \<Longrightarrow> i < length h \<Longrightarrow> fst (h ! i) \<Longrightarrow> fate_of net i = Delivered"
  by (auto simp: traced_def serve_def split: fate.splits)

lemma answered_accepted:
  assumes "answered net h" and t: "traced m net s (h @ map (Pair True) bs)"
  shows "answered net (h @ map (Pair True) bs)"
proof -
  have "fate_of net i = Delivered" if "length h \<le> i" "i < length h + length bs" for i
    using traced_fate [OF t, of i] that by (simp add: nth_append)
  then show ?thesis using assms(1) by (auto simp: answered_def nth_append not_less)
qed

definition linked :: "string \<Rightarrow> network \<Rightarrow> 's \<Rightarrow> log_line list \<Rightarrow> requests \<Rightarrow> database \<Rightarrow> bool" where
  "linked m net s L h d \<longleftrightarrow> traced m net s h \<and> answered net h \<and> reaches m L s (rows s m) [] (after push m net h s)
     \<and> own_ok m L (rows (after push m net h s) m) d \<and> peers_ok m (rows s) d"

lemma peers_steady: "\<forall>k. log_ok (rows s k) \<Longrightarrow> steady (\<lambda>h d. traced m net s h \<and> peers_ok m (rows s) d)"
proof -
  assume logs: "\<forall>k. log_ok (rows s k)"
  have dated: "fst l \<noteq> []" if "l \<in> set (rows s k)" for l k
    using log_ok_line(1) [of "rows s k" l] logs that is_date_nonempty by blast
  have tab: "has_tables (d\<lparr>mover_errors := es\<rparr>) = has_tables d" "has_tables (db_sync raw d) = has_tables d"
    "has_tables (marked k now e d) = has_tables d" for d es raw k now e
    by (simp_all add: has_tables_def marked_def)
  have cov: "sync_covered raw (marked k now e d) = sync_covered raw d" for raw k now e d
    by (simp add: marked_def)
  have cur: "cursor_of k (d\<lparr>mover_errors := es\<rparr>) = cursor_of k d" "cursor_of k (db_sync raw d) = cursor_of k d" for k d es raw
    by (simp_all add: cursor_of_def)
  have le: "line_pos l \<le> cursor_of j (marked k now e d) \<longleftrightarrow> line_pos l \<le> cursor_of j d" if "l \<in> set (rows s i)" for l i j k now e d
    using dated [OF that] by (simp add: line_pos_def cursor_marked)
  show ?thesis
    unfolding steady_def peers_ok_def
    by (auto simp: tab cov cur le keyed_marked at_line_marked intro: sync_replay.covered_mono)
qed

lemma linked_steady:
  assumes "\<forall>k. log_ok (rows s k)" and "log_ok L"
  shows "steady (linked m net s L)"
proof -
  have dated: "fst l \<noteq> []" if "l \<in> set L" for l
    using log_ok_line(1) [OF assms(2) that] is_date_nonempty by blast
  have own: "own_ok m L M (d\<lparr>mover_errors := es\<rparr>) = own_ok m L M d" "own_ok m L M (db_sync raw d) = own_ok m L M d" for M d es raw
    by (simp_all add: own_ok_def cursor_of_def)
  have "filter (\<lambda>l. line_pos l \<le> cursor_of m (marked k now e d)) L = filter (\<lambda>l. line_pos l \<le> cursor_of m d) L" for k now e d
    using dated by (intro filter_cong) (simp_all add: line_pos_def cursor_marked)
  then have mark: "own_ok m L M (marked k now e d) = own_ok m L M d" for M k now e d
    by (simp add: own_ok_def at_line_marked)
  show ?thesis
    using peers_steady [OF assms(1), of m net] unfolding steady_def linked_def by (simp add: own mark) blast
qed

lemma linked_split: "on_dbs (linked m net s L) w \<longleftrightarrow>
    on_dbs (\<lambda>h d. traced m net s h \<and> peers_ok m (rows s) d) w \<and>
    reaches m L s (rows s m) [] (after push m net (pushed w) s) \<and>
    answered net (pushed w) \<and>
    own_ok m L (rows (after push m net (pushed w) s) m) (db w) \<and>
    own_ok m L (rows (after push m net (pushed w) s) m) (disk w)"
  by (auto simp: on_dbs_def linked_def)

lemma peers_own_cursor:
  assumes "\<forall>k. log_ok (rows s k)"
  shows "keeps (on_dbs (\<lambda>h d. traced m net s h \<and> peers_ok m (rows s) d)) (set_cursor m date off)"
  unfolding set_cursor_def Let_def
  by (intro keeps_rules on_dbs_now on_dbs_sql)
    (auto simp: peers_ok_def has_tables_def keyed_upsert cursor_of_def lookup_upsert sync_row_defaults_def)

lemma peers_rpc: "keeps (on_dbs (\<lambda>h d. traced m net s h \<and> peers_ok m (rows s) d)) (push_rpc (serve push fetch m net s) ls)"
  by (auto simp: keeps_def on_dbs_def push_rpc_def traced_snoc split: option.split)

text \<open>The push of a session: when it returns, the relay has the whole log.\<close>

lemma linked_push:
  assumes logs: "\<forall>k. log_ok (rows s k)" "log_ok L" and m: "m \<noteq> []"
    and pend: "\<And>c. pending_lines cfg (files w) c = filter (\<lambda>l. c < line_pos l) L" and w: "on_dbs (linked m net s L) w"
  shows "wp (do_push (serve push fetch m net s) cfg m endpoint)
     (\<lambda>_ w'. on_dbs (linked m net s L) w' \<and> rows (after push m net (pushed w') s) m = L)
     (\<lambda>_. on_dbs (linked m net s L)) w"
proof -
  let ?srv = "serve push fetch m net s" and ?h = "pushed w" and ?S = "\<lambda>h. after push m net h s"
  let ?X = "filter (\<lambda>l. line_pos l \<le> cursor_of m (db w)) L" and ?P = "pending_lines cfg (files w) (cursor_of m (db w))"
  let ?I = "on_dbs (\<lambda>h d. traced m net s h \<and> peers_ok m (rows s) d)"
  let ?Y = "rows (?S ?h) m"
  have L: "?X @ ?P = L" unfolding pend by (rule sorted_split [symmetric]) (rule log_ok_sorted [OF logs(2)])
  have start: "reaches m L s ?Y ?X (?S ?h)" and old: "prefix (rows s m) ?Y"
    using w by (auto simp: on_dbs_def linked_def reaches_def own_ok_def)
  have own: "own_ok m L ?Y (db w)" "own_ok m L ?Y (disk w)" and ans: "answered net ?h"
    using w by (simp_all add: on_dbs_def linked_def)
  have accepted: "reaches m L s ?Y (?X @ concat bs) (?S (?h @ map (Pair True) bs))"
    if "traced m net s (?h @ map (Pair True) bs)" "prefix (concat bs) ?P" for bs
  proof (rule after_accepted [OF start m logs(2)])
    show "prefix (?X @ concat bs) L" using that(2) by (subst L [symmetric]) simp
    fix i assume "i < length bs"
    then show "fate_of net (length ?h + i) \<noteq> Lost_request"
      using traced_fate [OF that(1), of "length ?h + i"] by (simp add: nth_append)
  qed
  have keep: "keeps ?I (do_push ?srv cfg m endpoint)"
    by (rule keeps_do_push [OF steady_stable [OF peers_steady [OF logs(1)]] peers_own_cursor [OF logs(1)] peers_rpc])
  have push: "wp (do_push ?srv cfg m endpoint)
      (\<lambda>_ w'. pushed w' = ?h @ map (Pair True) (batches 500 ?P) \<and> disk w' = disk w
         \<and> cursor_of m (db w') = end_pos (cursor_of m (db w)) ?P) (\<lambda>_. push_err w ?P) w"
    by (rule wp_do_push) simp_all
  have sub: "set ?Y \<subseteq> set L" using start by (auto simp: reaches_def dest: set_mono_prefix)
  have ends: "at_line (line_pos ` set L) (end_pos (cursor_of m (db w)) ?P)"
  proof (cases "?P = []")
    case True
    then show ?thesis using own(1) sub by (auto simp: own_ok_def at_line_def end_pos_def)
  next
    case False
    then have "last ?P \<in> set L" using last_in_set [OF False] L by (metis Un_iff set_append)
    then show ?thesis unfolding at_line_def end_pos_def if_not_P [OF False] by (intro disjI2 imageI)
  qed
  show ?thesis
  proof (rule wp_mono [OF wp_with [OF keep _ push]])
    show "?I w" using w by (simp add: linked_split)
    fix w' assume r: "?I w' \<and> pushed w' = ?h @ map (Pair True) (batches 500 ?P) \<and> disk w' = disk w
         \<and> cursor_of m (db w') = end_pos (cursor_of m (db w)) ?P"
    then have p: "pushed w' = ?h @ map (Pair True) (batches 500 ?P)" and "traced m net s (pushed w')"
      unfolding on_dbs_def by blast+
    then have t: "traced m net s (?h @ map (Pair True) (batches 500 ?P))" by metis
    have "reaches m L s ?Y L (?S (pushed w'))"
      using accepted [OF t] L r by (simp add: concat_batches)
    then have S: "reaches m L s ?Y L (?S (pushed w'))" "rows (?S (pushed w')) m = L"
      by (auto simp: reaches_def intro: prefix_order.antisym)
    moreover have "own_ok m L L (db w')" "own_ok m L L (disk w')"
      using ends own(2) sub r prefix_upto [OF log_ok_sorted [OF logs(2)]] by (auto simp: own_ok_def at_line_def)
    moreover have "answered net (pushed w')" using answered_accepted [OF ans t] p by simp
    ultimately show "on_dbs (linked m net s L) w' \<and> rows (?S (pushed w')) m = L"
      using r old unfolding linked_split by (auto simp: reaches_def intro: prefix_order.trans)
  next
    fix e w' assume r: "?I w' \<and> push_err w ?P w'"
    then obtain bs rest where f: "push_frame w w'" and p: "pushed w' = ?h @ map (Pair True) bs @ map (Pair False) rest"
        and pre: "prefix (concat bs @ concat rest) ?P" and one: "length rest \<le> 1"
      by (auto simp: push_err_def)
    have t': "traced m net s (pushed w')" using r by (simp add: on_dbs_def)
    have t: "traced m net s (?h @ map (Pair True) bs)"
    proof (cases rest)
      case Nil
      then show ?thesis using t' p by simp
    next
      case (Cons b x)
      then show ?thesis using t' p one traced_snoc [of m net s "?h @ map (Pair True) bs" "(False, b)"] by simp
    qed
    then have bs: "reaches m L s ?Y (?X @ concat bs) (?S (?h @ map (Pair True) bs))"
      by (rule accepted) (use pre in \<open>rule append_prefixD\<close>)
    have S: "reaches m L s ?Y (?X @ concat bs) (?S (pushed w')) \<and> answered net (pushed w')"
    proof (cases rest)
      case Nil
      then show ?thesis using bs p answered_accepted [OF ans t] by simp
    next
      case (Cons b x)
      let ?h' = "?h @ map (Pair True) bs"
      have b: "prefix ((?X @ concat bs) @ b) L" using pre one Cons by (subst L [symmetric]) simp
      have e: "pushed w' = ?h' @ [(False, b)]" using one Cons p by simp
      have "push_error (serve push fetch m net s) ?h' b \<noteq> None"
        using t' traced_snoc [of m net s ?h' "(False, b)"] by (simp add: e)
      then have "fate_of net (length ?h') \<noteq> Delivered"
        using push_reaches(1) [OF bs m logs(2) b] by (auto simp: serve_def split: fate.splits)
      then have "answered net (pushed w')"
        unfolding e answered_snoc using answered_accepted [OF ans t] by simp
      then show ?thesis using after_any [OF bs m logs(2) b, of False] unfolding e by simp
    qed
    moreover have "cursor_of m (db w') = cursor_of m (db w)" "disk w' = disk w"
      using push_frame_cursor [OF f] f by (simp_all add: push_frame_def)
    ultimately show "on_dbs (linked m net s L) w'"
      using r old own unfolding linked_split by (auto simp: reaches_def own_ok_def at_line_def dest: set_mono_prefix intro: prefix_order.trans)
  qed
qed

text \<open>The pull of a session: when it returns, every mirrored line of every peer is covered.\<close>

lemma linked_pulled:
  assumes logs: "\<forall>k. log_ok (rows s k)" and w: "on_dbs (linked m net s L) w"
    and D: "\<And>k. prefix (concat (map snd (filter (\<lambda>ch. fst ch = k) cs)))
       (if k = m then [] else filter (\<lambda>l. cursor_of k (db w) < line_pos l) (rows s k))"
    and p: "pulled w cs ls w'" and key: "keyed y_machine_id (sync_state (db w'))"
  shows "on_dbs (linked m net s L) w'"
    and "k \<noteq> m \<Longrightarrow> l \<in> set (rows s k) \<Longrightarrow> line_pos l \<le> cursor_of k (db w) \<or>
        l \<in> set (concat (map snd (filter (\<lambda>ch. fst ch = k) cs))) \<Longrightarrow> sync_covered (snd (snd l)) (db w')"
proof -
  let ?D = "\<lambda>k. concat (map snd (filter (\<lambda>ch. fst ch = k) cs))"
  have same: "disk w' = disk w" "pushed w' = pushed w" "quiet w'" using p by (simp_all add: pulled_def)
  have cur: "cursor_of k (db w') = end_pos (cursor_of k (db w)) (?D k)" for k
    using p by (simp add: pulled_def cursor_after_lines)
  have covered: "sync_covered raw (db w')" if "sync_covered raw (db w) \<or> raw \<in> set (concat (map chunk_texts cs))" for raw
    using p that sync_replay.covered_later [of raw "log_part (db w)" "concat (map chunk_texts cs) @ ls"]
      sync_replay.all_covered [of raw "concat (map chunk_texts cs) @ ls" "log_part (db w)"]
    unfolding sync_covered_part [symmetric, of _ "db w'"] by (auto simp: pulled_def replayed_all sync_covered_part)
  have in_D: "snd (snd l) \<in> set (concat (map chunk_texts cs))" if "l \<in> set (?D k)" for l k
    using that by (force simp: chunk_texts_def)
  have peers: "at_line (line_pos ` set (rows s k)) (cursor_of k (db w))"
    "\<And>l. l \<in> set (rows s k) \<Longrightarrow> line_pos l \<le> cursor_of k (db w) \<Longrightarrow> sync_covered (snd (snd l)) (db w)" if "k \<noteq> m" for k
    using w that by (auto simp: on_dbs_def linked_def peers_ok_def)
  show known: "sync_covered (snd (snd l)) (db w')" if "k \<noteq> m" "l \<in> set (rows s k)" "line_pos l \<le> cursor_of k (db w) \<or> l \<in> set (?D k)" for k l
    using that peers(2) [of k l] in_D [of l k] covered by blast
  have "peers_ok m (rows s) (db w')"
    unfolding peers_ok_def
  proof (intro conjI allI impI ballI key)
    show "has_tables (db w')" using same(3) by (simp add: quiet_def has_tables_def)
    fix k assume k: "k \<noteq> m"
    have Dk: "prefix (?D k) (filter (\<lambda>l. cursor_of k (db w) < line_pos l) (rows s k))" using D [of k] k by simp
    show "at_line (line_pos ` set (rows s k)) (cursor_of k (db w'))"
    proof (cases "?D k = []")
      case True
      then show ?thesis using peers(1) [OF k] unfolding cur True end_pos_def by simp
    next
      case False
      from subsetD [OF set_mono_prefix [OF Dk] last_in_set [OF this]] have "last (?D k) \<in> set (rows s k)"
        by (simp only: set_filter mem_Collect_eq)
      then show ?thesis unfolding cur at_line_def end_pos_def if_not_P [OF False] by (intro disjI2 imageI)
    qed
    fix l assume l: "l \<in> set (rows s k)" "line_pos l \<le> cursor_of k (db w')"
    from passed_prefix [OF log_ok_sorted Dk l(1)] logs l(2) have "line_pos l \<le> cursor_of k (db w) \<or> l \<in> set (?D k)"
      by (simp only: cur)
    then show "sync_covered (snd (snd l)) (db w')" using known k l(1) by blast
  qed
  moreover have "?D m = []" using D [of m] by simp
  then have "cursor_of m (db w') = cursor_of m (db w)" by (simp only: cur end_pos_def simp_thms if_True)
  ultimately show "on_dbs (linked m net s L) w'"
    using w by (simp add: on_dbs_def linked_def same own_ok_def)
qed

lemma map_of_cursors:
  "(case map_of (map (\<lambda>r. (y_machine_id r, y_cursor_log_date r, y_cursor_line_offset r)) (sync_state d)) k of
      None \<Rightarrow> ([], - 1) | Some p \<Rightarrow> p) = cursor_of k d"
proof -
  have "map_of (map (\<lambda>r. (y_machine_id r, y_cursor_log_date r, y_cursor_line_offset r)) rs) k =
      map_option (\<lambda>r. (y_cursor_log_date r, y_cursor_line_offset r)) (lookup_key y_machine_id k rs)" for rs :: "sync_row list"
    by (induction rs) auto
  then show ?thesis by (cases "lookup_key y_machine_id k (sync_state d)") (simp_all add: cursor_of_def)
qed

lemma keyed_cursor: "keeps (on_dbs (\<lambda>_ d. keyed y_machine_id (sync_state d))) (set_cursor k date off)"
  unfolding set_cursor_def Let_def by (intro keeps_rules on_dbs_now on_dbs_sql) (auto simp: keyed_upsert)

lemma prefix_tagged: "prefix cs chunks \<Longrightarrow>
    prefix (concat (map snd (filter (\<lambda>ch. fst ch = k) cs))) (concat (map snd (filter (\<lambda>ch. fst ch = k) chunks)))"
  by (auto simp: prefix_def)

lemma linked_pull:
  assumes logs: "\<forall>k. log_ok (rows s k)" and w: "on_dbs (linked m net s L) w"
  shows "wp (do_pull (serve push fetch m net s) cfg m endpoint)
     (\<lambda>_ w'. on_dbs (linked m net s L) w' \<and> pushed w' = pushed w
        \<and> (\<forall>k. k \<noteq> m \<longrightarrow> (\<forall>l\<in>set (rows s k). sync_covered (snd (snd l)) (db w'))))
     (\<lambda>_. on_dbs (linked m net s L)) w"
proof -
  let ?srv = "serve push fetch m net s" and ?S = "after push m net (pushed w) s"
  let ?cs = "map (\<lambda>r. (y_machine_id r, y_cursor_log_date r, y_cursor_line_offset r)) (sync_state (db w))"
  let ?J = "on_dbs (\<lambda>_ d. keyed y_machine_id (sync_state d))"
  have S: "store_ok ?S" "\<And>k. k \<noteq> m \<Longrightarrow> rows ?S k = rows s k" and J: "?J w" and q: "quiet w"
    using w by (auto simp: on_dbs_def linked_def reaches_def peers_ok_def)
  then have "distinct (map fst ?cs)" by (simp add: on_dbs_def keyed_def comp_def)
  from fetch_law [OF S(1) this, of m] obtain chunks where f: "fetch m ?cs ?S = Inr chunks"
    and c: "\<And>k. concat (map snd (filter (\<lambda>ch. fst ch = k) chunks)) =
      (if k = m then [] else filter (\<lambda>l. cursor_of k (db w) < line_pos l) (rows ?S k))"
    unfolding map_of_cursors by blast
  define answer where "answer = pull ?srv (pushed w) ?cs"
  have a: "prefix (fst answer) chunks" "snd answer = None \<Longrightarrow> fst answer = chunks"
    by (auto simp: answer_def serve_def f take_is_prefix split: option.split)
  have D: "prefix (concat (map snd (filter (\<lambda>ch. fst ch = k) cs)))
       (if k = m then [] else filter (\<lambda>l. cursor_of k (db w) < line_pos l) (rows s k))" if "prefix cs chunks" for cs k
    using prefix_tagged [OF that, of k] S(2) [of k] unfolding c by (cases "k = m") simp_all
  have keyed: "keyed y_machine_id (sync_state (db w'))" if "?J w'" for w'
    using that by (simp add: on_dbs_def)
  have keep: "keeps ?J (do_pull ?srv cfg m endpoint)"
    by (rule keeps_do_pull [OF steady_stable keyed_cursor]) (simp add: steady_def keyed_marked)
  show ?thesis
  proof (rule wp_mono [OF wp_with [OF keep J wp_do_pull [OF q]]])
    fix w' assume "?J w' \<and> pulled w (fst (pull ?srv (pushed w) ?cs)) [] w' \<and> snd (pull ?srv (pushed w) ?cs) = None"
    then have r: "?J w'" "pulled w chunks [] w'" using a(2) by (auto simp: answer_def)
    note all = linked_pulled [OF logs w D [OF prefix_order.refl] r(2) keyed [OF r(1)]]
    have "sync_covered (snd (snd l)) (db w')" if "k \<noteq> m" "l \<in> set (rows s k)" for k l
      by (rule all(2) [OF that]) (use that S(2) in \<open>auto simp: c not_le\<close>)
    with all(1) r(2) show "on_dbs (linked m net s L) w' \<and> pushed w' = pushed w
        \<and> (\<forall>k. k \<noteq> m \<longrightarrow> (\<forall>l\<in>set (rows s k). sync_covered (snd (snd l)) (db w')))"
      by (auto simp: pulled_def)
  next
    fix e w'
    assume "?J w' \<and> (\<exists>n ls. n \<le> length (fst (pull ?srv (pushed w) ?cs)) \<and>
        prefix ls (next_texts (fst (pull ?srv (pushed w) ?cs)) n) \<and> pulled w (take n (fst (pull ?srv (pushed w) ?cs))) ls w')"
    then obtain n ls where r: "?J w'" "pulled w (take n (fst answer)) ls w'" by (auto simp: answer_def)
    have "prefix (take n (fst answer)) chunks" using a(1) take_is_prefix prefix_order.trans by blast
    from linked_pulled(1) [OF logs w D [OF this] r(2) keyed [OF r(1)]] show "on_dbs (linked m net s L) w'" .
  qed
qed

section \<open>A whole session\<close>

text \<open>What holds at the end of a forced session that returns 0.\<close>

definition finished :: "string \<Rightarrow> network \<Rightarrow> 's \<Rightarrow> log_line list \<Rightarrow> requests \<Rightarrow> database \<Rightarrow> bool" where
  "finished m net s L h d \<longleftrightarrow> linked m net s L h d \<and> rows (after push m net h s) m = L
     \<and> (\<forall>k. k \<noteq> m \<longrightarrow> (\<forall>l\<in>set (rows s k). sync_covered (snd (snd l)) d))"

lemma finished_steady:
  assumes "\<forall>k. log_ok (rows s k)" and "log_ok L"
  shows "steady (finished m net s L)"
  using linked_steady [OF assms, of m net]
  by (auto simp: steady_def finished_def marked_def sync_replay.covered_mono)

lemma linked_exchange:
  assumes logs: "\<forall>k. log_ok (rows s k)" "log_ok L" and m: "m \<noteq> []"
    and pend: "\<And>c. pending_lines cfg (files w) c = filter (\<lambda>l. c < line_pos l) L" and w: "on_dbs (linked m net s L) w"
  shows "wp (exchange (serve push fetch m net s) cfg m endpoint)
     (\<lambda>r w'. on_dbs (linked m net s L) w' \<and> (r = 0 \<longrightarrow> on_dbs (finished m net s L) w')) (\<lambda>_. on_dbs (linked m net s L)) w"
proof -
  let ?srv = "serve push fetch m net s" and ?I = "on_dbs (linked m net s L)" and ?F = "on_dbs (finished m net s L)"
  let ?Q = "\<lambda>(r :: int) w'. ?I w' \<and> (r = 0 \<longrightarrow> ?F w')"
  note I = steady_stable [OF linked_steady [OF logs, of m net]] and F = steady_stable [OF finished_steady [OF logs, of m net]]
  have FI: "?I w'" if "?F w'" for w' using that by (simp add: on_dbs_def finished_def)
  have handler: "wp (if is_python_exception e then thn (mark_attempt m (exn_str e)) (thn commit (ret 1)) else throw e) ?Q (\<lambda>_. ?I) w'"
    if "?I w'" for e w'
  proof -
    have "keeps ?I (thn (mark_attempt m (exn_str e)) commit)" by (intro keeps_rules sync_stableD [OF I])
    then have "wp (thn (mark_attempt m (exn_str e)) commit) (\<lambda>_. ?I) (\<lambda>_. ?I) w'" using that by (rule wp_keeps)
    then show ?thesis using that by (auto simp: wp_fun elim!: wp_mono)
  qed
  have last: "wp (thn (mark_attempt m []) (thn commit (ret 0))) ?Q (\<lambda>_. ?I) w'" if "?F w'" for w'
  proof -
    have "keeps ?F (thn (mark_attempt m []) commit)" by (intro keeps_rules sync_stableD [OF F])
    then have "wp (thn (mark_attempt m []) commit) (\<lambda>_. ?F) (\<lambda>_. ?F) w'" using that by (rule wp_keeps)
    then show ?thesis using FI by (auto simp: wp_fun elim!: wp_mono)
  qed
  have second: "wp (thn commit (thn (mark_attempt m []) (thn commit (ret 0)))) ?Q (\<lambda>_. ?I) w'"
    if "?I w'" "rows (after push m net (pushed w') s) m = L"
      "\<forall>k. k \<noteq> m \<longrightarrow> (\<forall>l\<in>set (rows s k). sync_covered (snd (snd l)) (db w'))" for w'
  proof -
    have "?F (w'\<lparr>disk := db w', in_tx := False\<rparr>)" using that by (simp add: on_dbs_def finished_def)
    moreover have "quiet w'" using that(1) by (simp add: on_dbs_def)
    ultimately show ?thesis
      unfolding wp_thn [of commit] using last by (simp only: wp_quiet_commit)
  qed
  have first: "wp (thn commit (thn (do_pull ?srv cfg m endpoint) (thn commit (thn (mark_attempt m []) (thn commit (ret 0))))))
      ?Q (\<lambda>_. ?I) w'" if "?I w'" "rows (after push m net (pushed w') s) m = L" for w'
  proof -
    let ?w = "w'\<lparr>disk := db w', in_tx := False\<rparr>"
    have "?I ?w" using that(1) by (simp add: on_dbs_def)
    have "wp (thn (do_pull ?srv cfg m endpoint) (thn commit (thn (mark_attempt m []) (thn commit (ret 0))))) ?Q (\<lambda>_. ?I) ?w"
      unfolding wp_thn
      by (rule wp_mono [OF linked_pull [OF logs(1) \<open>?I ?w\<close>]]) (use that(2) second [unfolded wp_thn] in simp_all)
    moreover have "quiet w'" using that(1) by (simp add: on_dbs_def)
    ultimately show ?thesis
      unfolding wp_thn [of commit] by (simp only: wp_quiet_commit)
  qed
  have "wp (thn (do_push ?srv cfg m endpoint) (thn commit (thn (do_pull ?srv cfg m endpoint)
       (thn commit (thn (mark_attempt m []) (thn commit (ret 0))))))) ?Q (\<lambda>_. ?I) w"
    unfolding wp_thn [of "do_push _ _ _ _"]
    by (rule wp_mono [OF linked_push [OF logs m pend w]]) (use first in simp_all)
  then show ?thesis
    unfolding exchange_def wp_catch by (rule wp_mono) (use handler in simp_all)
qed

lemma linked_session:
  assumes logs: "\<forall>k. log_ok (rows s k)" "log_ok L" and m: "m \<noteq> []"
    and pend: "\<And>c. pending_lines cfg (files w) c = filter (\<lambda>l. c < line_pos l) L" and w: "on_dbs (linked m net s L) w"
  shows "wp (sync_session (serve push fetch m net s) cfg insecure force m endpoint)
     (\<lambda>r w'. on_dbs (linked m net s L) w' \<and> (force \<and> r = 0 \<longrightarrow> on_dbs (finished m net s L) w')) (\<lambda>_. on_dbs (linked m net s L)) w"
proof -
  let ?srv = "serve push fetch m net s" and ?I = "on_dbs (linked m net s L)"
  let ?K = "\<lambda>v. ?I v \<and> files v = files w" and ?Q = "\<lambda>(r :: int) w'. ?I w' \<and> (force \<and> r = 0 \<longrightarrow> on_dbs (finished m net s L) w')"
  note I = steady_stable [OF linked_steady [OF logs, of m net]]
  have K: "keeps ?K (mark_attempt m t)" "keeps ?K commit" "keeps ?K (build_channel ?srv cfg insecure)"
    "keeps ?K (should_skip cfg m)" "keeps ?K (sync_record_error op tgt t b)" for t op tgt b
    by (intro keeps_both keeps_same_files sync_stableD [OF I] keeps_should_skip [OF I] keeps_build_channel [OF I])+
  have hs: "keeps ?K (handshake ?srv cfg insecure m endpoint)"
    unfolding handshake_def by (intro keeps_rules K)
  have work: "wp (if channel then exchange ?srv cfg m endpoint else ret 1) ?Q (\<lambda>_. ?I) v" if v: "?K v" for channel v
  proof -
    have "pending_lines cfg (files v) c = filter (\<lambda>l. c < line_pos l) L" for c using pend v by simp
    from linked_exchange [OF logs m this conjunct1 [OF v], of endpoint]
    have e: "wp (exchange ?srv cfg m endpoint) ?Q (\<lambda>_. ?I) v" by (rule wp_mono) simp_all
    show ?thesis by (cases channel) (use e v in \<open>simp_all add: wp_ret\<close>)
  qed
  have rest: "wp (thn (mark_attempt m []) (thn commit (bnd (handshake ?srv cfg insecure m endpoint)
        (\<lambda>channel. if channel then exchange ?srv cfg m endpoint else ret 1)))) ?Q (\<lambda>_. ?I) v" if v: "?K v" for v
    unfolding wp_thn wp_bnd
    by (rule wp_keeps [OF K(1) v], rule wp_keeps [OF K(2)], assumption, rule wp_keeps [OF hs], assumption, rule work) simp_all
  show ?thesis
  proof (cases force)
    case True
    then show ?thesis unfolding sync_session_def using rest w by (simp add: wp_bnd wp_ret)
  next
    case False
    have "wp (should_skip cfg m) (\<lambda>skip. wp (if skip then ret 0 else thn (mark_attempt m []) (thn commit
        (bnd (handshake ?srv cfg insecure m endpoint) (\<lambda>channel. if channel then exchange ?srv cfg m endpoint else ret 1)))) ?Q (\<lambda>_. ?I)) (\<lambda>_. ?I) w"
      by (rule wp_keeps [OF K(4)]) (use False rest w in \<open>auto simp: wp_ret\<close>)
    with False show ?thesis unfolding sync_session_def by (simp add: wp_bnd)
  qed
qed

end

end
