(* ===== verification/Convergence.thy ===== *)
theory Convergence
  imports Relay
begin

text \<open>
  The laptops and the sync server together. The server of \<open>SyncServer\<close> is a relay in the sense of \<open>Relay\<close>;
  in every history of a cluster, in which the laptops record visits, run sessions over a network that
  fails at will, and fall behind each other as they like, no push is refused, the server's database has every
  line of every mirror, and a line reaches each laptop with two sessions that succeed.
\<close>

section \<open>The lines of a laptop's logs\<close>

definition all_lines :: "sync_config \<Rightarrow> store \<Rightarrow> log_line list" where
  "all_lines cfg fs = pending_lines cfg fs ([], - 1)"

lemma all_lines_eq: "all_lines cfg fs =
    concat (map (\<lambda>d. map (Pair d) (lines_after (log_text cfg fs d) (- 1))) (local_dates cfg fs))"
proof -
  have "date_lines cfg fs ([], - 1) = (\<lambda>d. map (Pair d) (lines_after (log_text cfg fs d) (- 1)))"
    by (rule ext) (simp add: date_lines_def)
  then show ?thesis by (simp add: all_lines_def pending_lines_def pending_dates_def)
qed

lemma LOG_date: "LOG_FILENAME_RE n = Some d \<Longrightarrow> is_date d"
  by (simp add: LOG_FILENAME_RE_Some)

lemma local_date: "d \<in> set (local_dates cfg fs) \<Longrightarrow> is_date d"
  by (auto simp: local_dates_def map_filter_def split: if_splits dest: LOG_date)

lemma enumerate_nonneg: "x \<in> set (enumerate_int xs) \<Longrightarrow> 0 \<le> fst x"
  by (auto simp: enumerate_int_def in_set_zip)

lemma lines_after_filter: "lines_after t j = filter (\<lambda>x. j < fst x) (lines_after t (- 1))"
proof -
  have "filter (\<lambda>x. \<not> fst x \<le> - 1) (enumerate_int (file_lines t)) = enumerate_int (file_lines t)"
    by (rule filter_True) (auto dest: enumerate_nonneg)
  then show ?thesis
    by (simp add: lines_after_def case_prod_beta' filter_map_swap comp_def not_le)
qed

lemma lines_after_nonneg: "x \<in> set (lines_after t j) \<Longrightarrow> 0 \<le> fst x"
  by (auto simp: lines_after_def dest: enumerate_nonneg)

lemma pending_all: "pending_lines cfg fs c = filter (\<lambda>l. c < line_pos l) (all_lines cfg fs)"
proof -
  let ?G = "\<lambda>d. map (Pair d) (lines_after (log_text cfg fs d) (- 1))"
  have F: "date_lines cfg fs c d = filter (\<lambda>l. c < line_pos l) (?G d)" if "fst c \<le> d" for d
  proof (cases "d = fst c")
    case True
    then show ?thesis
      by (simp add: date_lines_def lines_after_filter [of _ "snd c"] filter_map_swap comp_def line_pos_def less_prod_def)
  next
    case False
    with that have "fst c < d" by simp
    then have "filter (\<lambda>l. c < line_pos l) (?G d) = ?G d"
      by (intro filter_True) (auto simp: line_pos_def less_prod_def)
    with False show ?thesis by (simp add: date_lines_def)
  qed
  have "pending_lines cfg fs c = concat (map (date_lines cfg fs c) (filter (\<lambda>d. fst c \<le> d) (local_dates cfg fs)))"
    by (cases "fst c = []") (simp_all add: pending_lines_def pending_dates_def)
  also have "\<dots> = concat (map (\<lambda>d. filter (\<lambda>l. c < line_pos l) (?G d)) (filter (\<lambda>d. fst c \<le> d) (local_dates cfg fs)))"
    using F by (auto intro!: arg_cong [where f = concat] map_cong)
  also have "\<dots> = concat (map (\<lambda>d. filter (\<lambda>l. c < line_pos l) (?G d)) (local_dates cfg fs))"
    by (rule concat_map_filter_empty) (auto simp: filter_empty_conv line_pos_def less_prod_def)
  also have "\<dots> = filter (\<lambda>l. c < line_pos l) (all_lines cfg fs)"
    by (simp add: all_lines_eq filter_concat_map comp_def)
  finally show ?thesis .
qed

lemma log_ok_day:
  assumes "log_ok A" and "is_date d" and "\<forall>l\<in>set A. fst l < d"
  shows "\<forall>r\<in>set rs. NL \<notin> set r \<Longrightarrow> log_ok (A @ map (Pair d) (enumerate_int rs))"
proof (induction rs rule: rev_induct)
  case Nil
  then show ?case using assms(1) by (simp add: enumerate_int_def)
next
  case (snoc r rs)
  let ?B = "A @ map (Pair d) (enumerate_int rs)"
  have "filter (\<lambda>l. fst l = d) A = []" using assms(3) by (auto simp: filter_empty_conv)
  then have "day_count d ?B = int (length rs)"
    by (simp add: day_count_def filter_map_swap comp_def)
  moreover have "log_ok (?B @ [(d, day_count d ?B, r)])"
    by (rule log_ok.next_line) (use snoc assms in \<open>auto intro: less_imp_le\<close>)
  ultimately show ?case by (simp add: enumerate_int_append)
qed

lemma file_line_one: "l \<in> set (file_lines t) \<Longrightarrow> \<exists>u. NL \<notin> set u \<and> (l = u \<or> l = u @ [NL])"
proof (induction t arbitrary: l)
  case (Cons x t)
  show ?case
  proof (cases "x = NL")
    case True
    with Cons show ?thesis by (auto intro: exI [of _ "[]"])
  next
    case False
    show ?thesis
    proof (cases "file_lines t")
      case Nil
      with Cons.prems False show ?thesis by (auto intro!: exI [of _ "[x]"])
    next
      case (Cons y ys)
      then consider "l = x # y" | "l \<in> set (file_lines t)" using Cons.prems False by auto
      then show ?thesis
      proof cases
        case 1
        obtain u where "NL \<notin> set u" "y = u \<or> y = u @ [NL]" using Cons.IH [of y] Cons by auto
        with 1 False show ?thesis by (intro exI [of _ "x # u"]) auto
      qed (rule Cons.IH)
    qed
  qed
qed simp

lemma lines_enumerated:
  "\<exists>rs. lines_after t (- 1) = enumerate_int rs \<and> (\<forall>r\<in>set rs. NL \<notin> set r)"
proof -
  let ?rs = "map (rstrip_char NL) (file_lines t)"
  have "filter (\<lambda>(i, raw). \<not> i \<le> - 1) (enumerate_int (file_lines t)) = enumerate_int (file_lines t)"
    by (rule filter_True) (auto dest: enumerate_nonneg)
  then have "lines_after t (- 1) = enumerate_int ?rs"
    by (simp add: lines_after_def enumerate_int_def zip_map2)
  moreover have "NL \<notin> set r" if "r \<in> set ?rs" for r
    using that file_line_one by (auto simp: rstrip_char_snoc rstrip_char_none dest!: file_line_one)
  ultimately show ?thesis by blast
qed

lemma log_ok_days:
  assumes "sorted ds" and "distinct ds" and "\<forall>d\<in>set ds. is_date d"
    and "\<And>d. \<exists>rs. f d = map (Pair d) (enumerate_int rs) \<and> (\<forall>r\<in>set rs. NL \<notin> set r)"
  shows "log_ok (concat (map f ds))"
  using assms(1-3)
proof (induction ds rule: rev_induct)
  case Nil
  then show ?case by (simp add: log_ok.empty_log)
next
  case (snoc d ds)
  obtain rs where f: "f d = map (Pair d) (enumerate_int rs)" and rs: "\<forall>r\<in>set rs. NL \<notin> set r" using assms(4) by blast
  have "fst l < d" if l: "l \<in> set (concat (map f ds))" for l
  proof -
    obtain e where "e \<in> set ds" "l \<in> set (f e)" using l by auto
    moreover from this have "fst l = e" using assms(4) [of e] by auto
    ultimately show ?thesis using snoc.prems by (auto simp: sorted_append less_le)
  qed
  then have "log_ok (concat (map f ds) @ map (Pair d) (enumerate_int rs))"
    using snoc rs by (intro log_ok_day) (auto simp: sorted_append)
  then show ?case by (simp add: f)
qed

lemma log_ok_all: "distinct (local_dates cfg fs) \<Longrightarrow> log_ok (all_lines cfg fs)"
proof -
  assume d: "distinct (local_dates cfg fs)"
  have "sorted (local_dates cfg fs)" by (simp add: local_dates_def)
  then have "log_ok (concat (map (\<lambda>d. map (Pair d) (lines_after (log_text cfg fs d) (- 1))) (local_dates cfg fs)))"
    by (rule log_ok_days [OF _ d]) (use local_date lines_enumerated in \<open>blast, metis\<close>)
  then show ?thesis by (simp add: all_lines_eq)
qed

section \<open>The sync server is a relay\<close>

definition go_push :: "relay pusher" where
  "go_push m ls s =
     (case push_logs (Some m) m ls s of (Inl e, s') \<Rightarrow> (Some (status_exn e), s') | (Inr _, s') \<Rightarrow> (None, s'))"

definition go_fetch :: "relay fetcher" where
  "go_fetch m cursors s =
     (case pull_logs (Some m) m cursors s of Inl e \<Rightarrow> Inl (status_exn e) | Inr chunks \<Rightarrow> Inr chunks)"

interpretation go: relay_store mirrored go_push go_fetch "\<lambda>s. relay_ok s \<and> canon_complete s"
proof
  fix s m L X b
  assume s: "relay_ok s \<and> canon_complete s" and a: "m \<noteq> []" "log_ok L" "prefix (mirrored s m) L" "prefix (X @ b) L" "prefix X (mirrored s m)"
  obtain pos s' where "push_logs (Some m) m b s = (Inr pos, s')" "relay_ok s'" "canon_complete s'" "prefix (mirrored s' m) L"
    "prefix (mirrored s m) (mirrored s' m)" "prefix (X @ b) (mirrored s' m)" "\<forall>j. j \<noteq> m \<longrightarrow> mirrored s' j = mirrored s j"
    using push_extends [OF conjunct1 [OF s] conjunct2 [OF s] a] by metis
  then show "fst (go_push m b s) = None \<and> (relay_ok (snd (go_push m b s)) \<and> canon_complete (snd (go_push m b s)))
      \<and> prefix (mirrored (snd (go_push m b s)) m) L \<and> prefix (mirrored s m) (mirrored (snd (go_push m b s)) m)
      \<and> prefix (X @ b) (mirrored (snd (go_push m b s)) m) \<and> (\<forall>k. k \<noteq> m \<longrightarrow> mirrored (snd (go_push m b s)) k = mirrored s k)"
    by (simp add: go_push_def)
next
  fix s m and cursors :: "(string \<times> string \<times> int) list"
  assume s: "relay_ok s \<and> canon_complete s" and c: "distinct (map fst cursors)"
  obtain chunks where "pull_logs (Some m) m cursors s = Inr chunks"
    "\<And>k. concat (map snd (filter (\<lambda>ch. fst ch = k) chunks)) =
      (if k = m then [] else filter (\<lambda>l. (case map_of cursors k of None \<Rightarrow> ([], - 1) | Some p \<Rightarrow> p) < line_pos l) (mirrored s k))"
    using pull_returns [OF conjunct1 [OF s] c] by blast
  then show "\<exists>chunks. go_fetch m cursors s = Inr chunks \<and> (\<forall>k. concat (map snd (filter (\<lambda>ch. fst ch = k) chunks)) =
      (if k = m then [] else filter (\<lambda>l. (case map_of cursors k of None \<Rightarrow> ([], - 1) | Some p \<Rightarrow> p) < line_pos l) (mirrored s k)))"
    by (auto simp: go_fetch_def)
qed

section \<open>Clusters\<close>

text \<open>The server and the laptops, by machine; a run of the client has a connection and a trace of its own.\<close>

record cluster =
  vm :: relay
  laptop :: "string \<Rightarrow> world"

definition opened :: "world \<Rightarrow> world" where
  "opened w = w\<lparr>db := disk w, in_tx := False, pushed := []\<rparr>"

definition run_session ::
    "(string \<Rightarrow> sync_config) \<Rightarrow> string \<Rightarrow> network \<Rightarrow> bool \<Rightarrow> bool \<Rightarrow> string \<Rightarrow> cluster \<Rightarrow> (exn + int) \<times> cluster" where
  "run_session K m net insecure force endpoint c =
     (case sync_session (serve go_push go_fetch m net (vm c)) (K m) insecure force m endpoint (opened (laptop c m)) of
        (r, w') \<Rightarrow> (r, c\<lparr>vm := after go_push m net (pushed w') (vm c), laptop := (laptop c)(m := w')\<rparr>))"

text \<open>
  What else happens on a laptop between two sessions, or to its files during one: lines are added at the end of
  its logs, each date has one log.
\<close>

definition grown :: "sync_config \<Rightarrow> world \<Rightarrow> world \<Rightarrow> bool" where
  "grown cfg w w' \<longleftrightarrow> prefix (all_lines cfg (files w)) (all_lines cfg (files w')) \<and> distinct (local_dates cfg (files w'))"

text \<open>The other programs keep what the log lines put into the database, and the sync client's table.\<close>

definition other_work :: "world \<Rightarrow> world \<Rightarrow> bool" where
  "other_work w w' \<longleftrightarrow> sync_state (disk w') = sync_state (disk w) \<and> quiet (opened w')
     \<and> (\<forall>raw. sync_covered raw (disk w) \<longrightarrow> sync_covered raw (disk w'))"

inductive cluster_step :: "(string \<Rightarrow> sync_config) \<Rightarrow> cluster \<Rightarrow> cluster \<Rightarrow> bool" for K where
  Local: "grown (K m) (laptop c m) w' \<Longrightarrow> other_work (laptop c m) w' \<Longrightarrow>
    cluster_step K c (c\<lparr>laptop := (laptop c)(m := w')\<rparr>)"
| Session: "m \<noteq> [] \<Longrightarrow> run_session K m net insecure force endpoint c = (r, c') \<Longrightarrow>
    grown (K m) (laptop c m) (laptop c' m) \<Longrightarrow> cluster_step K c c'"

inductive_cases cluster_stepE: "cluster_step K c c'"

definition fresh :: "(string \<Rightarrow> sync_config) \<Rightarrow> cluster \<Rightarrow> bool" where
  "fresh K c \<longleftrightarrow> mirror (vm c) = [] \<and> db_ok (canon (vm c))
     \<and> (\<forall>m. sync_state (disk (laptop c m)) = [] \<and> quiet (opened (laptop c m)) \<and> distinct (local_dates (K m) (files (laptop c m))))"

section \<open>The invariant\<close>

definition lines_of :: "(string \<Rightarrow> sync_config) \<Rightarrow> cluster \<Rightarrow> string \<Rightarrow> log_line list" where
  "lines_of K c m = all_lines (K m) (files (laptop c m))"

definition laptop_ok :: "(string \<Rightarrow> sync_config) \<Rightarrow> cluster \<Rightarrow> string \<Rightarrow> bool" where
  "laptop_ok K c m \<longleftrightarrow> distinct (local_dates (K m) (files (laptop c m))) \<and> quiet (opened (laptop c m))
     \<and> prefix (mirrored (vm c) m) (lines_of K c m)
     \<and> own_ok m (lines_of K c m) (mirrored (vm c) m) (disk (laptop c m))
     \<and> peers_ok m (mirrored (vm c)) (disk (laptop c m))"

definition cluster_ok :: "(string \<Rightarrow> sync_config) \<Rightarrow> cluster \<Rightarrow> bool" where
  "cluster_ok K c \<longleftrightarrow> relay_ok (vm c) \<and> canon_complete (vm c) \<and> (\<forall>m. laptop_ok K c m)"

lemma lines_ok: "laptop_ok K c m \<Longrightarrow> log_ok (lines_of K c m)"
  by (simp add: laptop_ok_def lines_of_def log_ok_all)

lemma mirrors_ok: "cluster_ok K c \<Longrightarrow> log_ok (mirrored (vm c) m)"
  by (rule log_ok_prefix [OF lines_ok [of K c m]]) (simp_all add: cluster_ok_def laptop_ok_def)

lemma quiet_opened: "quiet (opened w) \<longleftrightarrow> db_faults w = [] \<and> has_tables (disk w)"
  by (simp add: quiet_def has_tables_def opened_def)

lemma log_nonempty_date: "log_ok L \<Longrightarrow> l \<in> set L \<Longrightarrow> fst l \<noteq> []"
  using log_ok_line(1) is_date_nonempty by blast

lemma fresh_ok: "fresh K c \<Longrightarrow> cluster_ok K c"
proof -
  assume f: "fresh K c"
  have m: "mirrored (vm c) k = []" for k
    using f by (simp add: fresh_def mirrored_def machine_files_def files_lines_def)
  have "laptop_ok K c k" for k
  proof -
    have cur: "cursor_of j (disk (laptop c k)) = ([], - 1)" for j using f by (simp add: fresh_def cursor_of_def)
    have d: "distinct (local_dates (K k) (files (laptop c k)))" using f by (simp add: fresh_def)
    have "filter (\<lambda>l. line_pos l \<le> ([], - 1)) (lines_of K c k) = []"
      using log_nonempty_date [OF log_ok_all [OF d]]
      by (auto simp: filter_empty_conv lines_of_def line_pos_def less_eq_prod_def)
    then show ?thesis
      using f d by (auto simp: laptop_ok_def m cur own_ok_def peers_ok_def at_line_def fresh_def keyed_def
          quiet_opened)
  qed
  then show ?thesis
    using f by (simp add: cluster_ok_def canon_complete_def m relay_ok_def fresh_def keyed_def)
qed

text \<open>A mirror that grows at its end leaves the other laptops as they are.\<close>

lemma peers_grow:
  assumes p: "peers_ok j R d" and same: "\<And>k. k \<noteq> m \<Longrightarrow> R' k = R k" and g: "prefix (R m) (R' m)" and log: "log_ok (R' m)"
  shows "peers_ok j R' d"
  unfolding peers_ok_def
proof (intro conjI allI impI ballI)
  show "has_tables d" "keyed y_machine_id (sync_state d)" using p by (simp_all add: peers_ok_def)
  fix k assume k: "k \<noteq> j"
  have sub: "set (R k) \<subseteq> set (R' k)" using same [of k] set_mono_prefix [OF g] by (cases "k = m") auto
  have at: "at_line (line_pos ` set (R k)) (cursor_of k d)" using p k by (simp add: peers_ok_def)
  then show "at_line (line_pos ` set (R' k)) (cursor_of k d)" using sub by (auto simp: at_line_def)
  fix l assume l: "l \<in> set (R' k)" "line_pos l \<le> cursor_of k d"
  have "l \<in> set (R k)"
  proof (cases "k = m")
    case True
    obtain new where R': "R' m = R m @ new" using g by (auto simp: prefix_def)
    show ?thesis
    proof (rule ccontr)
      assume "l \<notin> set (R k)"
      then have n: "l \<in> set new" using l(1) R' True by auto
      have "fst (cursor_of k d) \<noteq> []"
        using l(2) log_nonempty_date [OF log, of l] l(1) True
        by (auto simp: line_pos_def less_eq_prod_def)
      then obtain l0 where l0: "l0 \<in> set (R m)" "cursor_of k d = line_pos l0" using at True by (auto simp: at_line_def)
      have "line_pos l0 < line_pos l"
        using log_ok_sorted [OF log] l0(1) n unfolding R' by (auto simp: sorted_wrt_append)
      then show False using l(2) l0(2) by simp
    qed
  next
    case False
    then show ?thesis using l(1) same by simp
  qed
  then show "sync_covered (snd (snd l)) d" using p k l(2) by (simp add: peers_ok_def)
qed

text \<open>A log that grows at its end leaves its own laptop as it is.\<close>

lemma own_grow:
  assumes o: "own_ok m L M d" and M: "prefix M L" and g: "prefix L L'" and log: "log_ok L'"
  shows "own_ok m L' M d"
proof -
  obtain new where L': "L' = L @ new" using g by (auto simp: prefix_def)
  have "\<not> line_pos l \<le> cursor_of m d" if l: "l \<in> set new" for l
  proof
    assume le: "line_pos l \<le> cursor_of m d"
    then have "fst (cursor_of m d) \<noteq> []"
      using log_nonempty_date [OF log, of l] l by (auto simp: L' line_pos_def less_eq_prod_def)
    then obtain l0 where l0: "l0 \<in> set M" "cursor_of m d = line_pos l0"
      using o by (auto simp: own_ok_def at_line_def)
    then have "l0 \<in> set L" using M by (auto dest: set_mono_prefix)
    then have "line_pos l0 < line_pos l"
      using log_ok_sorted [OF log] l unfolding L' by (auto simp: sorted_wrt_append)
    with le l0(2) show False by simp
  qed
  then have "filter (\<lambda>l. line_pos l \<le> cursor_of m d) new = []" by (auto simp: filter_empty_conv)
  then show ?thesis using o by (simp add: L' own_ok_def)
qed

section \<open>A session\<close>

lemma session_step:
  assumes ok: "cluster_ok K c" and m: "m \<noteq> []" and run: "run_session K m net insecure force endpoint c = (r, c')"
  shows "grown (K m) (laptop c m) (laptop c' m) \<Longrightarrow> cluster_ok K c'" and "prefix (mirrored (vm c) j) (mirrored (vm c') j)"
    and "answered net (pushed (laptop c' m))"
    and "force \<Longrightarrow> r = Inr 0 \<Longrightarrow> mirrored (vm c') m = lines_of K c m"
    and "force \<Longrightarrow> r = Inr 0 \<Longrightarrow> k \<noteq> m \<Longrightarrow> l \<in> set (mirrored (vm c) k) \<Longrightarrow> sync_covered (snd (snd l)) (disk (laptop c' m))"
proof -
  let ?w = "opened (laptop c m)" and ?L = "lines_of K c m" and ?L' = "lines_of K c' m"
  let ?srv = "serve go_push go_fetch m net (vm c)"
  obtain w' where s: "sync_session ?srv (K m) insecure force m endpoint ?w = (r, w')"
    and c': "c' = c\<lparr>vm := after go_push m net (pushed w') (vm c), laptop := (laptop c)(m := w')\<rparr>"
    using run by (auto simp: run_session_def split: prod.splits)
  have lm: "laptop_ok K c i" for i using ok by (simp add: cluster_ok_def)
  have logs: "\<forall>k. log_ok (mirrored (vm c) k)" using mirrors_ok [OF ok] by blast
  have "go.linked m net (vm c) ?L [] (disk (laptop c m))"
    using lm [of m] ok by (auto simp: go.linked_def go.traced_def answered_def go.reaches_def laptop_ok_def cluster_ok_def)
  then have start: "on_dbs (go.linked m net (vm c) ?L) ?w"
    using lm [of m] by (simp add: on_dbs_def laptop_ok_def) (simp add: opened_def)
  have "files ?w = files (laptop c m)" by (simp add: opened_def)
  then have pend: "pending_lines (K m) (files ?w) a = filter (\<lambda>l. a < line_pos l) ?L" for a
    by (simp add: pending_all lines_of_def)
  note all = go.linked_session [OF logs lines_ok [OF lm] m pend start, of insecure force endpoint, unfolded wp_def s prod.case]
  have lnk: "on_dbs (go.linked m net (vm c) ?L) w'" using all by (cases r) simp_all
  have fin: "force \<Longrightarrow> r = Inr 0 \<Longrightarrow> on_dbs (go.finished m net (vm c) ?L) w'" using all by simp
  have v: "go.reaches m ?L (vm c) (mirrored (vm c) m) [] (vm c')" and a: "answered net (pushed w')"
    and own: "own_ok m ?L (mirrored (vm c') m) (disk w')" and peers: "peers_ok m (mirrored (vm c)) (disk w')"
    and q: "db_faults w' = []"
    using lnk by (auto simp: on_dbs_def go.linked_def c' quiet_def)
  have rows: "k \<noteq> m \<Longrightarrow> mirrored (vm c') k = mirrored (vm c) k" for k using v by (simp add: go.reaches_def)
  have grow: "prefix (mirrored (vm c) k) (mirrored (vm c') k)" for k
    using v rows by (cases "k = m") (auto simp: go.reaches_def)
  then show "prefix (mirrored (vm c) j) (mirrored (vm c') j)" .
  show "answered net (pushed (laptop c' m))" using a by (simp add: c')
  show "force \<Longrightarrow> r = Inr 0 \<Longrightarrow> mirrored (vm c') m = ?L"
    using fin by (simp add: on_dbs_def go.finished_def c')
  show "force \<Longrightarrow> r = Inr 0 \<Longrightarrow> k \<noteq> m \<Longrightarrow> l \<in> set (mirrored (vm c) k) \<Longrightarrow> sync_covered (snd (snd l)) (disk (laptop c' m))"
    using fin by (simp add: on_dbs_def go.finished_def c')
  assume g: "grown (K m) (laptop c m) (laptop c' m)"
  have L: "prefix ?L ?L'" and L': "log_ok ?L'" and d: "distinct (local_dates (K m) (files w'))"
    using g by (simp_all add: grown_def lines_of_def log_ok_all c')
  have M: "prefix (mirrored (vm c') m) ?L" using v by (simp add: go.reaches_def)
  have "laptop_ok K c' i" for i
  proof (cases "i = m")
    case True
    have "peers_ok m (mirrored (vm c')) (disk w')"
      using peers rows by (simp add: peers_ok_def)
    moreover have "own_ok m ?L' (mirrored (vm c') m) (disk w')" by (rule own_grow [OF own M L L'])
    moreover have "prefix (mirrored (vm c') m) ?L'" using M L by (rule prefix_order.trans)
    moreover have "has_tables (disk w')" using peers by (simp add: peers_ok_def)
    ultimately show ?thesis using True d q by (simp add: laptop_ok_def c' quiet_opened)
  next
    case False
    then have "lines_of K c' i = lines_of K c i" by (simp add: lines_of_def c')
    moreover have "peers_ok i (mirrored (vm c')) (disk (laptop c i))"
      by (rule peers_grow [where m = m and R = "mirrored (vm c)"])
        (use lm [of i] rows grow log_ok_prefix [OF L'] prefix_order.trans [OF M L] in \<open>auto simp: laptop_ok_def\<close>)
    ultimately show ?thesis using False lm [of i] rows [of i] by (simp add: laptop_ok_def) (simp add: c')
  qed
  then show "cluster_ok K c'" using v by (simp add: cluster_ok_def go.reaches_def)
qed

section \<open>Reachable clusters\<close>

lemma local_step:
  assumes ok: "cluster_ok K c" and g: "grown (K m) (laptop c m) w'" and o: "other_work (laptop c m) w'"
  shows "cluster_ok K (c\<lparr>laptop := (laptop c)(m := w')\<rparr>)"
proof -
  let ?c = "c\<lparr>laptop := (laptop c)(m := w')\<rparr>"
  have lm: "laptop_ok K c i" for i using ok by (simp add: cluster_ok_def)
  have L: "prefix (lines_of K c m) (lines_of K ?c m)" and L': "log_ok (lines_of K ?c m)" and d: "distinct (local_dates (K m) (files w'))"
    using g by (simp_all add: grown_def lines_of_def log_ok_all)
  have cur: "cursor_of k (disk w') = cursor_of k (disk (laptop c m))" for k
    using o by (simp add: other_work_def cursor_of_def)
  have "own_ok m (lines_of K c m) (mirrored (vm c) m) (disk w')"
    using lm [of m] by (simp add: laptop_ok_def own_ok_def cur)
  from own_grow [OF this _ L L'] have "own_ok m (lines_of K ?c m) (mirrored (vm c) m) (disk w')"
    using lm [of m] by (simp add: laptop_ok_def)
  moreover have "peers_ok m (mirrored (vm c)) (disk w')"
    using lm [of m] o by (auto simp: laptop_ok_def peers_ok_def cur other_work_def quiet_opened)
  moreover have "prefix (mirrored (vm c) m) (lines_of K ?c m)"
    using lm [of m] L by (auto simp: laptop_ok_def intro: prefix_order.trans)
  ultimately have "laptop_ok K ?c m" using d o by (simp add: laptop_ok_def other_work_def)
  moreover have "laptop_ok K ?c i" if "i \<noteq> m" for i
    using lm [of i] that by (simp add: laptop_ok_def lines_of_def)
  ultimately have "laptop_ok K ?c i" for i by (cases "i = m") simp_all
  then show ?thesis using ok by (simp add: cluster_ok_def)
qed

lemma step_ok:
  assumes "cluster_step K c c'" and "cluster_ok K c"
  shows "cluster_ok K c'" and "prefix (mirrored (vm c) j) (mirrored (vm c') j)"
  using assms(1) by (cases; use assms(2) local_step session_step(1,2) in \<open>simp; blast?\<close>)+

lemma steps_ok:
  assumes "(cluster_step K)\<^sup>*\<^sup>* c c'" and "cluster_ok K c"
  shows "cluster_ok K c' \<and> prefix (mirrored (vm c) j) (mirrored (vm c') j)"
  using assms
proof (induction rule: rtranclp_induct)
  case (step c1 c2)
  then show ?case using step_ok [of K c1 c2] prefix_order.trans by blast
qed simp

end
