(* ===== verification/SealDirectory.thy ===== *)
theory SealDirectory
  imports MoverErrors
begin

text \<open>
  Sealing one daily directory: the rest of \<open>browser-visit-snapshot-lib/snapshot_mover.py\<close>. The
  manifest lists every conforming snapshot file that has an events row; the other files are reported
  in \<open>mover_errors\<close>. A directory that is named after a date also gets the day's log moved in and its
  \<open>snapshots\<close> row set to sealed.
\<close>

section \<open>Finding the event of a file\<close>

record event_info =
  i_tag :: string
  i_url :: url
  i_timestamp :: timestamp
  i_title :: string

fun tag_name :: "event_tag \<Rightarrow> string" where
  "tag_name Read = ''read''"
| "tag_name Skimmed = ''skimmed''"

text \<open>One of the two queries: the events table, left-joined with \<open>visits\<close> on the URL.\<close>

definition select_event ::
    "config \<Rightarrow> event_tag \<Rightarrow> filename \<Rightarrow> path \<Rightarrow> database \<Rightarrow> event_info option" where
  "select_event cfg tg name directory d =
     map_option (\<lambda>e. \<lparr>i_tag = tag_name tg, i_url = e_url e, i_timestamp = e_timestamp e,
         i_title = (case lookup_key v_url (e_url e) (visits d) of None \<Rightarrow> [] | Some v \<Rightarrow> v_title v)\<rparr>)
       (find (\<lambda>e. e_filename e = name \<and> (MATCH_BY_FILENAME_ONLY cfg \<or> e_directory e = directory))
          (events tg d))"

definition lookup_event :: "config \<Rightarrow> filename \<Rightarrow> path \<Rightarrow> event_info option io" where
  "lookup_event cfg name directory =
     bnd (select [ReadEvents, Visits] (select_event cfg Read name directory)) (\<lambda>r.
     case r of
       None \<Rightarrow> select [SkimmedEvents, Visits] (select_event cfg Skimmed name directory)
     | Some i \<Rightarrow> ret (Some i))"

section \<open>The rows of the manifest\<close>

definition expected_log :: "path \<Rightarrow> filename option" where
  "expected_log date_subdir =
     (let base = basename (normpath date_subdir)
      in if DATE_DIR_RE base then Some (log_filename_for base) else None)"

definition candidate :: "path \<Rightarrow> world \<Rightarrow> filename \<Rightarrow> bool" where
  "candidate date_subdir w f \<longleftrightarrow>
     f \<noteq> MANIFEST_FILENAME \<and> expected_log date_subdir \<noteq> Some f \<and> f \<notin> set IGNORED_NAMES
     \<and> isfile (path_join date_subdir f) w"

definition manifest_row :: "filename \<Rightarrow> event_info \<Rightarrow> string list" where
  "manifest_row name info =
     [tsv_sanitise name, i_tag info, tsv_sanitise (i_timestamp info), tsv_sanitise (i_url info),
      tsv_sanitise (i_title info)]"

text \<open>The body of the loop; its state is \<open>(rows, current_invalid, current_orphan)\<close>.\<close>

fun scan_file ::
    "config \<Rightarrow> path \<Rightarrow> string list list \<times> path list \<times> path list \<Rightarrow> filename \<Rightarrow>
     (string list list \<times> path list \<times> path list) io" where
  "scan_file cfg date_subdir (rows, invalid, orphan) name =
     (let full_path = path_join date_subdir name
      in if \<not> SNAPSHOT_FILENAME_RE name
         then thn (try_record_error ''invalid_filename'' full_path
                     (ValueError ''filename does not match snapshot format''))
                  (ret (rows, invalid @ [full_path], orphan))
         else bnd (lookup_event cfg name date_subdir) (\<lambda>info.
              case info of
                None \<Rightarrow> thn (try_record_error ''orphan_file'' full_path
                          (ValueError ''snapshot file has no matching events row''))
                        (ret (rows, invalid, orphan @ [full_path]))
              | Some i \<Rightarrow> ret (rows @ [manifest_row name i], invalid, orphan)))"

definition build_manifest_rows :: "config \<Rightarrow> path \<Rightarrow> string list list io" where
  "build_manifest_rows cfg date_subdir =
     bnd (listdir date_subdir) (\<lambda>names.
     bnd (gets (\<lambda>w. sort (filter (candidate date_subdir w) names))) (\<lambda>fs.
     bnd (fold_io (scan_file cfg date_subdir) ([], [], []) fs) (\<lambda>(rows, invalid, orphan).
     thn (reconcile_dir_scoped_errors ''invalid_filename'' date_subdir invalid)
       (thn (reconcile_dir_scoped_errors ''orphan_file'' date_subdir orphan)
         (ret rows)))))"

section \<open>Writing it\<close>

definition manifest_path :: "path \<Rightarrow> path" where
  "manifest_path date_subdir = path_join date_subdir MANIFEST_FILENAME"

definition tsv_line :: "string list \<Rightarrow> string" where
  "tsv_line cells = join_with [TAB] cells @ [NL]"

definition write_manifest_file :: "config \<Rightarrow> path \<Rightarrow> nat io" where
  "write_manifest_file cfg date_subdir =
     (let mp = manifest_path date_subdir in
      bnd (gets (exists mp)) (\<lambda>there.
      thn (unless (\<not> there) (unlink mp))
        (bnd (build_manifest_rows cfg date_subdir) (\<lambda>rows.
         thn (open_write False mp)
           (thn (write_handle mp (tsv_line MANIFEST_HEADER))
             (thn (for_each rows (\<lambda>row. write_handle mp (tsv_line row)))
               (thn (chmod mp mode_444)
                 (ret (length rows)))))))))"

definition move_log_into_sealed_dir :: "config \<Rightarrow> path \<Rightarrow> string \<Rightarrow> unit io" where
  "move_log_into_sealed_dir cfg date_subdir date_iso =
     (let src = path_join (LOG_DIR cfg) (log_filename_for date_iso);
          dst = path_join date_subdir (log_filename_for date_iso)
      in bnd (gets (exists src)) (\<lambda>there.
         if \<not> there then ret ()
         else thn (move src dst) (chmod dst mode_444)))"

definition seal_directory :: "config \<Rightarrow> path \<Rightarrow> bool \<Rightarrow> string option \<Rightarrow> unit io" where
  "seal_directory cfg date_subdir dry_run date_key =
     (if dry_run then ret ()
      else catch
        (bnd (write_manifest_file cfg date_subdir) (\<lambda>count.
         thn (case date_key of None \<Rightarrow> ret () | Some k \<Rightarrow> move_log_into_sealed_dir cfg date_subdir k)
           (thn (case date_key of
                   None \<Rightarrow> ret ()
                 | Some k \<Rightarrow> thn (sql [Snapshots] (sql_upsert_snapshot k 1)) commit)
             (try_clear_error ''seal'' date_subdir))))
        (\<lambda>exc. if is_os_error exc \<or> is_sqlite_error exc
               then try_record_error ''seal'' date_subdir exc
               else throw exc))"

section \<open>Merging orphaned logs\<close>

definition merge_orphan_log :: "config \<Rightarrow> string \<Rightarrow> filename \<Rightarrow> unit io" where
  "merge_orphan_log cfg today_iso entry =
     (case LOG_FILENAME_RE entry of
        None \<Rightarrow> ret ()
      | Some date_iso \<Rightarrow>
          if today_iso \<le> date_iso then ret ()
          else
            (let src = path_join (LOG_DIR cfg) entry;
                 date_subdir = path_join (ICLOUD_SNAPSHOTS_DIR cfg) date_iso;
                 dst = path_join date_subdir entry
             in catch
                  (bnd (gets (exists dst)) (\<lambda>there.
                   if there
                   then thn (chmod dst mode_644)
                     (thn (open_read src)
                       (thn (open_write True dst)
                         (bnd (read_handle src) (\<lambda>text.
                          thn (write_handle dst text)
                            (thn (chmod dst mode_444)
                              (thn (unlink src)
                                (try_clear_error ''seal'' date_subdir)))))))
                   else thn (sql [Snapshots] (sql_insert_snapshot date_iso)) commit))
                  (\<lambda>exc. if is_os_error exc then try_record_error ''seal'' date_subdir exc
                         else throw exc)))"

definition orphan_log_merge_pass :: "config \<Rightarrow> unit io" where
  "orphan_log_merge_pass cfg =
     bnd (gets (isdir (LOG_DIR cfg))) (\<lambda>there.
     if \<not> there then ret ()
     else bnd (gets today) (\<lambda>today_iso.
          bnd (listdir (LOG_DIR cfg)) (\<lambda>names.
          for_each (sort names) (merge_orphan_log cfg today_iso))))"

section \<open>The specification of the manifest\<close>

text \<open>What \<open>lookup_event\<close> finds, as a function of the database.\<close>

definition event_of :: "config \<Rightarrow> database \<Rightarrow> path \<Rightarrow> filename \<Rightarrow> event_info option" where
  "event_of cfg d directory name =
     (case select_event cfg Read name directory d of
        None \<Rightarrow> select_event cfg Skimmed name directory d
      | Some i \<Rightarrow> Some i)"

text \<open>The files the scan looks at and, of those, the rows of the listed ones, in order.\<close>

definition scanned_files :: "path \<Rightarrow> world \<Rightarrow> filename list" where
  "scanned_files date_subdir w =
     sort (filter (candidate date_subdir w) (children (comps_of date_subdir) (files w)))"

definition listed :: "config \<Rightarrow> database \<Rightarrow> path \<Rightarrow> filename \<Rightarrow> string list option" where
  "listed cfg d date_subdir name =
     (if SNAPSHOT_FILENAME_RE name then map_option (manifest_row name) (event_of cfg d date_subdir name)
      else None)"

definition expected_rows :: "config \<Rightarrow> path \<Rightarrow> world \<Rightarrow> string list list" where
  "expected_rows cfg date_subdir w =
     List.map_filter (listed cfg (db w) date_subdir) (scanned_files date_subdir w)"

definition manifest_text :: "string list list \<Rightarrow> string" where
  "manifest_text rows = concat (map tsv_line (MANIFEST_HEADER # rows))"

text \<open>Reading a manifest back: lines, then fields.\<close>

definition parse_manifest :: "string \<Rightarrow> string list list" where
  "parse_manifest text = map (\<lambda>l. split_on TAB (rstrip_char NL l)) (file_lines (univ_nl text))"

definition clean_field :: "string \<Rightarrow> bool" where
  "clean_field s \<longleftrightarrow> TAB \<notin> set s \<and> NL \<notin> set s \<and> CR \<notin> set s"

lemma clean_tsv [simp]: "clean_field (tsv_sanitise s)"
  by (simp add: clean_field_def)

lemma clean_tag [simp]: "clean_field (tag_name tg)"
  by (cases tg) (simp_all add: clean_field_def)

lemma clean_join: "\<forall>f\<in>set fs. clean_field f \<Longrightarrow> NL \<notin> set (join_with [TAB] fs) \<and> CR \<notin> set (join_with [TAB] fs)"
  using set_join_with [of "[TAB]" fs] by (auto simp: clean_field_def)

lemma parse_manifest_text:
  assumes "\<forall>r\<in>set rows. r \<noteq> [] \<and> (\<forall>f\<in>set r. clean_field f)"
  shows "parse_manifest (concat (map tsv_line rows)) = rows"
proof -
  have c: "NL \<notin> set (join_with [TAB] r)" "CR \<notin> set (join_with [TAB] r)" if "r \<in> set rows" for r
    using assms that clean_join [of r] by blast+
  have "CR \<notin> set (concat (map tsv_line rows))"
    using c(2) by (simp add: tsv_line_def)
  moreover have "file_lines (concat (map tsv_line rows)) = map tsv_line rows"
  proof -
    have "\<forall>l\<in>set (map (join_with [TAB]) rows). NL \<notin> set l"
      using c(1) by simp
    from file_lines_concat_lines [OF this]
    have "file_lines (concat (map (\<lambda>r. join_with [TAB] r @ [NL]) rows)) = map (\<lambda>r. join_with [TAB] r @ [NL]) rows"
      by (simp add: comp_def)
    moreover have "tsv_line = (\<lambda>r. join_with [TAB] r @ [NL])"
      by (simp add: fun_eq_iff tsv_line_def)
    ultimately show ?thesis by simp
  qed
  moreover have "split_on TAB (rstrip_char NL (tsv_line r)) = r" if "r \<in> set rows" for r
  proof -
    from that assms have "r \<noteq> []" and "\<forall>f\<in>set r. TAB \<notin> set f"
      by (auto simp: clean_field_def)
    with c(1) [OF that] show ?thesis
      by (simp add: tsv_line_def rstrip_char_snoc split_join)
  qed
  ultimately show ?thesis
    by (auto simp: parse_manifest_def intro: map_idI_set)
qed

lemma select_event_tag: "select_event cfg tg name dir d = Some i \<Longrightarrow> i_tag i = tag_name tg"
  by (auto simp: select_event_def)

lemma event_of_tag: "event_of cfg d dir name = Some i \<Longrightarrow> i_tag i \<in> {''read'', ''skimmed''}"
  by (auto simp: event_of_def dest!: select_event_tag split: option.splits)

lemma listed_Some:
  "listed cfg d dir name = Some r \<longleftrightarrow>
     SNAPSHOT_FILENAME_RE name \<and> (\<exists>i. event_of cfg d dir name = Some i \<and> r = manifest_row name i)"
  by (auto simp: listed_def)

lemma in_map_filter: "y \<in> set (List.map_filter f xs) \<longleftrightarrow> (\<exists>x\<in>set xs. f x = Some y)"
  by (force simp: List.map_filter_def image_iff)

lemma expected_rows_clean:
  assumes "r \<in> set (expected_rows cfg dir w)"
  shows "length r = 5 \<and> (\<forall>f\<in>set r. clean_field f)"
  using assms event_of_tag
  by (fastforce simp: expected_rows_def in_map_filter listed_Some manifest_row_def clean_field_def)

lemma header_clean: "MANIFEST_HEADER \<noteq> [] \<and> (\<forall>f\<in>set MANIFEST_HEADER. clean_field f)"
  by (simp add: MANIFEST_HEADER_def clean_field_def)

end
