(* ===== verification/SealCorrect.thy ===== *)
theory SealCorrect
  imports SealDirectory
begin

text \<open>
  What sealing a directory guarantees, first whatever fails on the way, then when nothing does.
\<close>

section \<open>Paths of the files of a directory\<close>

definition proper_name :: "filename \<Rightarrow> bool" where
  "proper_name f \<longleftrightarrow> f \<noteq> [] \<and> f \<noteq> ''.'' \<and> CHR ''/'' \<notin> set f"

lemma comps_of_name: "proper_name f \<Longrightarrow> comps_of f = [f]"
  by (simp add: comps_of_def proper_name_def split_on_no_sep)

lemma comps_of_append: "comps_of (a @ CHR ''/'' # b) = comps_of a @ comps_of b"
  by (simp add: comps_of_def split_on_append)

lemma comps_of_join:
  assumes "proper_name f"
  shows "comps_of (path_join d f) = comps_of d @ [f]"
proof -
  have rel: "\<not> startswith f ''/''"
    using assms by (auto simp: proper_name_def startswith_iff)
  consider "d = []" | d0 where "d = d0 @ ''/''" | "d \<noteq> []" "last d \<noteq> CHR ''/''"
    by (metis append_butlast_last_id)
  then show ?thesis
  proof cases
    case 1
    then show ?thesis using rel comps_of_name [OF assms] by (simp add: path_join_def comps_of_def)
  next
    case 2
    then show ?thesis
      using rel comps_of_name [OF assms] comps_of_append [of d0 f] comps_of_append [of d0 "[]"]
      by (simp add: path_join_def comps_of_def)
  next
    case 3
    then show ?thesis
      using rel comps_of_name [OF assms] comps_of_append [of d f] by (simp add: path_join_relative)
  qed
qed

lemma proper_manifest [simp]: "proper_name MANIFEST_FILENAME"
  by (simp add: proper_name_def MANIFEST_FILENAME_def)

lemma proper_log [simp]: "is_date k \<Longrightarrow> proper_name (log_filename_for k)"
  using log_filename_no_slash [OF is_date_no_slash, of k]
  by (simp add: proper_name_def log_filename_for_def)

lemma comps_manifest [simp]: "comps_of (manifest_path dir) = comps_of dir @ [MANIFEST_FILENAME]"
  by (simp add: manifest_path_def comps_of_join)

section \<open>Sealing never raises\<close>

abbreviation seal_exn :: "exn \<Rightarrow> bool" where
  "seal_exn e \<equiv> is_os_error e \<or> is_sqlite_error e"

lemma raises_os: "raises is_os_error m \<Longrightarrow> raises seal_exn m"
  and raises_sqlite: "raises is_sqlite_error m \<Longrightarrow> raises seal_exn m"
  by (auto elim: raises_mono)

lemma raises_total: "raises (\<lambda>_. False) m \<Longrightarrow> \<exists>a. fst (m w) = Inr a"
  by (cases "m w"; cases "fst (m w)") (auto dest: raisesD)

lemma lookup_event_raises: "raises is_sqlite_error (lookup_event cfg name dir)"
  unfolding lookup_event_def by (intro raises_rules)

lemma scan_file_raises: "raises is_sqlite_error (scan_file cfg dir s name)"
  by (cases s) (auto simp: Let_def intro!: raises_rules lookup_event_raises)

lemma build_raises: "raises seal_exn (build_manifest_rows cfg dir)"
  unfolding build_manifest_rows_def
  by (intro raises_bnd raises_os [OF os_raises(1)] raises_gets raises_sqlite [OF raises_fold_io]
      scan_file_raises)
    (auto intro!: raises_rules)

lemma write_manifest_raises: "raises seal_exn (write_manifest_file cfg dir)"
  unfolding write_manifest_file_def Let_def
  by (intro raises_bnd raises_thn raises_unless raises_gets raises_ret build_raises raises_for_each
      os_raises [THEN raises_os] write_handle_raises [THEN raises_os])

lemma move_log_raises: "raises is_os_error (move_log_into_sealed_dir cfg dir k)"
  unfolding move_log_into_sealed_dir_def Let_def by (intro raises_rules)

lemma seal_total: "raises R (seal_directory cfg dir dry key)"
proof -
  have "raises seal_exn (case key of None \<Rightarrow> ret () | Some k \<Rightarrow> move_log_into_sealed_dir cfg dir k)"
    by (intro raises_option raises_ret raises_os [OF move_log_raises])
  moreover have "raises seal_exn (case key of None \<Rightarrow> ret ()
      | Some k \<Rightarrow> thn (sql [Snapshots] (sql_upsert_snapshot k 1)) commit)"
    by (intro raises_option raises_ret raises_thn raises_sqlite [OF sql_raises(1)]
        raises_sqlite [OF sql_raises(5)])
  ultimately show ?thesis
    unfolding seal_directory_def
    by (intro raises_if raises_ret raises_catch [where S = seal_exn] raises_bnd raises_thn
        write_manifest_raises try_clear_raises) (auto intro: raises_rules)
qed

section \<open>The rows are the specified ones\<close>

text \<open>The state the rows depend on: the files and the three tables that are read.\<close>

definition same_rows :: "world \<Rightarrow> world \<Rightarrow> bool" where
  "same_rows w0 w \<longleftrightarrow> read_events (db w) = read_events (db w0)
     \<and> skimmed_events (db w) = skimmed_events (db w0) \<and> visits (db w) = visits (db w0)
     \<and> snapshots (db w) = snapshots (db w0)
     \<and> (snapshots (disk w) = snapshots (disk w0) \<or> snapshots (disk w) = snapshots (db w0))"

definition same_input :: "world \<Rightarrow> world \<Rightarrow> bool" where
  "same_input w0 w \<longleftrightarrow> files w = files w0 \<and> same_rows w0 w"

lemma same_input_refl [simp]: "same_input w w"
  by (simp add: same_input_def same_rows_def)

lemma same_input_errors_only: "errors_only (same_input w0)"
  by (auto simp: same_input_def same_rows_def errors_only_def blind_def)

lemma same_input_faults [simp]:
  "same_input w0 (w\<lparr>fs_faults := fl\<rparr>) = same_input w0 w"
  "same_input w0 (w\<lparr>db_faults := dl\<rparr>) = same_input w0 w"
  by (simp_all add: same_input_def same_rows_def)

lemma same_select: "same_input w0 w \<Longrightarrow> select_event cfg tg name dir (db w) = select_event cfg tg name dir (db w0)"
  by (cases tg) (simp_all add: select_event_def same_input_def same_rows_def)

lemma wp_lookup_event:
  assumes "same_input w0 w" and "\<And>w'. same_input w0 w' \<Longrightarrow> Q (event_of cfg (db w0) dir name) w'"
    and "\<And>e w'. same_input w0 w' \<Longrightarrow> E e w'"
  shows "wp (lookup_event cfg name dir) Q E w"
  unfolding lookup_event_def wp_bnd
  using assms same_select [OF assms(1)]
  by (intro wp_select) (auto simp: wp_simps event_of_def split: option.split intro!: wp_select)

lemma wp_build_rows:
  "wp (build_manifest_rows cfg dir) (\<lambda>rows w'. rows = expected_rows cfg dir w \<and> same_input w w')
      (\<lambda>_. same_input w) w"
proof -
  let ?I = "\<lambda>ys s w'. fst s = List.map_filter (listed cfg (db w) dir) ys \<and> same_input w w'"
  have scan: "wp (scan_file cfg dir s f) (?I (ys @ [f])) (\<lambda>_. same_input w) w'"
    if "?I ys s w'" for ys s f w'
  proof -
    obtain rows invalid orphan where s: "s = (rows, invalid, orphan)" by (cases s)
    have rec: "wp (try_record_error op t x) (\<lambda>_ w'. same_input w w') (\<lambda>_. same_input w) w'"
      if "same_input w w'" for op t x w'
      by (rule wp_keeps [OF keeps_try_record [OF same_input_errors_only] that])
    show ?thesis
      using that
      by (auto simp: s Let_def wp_simps listed_def List.map_filter_def split: option.splits
          intro!: wp_lookup_event [of w] wp_mono [OF rec])
  qed
  have recon: "wp (reconcile_dir_scoped_errors op dir st) (\<lambda>_ w'. same_input w w') (\<lambda>_. same_input w) w'"
    if "same_input w w'" for op st w'
    by (rule wp_keeps [OF keeps_reconcile [OF same_input_errors_only] that])
  have tail: "wp (bnd (fold_io (scan_file cfg dir) ([], [], []) xs) (\<lambda>(rows, invalid, orphan).
         thn (reconcile_dir_scoped_errors ''invalid_filename'' dir invalid)
           (thn (reconcile_dir_scoped_errors ''orphan_file'' dir orphan) (ret rows))))
         (\<lambda>rows w'. rows = List.map_filter (listed cfg (db w) dir) xs \<and> same_input w w')
         (\<lambda>_. same_input w) w'" if "same_input w w'" for xs w'
    unfolding wp_bnd
    by (rule wp_mono [OF wp_fold_io [where I = ?I and E = "\<lambda>_. same_input w"]])
      (auto simp: that scan wp_simps List.map_filter_simps intro!: wp_mono [OF recon])
  have cand: "candidate dir (w\<lparr>fs_faults := fl\<rparr>) = candidate dir w" for fl
    by (simp add: fun_eq_iff candidate_def isfile_def)
  show ?thesis
    unfolding build_manifest_rows_def
    by (subst wp_bnd, rule wp_listdir, subst wp_bnd)
      (simp_all add: wp_gets tail cand expected_rows_def scanned_files_def)
qed

section \<open>The manifest file\<close>

definition store_ok :: "store \<Rightarrow> bool" where
  "store_ok fs \<longleftrightarrow> list_all (\<lambda>x. list_all proper_name (fst x)) fs"

definition agree_off :: "comps \<Rightarrow> world \<Rightarrow> world \<Rightarrow> bool" where
  "agree_off c w0 w \<longleftrightarrow> (\<forall>k. k \<noteq> c \<longrightarrow> node_at (files w) k = node_at (files w0) k)"

lemma node_at_append_node:
  "c \<noteq> [] \<Longrightarrow> node_at (append_node c s fs) k =
     (if k = c then map_option (\<lambda>n. case n of Dir \<Rightarrow> Dir | File t m \<Rightarrow> File (t @ s) m) (node_at fs c)
      else node_at fs k)"
  by (auto simp: append_node_def split: option.splits node.splits)

lemma children_del_node:
  "children c (del_node (c @ [n]) fs) = filter (\<lambda>x. x \<noteq> n) (children c fs)"
proof -
  have "(xs \<noteq> [] \<and> butlast xs = c) \<Longrightarrow> (xs \<noteq> c @ [n]) = (last xs \<noteq> n)" for xs :: comps
    by (metis append_butlast_last_id butlast_snoc last_snoc)
  then show ?thesis
    unfolding children_def del_node_def delete_where_def filter_map_swap
    by (auto intro!: arg_cong [where f = "map _"] filter_cong simp: filter_filter comp_def)
qed

lemma children_proper: "store_ok fs \<Longrightarrow> n \<in> set (children c fs) \<Longrightarrow> proper_name n"
  by (auto simp: store_ok_def children_def list_all_iff)

lemma expected_rows_without_manifest:
  assumes "store_ok (files w)"
  shows "expected_rows cfg dir (w\<lparr>files := del_node (comps_of (manifest_path dir)) (files w)\<rparr>)
    = expected_rows cfg dir w"
proof -
  let ?c = "comps_of dir"
  let ?w = "w\<lparr>files := del_node (comps_of (manifest_path dir)) (files w)\<rparr>"
  have "filter (candidate dir ?w) (filter (\<lambda>x. x \<noteq> MANIFEST_FILENAME) (children ?c (files w)))
      = filter (candidate dir w) (children ?c (files w))"
    unfolding filter_filter
    by (rule filter_cong)
      (auto simp: candidate_def isfile_def comps_of_join children_proper [OF assms])
  then show ?thesis
    by (simp add: expected_rows_def scanned_files_def children_del_node)
qed

lemma expected_rows_same: "same_input w0 w \<Longrightarrow> expected_rows cfg dir w = expected_rows cfg dir w0"
proof -
  assume s: "same_input w0 w"
  then have "candidate dir w = candidate dir w0"
    by (simp add: fun_eq_iff candidate_def isfile_def same_input_def)
  moreover have "listed cfg (db w) dir = listed cfg (db w0) dir"
    by (simp add: fun_eq_iff listed_def event_of_def same_select [OF s] split: option.split)
  ultimately show ?thesis
    using s by (simp add: expected_rows_def scanned_files_def same_input_def)
qed

text \<open>
  Writing the manifest, for every pattern of failures: no other file changes and no other table;
  when it returns, the file holds exactly the specified rows, read-only.
\<close>

definition manifest_written :: "config \<Rightarrow> path \<Rightarrow> world \<Rightarrow> world \<Rightarrow> bool" where
  "manifest_written cfg dir w0 w \<longleftrightarrow>
     node_at (files w) (comps_of (manifest_path dir)) =
       Some (File (manifest_text (expected_rows cfg dir w0)) mode_444)"

lemma agree_off_refl [simp]: "agree_off c w w"
  by (simp add: agree_off_def)

lemma wp_write_lines:
  assumes w: "node_at (files w) (comps_of p) = Some (File txt m)" and c: "comps_of p \<noteq> []"
    and off: "agree_off (comps_of p) w0 w" and rows: "same_rows w0 w"
  shows "wp (for_each rs (\<lambda>r. write_handle p (tsv_line r)))
     (\<lambda>_ w'. node_at (files w') (comps_of p) = Some (File (txt @ concat (map tsv_line rs)) m)
        \<and> agree_off (comps_of p) w0 w' \<and> same_rows w0 w')
     (\<lambda>_ w'. agree_off (comps_of p) w0 w' \<and> same_rows w0 w') w"
proof -
  let ?I = "\<lambda>ys w'. node_at (files w') (comps_of p) = Some (File (txt @ concat (map tsv_line ys)) m)
        \<and> agree_off (comps_of p) w0 w' \<and> same_rows w0 w'"
  show ?thesis
    by (rule wp_for_each_trace [where I = ?I])
      (use w off rows in \<open>auto simp: node_at_append_node [OF c] agree_off_def same_rows_def
        intro!: wp_write_handle\<close>)
qed

lemma wp_write_manifest:
  assumes ok: "store_ok (files w)"
  shows "wp (write_manifest_file cfg dir)
     (\<lambda>n w'. manifest_written cfg dir w w' \<and> n = length (expected_rows cfg dir w)
        \<and> agree_off (comps_of (manifest_path dir)) w w' \<and> same_rows w w')
     (\<lambda>_ w'. agree_off (comps_of (manifest_path dir)) w w' \<and> same_rows w w') w"
proof -
  let ?p = "manifest_path dir" and ?c = "comps_of (manifest_path dir)"
  let ?R = "expected_rows cfg dir w"
  have c: "?c \<noteq> []" by simp
  define G where "G w' \<longleftrightarrow> agree_off ?c w w' \<and> same_rows w w'" for w'
  have chmod: "wp (chmod ?p mode_444) (\<lambda>_ w'. manifest_written cfg dir w w' \<and> G w') (\<lambda>_. G) w'"
    if "node_at (files w') ?c = Some (File (manifest_text ?R) m)" "G w'" for w' m
    using that
    by (intro wp_chmod) (auto simp: G_def manifest_written_def agree_off_def same_rows_def isdir_def)
  have lines: "wp (for_each ?R (\<lambda>row. write_handle ?p (tsv_line row)))
      (\<lambda>_ w'. node_at (files w') ?c = Some (File (manifest_text ?R) m) \<and> G w') (\<lambda>_. G) w'"
    if "node_at (files w') ?c = Some (File (tsv_line MANIFEST_HEADER) m)" "G w'" for w' m
    using wp_write_lines [OF that(1) c, of w ?R] that(2) by (simp add: G_def [abs_def] manifest_text_def)
  have body: "wp (thn (open_write False ?p)
       (thn (write_handle ?p (tsv_line MANIFEST_HEADER))
         (thn (for_each ?R (\<lambda>row. write_handle ?p (tsv_line row)))
           (thn (chmod ?p mode_444) (ret (length ?R))))))
      (\<lambda>n w'. manifest_written cfg dir w w' \<and> n = length ?R \<and> G w') (\<lambda>_. G) w'" if "G w'" for w'
    unfolding wp_thn wp_ret
    by (rule wp_open_write; (rule wp_write_handle)?;
        (rule wp_mono [OF lines]; (rule wp_mono [OF chmod])?)?;
        insert that, auto simp: G_def agree_off_def same_rows_def node_at_append_node)
  have build: "wp (bnd (build_manifest_rows cfg dir) (\<lambda>rows. thn (open_write False ?p)
       (thn (write_handle ?p (tsv_line MANIFEST_HEADER))
         (thn (for_each rows (\<lambda>row. write_handle ?p (tsv_line row)))
           (thn (chmod ?p mode_444) (ret (length rows)))))))
      (\<lambda>n w'. manifest_written cfg dir w w' \<and> n = length ?R \<and> G w') (\<lambda>_. G) w'"
    if "G w'" "expected_rows cfg dir w' = ?R" for w'
    unfolding wp_bnd
    by (rule wp_mono [OF wp_build_rows])
      (use that body in \<open>auto simp: G_def same_input_def same_rows_def agree_off_def\<close>)
  have gone: "expected_rows cfg dir (w\<lparr>fs_faults := fl, files := del_node ?c (files w)\<rparr>) = ?R" for fl
    using expected_rows_without_manifest [OF ok, of cfg dir]
      expected_rows_same [of "w\<lparr>files := del_node ?c (files w)\<rparr>"
        "w\<lparr>fs_faults := fl, files := del_node ?c (files w)\<rparr>"]
    by (simp add: same_input_def same_rows_def)
  have G: "G w" "\<And>fl. G (w\<lparr>fs_faults := fl\<rparr>)"
      "\<And>fl. G (w\<lparr>fs_faults := fl, files := del_node ?c (files w)\<rparr>)"
    by (auto simp: G_def agree_off_def same_rows_def)
  have "wp (write_manifest_file cfg dir)
      (\<lambda>n w'. manifest_written cfg dir w w' \<and> n = length ?R \<and> G w') (\<lambda>_. G) w"
    unfolding write_manifest_file_def Let_def wp_bnd [of "gets _"] wp_gets
    unfolding wp_thn wp_unless
    by (auto intro!: wp_unlink build [unfolded wp_thn] gone G simp del: comps_manifest)
  then show ?thesis by (simp add: G_def [abs_def])
qed

section \<open>Sealing, whatever fails\<close>

definition is_sealed :: "string \<Rightarrow> database \<Rightarrow> bool" where
  "is_sealed k d \<longleftrightarrow> (case lookup_key s_date k (snapshots d) of None \<Rightarrow> False | Some s \<Rightarrow> s_sealed s = 1)"

definition log_origin :: "config \<Rightarrow> string \<Rightarrow> comps" where
  "log_origin cfg k = comps_of (path_join (LOG_DIR cfg) (log_filename_for k))"

definition log_target :: "path \<Rightarrow> string \<Rightarrow> comps" where
  "log_target dir k = comps_of (path_join dir (log_filename_for k))"

text \<open>The situation the sealers call it in: a date directory that is not the log directory itself.\<close>

definition sealable :: "config \<Rightarrow> path \<Rightarrow> string \<Rightarrow> world \<Rightarrow> bool" where
  "sealable cfg dir k w \<longleftrightarrow> store_ok (files w) \<and> is_date k \<and> comps_of (LOG_DIR cfg) \<noteq> comps_of dir
     \<and> node_at (files w) (log_origin cfg k) \<noteq> Some Dir \<and> node_at (files w) (log_target dir k) \<noteq> Some Dir"

lemma wp_move_file:
  assumes src: "node_at (files w) (comps_of src) \<noteq> Some Dir" and dst: "node_at (files w) (comps_of dst) \<noteq> Some Dir"
    and Q: "\<And>fl s m. node_at (files w) (comps_of src) = Some (File s m) \<Longrightarrow>
      Q () (w\<lparr>fs_faults := fl, files := set_node (comps_of dst) (File s m) (del_node (comps_of src) (files w))\<rparr>)"
    and E: "\<And>e fl. is_os_error e \<Longrightarrow> E e (w\<lparr>fs_faults := fl\<rparr>)"
  shows "wp (move src dst) Q E w"
  unfolding move_def
  using src dst by (intro wp_fs_op) (auto simp: Let_def wp_def os_raise_def throw_def ret_def Q E
      split: option.splits node.splits)

definition off_files :: "config \<Rightarrow> path \<Rightarrow> string \<Rightarrow> world \<Rightarrow> world \<Rightarrow> bool" where
  "off_files cfg dir k w0 w \<longleftrightarrow> (\<forall>c. c \<noteq> comps_of (manifest_path dir) \<and> c \<noteq> log_origin cfg k \<and> c \<noteq> log_target dir k
     \<longrightarrow> node_at (files w) c = node_at (files w0) c)"

text \<open>Where the log is after a seal that got as far as moving it.\<close>

definition log_moved :: "config \<Rightarrow> path \<Rightarrow> string \<Rightarrow> world \<Rightarrow> world \<Rightarrow> bool" where
  "log_moved cfg dir k w0 w \<longleftrightarrow> node_at (files w) (log_origin cfg k) = None
     \<and> node_at (files w) (log_target dir k) =
        (case node_at (files w0) (log_origin cfg k) of
           Some (File s m) \<Rightarrow> Some (File s mode_444)
         | _ \<Rightarrow> node_at (files w0) (log_target dir k))"

lemma seal_paths_distinct:
  assumes "sealable cfg dir k w0"
  shows "log_origin cfg k \<noteq> comps_of (manifest_path dir)" "log_target dir k \<noteq> comps_of (manifest_path dir)"
    "log_origin cfg k \<noteq> log_target dir k" "log_origin cfg k \<noteq> []" "log_target dir k \<noteq> []"
  using assms by (auto simp: sealable_def log_origin_def log_target_def comps_of_join manifest_not_log)

lemma wp_move_log:
  assumes ok: "sealable cfg dir k w0" and m: "manifest_written cfg dir w0 w"
    and off: "agree_off (comps_of (manifest_path dir)) w0 w" and rows: "same_rows w0 w"
  shows "wp (move_log_into_sealed_dir cfg dir k)
     (\<lambda>_ w'. manifest_written cfg dir w0 w' \<and> log_moved cfg dir k w0 w' \<and> off_files cfg dir k w0 w'
        \<and> same_rows w0 w')
     (\<lambda>_ w'. manifest_written cfg dir w0 w' \<and> off_files cfg dir k w0 w' \<and> same_rows w0 w') w"
proof -
  let ?src = "log_origin cfg k" and ?dst = "log_target dir k" and ?m = "comps_of (manifest_path dir)"
  note d = seal_paths_distinct [OF ok]
  note ps = log_origin_def [of cfg k, symmetric] log_target_def [of dir k, symmetric]
  define B where "B w' \<longleftrightarrow> manifest_written cfg dir w0 w' \<and> off_files cfg dir k w0 w' \<and> same_rows w0 w'" for w'
  have s: "node_at (files w) ?src = node_at (files w0) ?src" and t: "node_at (files w) ?dst = node_at (files w0) ?dst"
    using off d by (auto simp: agree_off_def)
  have nd: "node_at (files w0) ?src \<noteq> Some Dir" "node_at (files w0) ?dst \<noteq> Some Dir"
    using ok by (auto simp: sealable_def)
  have B: "B w'" if "same_rows w0 w'" "\<And>c. c \<noteq> ?src \<Longrightarrow> c \<noteq> ?dst \<Longrightarrow> node_at (files w') c = node_at (files w) c" for w'
    using that m off d(1,2) unfolding B_def manifest_written_def off_files_def agree_off_def by metis
  have "wp (move_log_into_sealed_dir cfg dir k) (\<lambda>_ w'. B w' \<and> log_moved cfg dir k w0 w') (\<lambda>_. B) w"
  proof (cases "node_at (files w0) ?src")
    case None
    then show ?thesis
      using s t by (simp add: move_log_into_sealed_dir_def Let_def wp_simps exists_def ps log_moved_def B rows)
  next
    case (Some n)
    with nd(1) obtain body md where n: "n = File body md" by (cases n) auto
    have chmod: "wp (chmod (path_join dir (log_filename_for k)) mode_444)
        (\<lambda>_ w'. B w' \<and> log_moved cfg dir k w0 w') (\<lambda>_. B) w1"
      if "same_rows w0 w1" "node_at (files w1) ?src = None" "node_at (files w1) ?dst = Some (File body md)"
        "\<And>c. c \<noteq> ?src \<Longrightarrow> c \<noteq> ?dst \<Longrightarrow> node_at (files w1) c = node_at (files w) c" for w1
      by (rule wp_chmod)
        (use that d Some n in \<open>auto simp: ps isdir_def log_moved_def same_rows_def intro!: B\<close>)
    have "wp (move (path_join (LOG_DIR cfg) (log_filename_for k)) (path_join dir (log_filename_for k)))
       (\<lambda>_. wp (chmod (path_join dir (log_filename_for k)) mode_444)
          (\<lambda>_ w'. B w' \<and> log_moved cfg dir k w0 w') (\<lambda>_. B)) (\<lambda>_. B) w"
      by (rule wp_move_file)
        (use s t nd d rows Some n in \<open>auto simp: ps same_rows_def intro!: chmod B\<close>)
    then show ?thesis
      using Some s by (simp add: move_log_into_sealed_dir_def Let_def wp_simps exists_def ps)
  qed
  then show ?thesis
    by (rule wp_mono) (auto simp: B_def)
qed

text \<open>
  The invariant of the whole run: what is not the manifest or the log stays, and a row that says
  sealed stands beside a complete manifest and a moved log.
\<close>

definition seal_safe :: "config \<Rightarrow> path \<Rightarrow> string \<Rightarrow> world \<Rightarrow> world \<Rightarrow> bool" where
  "seal_safe cfg dir k w0 w \<longleftrightarrow> off_files cfg dir k w0 w
     \<and> (is_sealed k (disk w) \<or> is_sealed k (db w) \<longrightarrow>
          is_sealed k (disk w0) \<or> is_sealed k (db w0)
          \<or> manifest_written cfg dir w0 w \<and> log_moved cfg dir k w0 w)"

lemma seal_safe_errors_only: "errors_only (seal_safe cfg dir k w0)"
  by (auto simp: seal_safe_def errors_only_def blind_def off_files_def is_sealed_def
      manifest_written_def log_moved_def)

lemma seal_safe_same_rows: "off_files cfg dir k w0 w \<Longrightarrow> same_rows w0 w \<Longrightarrow> seal_safe cfg dir k w0 w"
  by (auto simp: seal_safe_def same_rows_def is_sealed_def)

lemma agree_off_files: "agree_off (comps_of (manifest_path dir)) w0 w \<Longrightarrow> off_files cfg dir k w0 w"
  by (auto simp: agree_off_def off_files_def)

lemma seal_keeps_safe:
  assumes ok: "sealable cfg dir k w"
  shows "wp (seal_directory cfg dir False (Some k)) (\<lambda>_. seal_safe cfg dir k w) (\<lambda>_. seal_safe cfg dir k w) w"
proof -
  let ?S = "seal_safe cfg dir k w"
  have clear: "wp (try_clear_error ''seal'' dir) (\<lambda>_. ?S) (\<lambda>_. ?S) w'" if "?S w'" for w'
    by (rule wp_keeps [OF keeps_try_clear [OF seal_safe_errors_only] that])
  have handler: "wp (try_record_error ''seal'' dir e) (\<lambda>_. ?S) (\<lambda>_. ?S) w'" if "?S w'" for e w'
    by (rule wp_keeps [OF keeps_try_record [OF seal_safe_errors_only] that])
  have flip: "wp (thn (sql [Snapshots] (sql_upsert_snapshot k 1)) commit) (\<lambda>_. ?S) (\<lambda>_. ?S) w'"
    if "manifest_written cfg dir w w'" "log_moved cfg dir k w w'" "off_files cfg dir k w w'" for w'
    unfolding wp_thn
    using that by (intro wp_sql wp_commit)
      (auto simp: seal_safe_def off_files_def manifest_written_def log_moved_def)
  have moved: "wp (thn (move_log_into_sealed_dir cfg dir k)
       (thn (thn (sql [Snapshots] (sql_upsert_snapshot k 1)) commit) (try_clear_error ''seal'' dir)))
       (\<lambda>_. ?S) (\<lambda>_. ?S) w'"
    if "manifest_written cfg dir w w'" "agree_off (comps_of (manifest_path dir)) w w'" "same_rows w w'" for w'
    unfolding wp_thn [of "move_log_into_sealed_dir _ _ _"] wp_thn [of "thn _ _"]
    by (rule wp_mono [OF wp_move_log [OF ok that]]) (auto intro!: wp_mono [OF flip] clear seal_safe_same_rows)
  show ?thesis
    unfolding seal_directory_def if_False option.case wp_catch wp_bnd
    by (rule wp_mono [OF wp_write_manifest])
      (use ok in \<open>auto simp: sealable_def wp_throw
        intro!: wp_mono [OF moved] handler seal_safe_same_rows agree_off_files\<close>)
qed

section \<open>Sealing when nothing fails\<close>

definition ready :: "world \<Rightarrow> bool" where
  "ready w \<longleftrightarrow> calm w \<and> have_tables [Visits, ReadEvents, SkimmedEvents, Snapshots, MoverErrors] (db w)"

lemma ready_calm [simp]: "ready w \<Longrightarrow> calm w"
  by (simp add: ready_def)

lemma ready_files [simp]: "ready (w\<lparr>files := fs\<rparr>) = ready w"
  by (simp add: ready_def)

lemma ready_db [simp]: "ready w \<Longrightarrow> tables d = tables (db w) \<Longrightarrow> ready (w\<lparr>db := d\<rparr>)"
  by (simp add: ready_def have_tables_def)

lemma ready_rest [simp]:
  "ready (w\<lparr>disk := d\<rparr>) = ready w" "ready (w\<lparr>in_tx := t\<rparr>) = ready w" "ready (w\<lparr>reads := n\<rparr>) = ready w"
  by (simp_all add: ready_def)

lemma ready_tables [simp]:
  "ready w \<Longrightarrow> t \<in> {Visits, ReadEvents, SkimmedEvents, Snapshots, MoverErrors} \<Longrightarrow> t \<in> set (tables (db w))"
  by (auto simp: ready_def have_tables_def)

definition returns :: "'a io \<Rightarrow> ('a \<Rightarrow> world \<Rightarrow> bool) \<Rightarrow> world \<Rightarrow> bool" where
  "returns m Q w \<longleftrightarrow> wp m Q (\<lambda>_ _. False) w"

lemma returns_conj: "returns m Q w \<Longrightarrow> wp m P E w \<Longrightarrow> returns m (\<lambda>a w'. Q a w' \<and> P a w') w"
  by (cases "m w"; cases "fst (m w)") (auto simp: returns_def wp_def)

lemma returns_mono: "returns m Q w \<Longrightarrow> (\<And>a w'. Q a w' \<Longrightarrow> Q' a w') \<Longrightarrow> returns m Q' w"
  unfolding returns_def by (rule wp_mono)

lemma wp_returns: "returns m Q w \<Longrightarrow> (\<And>a w'. Q a w' \<Longrightarrow> Q' a w') \<Longrightarrow> wp m Q' E w"
  unfolding returns_def by (erule wp_mono) auto

lemma returns_run: "m w = (Inr a, w') \<Longrightarrow> Q a w' \<Longrightarrow> returns m Q w"
  by (simp add: returns_def wp_def)

definition on_disk :: "world \<Rightarrow> bool" where
  "on_disk w \<longleftrightarrow> disk w = db w"

lemma scan_file_returns:
  assumes "ready w"
  shows "returns (scan_file cfg dir s f) (\<lambda>_. ready) w"
proof -
  obtain rows invalid orphan where s: "s = (rows, invalid, orphan)" by (cases s)
  have rec: "wp (thn (try_record_error op t e) (ret r)) (\<lambda>_. ready) (\<lambda>_ _. False) w" for op t e and r :: 'a
    using assms by (simp add: wp_def io_simps Let_def)
  have look: "lookup_event cfg f dir w = (Inr (event_of cfg (db w) dir f), w)"
    using assms
    by (simp add: lookup_event_def event_of_def io_simps have_tables_def split: option.splits)
  show ?thesis
    using assms rec
    by (auto simp: s returns_def Let_def wp_bnd wp_def [of "lookup_event _ _ _"] look wp_ret
        split: option.splits)
qed

lemma build_returns:
  assumes "ready w" and "isdir dir w"
  shows "returns (build_manifest_rows cfg dir)
     (\<lambda>rows w'. ready w' \<and> rows = expected_rows cfg dir w \<and> same_input w w') w"
proof -
  have fold: "wp (fold_io (scan_file cfg dir) s xs) (\<lambda>_. ready) (\<lambda>_ _. False) w'" if "ready w'" for s xs w'
    using that scan_file_returns by (intro wp_fold_io [where I = "\<lambda>_ _. ready"]) (auto simp: returns_def)
  have rec: "wp (thn (reconcile_dir_scoped_errors op dir st) (thn (reconcile_dir_scoped_errors op' dir st') (ret r)))
      (\<lambda>_. ready) (\<lambda>_ _. False) w'" if "ready w'" for op st op' st' r w'
    using that by (auto simp: wp_def io_simps Let_def)
  have "returns (build_manifest_rows cfg dir) (\<lambda>_. ready) w"
    unfolding build_manifest_rows_def returns_def wp_bnd wp_gets
    using assms
    by (auto simp: wp_def [of "listdir dir"] run_listdir intro!: wp_mono [OF fold] rec)
  from returns_conj [OF this wp_build_rows] show ?thesis
    by (rule returns_mono) auto
qed

lemma wp_calm_fs: "calm w \<Longrightarrow> wp (fs_op f) Q E w = wp f Q E w"
  by (simp add: wp_def)

lemma wp_calm_write: "calm w \<Longrightarrow> wp (write_handle p s) Q E w = Q () (w\<lparr>files := append_node (comps_of p) s (files w)\<rparr>)"
  by (simp add: wp_def run_write_handle)

lemma write_manifest_returns:
  assumes r: "ready w" and d: "isdir dir w" and ok: "store_ok (files w)"
    and m: "node_at (files w) (comps_of (manifest_path dir)) \<noteq> Some Dir"
  shows "returns (write_manifest_file cfg dir)
     (\<lambda>n w'. ready w' \<and> manifest_written cfg dir w w' \<and> n = length (expected_rows cfg dir w)
        \<and> agree_off (comps_of (manifest_path dir)) w w' \<and> same_rows w w') w"
proof -
  let ?p = "manifest_path dir" and ?c = "comps_of (manifest_path dir)"
  define K where "K w' \<longleftrightarrow> ready w' \<and> isfile ?p w'" for w'
  have K_append: "K (w'\<lparr>files := append_node ?c s (files w')\<rparr>)" if "K w'" for s w'
    using that by (auto simp: K_def isfile_def node_at_append_node)
  have lines: "wp (for_each rs (\<lambda>row. write_handle ?p (tsv_line row))) (\<lambda>_. K) (\<lambda>_ _. False) w'" if "K w'" for rs w'
    using that K_append by (intro wp_for_each) (auto simp: wp_calm_write K_def simp del: comps_manifest)
  have "wp (thn (open_write False ?p) (thn (write_handle ?p h)
       (thn (for_each rs (\<lambda>row. write_handle ?p (tsv_line row))) (thn (chmod ?p mode_444) (ret n)))))
       (\<lambda>_. ready) (\<lambda>_ _. False) w'"
    if "ready w'" "isdir dir w'" "node_at (files w') ?c = None" for h rs n w'
  proof -
    let ?w = "w'\<lparr>files := set_node ?c (File [] mode_644) (files w')\<rparr>"
    have "open_write False ?p w' = (Inr (), ?w)"
      using that by (simp add: open_write_def parent_error_def isdir_def ret_def)
    moreover have "wp (thn (write_handle ?p h) (thn (for_each rs (\<lambda>row. write_handle ?p (tsv_line row)))
         (thn (chmod ?p mode_444) (ret n)))) (\<lambda>_. ready) (\<lambda>_ _. False) ?w"
    proof -
      have "K ?w" using that by (simp add: K_def isfile_def)
      then have K: "K (?w\<lparr>files := append_node ?c h (files ?w)\<rparr>)" and "calm ?w"
        using K_append [of ?w] by (auto simp: K_def simp del: comps_manifest)
      have chmod: "wp (thn (chmod ?p mode_444) (ret n)) (\<lambda>_. ready) (\<lambda>_ _. False) w2" if "K w2" for w2
        using that by (auto simp: K_def thn_def bnd_def chmod_def isfile_def wp_def ret_def)
      have "wp (thn (for_each rs (\<lambda>row. write_handle ?p (tsv_line row))) (thn (chmod ?p mode_444) (ret n)))
         (\<lambda>_. ready) (\<lambda>_ _. False) (?w\<lparr>files := append_node ?c h (files ?w)\<rparr>)"
        by (subst wp_thn) (rule wp_mono [OF lines [OF K]], simp_all add: chmod)
      then show ?thesis
        by (subst wp_thn) (simp only: wp_calm_write [OF \<open>calm ?w\<close>])
    qed
    ultimately show ?thesis by (simp add: wp_thn wp_def [of "open_write _ _"])
  qed
  note rest = this
  have cont: "wp (bnd (build_manifest_rows cfg dir) (\<lambda>rows. thn (open_write False ?p)
       (thn (write_handle ?p h) (thn (for_each rows (\<lambda>row. write_handle ?p (tsv_line row)))
         (thn (chmod ?p mode_444) (ret (length rows)))))))
      (\<lambda>_. ready) (\<lambda>_ _. False) w'"
    if "ready w'" "isdir dir w'" "node_at (files w') ?c = None" for h w'
    unfolding wp_bnd
    by (rule wp_returns [OF build_returns])
      (use that in \<open>auto intro!: rest simp: same_input_def isdir_def\<close>)
  have "returns (write_manifest_file cfg dir) (\<lambda>_. ready) w"
  proof (cases "exists ?p w")
    case True
    with m have f: "isfile ?p w" by (auto simp: exists_def isfile_def) (metis node.exhaust)
    have "isdir dir (w\<lparr>files := del_node ?c (files w)\<rparr>)" using d by (simp add: isdir_def)
    then show ?thesis
      using True f r cont [of "w\<lparr>files := del_node ?c (files w)\<rparr>"]
      by (simp add: write_manifest_file_def Let_def returns_def wp_bnd [of "gets _"] wp_gets
          wp_thn [of "unless _ _"] wp_unless wp_def [of "unlink _"] run_unlink)
  next
    case False
    then show ?thesis
      using r d cont [of w]
      by (simp add: write_manifest_file_def Let_def returns_def wp_bnd [of "gets _"] wp_gets
          wp_thn [of "unless _ _"] wp_unless exists_def)
  qed
  from returns_conj [OF this wp_write_manifest [OF ok]] show ?thesis
    by (rule returns_mono) auto
qed

lemma move_log_returns:
  assumes ok: "sealable cfg dir k w0" and r: "ready w" and d: "isdir dir w"
    and s: "node_at (files w) (log_origin cfg k) \<noteq> Some Dir" and t: "node_at (files w) (log_target dir k) \<noteq> Some Dir"
  shows "returns (move_log_into_sealed_dir cfg dir k) (\<lambda>_. ready) w"
proof (cases "node_at (files w) (log_origin cfg k)")
  case None
  then show ?thesis
    using r by (simp add: returns_def move_log_into_sealed_dir_def Let_def wp_simps exists_def
        log_origin_def [of cfg k, symmetric])
next
  case (Some n)
  with s obtain c m where n: "n = File c m" by (cases n) auto
  note ps = log_origin_def [of cfg k, symmetric] log_target_def [of dir k, symmetric]
  have k: "is_date k" using ok by (simp add: sealable_def)
  have par: "parent_error (log_target dir k) (files w) = None"
    using d k by (simp add: parent_error_def log_target_def comps_of_join isdir_def)
  let ?w = "w\<lparr>files := set_node (log_target dir k) (File c m) (del_node (log_origin cfg k) (files w))\<rparr>"
  have mv: "move (path_join (LOG_DIR cfg) (log_filename_for k)) (path_join dir (log_filename_for k)) w = (Inr (), ?w)"
    using Some n t par r by (simp add: move_def Let_def ps ret_def)
  have "chmod (path_join dir (log_filename_for k)) mode_444 ?w
      = (Inr (), ?w\<lparr>files := set_node (log_target dir k) (File c mode_444) (files ?w)\<rparr>)"
    using r seal_paths_distinct [OF ok] by (simp add: chmod_def ps ret_def)
  then show ?thesis
    using mv Some r
    by (simp add: returns_def move_log_into_sealed_dir_def Let_def wp_def bnd_def thn_def gets_def exists_def ps)
qed

text \<open>The whole run: manifest, log, \<open>sealed\<close> row, and the \<open>seal\<close> error forgotten; committed.\<close>

lemma seal_returns:
  assumes ok: "sealable cfg dir k w" and r: "ready w" and d: "isdir dir w"
    and m: "node_at (files w) (comps_of (manifest_path dir)) \<noteq> Some Dir"
  shows "returns (seal_directory cfg dir False (Some k))
     (\<lambda>_ w'. ready w' \<and> manifest_written cfg dir w w' \<and> log_moved cfg dir k w w' \<and> off_files cfg dir k w w'
        \<and> disk w' = db w' \<and> is_sealed k (db w')
        \<and> lookup_key m_key (error_key ''seal'' dir) (mover_errors (db w')) = None
        \<and> visits (db w') = visits (db w) \<and> read_events (db w') = read_events (db w)
        \<and> skimmed_events (db w') = skimmed_events (db w)
        \<and> (\<forall>j. j \<noteq> k \<longrightarrow> lookup_key s_date j (snapshots (db w')) = lookup_key s_date j (snapshots (db w)))) w"
    (is "returns _ (\<lambda>_ w'. ?Q w') w")
proof -
  define M where "M w' \<longleftrightarrow> manifest_written cfg dir w w' \<and> log_moved cfg dir k w w' \<and> off_files cfg dir k w w'
     \<and> same_rows w w'" for w'
  have s0: "node_at (files w) (log_origin cfg k) \<noteq> Some Dir" "node_at (files w) (log_target dir k) \<noteq> Some Dir"
    "store_ok (files w)"
    using ok by (auto simp: sealable_def)
  have tail: "wp (thn (thn (sql [Snapshots] (sql_upsert_snapshot k 1)) commit) (try_clear_error ''seal'' dir))
      (\<lambda>_. ?Q) E w'" if "ready w'" "M w'" for E w'
  proof -
    have "is_sealed k d" if "lookup_key s_date k (snapshots d) = Some s" "s_sealed s = 1" for d :: database and s
      using that by (simp add: is_sealed_def)
    then show ?thesis
      using that
      by (auto simp: wp_def io_simps have_tables_def sql_upsert_snapshot_def Let_def M_def
          lookup_upsert lookup_delete_key same_rows_def is_sealed_def
          manifest_written_def log_moved_def off_files_def split: option.splits)
  qed
  have moved: "wp (thn (move_log_into_sealed_dir cfg dir k)
       (thn (thn (sql [Snapshots] (sql_upsert_snapshot k 1)) commit) (try_clear_error ''seal'' dir)))
       (\<lambda>_. ?Q) E w'"
    if "ready w'" "manifest_written cfg dir w w'" "agree_off (comps_of (manifest_path dir)) w w'" "same_rows w w'"
    for E w'
  proof -
    have dir: "isdir dir w'"
    proof -
      have "comps_of dir \<noteq> comps_of (manifest_path dir)" by simp
      then show ?thesis using d that(3) by (simp add: isdir_def agree_off_def)
    qed
    have "node_at (files w') (log_origin cfg k) \<noteq> Some Dir" "node_at (files w') (log_target dir k) \<noteq> Some Dir"
      using s0 that(3) seal_paths_distinct [OF ok] by (auto simp: agree_off_def)
    from returns_conj [OF move_log_returns [OF ok that(1) dir this] wp_move_log [OF ok that(2-4)]]
    show ?thesis
      by (subst wp_thn) (erule wp_returns, rule tail, simp_all add: M_def)
  qed
  show ?thesis
    unfolding returns_def seal_directory_def if_False option.case wp_catch
    by (subst wp_bnd) (rule wp_returns [OF write_manifest_returns [OF r d s0(3) m]], rule moved, simp_all)
qed

section \<open>The reports on stray files\<close>

lemma wp_scan_reports:
  fixes s w0 w cfg dir ys f
  assumes "ready w" and "same_input w0 w" and ok: "log_ok (mover_errors (db w))"
    and inv: "\<And>x. reported (mover_errors (db w)) ''invalid_filename'' x \<longleftrightarrow>
       reported (mover_errors (db w0)) ''invalid_filename'' x \<or> x \<in> set (fst (snd s))"
    and orp: "\<And>x. reported (mover_errors (db w)) ''orphan_file'' x \<longleftrightarrow>
       reported (mover_errors (db w0)) ''orphan_file'' x \<or> x \<in> set (snd (snd s))"
  shows "wp (scan_file cfg dir s f)
     (\<lambda>s' w'. ready w' \<and> same_input w0 w' \<and> log_ok (mover_errors (db w'))
        \<and> (\<forall>x. reported (mover_errors (db w')) ''invalid_filename'' x \<longleftrightarrow>
             reported (mover_errors (db w0)) ''invalid_filename'' x \<or> x \<in> set (fst (snd s')))
        \<and> (\<forall>x. reported (mover_errors (db w')) ''orphan_file'' x \<longleftrightarrow>
             reported (mover_errors (db w0)) ''orphan_file'' x \<or> x \<in> set (snd (snd s')))
        \<and> fst (snd s') = fst (snd s) @ (if SNAPSHOT_FILENAME_RE f then [] else [path_join dir f])
        \<and> snd (snd s') = snd (snd s) @
             (if SNAPSHOT_FILENAME_RE f \<and> event_of cfg (db w0) dir f = None then [path_join dir f] else []))
     (\<lambda>_ _. False) w"
proof -
  obtain rows invalid orphan where s: "s = (rows, invalid, orphan)" by (cases s)
  have ev: "event_of cfg (db w) dir f = event_of cfg (db w0) dir f"
    using same_select [OF assms(2)] by (simp add: event_of_def split: option.split)
  have look: "lookup_event cfg f dir w = (Inr (event_of cfg (db w0) dir f), w)"
    using assms(1) unfolding ev [symmetric]
    by (simp add: lookup_event_def event_of_def io_simps have_tables_def split: option.splits)
  note simps = s Let_def wp_bnd wp_thn wp_ret wp_def [of "lookup_event _ _ _"] look
    wp_def [of "try_record_error _ _ _"] run_try_record_error run_record_error
  show ?thesis
    using assms
    by (auto simp: simps reported_upsert same_input_def same_rows_def intro!: log_ok_upsert split: option.splits)
qed

text \<open>The strays of a directory: the full paths the scan reports, under each of its two operations.\<close>

definition stray_files :: "config \<Rightarrow> path \<Rightarrow> world \<Rightarrow> string \<Rightarrow> path list" where
  "stray_files cfg dir w op = map (path_join dir) (filter (\<lambda>f.
     if op = ''invalid_filename'' then \<not> SNAPSHOT_FILENAME_RE f
     else SNAPSHOT_FILENAME_RE f \<and> event_of cfg (db w) dir f = None) (scanned_files dir w))"

lemma scan_reports:
  assumes r: "ready w" and d: "isdir dir w" and ok: "log_ok (mover_errors (db w))"
    and op: "op \<in> {''invalid_filename'', ''orphan_file''}"
  shows "returns (build_manifest_rows cfg dir) (\<lambda>_ w'.
     reported (mover_errors (db w')) op x \<longleftrightarrow>
       (if startswith x (path_join dir []) then x \<in> set (stray_files cfg dir w op)
        else reported (mover_errors (db w)) op x \<or> x \<in> set (stray_files cfg dir w op))) w"
proof -
  let ?inv = "\<lambda>ys. map (path_join dir) (filter (\<lambda>f. \<not> SNAPSHOT_FILENAME_RE f) ys)"
  let ?orp = "\<lambda>ys. map (path_join dir) (filter (\<lambda>f. SNAPSHOT_FILENAME_RE f \<and> event_of cfg (db w) dir f = None) ys)"
  let ?rep = "\<lambda>w' op x. reported (mover_errors (db w')) op x"
  let ?I = "\<lambda>ys s w'. (ready w' \<and> same_input w w' \<and> log_ok (mover_errors (db w'))
      \<and> (\<forall>x. ?rep w' ''invalid_filename'' x \<longleftrightarrow> ?rep w ''invalid_filename'' x \<or> x \<in> set (fst (snd s)))
      \<and> (\<forall>x. ?rep w' ''orphan_file'' x \<longleftrightarrow> ?rep w ''orphan_file'' x \<or> x \<in> set (snd (snd s))))
      \<and> fst (snd s) = ?inv ys \<and> snd (snd s) = ?orp ys"
  let ?Q = "\<lambda>inv orp w'. ?rep w' op x \<longleftrightarrow>
       (if startswith x (path_join dir []) then x \<in> set (if op = ''invalid_filename'' then inv else orp)
        else ?rep w op x \<or> x \<in> set (if op = ''invalid_filename'' then inv else orp))"
  have scan: "wp (scan_file cfg dir s f) (?I (ys @ [f])) (\<lambda>_ _. False) w'" if "?I ys s w'" for ys s f w'
    by (rule wp_mono [OF wp_scan_reports [of w' w]]) (use that in auto)
  have fold: "wp (fold_io (scan_file cfg dir) ([], [], []) xs) (?I xs) (\<lambda>_ _. False) w'"
    if "w' = w" for xs w'
    by (rule wp_fold_io) (use that r ok scan in auto)
  have recon: "wp (thn (reconcile_dir_scoped_errors ''invalid_filename'' dir inv)
        (thn (reconcile_dir_scoped_errors ''orphan_file'' dir orp) (ret rows)))
      (\<lambda>_. ?Q inv orp) (\<lambda>_ _. False) w'"
    if "ready w'" "log_ok (mover_errors (db w'))"
      "\<And>x. ?rep w' ''invalid_filename'' x \<longleftrightarrow> ?rep w ''invalid_filename'' x \<or> x \<in> set inv"
      "\<And>x. ?rep w' ''orphan_file'' x \<longleftrightarrow> ?rep w ''orphan_file'' x \<or> x \<in> set orp" for inv orp rows w'
  proof -
    let ?t = "mover_errors (db w')"
    let ?t1 = "filter (\<lambda>r. \<not> stale ?t ''invalid_filename'' dir inv r) ?t"
    let ?t2 = "filter (\<lambda>r. \<not> stale ?t1 ''orphan_file'' dir orp r) ?t1"
    have run: "thn (reconcile_dir_scoped_errors ''invalid_filename'' dir inv)
        (thn (reconcile_dir_scoped_errors ''orphan_file'' dir orp) (ret rows)) w' =
      (let d = (db w')\<lparr>mover_errors := ?t2\<rparr> in (Inr rows, w'\<lparr>db := d, disk := d, in_tx := False\<rparr>))"
      using that(1) by (simp add: io_simps Let_def del: filter_filter)
    have t1: "reported ?t1 o' x \<longleftrightarrow> reported ?t o' x
        \<and> \<not> (o' = ''invalid_filename'' \<and> startswith x (path_join dir []) \<and> x \<notin> set inv)"
      if "CHR '':'' \<notin> set o'" for o'
      using that \<open>log_ok ?t\<close> by (intro reported_reconciled) simp_all
    have t2: "reported ?t2 o' x \<longleftrightarrow> reported ?t1 o' x
        \<and> \<not> (o' = ''orphan_file'' \<and> startswith x (path_join dir []) \<and> x \<notin> set orp)"
      if "CHR '':'' \<notin> set o'" for o'
      using that log_ok_filter [OF \<open>log_ok ?t\<close>] by (intro reported_reconciled) simp_all
    from op consider "op = ''invalid_filename''" | "op = ''orphan_file''" by blast
    then have "?Q inv orp (w'\<lparr>db := (db w')\<lparr>mover_errors := ?t2\<rparr>, disk := (db w')\<lparr>mover_errors := ?t2\<rparr>, in_tx := False\<rparr>)"
      by cases (simp_all add: t1 t2 that(3,4) del: filter_filter, blast+)
    then show ?thesis
      by (simp add: wp_def run Let_def del: filter_filter)
  qed
  have tail: "wp (bnd (fold_io (scan_file cfg dir) ([], [], []) xs) (\<lambda>(rows, invalid, orphan).
         thn (reconcile_dir_scoped_errors ''invalid_filename'' dir invalid)
           (thn (reconcile_dir_scoped_errors ''orphan_file'' dir orphan) (ret rows))))
      (\<lambda>_. ?Q (?inv xs) (?orp xs)) (\<lambda>_ _. False) w" for xs
  proof (subst wp_bnd, rule wp_mono [OF fold [OF refl]])
    fix s w' assume I: "?I xs s w'"
    obtain rows inv orp where s: "s = (rows, inv, orp)" by (cases s)
    with I have eq: "inv = ?inv xs" "orp = ?orp xs" by simp_all
    have "wp (thn (reconcile_dir_scoped_errors ''invalid_filename'' dir inv)
        (thn (reconcile_dir_scoped_errors ''orphan_file'' dir orp) (ret rows)))
      (\<lambda>_. ?Q inv orp) (\<lambda>_ _. False) w'"
      by (rule recon) (use I s in auto)
    then show "wp (case s of (rows, invalid, orphan) \<Rightarrow>
         thn (reconcile_dir_scoped_errors ''invalid_filename'' dir invalid)
           (thn (reconcile_dir_scoped_errors ''orphan_file'' dir orphan) (ret rows)))
      (\<lambda>_. ?Q (?inv xs) (?orp xs)) (\<lambda>_ _. False) w'"
      unfolding s prod.case eq .
  qed simp
  have "returns (build_manifest_rows cfg dir) (\<lambda>_. ?Q (?inv (scanned_files dir w)) (?orp (scanned_files dir w))) w"
    unfolding build_manifest_rows_def returns_def
    using r d tail by (simp add: wp_bnd [of "listdir _"] wp_bnd [of "gets _"] wp_gets
        wp_def [of "listdir _"] run_listdir scanned_files_def [symmetric])
  then show ?thesis
    by (rule returns_mono) (use op in \<open>auto simp: stray_files_def\<close>)
qed

end
