(* ===== verification/SealProperties.thy ===== *)
theory SealProperties
  imports SealCorrect
begin

text \<open>
  The properties of sealing (\<open>_seal_directory\<close> and what it calls in
  \<open>browser-visit-snapshot-lib/snapshot_mover.py\<close>), each with the state it is applied to.
\<close>

section \<open>A directory to seal\<close>

definition seal_cfg :: config where
  "seal_cfg = \<lparr>LOG_DIR = ''/log'', ICLOUD_SNAPSHOTS_DIR = ''/snap'', DOWNLOADS_SNAPSHOTS_DIR = ''/dl'',
     DB_FILE = ''/v.db'', MATCH_BY_FILENAME_ONLY = False, host_importable = True\<rparr>"

abbreviation seal_dir :: path where "seal_dir \<equiv> ''/snap/2024-01-02''"
abbreviation seal_day :: string where "seal_day \<equiv> ''2024-01-02''"

definition seal_db :: database where
  "seal_db = (schema_sql ''/dl'' empty_database)\<lparr>
     visits := [new_visit ''http://a/'' ''2024-01-02T03:04:05Z'' ''A title''],
     read_events := [\<lparr>e_url = ''http://a/'', e_timestamp = ''2024-01-02T03:04:05Z'',
        e_filename = ''2024-01-02T03-04-05Z-ab.html'', e_directory = seal_dir\<rparr>]\<rparr>"

definition seal_world :: world where
  "seal_world = sample_world\<lparr>db := seal_db, disk := seal_db, files :=
      [([''log''], Dir), ([''snap''], Dir), ([''snap'', seal_day], Dir),
       ([''snap'', seal_day, ''2024-01-02T03-04-05Z-ab.html''], File ''<html>'' mode_644),
       ([''snap'', seal_day, ''notes.txt''], File ''n'' mode_644),
       ([''log'', ''browser-visits-2024-01-02.log''], File ''log'' mode_644)]\<rparr>"

lemma seal_world_calm: "calm seal_world"
  by (simp add: calm_def seal_world_def sample_world_def)

lemma seal_world_tables: "have_tables [Visits, ReadEvents, SkimmedEvents, Snapshots, MoverErrors] (db seal_world)"
  by (simp add: seal_world_def seal_db_def have_tables_def schema_sql_def create_table_def
      create_events_def empty_database_def)

lemma seal_world_ready: "ready seal_world"
  by (simp add: ready_def seal_world_calm seal_world_tables)

lemma seal_world_paths:
  "comps_of (LOG_DIR seal_cfg) = [''log'']" "comps_of seal_dir = [''snap'', seal_day]"
  "log_origin seal_cfg seal_day = [''log'', ''browser-visits-2024-01-02.log'']"
  "log_target seal_dir seal_day = [''snap'', seal_day, ''browser-visits-2024-01-02.log'']"
  "comps_of (manifest_path seal_dir) = [''snap'', seal_day, ''MANIFEST.tsv'']"
  by code_simp+

lemma seal_world_sealable: "sealable seal_cfg seal_dir seal_day seal_world"
proof -
  have "is_date seal_day" by code_simp
  then show ?thesis
    by (simp add: sealable_def seal_world_paths)
      (simp add: seal_world_def store_ok_def proper_name_def node_at_def)
qed

lemma seal_world_dir: "isdir seal_dir seal_world"
  by (simp add: isdir_def seal_world_paths seal_world_def node_at_def)

lemma seal_world_manifest: "node_at (files seal_world) (comps_of (manifest_path seal_dir)) \<noteq> Some Dir"
  unfolding seal_world_paths by (simp add: seal_world_def node_at_def)

lemma seal_world_unsealed: "\<not> is_sealed seal_day (db seal_world)" "\<not> is_sealed seal_day (disk seal_world)"
  by (simp_all add: is_sealed_def seal_world_def seal_db_def schema_sql_def create_table_def
      create_events_def empty_database_def)

section \<open>Properties\<close>

text \<open>
  C6. A day is never recorded as sealed unless its archive is complete. Whatever file operation or
  statement fails, if the \<open>snapshots\<close> row on disk says sealed after a run that found it unsealed, the
  directory holds the full, read-only manifest and the day's log has left \<open>LOG_DIR\<close> for the directory.
\<close>

theorem sealed_means_complete:
  assumes "sealable cfg dir k w" and "\<not> is_sealed k (db w)" and "\<not> is_sealed k (disk w)"
    and "is_sealed k (disk (snd (seal_directory cfg dir False (Some k) w)))"
  shows "manifest_written cfg dir w (snd (seal_directory cfg dir False (Some k) w))
    \<and> log_moved cfg dir k w (snd (seal_directory cfg dir False (Some k) w))"
  using seal_keeps_safe [OF assms(1)] assms(2-4) by (auto simp: wp_snd seal_safe_def)

theorem sealed_means_complete_witness:
  "manifest_written seal_cfg seal_dir seal_world (snd (seal_directory seal_cfg seal_dir False (Some seal_day) seal_world))"
proof -
  from seal_returns [OF seal_world_sealable seal_world_ready seal_world_dir seal_world_manifest]
  have "is_sealed seal_day (disk (snd (seal_directory seal_cfg seal_dir False (Some seal_day) seal_world)))"
    by (auto simp: returns_def wp_def split: prod.splits sum.splits)
  from sealed_means_complete [OF seal_world_sealable seal_world_unsealed this] show ?thesis ..
qed

text \<open>
  C20. Sealing when nothing fails: the manifest is written and read-only, the log moved, the row sealed,
  the \<open>seal\<close> error of the directory forgotten and everything committed; no other day's row changes.
\<close>

theorem seal_seals:
  assumes "sealable cfg dir k w" and "ready w" and "isdir dir w"
    and "node_at (files w) (comps_of (manifest_path dir)) \<noteq> Some Dir"
  shows "\<exists>w'. seal_directory cfg dir False (Some k) w = (Inr (), w')
     \<and> manifest_written cfg dir w w' \<and> log_moved cfg dir k w w'
     \<and> disk w' = db w' \<and> is_sealed k (disk w')
     \<and> lookup_key m_key (error_key ''seal'' dir) (mover_errors (disk w')) = None
     \<and> (\<forall>j. j = k \<or> lookup_key s_date j (snapshots (disk w')) = lookup_key s_date j (snapshots (db w)))"
  using seal_returns [OF assms]
  by (cases "seal_directory cfg dir False (Some k) w"; cases "fst (seal_directory cfg dir False (Some k) w)")
    (auto simp: returns_def wp_def)

theorem seal_seals_witness:
  "\<exists>w'. seal_directory seal_cfg seal_dir False (Some seal_day) seal_world = (Inr (), w') \<and> is_sealed seal_day (disk w')"
  using seal_seals [OF seal_world_sealable seal_world_ready seal_world_dir seal_world_manifest] by blast

text \<open>
  Sealing changes no file but the manifest and the two places of the day's log, whatever fails.
\<close>

theorem seal_touches_nothing_else:
  assumes "sealable cfg dir k w"
    and "c \<notin> {comps_of (manifest_path dir), log_origin cfg k, log_target dir k}"
  shows "node_at (files (snd (seal_directory cfg dir False (Some k) w))) c = node_at (files w) c"
  using seal_keeps_safe [OF assms(1)] assms(2) by (auto simp: wp_snd seal_safe_def off_files_def)

theorem seal_touches_nothing_else_witness:
  "node_at (files (snd (seal_directory seal_cfg seal_dir False (Some seal_day) seal_world))) [''snap'', seal_day, ''notes.txt'']
    = node_at (files seal_world) [''snap'', seal_day, ''notes.txt'']"
  by (rule seal_touches_nothing_else [OF seal_world_sealable])
    (simp add: seal_world_paths MANIFEST_FILENAME_def)

text \<open>
  C38. Sealing never raises, whatever fails: every \<open>OSError\<close> and \<open>sqlite3.Error\<close> becomes a
  \<open>mover_errors\<close> row or, when even that fails, nothing.
\<close>

theorem seal_never_raises: "fst (seal_directory cfg dir dry_run key w) = Inr ()"
  using raises_total [OF seal_total, of cfg dir dry_run key w] by simp

text \<open>
  C21. The rows of the manifest: for each scanned file whose name conforms and that has an events row,
  in the order of the names, its fields; this is what every run that returns computes, whatever
  failed in the bookkeeping, and the scan changes no file.
\<close>

theorem manifest_rows_correct:
  "case build_manifest_rows cfg dir w of
     (Inr rows, w') \<Rightarrow> files w' = files w \<and> rows =
        List.map_filter (\<lambda>f. if SNAPSHOT_FILENAME_RE f then map_option (manifest_row f) (event_of cfg (db w) dir f) else None)
          (sort (filter (candidate dir w) (children (comps_of dir) (files w))))
   | (Inl e, w') \<Rightarrow> files w' = files w"
proof -
  have "listed cfg (db w) dir = (\<lambda>f. if SNAPSHOT_FILENAME_RE f then map_option (manifest_row f) (event_of cfg (db w) dir f) else None)"
    by (simp add: fun_eq_iff listed_def)
  with wp_build_rows [of cfg dir w] show ?thesis
    by (auto simp: wp_def expected_rows_def scanned_files_def same_input_def split: prod.splits sum.splits)
qed

text \<open>
  The manifest reads back: split into lines and fields, the text written for a directory gives the
  header and the rows, five fields each, whatever characters the titles and URLs contain.
\<close>

theorem manifest_roundtrip:
  "parse_manifest (manifest_text (expected_rows cfg dir w)) = MANIFEST_HEADER # expected_rows cfg dir w"
proof -
  have "\<forall>r\<in>set (MANIFEST_HEADER # expected_rows cfg dir w). r \<noteq> [] \<and> (\<forall>f\<in>set r. clean_field f)"
    using expected_rows_clean [of _ cfg dir w] header_clean by fastforce
  from parse_manifest_text [OF this] show ?thesis by (simp add: manifest_text_def)
qed

text \<open>
  Reports heal themselves: after a scan, the files under the directory that \<open>mover_errors\<close> reports
  as \<open>invalid_filename\<close> are exactly those whose names do not conform now, and as \<open>orphan_file\<close> exactly
  the conforming ones without an events row; what was reported before and is resolved is gone.
\<close>

theorem stray_reports_current:
  assumes "ready w" and "isdir dir w" and "log_ok (mover_errors (db w))"
    and "op \<in> {''invalid_filename'', ''orphan_file''}" and "startswith x (path_join dir [])"
  shows "reported (mover_errors (db (snd (build_manifest_rows cfg dir w)))) op x \<longleftrightarrow> x \<in> set (stray_files cfg dir w op)"
  using scan_reports [OF assms(1-4), of cfg x] assms(5)
  by (auto simp: returns_def wp_def split: prod.splits sum.splits)

theorem stray_reports_current_witness:
  "reported (mover_errors (db (snd (build_manifest_rows seal_cfg seal_dir seal_world)))) ''invalid_filename'' (seal_dir @ ''/notes.txt'')
     \<longleftrightarrow> seal_dir @ ''/notes.txt'' \<in> set (stray_files seal_cfg seal_dir seal_world ''invalid_filename'')"
proof (rule stray_reports_current [OF seal_world_ready seal_world_dir])
  show "log_ok (mover_errors (db seal_world))"
    by (simp add: log_ok_def keyed_def seal_world_def seal_db_def schema_sql_def create_table_def
      create_events_def empty_database_def)
  show "startswith (seal_dir @ ''/notes.txt'') (path_join seal_dir [])"
    by code_simp
qed simp

end
