(* ===== verification/Sealers.thy ===== *)
theory Sealers
  imports SealProperties
begin

text \<open>
  The two command lines that seal: \<open>browser-visit-logger/native-host/snapshot_sealer.py\<close>, one directory on
  demand, and \<open>browser-visit-sync-server/sealer/seal_completed_days.py\<close>, every completed day of the
  archive on the server. Both set the globals of \<open>snapshot_mover\<close> from their options; here the settings
  are a value that is passed on.
\<close>

section \<open>Options\<close>

record sealer_args =
  directory :: string
  dry_run :: bool
  dest :: "path option"
  db_file :: "path option"
  match_by_filename :: bool

definition override :: "sealer_args \<Rightarrow> config \<Rightarrow> config" where
  "override args cfg = cfg\<lparr>
     ICLOUD_SNAPSHOTS_DIR := (case dest args of None \<Rightarrow> ICLOUD_SNAPSHOTS_DIR cfg | Some d \<Rightarrow> d),
     DB_FILE := (case db_file args of None \<Rightarrow> DB_FILE cfg | Some f \<Rightarrow> f),
     MATCH_BY_FILENAME_ONLY := (match_by_filename args \<or> MATCH_BY_FILENAME_ONLY cfg)\<rparr>"

section \<open>snapshot_sealer.py\<close>

definition resolve_target :: "config \<Rightarrow> string \<Rightarrow> path" where
  "resolve_target cfg directory_arg =
     (if isabs directory_arg \<or> CHR ''/'' \<in> set directory_arg then directory_arg
      else path_join (ICLOUD_SNAPSHOTS_DIR cfg) directory_arg)"

definition extract_date_key :: "path \<Rightarrow> string option" where
  "extract_date_key target =
     (let base = basename (normpath target)
      in if \<not> DATE_DIR_RE base then None
         else (case date_fromisoformat base of None \<Rightarrow> None | Some _ \<Rightarrow> Some base))"

definition refuse :: "string \<Rightarrow> int io" where
  "refuse message = thn (print_err message) (ret 1)"

definition seal_one :: "config \<Rightarrow> sealer_args \<Rightarrow> path \<Rightarrow> int io" where
  "seal_one cfg args target =
     thn connect
       (lastly
         (thn (ensure_snapshots_table cfg)
           (thn (ensure_mover_errors_table cfg)
             (thn (seal_directory cfg target (dry_run args) (extract_date_key target))
               (thn (unless (dry_run args) (orphan_log_merge_pass cfg)) (ret 0)))))
         close)"

definition sealer_cli :: "config \<Rightarrow> sealer_args \<Rightarrow> int io" where
  "sealer_cli cfg0 args =
     (let cfg = override args cfg0; target = resolve_target cfg (directory args) in
      bnd (gets (isdir target)) (\<lambda>dir.
      if \<not> dir then refuse (''No such directory: '' @ target)
      else bnd (gets (exists (manifest_path target))) (\<lambda>sealed.
      if sealed then refuse (''Already sealed (manifest exists): '' @ manifest_path target)
      else bnd (gets (exists (DB_FILE cfg))) (\<lambda>there.
      if \<not> there then refuse (''No DB at '' @ DB_FILE cfg)
      else seal_one cfg args target))))"

section \<open>seal_completed_days.py\<close>

definition snapshot_file_count :: "path \<Rightarrow> nat io" where
  "snapshot_file_count subdir = bnd (listdir subdir) (\<lambda>names. ret (length (filter SNAPSHOT_FILENAME_RE names)))"

definition day_candidate :: "path \<Rightarrow> string \<Rightarrow> (string \<times> path) list \<Rightarrow> filename \<Rightarrow> (string \<times> path) list io" where
  "day_candidate root today_iso candidates name =
     (if \<not> DATE_DIR_RE name then ret candidates
      else if today_iso \<le> name then ret candidates
      else
        (let subdir = path_join root name in
         bnd (gets (isdir subdir)) (\<lambda>dir.
         if \<not> dir then ret candidates
         else bnd (gets (exists (manifest_path subdir))) (\<lambda>sealed.
              if sealed then ret candidates else ret (candidates @ [(name, subdir)])))))"

definition directories :: "nat \<Rightarrow> string" where
  "directories n = nat_str n @ '' director'' @ (if n = 1 then ''y'' else ''ies'')"

definition would_seal :: "string \<times> path \<Rightarrow> unit io" where
  "would_seal c =
     bnd (snapshot_file_count (snd c)) (\<lambda>n.
     print_out (''would seal '' @ fst c @ ''  ('' @ nat_str n @ '' files)''))"

definition seal_days :: "config \<Rightarrow> (string \<times> path) list \<Rightarrow> unit io" where
  "seal_days cfg candidates =
     thn connect
       (lastly
         (thn (ensure_snapshots_table cfg)
           (thn (ensure_mover_errors_table cfg)
             (for_each candidates (\<lambda>(name, subdir). seal_directory cfg subdir False (Some name)))))
         close)"

definition seal_days_cli :: "config \<Rightarrow> sealer_args \<Rightarrow> int io" where
  "seal_days_cli cfg0 args =
     (let cfg = override args cfg0; root = ICLOUD_SNAPSHOTS_DIR cfg in
      bnd (gets (isdir root)) (\<lambda>dir.
      if \<not> dir then refuse (''No archive directory at '' @ root)
      else bnd (gets (exists (DB_FILE cfg))) (\<lambda>there.
      if \<not> there then refuse (''No DB at '' @ DB_FILE cfg)
      else bnd (gets today) (\<lambda>today_iso.
      bnd (listdir root) (\<lambda>names.
      bnd (fold_io (day_candidate root today_iso) [] (sort names)) (\<lambda>candidates.
      if dry_run args
      then thn (for_each candidates would_seal)
             (thn (print_out (directories (length candidates) @ '' would be sealed'')) (ret 0))
      else thn (seal_days cfg candidates)
             (thn (print_out (''sealed '' @ directories (length candidates))) (ret 0))))))))"

section \<open>Which days\<close>

definition completed_days :: "path \<Rightarrow> world \<Rightarrow> string list" where
  "completed_days root w =
     sort (filter (\<lambda>n. DATE_DIR_RE n \<and> n < today w \<and> isdir (path_join root n) w
        \<and> \<not> exists (manifest_path (path_join root n)) w) (children (comps_of root) (files w)))"

definition with_dirs :: "path \<Rightarrow> string list \<Rightarrow> (string \<times> path) list" where
  "with_dirs root names = map (\<lambda>n. (n, path_join root n)) names"

lemma sort_filter: "sort (filter P xs) = filter P (sort (xs :: 'a :: linorder list))"
  by (rule properties_for_sort) (simp_all add: sorted_wrt_filter)

lemma run_candidates:
  "fold_io (day_candidate root (today w)) acc names w =
     (Inr (acc @ with_dirs root (filter (\<lambda>n. DATE_DIR_RE n \<and> n < today w \<and> isdir (path_join root n) w
        \<and> \<not> exists (manifest_path (path_join root n)) w) names)), w)"
proof (induction names arbitrary: acc)
  case Nil
  then show ?case by (simp add: ret_def with_dirs_def)
next
  case (Cons n names)
  have "day_candidate root (today w) acc n w =
      (Inr (if DATE_DIR_RE n \<and> n < today w \<and> isdir (path_join root n) w \<and> \<not> exists (manifest_path (path_join root n)) w
            then acc @ [(n, path_join root n)] else acc), w)"
    by (auto simp: day_candidate_def Let_def io_simps)
  then show ?case by (simp add: io_simps Cons.IH with_dirs_def)
qed

end
