(* ===== verification/SealerProperties.thy ===== *)
theory SealerProperties
  imports Sealers
begin

text \<open>
  The properties of the sealing command lines: what a dry run prints, which days the pass over the
  archive seals and which it leaves alone, and when a directory is refused.
\<close>

section \<open>The dry run\<close>

lemma listdir_run:
  assumes "listdir p w = (Inr names, v)"
  shows "\<exists>fl. v = w\<lparr>fs_faults := fl\<rparr> \<and> names = children (comps_of p) (files w)"
proof -
  have "wp (listdir p) (\<lambda>names v. \<exists>fl. v = w\<lparr>fs_faults := fl\<rparr> \<and> names = children (comps_of p) (files w)) (\<lambda>_ _. True) w"
    by (rule wp_listdir) auto
  then show ?thesis by (simp add: wp_def assms)
qed

lemma completed_days_split:
  "filter (\<lambda>n. DATE_DIR_RE n \<and> n < today w \<and> isdir (path_join root n) w \<and> \<not> exists (manifest_path (path_join root n)) w)
     (sort (children (comps_of root) (files w))) = completed_days root w"
  by (simp add: completed_days_def sort_filter)

lemma completed_isdir: "n \<in> set (completed_days root w) \<Longrightarrow> isdir (path_join root n) w"
  by (simp add: completed_days_def)

definition dry_run_line :: "path \<Rightarrow> world \<Rightarrow> string \<Rightarrow> string" where
  "dry_run_line root w n = ''would seal '' @ n @ ''  ('' @
     nat_str (length (filter SNAPSHOT_FILENAME_RE (children (comps_of (path_join root n)) (files w)))) @ '' files)''"

lemma run_would_seal:
  assumes "calm w" and "list_all (\<lambda>n. isdir (path_join root n) w) ns"
  shows "for_each (with_dirs root ns) would_seal w = (Inr (), w\<lparr>out := out w @ map (dry_run_line root w) ns\<rparr>)"
  using assms
proof (induction ns arbitrary: w)
  case Nil
  then show ?case by (simp add: with_dirs_def ret_def)
next
  case (Cons n ns)
  let ?w = "w\<lparr>out := out w @ [dry_run_line root w n]\<rparr>"
  have step: "would_seal (n, path_join root n) w = (Inr (), ?w)"
    using Cons.prems by (simp add: would_seal_def snapshot_file_count_def io_simps dry_run_line_def)
  have "calm ?w" "list_all (\<lambda>n. isdir (path_join root n) ?w) ns"
    using Cons.prems by (simp_all add: isdir_def)
  from Cons.IH [OF this] show ?case
    using step by (simp add: with_dirs_def io_simps dry_run_line_def)
qed

text \<open>
  A dry run of the pass over the archive prints one line for every completed day without a manifest,
  oldest first, with the number of its snapshot files, then their count, returns 0 and changes
  nothing.
\<close>

theorem days_dry_run:
  assumes "calm w" and "dry_run args" and "root = ICLOUD_SNAPSHOTS_DIR (override args cfg)"
    and "isdir root w" and "exists (DB_FILE (override args cfg)) w"
  shows "seal_days_cli cfg args w = (Inr 0, w\<lparr>out := out w @ map (dry_run_line root w) (completed_days root w)
     @ [directories (length (completed_days root w)) @ '' would be sealed'']\<rparr>)"
proof -
  have "list_all (\<lambda>n. isdir (path_join root n) w) (completed_days root w)"
    by (simp add: list_all_iff completed_isdir)
  from run_would_seal [OF assms(1) this] show ?thesis
    using assms
    by (simp add: seal_days_cli_def Let_def io_simps run_candidates completed_days_split)
      (simp add: with_dirs_def)
qed

definition days_args :: sealer_args where
  "days_args = \<lparr>directory = [], dry_run = False, dest = None, db_file = None, match_by_filename = False\<rparr>"

definition days_world :: world where
  "days_world = seal_world\<lparr>files := files seal_world @ [([''v.db''], File [] mode_644)]\<rparr>"

theorem days_dry_run_witness:
  "seal_days_cli seal_cfg (days_args\<lparr>dry_run := True\<rparr>) days_world =
     (Inr 0, days_world\<lparr>out := [''would seal 2024-01-02  (1 files)'', ''1 directory would be sealed'']\<rparr>)"
proof -
  let ?args = "days_args\<lparr>dry_run := True\<rparr>" and ?root = "''/snap''"
  have c: "completed_days ?root days_world = [seal_day]"
    and l: "dry_run_line ?root days_world seal_day = ''would seal 2024-01-02  (1 files)''"
    and d: "directories 1 = ''1 directory''"
    and i: "isdir ?root days_world" "exists ''/v.db'' days_world"
    by code_simp+
  have calm: "calm days_world" "out days_world = []"
    by (simp_all add: days_world_def calm_def seal_world_def sample_world_def)
  have "seal_days_cli seal_cfg ?args days_world = (Inr 0, days_world\<lparr>out := out days_world
     @ map (dry_run_line ?root days_world) (completed_days ?root days_world)
     @ [directories (length (completed_days ?root days_world)) @ '' would be sealed'']\<rparr>)"
    by (rule days_dry_run) (use i calm in \<open>simp_all add: override_def days_args_def seal_cfg_def\<close>)
  then show ?thesis using d by (simp add: c l calm)
qed

section \<open>Which days a pass leaves alone\<close>

definition row_is :: "string \<Rightarrow> snapshot option \<Rightarrow> world \<Rightarrow> bool" where
  "row_is j r w \<longleftrightarrow> lookup_key s_date j (snapshots (db w)) = r \<and> lookup_key s_date j (snapshots (disk w)) = r"

lemma row_is_blind: "blind (row_is j r)"
  by (simp add: blind_def row_is_def)

lemma row_is_files: "row_is j r (w\<lparr>files := fs\<rparr>) = row_is j r w"
  by (simp add: row_is_def)

lemma row_is_errors_only: "errors_only (row_is j r)"
  by (simp add: errors_only_def row_is_blind row_is_def)

lemma row_is_write:
  "keeps (row_is j r) (unlink p)" "keeps (row_is j r) (chmod p m)" "keeps (row_is j r) (open_write k p)"
  "keeps (row_is j r) (write_handle p s)"
  by (rule keeps_write [OF row_is_blind]; simp add: off_node_def row_is_files)+

lemma row_is_move: "keeps (row_is j r) (move p q)"
  unfolding move_def Let_def
  by (rule keeps_fs_op [OF row_is_blind])
    (simp add: keeps_def os_raise_def throw_def ret_def row_is_files split: option.split node.split)

lemma row_is_upsert: "j \<noteq> k \<Longrightarrow> keeps (row_is j r) (sql [Snapshots] (sql_upsert_snapshot k 1))"
  by (rule keeps_sql [OF row_is_blind]) (simp add: row_is_def sql_upsert_snapshot_def lookup_upsert)

lemma row_is_scan: "keeps (row_is j r) (scan_file cfg dir st f)"
  by (cases st)
    (auto simp: lookup_event_def Let_def intro!: keeps_rules keeps_try_record [OF row_is_errors_only]
      keeps_select [OF row_is_blind])

lemma row_is_seal:
  assumes "j \<noteq> k"
  shows "keeps (row_is j r) (seal_directory cfg dir dry (Some k))"
proof -
  have m: "keeps (row_is j r) (write_manifest_file cfg dir)"
    unfolding write_manifest_file_def build_manifest_rows_def Let_def
    by (auto intro!: keeps_rules row_is_write row_is_scan keeps_read_only [OF row_is_blind]
        keeps_reconcile [OF row_is_errors_only])
  have l: "keeps (row_is j r) (move_log_into_sealed_dir cfg dir k)"
    unfolding move_log_into_sealed_dir_def Let_def by (intro keeps_rules row_is_write row_is_move)
  show ?thesis
    unfolding seal_directory_def option.case
    by (intro keeps_rules m l row_is_upsert [OF assms] errors_only_commit keeps_try_clear keeps_try_record row_is_errors_only)
qed

lemma schema_snapshots [simp]: "snapshots (schema_sql dl d) = snapshots d"
  by (simp add: schema_sql_def create_table_def create_events_def split: event_tag.split)

lemma row_is_ensure: "keeps (row_is j r) (ensure_snapshots_table cfg)" "keeps (row_is j r) (ensure_mover_errors_table cfg)"
  unfolding ensure_snapshots_table_def ensure_mover_errors_table_def
  by (intro keeps_rules keeps_executescript [OF row_is_blind] errors_only_commit [OF row_is_errors_only];
      simp add: row_is_def)+

lemma seal_days_spares:
  fixes r :: "snapshot option" and j :: string
  defines "Y \<equiv> \<lambda>w :: world. lookup_key s_date j (snapshots (disk w)) = r"
  assumes "j \<notin> set ns"
  shows "keeps Y (seal_days cfg (with_dirs root ns))"
proof -
  have body: "keeps (row_is j r) (lastly (thn (ensure_snapshots_table cfg) (thn (ensure_mover_errors_table cfg)
      (for_each (with_dirs root ns) (\<lambda>(name, subdir). seal_directory cfg subdir False (Some name))))) close)"
    using assms(2) by (intro keeps_lastly keeps_rules row_is_ensure)
      (auto simp: with_dirs_def row_is_def close_def intro!: row_is_seal)
  have "wp (seal_days cfg (with_dirs root ns)) (\<lambda>_. Y) (\<lambda>_. Y) v" if v: "Y v" for v :: world
    unfolding seal_days_def connect_def wp_thn [of "db_op _"]
    by (rule wp_db_op; (simp add: wp_def [of "\<lambda>w. (Inr (), _ w)"])?; (rule wp_keeps [OF body])?)
      (use v in \<open>auto simp: row_is_def Y_def\<close>)
  then show ?thesis by (simp add: keeps_wp)
qed

text \<open>What the pass does with the days it has chosen; the choice is the one of the completed days.\<close>

definition seal_chosen :: "sealer_args \<Rightarrow> config \<Rightarrow> (string \<times> path) list \<Rightarrow> int io" where
  "seal_chosen args cfg candidates =
     (if dry_run args
      then thn (for_each candidates would_seal)
             (thn (print_out (directories (length candidates) @ '' would be sealed'')) (ret (0::int)))
      else thn (seal_days cfg candidates)
             (thn (print_out (''sealed '' @ directories (length candidates))) (ret 0)))"

lemma seal_days_cli_chosen:
  fixes args cfg
  defines "root \<equiv> ICLOUD_SNAPSHOTS_DIR (override args cfg)"
  obtains (stopped) r v where "seal_days_cli cfg args w = (r, v)" "disk v = disk w"
    | (chosen) fl where "seal_days_cli cfg args w =
        seal_chosen args (override args cfg) (with_dirs root (completed_days root w)) (w\<lparr>fs_faults := fl\<rparr>)"
proof (cases "isdir root w \<and> exists (DB_FILE (override args cfg)) w")
  case False
  then have "disk (snd (seal_days_cli cfg args w)) = disk w"
    by (auto simp: seal_days_cli_def Let_def refuse_def io_simps root_def)
  then show ?thesis by (rule stopped [OF prod.collapse [symmetric]])
next
  case True
  have cli: "seal_days_cli cfg args w = bnd (listdir root) (\<lambda>names.
      bnd (fold_io (day_candidate root (today w)) [] (sort names)) (seal_chosen args (override args cfg))) w"
    using True by (simp add: seal_days_cli_def seal_chosen_def [abs_def] Let_def run_bnd [of "gets _"] run_gets root_def)
  obtain r v where list: "listdir root w = (r, v)" by fastforce
  show ?thesis
  proof (cases r)
    case (Inl e)
    have "blind (\<lambda>v. disk v = disk w)" by (simp add: blind_def)
    from keepsD [OF keeps_read_only(1) [OF this], of w root] list have "disk v = disk w" by simp
    with Inl list show ?thesis by (intro stopped [of "Inl e" v]) (simp_all add: cli bnd_def)
  next
    case (Inr names)
    with list obtain fl where v: "v = w\<lparr>fs_faults := fl\<rparr>" and n: "names = children (comps_of root) (files w)"
      using listdir_run by blast
    have d: "filter (\<lambda>n. DATE_DIR_RE n \<and> n < today v \<and> isdir (path_join root n) v \<and> \<not> exists (manifest_path (path_join root n)) v)
        (sort names) = completed_days root w"
      unfolding v n by (simp add: completed_days_split [symmetric] isdir_def exists_def)
    show ?thesis
      using list Inr run_candidates [of root v "[]" "sort names"]
      by (intro chosen [of fl]) (simp add: cli bnd_def d, simp add: v)
  qed
qed



section \<open>A pass without failures seals every completed day\<close>

lemma comps_of_proper: "list_all proper_name (comps_of p)"
  using split_on_parts_free [of _ "CHR ''/''" p]
  by (auto simp: comps_of_def list_all_iff proper_name_def)

lemma store_ok_iff: "store_ok fs \<longleftrightarrow> (\<forall>c. node_at fs c \<noteq> None \<longrightarrow> list_all proper_name c)"
proof
  assume "store_ok fs"
  then show "\<forall>c. node_at fs c \<noteq> None \<longrightarrow> list_all proper_name c"
    by (auto simp: store_ok_def node_at_def list_all_iff dest!: lookup_key_SomeD)
next
  assume r: "\<forall>c. node_at fs c \<noteq> None \<longrightarrow> list_all proper_name c"
  have "list_all proper_name (fst x)" if "x \<in> set fs" for x
  proof (cases "fst x = []")
    case False
    have "has_key fst (fst x) fs" using that by (simp add: has_key_iff)
    then have "node_at fs (fst x) \<noteq> None" using False by (simp add: node_at_def has_key_lookup)
    with r show ?thesis by blast
  qed simp
  then show "store_ok fs" by (simp add: store_ok_def list_all_iff)
qed

text \<open>The directories of a store are those of another, and all names in it are proper.\<close>

definition same_dirs :: "world \<Rightarrow> world \<Rightarrow> bool" where
  "same_dirs w w' \<longleftrightarrow> store_ok (files w') \<and> (\<forall>c. node_at (files w') c = Some Dir \<longleftrightarrow> node_at (files w) c = Some Dir)"

lemma seal_same_dirs:
  assumes ok: "sealable cfg dir k w" and m: "node_at (files w) (comps_of (manifest_path dir)) \<noteq> Some Dir"
    and "manifest_written cfg dir w w'" and "log_moved cfg dir k w w'" and off: "off_files cfg dir k w w'"
  shows "same_dirs w w'"
proof -
  let ?three = "{comps_of (manifest_path dir), log_origin cfg k, log_target dir k}"
  have three: "list_all proper_name c" if "c \<in> ?three" for c
    using that comps_of_proper unfolding log_origin_def log_target_def by blast
  have off': "node_at (files w') c = node_at (files w) c" if "c \<notin> ?three" for c
    using off that by (simp add: off_files_def)
  have dir: "node_at (files w') c \<noteq> Some Dir \<and> node_at (files w) c \<noteq> Some Dir" if "c \<in> ?three" for c
    using that assms(3,4) m ok
    by (auto simp: manifest_written_def log_moved_def sealable_def simp del: comps_manifest split: option.splits node.splits)
  have "list_all proper_name c" if "node_at (files w') c \<noteq> None" for c
    using three off' that ok unfolding sealable_def store_ok_iff by metis
  then have "store_ok (files w')" unfolding store_ok_iff by blast
  moreover have "node_at (files w') c = Some Dir \<longleftrightarrow> node_at (files w) c = Some Dir" for c
    using dir off' by metis
  ultimately show ?thesis by (simp add: same_dirs_def)
qed

lemma same_dirs_sealable: "same_dirs w w' \<Longrightarrow> sealable cfg dir k w \<Longrightarrow> sealable cfg dir k w'"
  by (simp add: same_dirs_def sealable_def)

definition archived :: "path \<Rightarrow> string \<Rightarrow> world \<Rightarrow> bool" where
  "archived root n w \<longleftrightarrow> is_sealed n (disk w) \<and> is_sealed n (db w)
     \<and> (\<exists>t. node_at (files w) (comps_of (manifest_path (path_join root n))) = Some (File t mode_444))"

lemma seal_keeps_archived:
  assumes "archived root n w" and "n \<noteq> k" and "is_date n" and "is_date k"
    and off: "off_files cfg (path_join root k) k w w'"
    and rows: "\<And>j. j \<noteq> k \<Longrightarrow> lookup_key s_date j (snapshots (db w')) = lookup_key s_date j (snapshots (db w))"
    and "disk w' = db w'"
  shows "archived root n w'"
proof -
  have p: "proper_name n" "proper_name k"
    using assms(3,4) is_date_no_slash is_date_length [of n] is_date_length [of k] by (auto simp: proper_name_def)
  let ?c = "comps_of (manifest_path (path_join root n))"
  have ne: "log_filename_for k \<noteq> MANIFEST_FILENAME" by (rule manifest_not_log)
  have "?c \<noteq> comps_of (manifest_path (path_join root k))" using p assms(2) by (simp add: comps_of_join)
  moreover have "?c \<noteq> log_origin cfg k" "?c \<noteq> log_target (path_join root k) k"
    using ne assms(4) by (auto simp: log_origin_def log_target_def comps_of_join)
  ultimately have "node_at (files w') ?c = node_at (files w) ?c" using off by (simp add: off_files_def)
  then show ?thesis
    using assms(1,2,7) rows [of n] by (simp add: archived_def is_sealed_def)
qed

lemma seal_all:
  assumes "ready w" and "distinct ns" and "list_all (\<lambda>n. sealable cfg (path_join root n) n w) ns"
    and "list_all (\<lambda>n. isdir (path_join root n) w) ns"
    and "list_all (\<lambda>n. node_at (files w) (comps_of (manifest_path (path_join root n))) \<noteq> Some Dir) ns"
    and "list_all (\<lambda>n. archived root n w \<and> is_date n) done" and "set done \<inter> set ns = {}"
  shows "returns (for_each (with_dirs root ns) (\<lambda>(name, subdir). seal_directory cfg subdir False (Some name)))
     (\<lambda>_ w'. calm w' \<and> list_all (\<lambda>n. archived root n w') (done @ ns)) w"
  using assms
proof (induction ns arbitrary: w "done")
  case Nil
  then show ?case by (auto simp: with_dirs_def returns_def wp_ret list_all_iff)
next
  case (Cons k ns)
  let ?dir = "path_join root k"
  have ok: "sealable cfg ?dir k w" and d: "isdir ?dir w"
    and m: "node_at (files w) (comps_of (manifest_path ?dir)) \<noteq> Some Dir"
    using Cons.prems by simp_all
  have rest: "wp (for_each (with_dirs root ns) (\<lambda>(name, subdir). seal_directory cfg subdir False (Some name)))
      (\<lambda>_ w'. calm w' \<and> list_all (\<lambda>n. archived root n w') (done @ k # ns)) (\<lambda>_ _. False) w'"
    if r: "ready w'" and w: "manifest_written cfg ?dir w w'" "log_moved cfg ?dir k w w'" "off_files cfg ?dir k w w'"
      and dk: "disk w' = db w'" and s: "is_sealed k (db w')"
      and rows: "\<forall>j. j \<noteq> k \<longrightarrow> lookup_key s_date j (snapshots (db w')) = lookup_key s_date j (snapshots (db w))" for w'
  proof -
    have sd: "same_dirs w w'" by (rule seal_same_dirs [OF ok m w])
    have k: "is_date k" using ok by (simp add: sealable_def)
    have "archived root k w'" using s dk w(1) by (auto simp: archived_def manifest_written_def)
    moreover have "archived root n w'" if "n \<in> set done" for n
      using that Cons.prems(6,7) rows by (intro seal_keeps_archived [OF _ _ _ k w(3) _ dk]) (auto simp: list_all_iff)
    ultimately have "list_all (\<lambda>n. archived root n w' \<and> is_date n) (done @ [k])"
      using Cons.prems(6) k by (auto simp: list_all_iff)
    moreover have "list_all (\<lambda>n. sealable cfg (path_join root n) n w') ns"
      using Cons.prems(3) same_dirs_sealable [OF sd] by (auto simp: list_all_iff)
    moreover have "list_all (\<lambda>n. isdir (path_join root n) w') ns"
      "list_all (\<lambda>n. node_at (files w') (comps_of (manifest_path (path_join root n))) \<noteq> Some Dir) ns"
      using Cons.prems(4,5) sd by (auto simp: list_all_iff same_dirs_def isdir_def)
    ultimately show ?thesis
      using Cons.IH [of w' "done @ [k]"] r Cons.prems(2,7) by (simp add: returns_def)
  qed
  show ?case
    unfolding with_dirs_def list.map for_each.simps prod.case returns_def wp_bnd
    by (rule wp_returns [OF seal_returns [OF ok Cons.prems(1) d m]])
      (use rest in \<open>auto simp: with_dirs_def\<close>)
qed

lemma in_create [simp]:
  "t \<in> set (tables (create_table u d)) \<longleftrightarrow> t = u \<or> t \<in> set (tables d)"
  "t \<in> set (tables (create_events tg dl d)) \<longleftrightarrow> t = event_table tg \<or> t \<in> set (tables d)"
  by (auto simp: create_table_def create_events_def split: event_tag.split)

lemma schema_tables: "t \<in> set (tables (schema_sql dl d))"
  by (cases t) (simp_all add: schema_sql_def)

lemma schema_again: "schema_sql dl (schema_sql dl d) = schema_sql dl d"
proof -
  have "schema_sql dl x = x" if "\<And>t. t \<in> set (tables x)" for x
    using that by (simp add: schema_sql_def create_table_def create_events_def)
  then show ?thesis using schema_tables by blast
qed



section \<open>Sealing one directory on demand\<close>

text \<open>
  The manual sealer refuses a directory that does not exist or has a manifest already, and an archive
  without a database: it returns 1, having written one line to stderr and nothing else.
\<close>

theorem sealer_refuses:
  assumes "target = resolve_target (override args cfg) (directory args)"
    and "\<not> (isdir target w \<and> \<not> exists (manifest_path target) w \<and> exists (DB_FILE (override args cfg)) w)"
  shows "\<exists>line. sealer_cli cfg args w = (Inr 1, w\<lparr>err := err w @ [line]\<rparr>)"
  using assms by (auto simp: sealer_cli_def Let_def refuse_def io_simps)

theorem sealer_refuses_witness:
  "\<exists>line. sealer_cli seal_cfg (days_args\<lparr>directory := ''2024-01-09''\<rparr>) days_world
     = (Inr 1, days_world\<lparr>err := err days_world @ [line]\<rparr>)"
proof (rule sealer_refuses [OF refl])
  let ?args = "days_args\<lparr>directory := ''2024-01-09''\<rparr>"
  have "\<not> isdir ''/snap/2024-01-09'' days_world"
    and "resolve_target seal_cfg ''2024-01-09'' = ''/snap/2024-01-09''"
    by code_simp+
  moreover have "override ?args seal_cfg = seal_cfg" by (simp add: override_def days_args_def seal_cfg_def)
  ultimately show "\<not> (isdir (resolve_target (override ?args seal_cfg) (directory ?args)) days_world
      \<and> \<not> exists (manifest_path (resolve_target (override ?args seal_cfg) (directory ?args))) days_world
      \<and> exists (DB_FILE (override ?args seal_cfg)) days_world)"
    by simp
qed

lemma date_key_valid: "extract_date_key target = Some k \<Longrightarrow> date_fromisoformat k \<noteq> None \<and> is_date k"
  by (auto simp: extract_date_key_def Let_def date_fromisoformat_def split: if_splits option.splits)

end
