(* ===== verification/OrphanMerge.thy ===== *)
theory OrphanMerge
  imports SealCorrect
begin

text \<open>
  \<open>_orphan_log_merge_pass\<close> of \<open>browser-visit-snapshot-lib/snapshot_mover.py\<close>: it never touches the log
  of today or of a later day, and no text of a log is lost, whatever fails and however often it runs.
\<close>

section \<open>What one entry touches\<close>

lemma comps_log_entry:
  assumes "LOG_FILENAME_RE entry = Some k"
  shows "comps_of (path_join d entry) = comps_of d @ [entry]" and "proper_name entry"
proof -
  from assms have "is_date k" and e: "entry = log_filename_for k \<or> entry = log_filename_for k @ [NL]"
    by (auto simp: LOG_FILENAME_RE_Some)
  then have "CHR ''/'' \<notin> set (log_filename_for k)"
    by (simp add: log_filename_no_slash is_date_no_slash)
  with e show p: "proper_name entry"
    by (auto simp: proper_name_def log_filename_for_def)
  then show "comps_of (path_join d entry) = comps_of d @ [entry]"
    by (rule comps_of_join)
qed

lemma off_node_same: "c \<noteq> p \<Longrightarrow> p \<noteq> [] \<Longrightarrow> off_node p (\<lambda>w. node_at (files w) c = n)"
  by (simp add: off_node_def)

lemma same_node_errors_only: "errors_only (\<lambda>w. P (files w))"
  by (simp add: errors_only_def blind_def)

lemma merge_keeps_others:
  assumes "last c \<noteq> entry" and "c \<noteq> []"
  shows "keeps (\<lambda>w. node_at (files w) c = n) (merge_orphan_log cfg td entry)"
proof (cases "LOG_FILENAME_RE entry")
  case None
  then show ?thesis by (simp add: merge_orphan_log_def keeps_ret)
next
  case (Some k)
  let ?I = "\<lambda>w. node_at (files w) c = n"
  let ?src = "path_join (LOG_DIR cfg) entry"
  let ?dst = "path_join (path_join (ICLOUD_SNAPSHOTS_DIR cfg) k) entry"
  have b: "blind ?I" by (simp add: blind_def)
  have s: "off_node (comps_of ?src) ?I" and d: "off_node (comps_of ?dst) ?I"
    using assms comps_log_entry [OF Some] by (auto intro!: off_node_same)
  have ev: "keeps ?I (try_record_error op t e)" "keeps ?I (try_clear_error op t)" for op t e
    by (rule keeps_try_record keeps_try_clear; rule same_node_errors_only)+
  have db: "keeps ?I (sql ts f)" "keeps ?I commit" for ts and f :: "database \<Rightarrow> unit \<times> database"
    by (rule keeps_sql keeps_commit; simp add: b)+
  show ?thesis
    unfolding merge_orphan_log_def Some option.case Let_def
    by (intro keeps_if keeps_catch keeps_bnd keeps_thn keeps_gets keeps_ret keeps_throw ev db
        keeps_read_only [OF b] keeps_write [OF b s] keeps_write [OF b d])
qed

lemma merge_skips:
  "LOG_FILENAME_RE entry = Some k \<Longrightarrow> td \<le> k \<Longrightarrow> merge_orphan_log cfg td entry w = (Inr (), w)"
  by (simp add: merge_orphan_log_def ret_def)

section \<open>No text is lost\<close>

text \<open>
  The invariant of a race orphan: \<open>t\<close> is what the archived log held at the start, \<open>s\<close> what the orphan
  holds. The archive only grows, and the orphan is there until all its text has been appended.
\<close>

definition nothing_lost :: "comps \<Rightarrow> comps \<Rightarrow> string \<Rightarrow> string \<Rightarrow> world \<Rightarrow> bool" where
  "nothing_lost src dst s t w \<longleftrightarrow>
     (case node_at (files w) dst of
        Some (File t' _) \<Rightarrow> startswith t' t
          \<and> (case node_at (files w) src of
               Some (File s' _) \<Rightarrow> s' = s
             | Some Dir \<Rightarrow> False
             | None \<Rightarrow> \<exists>m. t' = t @ m @ univ_nl s)
      | _ \<Rightarrow> False)"

lemma nothing_lost_iff:
  "nothing_lost src dst s t w \<longleftrightarrow>
   (\<exists>m md. node_at (files w) dst = Some (File (t @ m) md)
     \<and> ((\<exists>md'. node_at (files w) src = Some (File s md'))
        \<or> node_at (files w) src = None \<and> (\<exists>m'. m = m' @ univ_nl s)))"
  by (auto simp: nothing_lost_def startswith_iff split: option.splits node.splits)

lemma merge_loses_nothing:
  assumes lost: "nothing_lost src dst s t w"
    and entry: "LOG_FILENAME_RE entry = Some k"
    and src: "src = comps_of (path_join (LOG_DIR cfg) entry)"
    and dst: "dst = comps_of (path_join (path_join (ICLOUD_SNAPSHOTS_DIR cfg) k) entry)"
    and ne: "src \<noteq> dst"
  shows "wp (merge_orphan_log cfg td entry) (\<lambda>_. nothing_lost src dst s t) (\<lambda>_. nothing_lost src dst s t) w"
proof (cases "td \<le> k")
  case True
  then show ?thesis using lost by (simp add: wp_def merge_skips [OF entry])
next
  case False
  let ?I = "nothing_lost src dst s t"
  let ?p = "path_join (LOG_DIR cfg) entry" and ?q = "path_join (path_join (ICLOUD_SNAPSHOTS_DIR cfg) k) entry"
  have nn: "src \<noteq> []" "dst \<noteq> []" using src dst comps_log_entry [OF entry] by auto
  have eo: "errors_only ?I" by (simp add: errors_only_def blind_def nothing_lost_iff)
  have b: "blind ?I" using eo by (rule errors_only_blind)
  note ps = src [symmetric] dst [symmetric]
  have chmod: "keeps ?I (chmod ?q md)" for md
    unfolding chmod_def by (rule keeps_fs_op [OF b])
      (auto simp: keeps_def ps nothing_lost_iff nn ne ne [symmetric] os_raise_def throw_def ret_def
        split: option.splits node.splits)
  have op: "keeps ?I (open_write True ?q)"
    unfolding open_write_def by (rule keeps_fs_op [OF b])
      (auto simp: keeps_def ps nothing_lost_iff nn ne ne [symmetric] os_raise_def throw_def ret_def
        split: option.splits node.splits)
  define H :: "world \<Rightarrow> bool" where "H w' \<longleftrightarrow> (\<exists>m md md'. node_at (files w') dst = Some (File (t @ m @ univ_nl s) md)
      \<and> node_at (files w') src = Some (File s md'))" for w'
  have HI: "?I w'" if "H w'" for w' using that by (auto simp: H_def nothing_lost_iff)
  have append: "wp (write_handle ?q (univ_nl s)) (\<lambda>_. H) (\<lambda>_. ?I) w'"
    if "?I w'" "node_at (files w') src = Some (File s md)" for w' md
    using that by (intro wp_write_handle)
      (auto simp: ps nothing_lost_iff H_def node_at_append_node nn ne ne [symmetric])
  have chmodH: "keeps H (chmod ?q md)" for md
  proof -
    have "blind H" by (simp add: blind_def H_def)
    then show ?thesis
      unfolding chmod_def by (rule keeps_fs_op)
        (auto simp: keeps_def ps H_def nn ne ne [symmetric] os_raise_def throw_def ret_def
          split: option.splits node.splits)
  qed
  have unlink: "wp (unlink ?p) (\<lambda>_. ?I) (\<lambda>_. ?I) w'" if "H w'" for w'
    using that by (intro wp_unlink)
      (auto simp: ps nothing_lost_iff H_def nn ne ne [symmetric])
  have clear: "wp (try_clear_error ''seal'' d) (\<lambda>_. ?I) (\<lambda>_. ?I) w'" if "?I w'" for w' d
    by (rule wp_keeps [OF keeps_try_clear [OF eo] that])
  have rec: "wp (try_record_error ''seal'' d e) (\<lambda>_. ?I) (\<lambda>_. ?I) w'" if "?I w'" for w' d e
    by (rule wp_keeps [OF keeps_try_record [OF eo] that])
  let ?body = "thn (chmod ?q mode_644) (thn (open_read ?p) (thn (open_write True ?q)
      (bnd (read_handle ?p) (\<lambda>text. thn (write_handle ?q text) (thn (chmod ?q mode_444)
        (thn (unlink ?p) (try_clear_error ''seal'' (path_join (ICLOUD_SNAPSHOTS_DIR cfg) k))))))))"
  have tail: "wp (thn (write_handle ?q (univ_nl s)) (thn (chmod ?q mode_444)
        (thn (unlink ?p) (try_clear_error ''seal'' d)))) (\<lambda>_. ?I) (\<lambda>_. ?I) w'"
    if "?I w'" "node_at (files w') src = Some (File s md)" for w' d md
    unfolding wp_thn
    by (rule wp_mono [OF append [OF that]], rule wp_keeps [OF chmodH], assumption,
        rule wp_mono [OF unlink], auto intro: clear HI)
  have readp: "wp (bnd (read_handle ?p) (\<lambda>text. thn (write_handle ?q text) (thn (chmod ?q mode_444)
        (thn (unlink ?p) (try_clear_error ''seal'' d))))) (\<lambda>_. ?I) (\<lambda>_. ?I) w'" if "?I w'" for w' d
    unfolding wp_bnd
  proof (rule wp_read_handle)
    fix fl s' md assume "node_at (files w') (comps_of ?p) = Some (File s' md)"
    with that have "s' = s" "node_at (files w') src = Some (File s md)"
      by (auto simp: ps nothing_lost_iff)
    with that show "wp (thn (write_handle ?q (univ_nl s')) (thn (chmod ?q mode_444)
        (thn (unlink ?p) (try_clear_error ''seal'' d)))) (\<lambda>_. ?I) (\<lambda>_. ?I) (w'\<lparr>fs_faults := fl\<rparr>)"
      using b by (auto intro!: tail simp: blind_def)
  qed (use that b in \<open>simp add: blind_def\<close>)
  have body: "wp ?body (\<lambda>_. ?I) (\<lambda>_. ?I) w'" if "?I w'" for w'
    unfolding wp_thn
    by (rule wp_keeps [OF chmod that], rule wp_keeps [OF keeps_read_only(2) [OF b]], assumption,
        rule wp_keeps [OF op], auto intro: readp)
  have ins: "wp (thn (sql [Snapshots] f) commit) (\<lambda>_. ?I) (\<lambda>_. ?I) w'" if "?I w'"
    for w' and f :: "database \<Rightarrow> unit \<times> database"
  proof -
    have "keeps ?I (thn (sql [Snapshots] f) commit)"
      by (intro keeps_thn keeps_sql keeps_commit b) (simp_all add: nothing_lost_iff)
    from wp_keeps [OF this that] show ?thesis by simp
  qed
  show ?thesis
    unfolding merge_orphan_log_def entry option.case Let_def if_not_P [OF False] wp_catch wp_bnd [of "gets _"] wp_gets
    using lost by (auto intro!: wp_mono [OF body] wp_mono [OF ins] rec simp: wp_throw)
qed

section \<open>The whole pass\<close>

lemma keeps_nothing_lost_others:
  assumes "last src \<noteq> entry" "last dst \<noteq> entry" "src \<noteq> []" "dst \<noteq> []"
  shows "keeps (nothing_lost src dst s t) (merge_orphan_log cfg td entry)"
proof -
  have "node_at (files (snd (merge_orphan_log cfg td entry w))) c = node_at (files w) c"
    if "c \<in> {src, dst}" for c w
    using merge_keeps_others [of c entry "node_at (files w) c" cfg td] that assms
    by (auto dest!: keepsD [where w = w])
  then show ?thesis by (auto simp: keeps_def nothing_lost_iff)
qed

lemma keeps_pass:
  assumes "blind I" and "\<And>td entry. keeps I (merge_orphan_log cfg td entry)"
  shows "keeps I (orphan_log_merge_pass cfg)"
  unfolding orphan_log_merge_pass_def
  by (intro keeps_bnd keeps_gets keeps_if keeps_ret keeps_read_only keeps_for_each assms)

lemma passes_lose_nothing:
  assumes entry: "LOG_FILENAME_RE entry = Some k"
    and src: "src = comps_of (path_join (LOG_DIR cfg) entry)"
    and dst: "dst = comps_of (path_join (path_join (ICLOUD_SNAPSHOTS_DIR cfg) k) entry)"
    and ne: "src \<noteq> dst"
  shows "keeps (nothing_lost src dst s t) (for_each ps (\<lambda>_. orphan_log_merge_pass cfg))"
proof (intro keeps_for_each keeps_pass)
  show "blind (nothing_lost src dst s t)" by (simp add: blind_def nothing_lost_iff)
  show "keeps (nothing_lost src dst s t) (merge_orphan_log cfg td e)" for td e
  proof (cases "e = entry")
    case True
    then show ?thesis
      unfolding keeps_wp using merge_loses_nothing [OF _ entry src dst ne] by blast
  next
    case False
    then show ?thesis
      using src dst comps_log_entry [OF entry] by (intro keeps_nothing_lost_others) auto
  qed
qed

lemma pass_spares:
  assumes "is_date d" and "today w \<le> d" and c: "c = comps_of (path_join (LOG_DIR cfg) (log_filename_for d))"
  shows "node_at (files (snd (orphan_log_merge_pass cfg w))) c = node_at (files w) c"
proof -
  have l: "last c = log_filename_for d" "c \<noteq> []" using c assms(1) by (simp_all add: comps_of_join)
  let ?I = "\<lambda>w'. node_at (files w') c = node_at (files w) c"
  have "keeps ?I (merge_orphan_log cfg (today w) e)" for e
  proof (cases "e = log_filename_for d")
    case True
    then show ?thesis using assms(1,2) by (simp add: keeps_def merge_skips)
  next
    case False
    then show ?thesis using merge_keeps_others [of c e _ cfg] l by auto
  qed
  then have "keeps ?I (bnd (listdir (LOG_DIR cfg)) (\<lambda>names. for_each (sort names) (merge_orphan_log cfg (today w))))"
    by (intro keeps_bnd keeps_read_only keeps_for_each) (simp_all add: blind_def)
  from keepsD [OF this, of w] show ?thesis
    by (simp add: orphan_log_merge_pass_def bnd_def gets_def ret_def)
qed

section \<open>Properties\<close>

definition merge_cfg :: config where
  "merge_cfg = \<lparr>LOG_DIR = ''/log'', ICLOUD_SNAPSHOTS_DIR = ''/snap'', DOWNLOADS_SNAPSHOTS_DIR = ''/dl'',
     DB_FILE = ''/v.db'', MATCH_BY_FILENAME_ONLY = False, host_importable = True\<rparr>"

definition merge_world :: world where
  "merge_world = sample_world\<lparr>
     fs_faults := [None, None, None, None, None, Some (EIO, ''io'', 1), None, None],
     files :=
      [([''log''], Dir), ([''snap''], Dir), ([''snap'', ''2024-01-02''], Dir),
       ([''log'', ''browser-visits-2024-01-02.log''], File ''late'' mode_644),
       ([''log'', ''browser-visits-2024-01-05.log''], File ''new'' mode_644),
       ([''snap'', ''2024-01-02'', ''browser-visits-2024-01-02.log''], File ''old'' mode_444)]\<rparr>"

text \<open>
  C10. Merging orphaned logs loses no text. Take a past day whose log is archived with the text \<open>t\<close>
  while \<open>LOG_DIR\<close> holds an orphan with the text \<open>s\<close>. After any number of passes, with any failures,
  the archived log still begins with \<open>t\<close>, and the orphan is unchanged or gone with its whole text
  appended to the archive.
\<close>

theorem merge_never_loses_text:
  assumes "LOG_FILENAME_RE entry = Some k"
    and "src = comps_of (path_join (LOG_DIR cfg) entry)"
    and "dst = comps_of (path_join (path_join (ICLOUD_SNAPSHOTS_DIR cfg) k) entry)"
    and "src \<noteq> dst"
    and "node_at (files w) src = Some (File s ms)" and "node_at (files w) dst = Some (File t mt)"
  shows "\<exists>m md. node_at (files (snd (for_each passes (\<lambda>_. orphan_log_merge_pass cfg) w))) dst = Some (File (t @ m) md)
     \<and> ((\<exists>md'. node_at (files (snd (for_each passes (\<lambda>_. orphan_log_merge_pass cfg) w))) src = Some (File s md'))
        \<or> node_at (files (snd (for_each passes (\<lambda>_. orphan_log_merge_pass cfg) w))) src = None
          \<and> (\<exists>m'. m = m' @ univ_nl s))"
proof -
  have "nothing_lost src dst s t w"
    using assms(5,6) unfolding nothing_lost_iff by (metis append_Nil2)
  from keepsD [OF passes_lose_nothing [OF assms(1-4)] this]
  show ?thesis unfolding nothing_lost_iff .
qed

theorem merge_never_loses_text_witness:
  "\<exists>m md. node_at (files (snd (for_each [(), ()] (\<lambda>_. orphan_log_merge_pass merge_cfg) merge_world)))
       [''snap'', ''2024-01-02'', ''browser-visits-2024-01-02.log''] = Some (File (''old'' @ m) md)"
proof -
  have c: "LOG_FILENAME_RE ''browser-visits-2024-01-02.log'' = Some ''2024-01-02''"
    "[''log'', ''browser-visits-2024-01-02.log''] = comps_of (path_join (LOG_DIR merge_cfg) ''browser-visits-2024-01-02.log'')"
    "[''snap'', ''2024-01-02'', ''browser-visits-2024-01-02.log''] =
       comps_of (path_join (path_join (ICLOUD_SNAPSHOTS_DIR merge_cfg) ''2024-01-02'') ''browser-visits-2024-01-02.log'')"
    "[''log'', ''browser-visits-2024-01-02.log''] \<noteq> [''snap'', ''2024-01-02'', ''browser-visits-2024-01-02.log'']"
    by code_simp+
  have n: "node_at (files merge_world) [''log'', ''browser-visits-2024-01-02.log''] = Some (File ''late'' mode_644)"
    "node_at (files merge_world) [''snap'', ''2024-01-02'', ''browser-visits-2024-01-02.log''] = Some (File ''old'' mode_444)"
    by (simp_all add: merge_world_def node_at_def)
  from merge_never_loses_text [OF c n] show ?thesis by blast
qed

text \<open>
  The merge pass leaves the log of today, and of any later day, as it is, whatever fails.
\<close>

theorem merge_spares_current_log:
  assumes "is_date d" and "today w \<le> d"
  shows "node_at (files (snd (orphan_log_merge_pass cfg w))) (comps_of (path_join (LOG_DIR cfg) (log_filename_for d)))
    = node_at (files w) (comps_of (path_join (LOG_DIR cfg) (log_filename_for d)))"
  by (rule pass_spares [OF assms refl])

theorem merge_spares_current_log_witness:
  "node_at (files (snd (orphan_log_merge_pass merge_cfg merge_world)))
     (comps_of (path_join (LOG_DIR merge_cfg) (log_filename_for ''2024-01-05'')))
   = node_at (files merge_world) (comps_of (path_join (LOG_DIR merge_cfg) (log_filename_for ''2024-01-05'')))"
proof (rule merge_spares_current_log)
  show "is_date ''2024-01-05''" by code_simp
  show "today merge_world \<le> ''2024-01-05''" by (simp add: merge_world_def sample_world_def)
qed

end
