(* ===== verification/RebuildCorrect.thy ===== *)
theory RebuildCorrect
  imports Rebuilder
begin

text \<open>
  What the rebuild guarantees. The reference is a pure function of the lines: each line is classified,
  the pairs of action and result are matched and counted, and the successful actions are applied in
  order. The effectful replay computes it whenever it returns.
\<close>

section \<open>The reference\<close>

datatype line_kind = Blank | Malformed | Result string bool | Action string action

definition classify :: "string \<Rightarrow> line_kind" where
  "classify raw =
     (let parts = split_on TAB (rstrip_char NL raw)
      in if rstrip_char NL raw = [] then Blank
         else if \<not> looks_like_uuid (hd parts) then Malformed
         else if length (tl parts) = 1 \<and> is_result_payload (hd (tl parts))
         then Result (hd parts) (hd (tl parts) = ''success'')
         else (case parse_action_fields (tl parts) of None \<Rightarrow> Malformed | Some a \<Rightarrow> Action (hd parts) a))"

definition count_action :: "action \<Rightarrow> replay_stats \<Rightarrow> replay_stats" where
  "count_action act s =
     (let s = s\<lparr>n_visits_inserted := n_visits_inserted s + 1\<rparr>
      in if a_tag act = ''of_interest'' then s\<lparr>n_of_interest_set := n_of_interest_set s + 1\<rparr>
         else if a_tag act = ''read'' then s\<lparr>n_read_events := n_read_events s + 1\<rparr>
         else if a_tag act = ''skimmed'' then s\<lparr>n_skimmed_events := n_skimmed_events s + 1\<rparr>
         else s)"

text \<open>One line: the pending actions, the counts, and the actions to apply so far.\<close>

fun count_line :: "pending \<times> replay_stats \<times> action list \<Rightarrow> line_kind \<Rightarrow> pending \<times> replay_stats \<times> action list" where
  "count_line (p, s, as) Blank = (p, s, as)"
| "count_line (p, s, as) Malformed = (p, s\<lparr>n_malformed_lines := n_malformed_lines s + 1\<rparr>, as)"
| "count_line (p, s, as) (Result rid ok) =
     (case lookup_key fst rid p of
        None \<Rightarrow> (p, s\<lparr>n_orphan_results := n_orphan_results s + 1\<rparr>, as)
      | Some (_, act) \<Rightarrow>
          (delete_where (\<lambda>x. fst x = rid) p,
           if ok then (let s = count_action act s in s\<lparr>n_success_records := n_success_records s + 1\<rparr>)
           else s\<lparr>n_error_records := n_error_records s + 1\<rparr>,
           if ok then as @ [act] else as))"
| "count_line (p, s, as) (Action rid act) =
     (upsert fst (\<lambda>_. (rid, act)) (rid, act) p,
      if has_key fst rid p then s\<lparr>n_orphan_actions := n_orphan_actions s + 1\<rparr> else s, as)"

definition count_lines :: "string list \<Rightarrow> pending \<times> replay_stats \<times> action list" where
  "count_lines raws = foldl count_line ([], no_replay, []) (map classify raws)"

text \<open>The result of a replay of these lines: the counts, and the actions in the order they are applied.\<close>

definition final_stats :: "string list \<Rightarrow> replay_stats" where
  "final_stats raws =
     (let (p, s, _) = count_lines raws in s\<lparr>n_orphan_actions := n_orphan_actions s + int (length p)\<rparr>)"

definition applied :: "string list \<Rightarrow> action list" where
  "applied raws = snd (snd (count_lines raws))"

definition apply_actions :: "config \<Rightarrow> action list \<Rightarrow> database \<Rightarrow> database" where
  "apply_actions cfg as d = foldl (\<lambda>d a. db_action cfg a d) d as"

lemma apply_actions_eq: "apply_actions cfg = idempotent_replay.apply_all (db_action cfg)"
  by (simp add: fun_eq_iff apply_actions_def rebuild_replay.apply_all_def)

section \<open>Every line is accounted for\<close>

definition accounted :: "replay_stats \<Rightarrow> int" where
  "accounted s = 2 * (n_success_records s + n_error_records s) + n_orphan_actions s + n_orphan_results s
     + n_malformed_lines s"

lemma count_action_sel [simp]:
  "n_success_records (count_action act s) = n_success_records s"
  "n_error_records (count_action act s) = n_error_records s"
  "n_orphan_actions (count_action act s) = n_orphan_actions s"
  "n_orphan_results (count_action act s) = n_orphan_results s"
  "n_malformed_lines (count_action act s) = n_malformed_lines s"
  by (simp_all add: count_action_def Let_def)

lemma length_delete_key:
  "keyed key t \<Longrightarrow> has_key key k t \<Longrightarrow> int (length (delete_where (\<lambda>x. key x = k) t)) = int (length t) - 1"
proof (induction t)
  case Nil
  then show ?case by simp
next
  case (Cons r t)
  show ?case
  proof (cases "key r = k")
    case True
    with Cons.prems have "\<forall>x\<in>set t. key x \<noteq> k" by (simp add: keyed_def) (metis imageI)
    then have "filter (\<lambda>x. key x \<noteq> k) t = t" by (simp add: filter_id_conv)
    with True show ?thesis by (simp add: delete_where_def)
  next
    case False
    with Cons show ?thesis by (auto simp: keyed_def delete_where_def)
  qed
qed

lemma length_upsert: "length (upsert key f r t) = (if has_key key (key r) t then length t else Suc (length t))"
  by (simp add: upsert_def)

lemma count_line_accounted:
  assumes "keyed fst p" and "count_line (p, s, as) k = (p', s', as')"
  shows "keyed fst p' \<and> accounted s' + int (length p') = accounted s + int (length p) + (if k = Blank then 0 else 1)"
proof (cases k)
  case (Result rid ok)
  show ?thesis
  proof (cases "lookup_key fst rid p")
    case None
    with Result assms show ?thesis by (auto simp: accounted_def)
  next
    case (Some x)
    then have "has_key fst rid p" by (simp add: has_key_lookup)
    from length_delete_key [OF assms(1) this] Result Some assms show ?thesis
      by (cases x; cases ok) (auto simp: accounted_def keyed_delete Let_def)
  qed
next
  case (Action rid act)
  have "keyed fst (upsert fst (\<lambda>_. (rid, act)) (rid, act) p)"
  proof -
    have "upsert fst (\<lambda>_. (rid, act)) (rid, act) p = upsert fst (\<lambda>x. (fst x, act)) (rid, act) p"
      by (auto simp: upsert_def)
    then show ?thesis using assms(1) by (simp add: keyed_upsert)
  qed
  with Action assms(2) show ?thesis
    by (auto simp: accounted_def length_upsert split: if_splits)
qed (use assms in \<open>auto simp: accounted_def\<close>)

lemma fold_accounted:
  "keyed fst p \<Longrightarrow> foldl count_line (p, s, as) ks = (p', s', as') \<Longrightarrow>
   accounted s' + int (length p') = accounted s + int (length p) + int (length (filter (\<lambda>k. k \<noteq> Blank) ks))"
proof (induction ks arbitrary: p s as)
  case Nil
  then show ?case by simp
next
  case (Cons k ks)
  obtain p1 s1 as1 where one: "count_line (p, s, as) k = (p1, s1, as1)"
    by (cases "count_line (p, s, as) k")
  from count_line_accounted [OF Cons.prems(1) one] Cons.IH [of p1 s1 as1] Cons.prems(2) one
  show ?case by auto
qed

lemma classify_blank: "classify raw = Blank \<longleftrightarrow> rstrip_char NL raw = []"
  by (simp add: classify_def Let_def split: option.split)

lemma final_stats_accounted:
  "accounted (final_stats raws) = int (length (filter (\<lambda>r. rstrip_char NL r \<noteq> []) raws))"
proof -
  obtain p s as where c: "count_lines raws = (p, s, as)" by (cases "count_lines raws")
  have "filter (\<lambda>k. k \<noteq> Blank) (map classify raws) = map classify (filter (\<lambda>r. rstrip_char NL r \<noteq> []) raws)"
    by (simp add: filter_map_swap comp_def classify_blank)
  moreover have "accounted s + int (length p) = int (length (filter (\<lambda>k. k \<noteq> Blank) (map classify raws)))"
    using fold_accounted [of "[]" no_replay "[]" "map classify raws" p s as] c
    by (simp add: keyed_def count_lines_def accounted_def no_replay_def)
  ultimately show ?thesis
    by (simp add: final_stats_def c accounted_def)
qed

section \<open>The replay computes the reference\<close>

text \<open>\<open>yields F m f\<close>: over the file store \<open>F\<close>, a run of \<open>m\<close> that returns gives \<open>f\<close> of the database and leaves every file.\<close>

definition yields :: "store \<Rightarrow> 'a io \<Rightarrow> (database \<Rightarrow> 'a \<times> database) \<Rightarrow> bool" where
  "yields F m f \<longleftrightarrow> (\<forall>w. files w = F \<longrightarrow>
     wp m (\<lambda>r w'. r = fst (f (db w)) \<and> db w' = snd (f (db w)) \<and> files w' = F) (\<lambda>_ _. True) w)"

lemma commits_yields: "commits m f \<Longrightarrow> yields F m f"
  unfolding yields_def by (auto elim!: commitsD [THEN wp_mono])

lemma yields_ret: "yields F (ret a) (Pair a)"
  by (simp add: yields_def wp_simps)

lemma yields_sql: "yields F (sql ts f) f"
  unfolding yields_def by (auto intro!: wp_sql)

lemma yields_commit: "yields F commit (Pair ())"
  unfolding yields_def by (auto intro!: wp_commit)

lemma yields_bnd:
  "yields F m f \<Longrightarrow> (\<And>a. yields F (k a) (g a)) \<Longrightarrow> yields F (bnd m k) (\<lambda>d. case f d of (a, d') \<Rightarrow> g a d')"
proof -
  assume m: "yields F m f" and k: "\<And>a. yields F (k a) (g a)"
  show "yields F (bnd m k) (\<lambda>d. case f d of (a, d') \<Rightarrow> g a d')"
    unfolding yields_def wp_bnd
  proof (intro allI impI)
    fix w :: world assume "files w = F"
    with m have "wp m (\<lambda>r w'. r = fst (f (db w)) \<and> db w' = snd (f (db w)) \<and> files w' = F) (\<lambda>_ _. True) w"
      by (simp add: yields_def)
    then show "wp m (\<lambda>a. wp (k a) (\<lambda>r w'. r = fst (case f (db w) of (a, d') \<Rightarrow> g a d')
        \<and> db w' = snd (case f (db w) of (a, d') \<Rightarrow> g a d') \<and> files w' = F) (\<lambda>_ _. True)) (\<lambda>_ _. True) w"
    proof (rule wp_mono)
      fix a and w' :: world
      assume "a = fst (f (db w)) \<and> db w' = snd (f (db w)) \<and> files w' = F"
      with k [of a, unfolded yields_def, rule_format, of w']
      show "wp (k a) (\<lambda>r w'. r = fst (case f (db w) of (a, d') \<Rightarrow> g a d')
        \<and> db w' = snd (case f (db w) of (a, d') \<Rightarrow> g a d') \<and> files w' = F) (\<lambda>_ _. True) w'"
        by (simp add: case_prod_beta)
    qed simp
  qed
qed

lemma yields_thn: "yields F m f \<Longrightarrow> yields F n g \<Longrightarrow> yields F (thn m n) (\<lambda>d. g (snd (f d)))"
  using yields_bnd [of F m f "\<lambda>_. n" "\<lambda>_. g"] by (simp add: thn_def case_prod_beta)

lemma yields_eq: "yields F m f \<Longrightarrow> (\<And>d. f d = g d) \<Longrightarrow> yields F m g"
  by (metis ext)

lemma yields_fold:
  assumes "\<And>s x. x \<in> set xs \<Longrightarrow> yields F (body s x) (f s x)"
  shows "yields F (fold_io body s xs) (\<lambda>d. foldl (\<lambda>(s, d) x. f s x d) (s, d) xs)"
  using assms
proof (induction xs arbitrary: s)
  case Nil
  then show ?case by (simp add: yields_def wp_simps)
next
  case (Cons x xs)
  show ?case
    unfolding fold_io.simps
    by (rule yields_eq [OF yields_bnd [OF Cons.prems Cons.IH]]) (auto simp: Cons.prems split: prod.split)
qed

lemma yields_action: "yields F (apply_action cfg act s) (\<lambda>d. (count_action act s, db_action cfg act d))"
proof -
  note v = commits_yields [OF insert_visit_commits, of F "a_timestamp act" "a_url act" "a_title act"]
  note r = commits_yields [OF tag_read_commits, of F cfg "a_url act" "a_timestamp act" "a_filename act"]
  note k = commits_yields [OF tag_skimmed_commits, of F cfg "a_url act" "a_timestamp act" "a_filename act"]
  have sk: "''skimmed'' \<noteq> ''of_interest''" "''skimmed'' \<noteq> ''read''" "''read'' \<noteq> ''of_interest''" by simp_all
  consider "a_tag act = ''of_interest''" | "a_tag act = ''read''" | "a_tag act = ''skimmed''"
    | "a_tag act \<notin> {''of_interest'', ''read'', ''skimmed''}" by blast
  then show ?thesis
  proof cases
    case 1
    show ?thesis
      unfolding apply_action_def Let_def 1
      by (simp, rule yields_eq [OF yields_thn [OF v yields_thn [OF yields_sql yields_ret]]])
        (simp add: count_action_def db_action_def 1 Let_def)
  next
    case 2
    show ?thesis
      unfolding apply_action_def Let_def 2
      by (simp, rule yields_eq [OF yields_thn [OF v yields_thn [OF r yields_ret]]])
        (simp add: count_action_def db_action_def 2 Let_def db_tag_event_def)
  next
    case 3
    show ?thesis
      unfolding apply_action_def Let_def 3
      by (simp, rule yields_eq [OF yields_thn [OF v yields_thn [OF k yields_ret]]])
        (simp add: count_action_def db_action_def 3 Let_def db_tag_event_def)
  next
    case 4
    then show ?thesis
      unfolding apply_action_def Let_def
      by (simp, intro yields_eq [OF yields_thn [OF v yields_ret]])
        (simp add: count_action_def db_action_def Let_def)
  qed
qed

text \<open>The state of the reference without the list of applied actions, and what they do to a database.\<close>

definition run_lines :: "config \<Rightarrow> pending \<times> replay_stats \<Rightarrow> line_kind list \<Rightarrow> database \<Rightarrow> (pending \<times> replay_stats) \<times> database" where
  "run_lines cfg ps ks d =
     (case foldl count_line (fst ps, snd ps, []) ks of (p, s, as) \<Rightarrow> ((p, s), apply_actions cfg as d))"

lemma count_line_applied:
  "count_line (p, s, as) k = (case count_line (p, s, []) k of (p', s', bs) \<Rightarrow> (p', s', as @ bs))"
  by (cases k) (auto split: option.split)

lemma count_lines_applied:
  "foldl count_line (p, s, as) ks = (case foldl count_line (p, s, []) ks of (p', s', bs) \<Rightarrow> (p', s', as @ bs))"
proof (induction ks arbitrary: p s as)
  case Nil
  then show ?case by simp
next
  case (Cons k ks)
  obtain p1 s1 as1 where one: "count_line (p, s, []) k = (p1, s1, as1)" by (cases "count_line (p, s, []) k")
  then have "count_line (p, s, as) k = (p1, s1, as @ as1)" using count_line_applied [of p s as k] by simp
  with one show ?case
    by (simp add: Cons.IH [of p1 s1 "as @ as1"] Cons.IH [of p1 s1 as1] split: prod.split)
qed

lemma run_lines_Cons:
  "run_lines cfg ps (k # ks) d = (case run_lines cfg ps [k] d of (ps', d') \<Rightarrow> run_lines cfg ps' ks d')"
proof -
  obtain p1 s1 as1 where one: "count_line (fst ps, snd ps, []) k = (p1, s1, as1)"
    by (cases "count_line (fst ps, snd ps, []) k")
  then show ?thesis
    by (simp add: run_lines_def count_lines_applied [of p1 s1 as1] apply_actions_def split: prod.split)
qed

lemma run_lines_append:
  "run_lines cfg ps (ks @ js) d = (case run_lines cfg ps ks d of (ps', d') \<Rightarrow> run_lines cfg ps' js d')"
proof (induction ks arbitrary: ps d)
  case Nil
  then show ?case by (simp add: run_lines_def apply_actions_def)
next
  case (Cons k ks)
  show ?case
    unfolding append_Cons
    by (subst (1 2) run_lines_Cons) (simp add: Cons.IH split: prod.split)
qed

lemma replay_line_kind:
  "replay_line cfg (p, s) raw =
     (case classify raw of
        Blank \<Rightarrow> ret (p, s)
      | Malformed \<Rightarrow> ret (p, s\<lparr>n_malformed_lines := n_malformed_lines s + 1\<rparr>)
      | Result rid ok \<Rightarrow>
          (case lookup_key fst rid p of
             None \<Rightarrow> ret (p, s\<lparr>n_orphan_results := n_orphan_results s + 1\<rparr>)
           | Some (_, act) \<Rightarrow>
               if ok then bnd (apply_action cfg act s) (\<lambda>s. ret (delete_where (\<lambda>x. fst x = rid) p,
                 s\<lparr>n_success_records := n_success_records s + 1\<rparr>))
               else ret (delete_where (\<lambda>x. fst x = rid) p, s\<lparr>n_error_records := n_error_records s + 1\<rparr>))
      | Action rid act \<Rightarrow>
          ret (upsert fst (\<lambda>_. (rid, act)) (rid, act) p,
               if has_key fst rid p then s\<lparr>n_orphan_actions := n_orphan_actions s + 1\<rparr> else s))"
  by (simp add: classify_def Let_def split: option.split)

declare replay_line.simps [simp del]

lemma yields_ret_eq: "m = ret a \<Longrightarrow> (\<And>d. f d = (a, d)) \<Longrightarrow> yields F m f"
  by (simp add: yields_def wp_simps)

lemma yields_line: "yields F (replay_line cfg ps raw) (run_lines cfg ps [classify raw])"
proof -
  obtain p s where ps: "ps = (p, s)" by (cases ps)
  have succ: "yields F (bnd (apply_action cfg act s) (\<lambda>stats. ret (q, stats\<lparr>n_success_records := n_success_records stats + 1\<rparr>)))
      (\<lambda>d. ((q, let s = count_action act s in s\<lparr>n_success_records := n_success_records s + 1\<rparr>), db_action cfg act d))"
    for act q
    by (rule yields_eq [OF yields_bnd [OF yields_action yields_ret]]) (simp add: Let_def)
  show ?thesis
  proof (cases "classify raw")
    case (Result rid ok)
    show ?thesis
    proof (cases "lookup_key fst rid p")
      case None
      with Result show ?thesis
        by (intro yields_ret_eq) (simp_all add: ps replay_line_kind run_lines_def apply_actions_def)
    next
      case (Some x)
      obtain r act where x: "x = (r, act)" by (cases x)
      show ?thesis
      proof (cases ok)
        case True
        have "replay_line cfg ps raw = bnd (apply_action cfg act s) (\<lambda>s. ret (delete_where (\<lambda>x. fst x = rid) p,
                 s\<lparr>n_success_records := n_success_records s + 1\<rparr>))"
          by (simp add: ps replay_line_kind Result Some x True)
        then show ?thesis
          using succ [of act] by (auto intro!: yields_eq [OF succ] simp: ps run_lines_def Result Some x True apply_actions_def)
      next
        case False
        with Result Some x show ?thesis
          by (intro yields_ret_eq) (simp_all add: ps replay_line_kind run_lines_def apply_actions_def)
      qed
    qed
  next
    case (Action rid act)
    show ?thesis
      by (rule yields_ret_eq) (simp_all add: Action ps replay_line_kind run_lines_def apply_actions_def)
  next
    case Blank
    show ?thesis
      by (rule yields_ret_eq) (simp_all add: Blank ps replay_line_kind run_lines_def apply_actions_def)
  next
    case Malformed
    show ?thesis
      by (rule yields_ret_eq) (simp_all add: Malformed ps replay_line_kind run_lines_def apply_actions_def)
  qed
qed

lemma yields_lines: "yields F (fold_io (replay_line cfg) ps raws) (run_lines cfg ps (map classify raws))"
proof (induction raws arbitrary: ps)
  case Nil
  show ?case by (simp, rule yields_eq [OF yields_ret]) (simp add: run_lines_def apply_actions_def)
next
  case (Cons r raws)
  show ?case
    unfolding fold_io.simps list.map
    by (rule yields_eq [OF yields_bnd [OF yields_line Cons]]) (rule run_lines_Cons [symmetric])
qed

section \<open>Which logs, in which order\<close>

text \<open>Over a file store \<open>F\<close>: the logs of one date directory, all logs found, and the sorted paths.\<close>

definition dir_in :: "store \<Rightarrow> path \<Rightarrow> bool" where
  "dir_in F p \<longleftrightarrow> node_at F (comps_of p) = Some Dir"

definition file_in :: "store \<Rightarrow> path \<Rightarrow> bool" where
  "file_in F p \<longleftrightarrow> (case node_at F (comps_of p) of Some (File _ _) \<Rightarrow> True | _ \<Rightarrow> False)"

definition text_in :: "store \<Rightarrow> path \<Rightarrow> string" where
  "text_in F p = (case node_at F (comps_of p) of Some (File s _) \<Rightarrow> univ_nl s | _ \<Rightarrow> [])"

definition date_logs :: "store \<Rightarrow> path \<Rightarrow> filename \<Rightarrow> discovered" where
  "date_logs F icloud_dir e =
     (if DATE_DIR_RE e \<and> dir_in F (path_join icloud_dir e)
      then map (\<lambda>f. (e, ICloud, path_join (path_join icloud_dir e) f))
        (filter (\<lambda>f. LOG_FILENAME_RE f = Some e \<and> file_in F (path_join (path_join icloud_dir e) f))
          (children (comps_of (path_join icloud_dir e)) F))
      else [])"

definition found_logs :: "store \<Rightarrow> path \<Rightarrow> path \<Rightarrow> discovered" where
  "found_logs F log_dir icloud_dir =
     (if dir_in F icloud_dir then concat (map (date_logs F icloud_dir) (children (comps_of icloud_dir) F)) else [])
     @ (if dir_in F log_dir
        then List.map_filter (\<lambda>f. case LOG_FILENAME_RE f of
            None \<Rightarrow> None
          | Some date \<Rightarrow> if file_in F (path_join log_dir f) then Some (date, LogDir, path_join log_dir f) else None)
          (children (comps_of log_dir) F)
        else [])"

definition log_key :: "string \<times> log_source \<times> path \<Rightarrow> string \<times> log_source" where
  "log_key x = (fst x, fst (snd x))"

definition log_paths :: "store \<Rightarrow> path \<Rightarrow> path \<Rightarrow> (string \<times> path) list" where
  "log_paths F log_dir icloud_dir = map (\<lambda>x. (fst x, snd (snd x))) (sort_key log_key (found_logs F log_dir icloud_dir))"

lemma isdir_in: "isdir p w = dir_in (files w) p"
  by (simp add: isdir_def dir_in_def)

lemma isfile_in: "isfile p w = file_in (files w) p"
  by (auto simp: isfile_def file_in_def split: option.split node.split)

lemma yields_gets: "(\<And>w. files w = F \<Longrightarrow> g w = x) \<Longrightarrow> yields F (k x) f \<Longrightarrow> yields F (bnd (gets g) k) f"
  by (simp add: yields_def wp_simps)

lemma yields_known: "yields F m (\<lambda>d. (x, d)) \<Longrightarrow> yields F (k x) g \<Longrightarrow> yields F (bnd m k) g"
proof -
  assume m: "yields F m (\<lambda>d. (x, d))" and k: "yields F (k x) g"
  show "yields F (bnd m k) g"
    unfolding yields_def wp_bnd
  proof (intro allI impI)
    fix w :: world assume "files w = F"
    with m have "wp m (\<lambda>r w'. r = x \<and> db w' = db w \<and> files w' = F) (\<lambda>_ _. True) w"
      by (simp add: yields_def)
    then show "wp m (\<lambda>a. wp (k a) (\<lambda>r w'. r = fst (g (db w)) \<and> db w' = snd (g (db w)) \<and> files w' = F) (\<lambda>_ _. True)) (\<lambda>_ _. True) w"
      by (rule wp_mono) (use k in \<open>auto simp: yields_def\<close>)
  qed
qed

lemma yields_listdir: "yields F (listdir p) (\<lambda>d. (children (comps_of p) F, d))"
  unfolding yields_def by (auto intro!: wp_listdir)

lemma yields_pure_fold:
  assumes "\<And>s x. yields F (body s x) (\<lambda>d. (s @ g x, d))"
  shows "yields F (fold_io body s xs) (\<lambda>d. (s @ concat (map g xs), d))"
proof (induction xs arbitrary: s)
  case Nil
  show ?case by (rule yields_ret_eq) simp_all
next
  case (Cons x xs)
  show ?case
    unfolding fold_io.simps by (rule yields_eq [OF yields_bnd [OF assms Cons]]) simp
qed

lemma yields_log_in_date_dir:
  "yields F (log_in_date_dir dd e found f)
     (\<lambda>d. (found @ (if LOG_FILENAME_RE f = Some e \<and> file_in F (path_join dd f) then [(e, ICloud, path_join dd f)] else []), d))"
proof (cases "LOG_FILENAME_RE f")
  case None
  then show ?thesis by (intro yields_ret_eq) (simp_all add: log_in_date_dir_def)
next
  case (Some date)
  show ?thesis
    unfolding log_in_date_dir_def Some option.case
    by (rule yields_gets [where x = "file_in F (path_join dd f)"]) (auto simp: isfile_in intro!: yields_ret_eq)
qed

lemma yields_date_entry: "yields F (logs_of_date_entry icloud found e) (\<lambda>d. (found @ date_logs F icloud e, d))"
proof (cases "DATE_DIR_RE e \<and> dir_in F (path_join icloud e)")
  case True
  let ?dd = "path_join icloud e"
  let ?g = "\<lambda>f. if LOG_FILENAME_RE f = Some e \<and> file_in F (path_join ?dd f) then [(e, ICloud, path_join ?dd f)] else []"
  have "concat (map ?g xs) = map (\<lambda>f. (e, ICloud, path_join ?dd f))
      (filter (\<lambda>f. LOG_FILENAME_RE f = Some e \<and> file_in F (path_join ?dd f)) xs)" for xs
    by (induction xs) auto
  then have "yields F (bnd (listdir ?dd) (fold_io (log_in_date_dir ?dd e) found)) (\<lambda>d. (found @ date_logs F icloud e, d))"
    by (intro yields_eq [OF yields_bnd [OF yields_listdir yields_pure_fold [OF yields_log_in_date_dir]]])
      (simp add: date_logs_def True)
  with True show ?thesis
    unfolding logs_of_date_entry_def Let_def
    by (simp, intro yields_gets [where x = True]) (simp_all add: isdir_in)
next
  case False
  then have none: "date_logs F icloud e = []" by (auto simp: date_logs_def)
  show ?thesis
  proof (cases "DATE_DIR_RE e")
    case True
    with False show ?thesis
      unfolding logs_of_date_entry_def Let_def none
      by (simp, intro yields_gets [where x = False]) (simp_all add: isdir_in yields_ret_eq)
  next
    case not: False
    then show ?thesis by (intro yields_ret_eq) (simp_all add: logs_of_date_entry_def none)
  qed
qed

lemma yields_log_in_log_dir:
  "yields F (log_in_log_dir log_dir found f)
     (\<lambda>d. (found @ (case LOG_FILENAME_RE f of None \<Rightarrow> []
        | Some date \<Rightarrow> if file_in F (path_join log_dir f) then [(date, LogDir, path_join log_dir f)] else []), d))"
proof (cases "LOG_FILENAME_RE f")
  case None
  then show ?thesis by (intro yields_ret_eq) (simp_all add: log_in_log_dir_def)
next
  case (Some date)
  show ?thesis
    unfolding log_in_log_dir_def Some option.case
    by (rule yields_gets [where x = "file_in F (path_join log_dir f)"]) (auto simp: isfile_in intro!: yields_ret_eq)
qed

lemma map_filter_concat: "List.map_filter f xs = concat (map (\<lambda>x. case f x of None \<Rightarrow> [] | Some y \<Rightarrow> [y]) xs)"
  by (induction xs) (auto simp: List.map_filter_simps split: option.split)

lemma yields_collect: "yields F (collect_log_paths log_dir icloud) (\<lambda>d. (log_paths F log_dir icloud, d))"
proof -
  let ?A = "if dir_in F icloud then concat (map (date_logs F icloud) (children (comps_of icloud) F)) else []"
  have a: "yields F (bnd (gets (isdir icloud)) (\<lambda>dir.
          if dir then bnd (listdir icloud) (fold_io (logs_of_date_entry icloud) []) else ret [])) (\<lambda>d. (?A, d))"
    by (rule yields_gets [where x = "dir_in F icloud"])
      (auto simp: isdir_in intro!: yields_ret_eq
        yields_eq [OF yields_bnd [OF yields_listdir yields_pure_fold [OF yields_date_entry]]])
  have b: "yields F (bnd (gets (isdir log_dir)) (\<lambda>dir.
          if dir then bnd (listdir log_dir) (fold_io (log_in_log_dir log_dir) ?A) else ret ?A))
      (\<lambda>d. (found_logs F log_dir icloud, d))"
    by (rule yields_gets [where x = "dir_in F log_dir"])
      (auto simp: isdir_in found_logs_def map_filter_concat intro!: yields_ret_eq
        yields_eq [OF yields_bnd [OF yields_listdir yields_pure_fold [OF yields_log_in_log_dir]]]
        arg_cong [where f = concat] split: option.split)
  have c: "yields F (ret (map (\<lambda>(date, _, path). (date, path)) (sort_key (\<lambda>(date, source, _). (date, source))
      (found_logs F log_dir icloud)))) (\<lambda>d. (log_paths F log_dir icloud, d))"
  proof -
    have "log_key = (\<lambda>(date, source, _). (date, source))"
      and "(\<lambda>x :: string \<times> log_source \<times> path. (fst x, snd (snd x))) = (\<lambda>(date, _, path). (date, path))"
      by (simp_all add: fun_eq_iff log_key_def)
    then show ?thesis by (intro yields_ret_eq) (simp_all only: log_paths_def)
  qed
  show ?thesis
    unfolding collect_log_paths_def
    by (rule yields_known [OF a], rule yields_known [OF b], rule c)
qed

text \<open>The lines of all logs, in the order they are replayed.\<close>

definition log_lines :: "store \<Rightarrow> path \<Rightarrow> path \<Rightarrow> string list" where
  "log_lines F log_dir icloud_dir = concat (map (\<lambda>(_, p). file_lines (text_in F p)) (log_paths F log_dir icloud_dir))"

definition insert_days :: "string list \<Rightarrow> database \<Rightarrow> database" where
  "insert_days days d = foldl (\<lambda>d day. snd (sql_insert_snapshot day d)) d days"

lemma yields_one_file:
  "yields F (replay_one_file cfg p ps) (run_lines cfg ps (map classify (file_lines (text_in F p))))"
proof -
  have o: "yields F (open_read p) (Pair ())"
    unfolding yields_def by (auto intro!: wp_open_read)
  have r: "yields F (read_handle p) (\<lambda>d. (text_in F p, d))"
    unfolding yields_def by (auto intro!: wp_read_handle simp: text_in_def)
  show ?thesis
    unfolding replay_one_file_def
    by (rule yields_eq [OF yields_thn [OF o yields_known [OF r yields_lines]]]) simp
qed

text \<open>The days inserted between the files do not interfere with the actions.\<close>

lemma snapshots_action:
  "db_action cfg a (d\<lparr>snapshots := ss\<rparr>) = (db_action cfg a d)\<lparr>snapshots := ss\<rparr>"
proof -
  have e: "db_event tg e (d\<lparr>snapshots := ss\<rparr>) = (db_event tg e d)\<lparr>snapshots := ss\<rparr>" for tg e d
    by (cases tg) (simp_all add: db_event_def sql_bump_def)
  have v: "snd (sql_insert_visit u t ti (d\<lparr>snapshots := ss\<rparr>)) = (snd (sql_insert_visit u t ti d))\<lparr>snapshots := ss\<rparr>" for u t ti
    by (simp add: sql_insert_visit_def)
  have i: "snd (sql_set_of_interest u (d\<lparr>snapshots := ss\<rparr>)) = (snd (sql_set_of_interest u d))\<lparr>snapshots := ss\<rparr>" for u d
    by (simp add: sql_set_of_interest_def update_where_def)
  show ?thesis by (simp add: db_action_def Let_def e v i)
qed

lemma snapshots_actions:
  "apply_actions cfg as (d\<lparr>snapshots := ss\<rparr>) = (apply_actions cfg as d)\<lparr>snapshots := ss\<rparr>"
  by (induction as arbitrary: d) (simp_all add: apply_actions_def snapshots_action)

lemma insert_day_eq: "snd (sql_insert_snapshot day d) = d\<lparr>snapshots := snapshots (snd (sql_insert_snapshot day d))\<rparr>"
  by (simp add: sql_insert_snapshot_def)

lemma snapshots_of_action [simp]: "snapshots (db_action cfg a d) = snapshots d"
proof -
  have e: "snapshots (db_event tg e d) = snapshots d" for tg e d
    by (cases tg) (simp_all add: db_event_def sql_bump_def)
  show ?thesis
    by (simp add: db_action_def Let_def e sql_insert_visit_def sql_set_of_interest_def update_where_def)
qed

lemma insert_day_action:
  "db_action cfg a (snd (sql_insert_snapshot day d)) = snd (sql_insert_snapshot day (db_action cfg a d))"
  by (simp add: sql_insert_snapshot_def snapshots_action)

lemma insert_day_actions:
  "apply_actions cfg as (snd (sql_insert_snapshot day d)) = snd (sql_insert_snapshot day (apply_actions cfg as d))"
  by (induction as arbitrary: d) (simp_all add: apply_actions_def insert_day_action)

lemma run_lines_day:
  "run_lines cfg ps ks (snd (sql_insert_snapshot day d)) =
     (case run_lines cfg ps ks d of (ps', d') \<Rightarrow> (ps', snd (sql_insert_snapshot day d')))"
  by (simp add: run_lines_def insert_day_actions split: prod.split)

lemma run_lines_days:
  "run_lines cfg ps ks (insert_days days d) =
     (case run_lines cfg ps ks d of (ps', d') \<Rightarrow> (ps', insert_days days d'))"
  by (induction days arbitrary: d) (simp_all add: insert_days_def run_lines_day split: prod.splits)

lemma replay_files:
  "yields F (fold_io (\<lambda>s (day, p). thn (sql [Snapshots] (sql_insert_snapshot day)) (replay_one_file cfg p s)) ps paths)
     (\<lambda>d. case run_lines cfg ps (map classify (concat (map (\<lambda>(_, p). file_lines (text_in F p)) paths))) d of
        (ps', d') \<Rightarrow> (ps', insert_days (map fst paths) d'))"
proof (induction paths arbitrary: ps)
  case Nil
  show ?case by (rule yields_ret_eq) (simp_all add: run_lines_def apply_actions_def insert_days_def)
next
  case (Cons x paths)
  obtain day p where x: "x = (day, p)" by (cases x)
  let ?k = "map classify (file_lines (text_in F p))"
  let ?ks = "map classify (concat (map (\<lambda>(_, p). file_lines (text_in F p)) paths))"
  have one: "yields F (thn (sql [Snapshots] (sql_insert_snapshot day)) (replay_one_file cfg p ps))
      (\<lambda>d. case run_lines cfg ps ?k d of (ps', d') \<Rightarrow> (ps', snd (sql_insert_snapshot day d')))"
    by (rule yields_eq [OF yields_thn [OF yields_sql yields_one_file]]) (rule run_lines_day)
  show ?case
    unfolding fold_io.simps x prod.case
    by (rule yields_eq [OF yields_bnd [OF one Cons]])
      (simp add: run_lines_append run_lines_day insert_days_def split: prod.split)
qed

lemma yields_replay:
  "yields F (replay_logs cfg log_dir icloud)
     (\<lambda>d. (final_stats (log_lines F log_dir icloud),
        insert_days (map fst (log_paths F log_dir icloud)) (apply_actions cfg (applied (log_lines F log_dir icloud)) d)))"
proof -
  obtain p s as where c: "count_lines (log_lines F log_dir icloud) = (p, s, as)"
    by (cases "count_lines (log_lines F log_dir icloud)")
  have run: "run_lines cfg ([], no_replay) (map classify (log_lines F log_dir icloud)) d = ((p, s), apply_actions cfg as d)" for d
    using c by (simp add: run_lines_def count_lines_def)
  let ?fin = "\<lambda>(pending :: pending, stats :: replay_stats). thn commit
       (ret (stats\<lparr>n_orphan_actions := n_orphan_actions stats + int (length pending)\<rparr>))"
  have fin: "yields F (?fin x) (Pair (snd x\<lparr>n_orphan_actions := n_orphan_actions (snd x) + int (length (fst x))\<rparr>))" for x
    by (cases x) (simp, rule yields_eq [OF yields_thn [OF yields_commit yields_ret]], simp)
  have "yields F (bnd (fold_io (\<lambda>s (day, p). thn (sql [Snapshots] (sql_insert_snapshot day)) (replay_one_file cfg p s))
          ([], no_replay) (log_paths F log_dir icloud)) (\<lambda>(pending, stats).
       thn commit (ret (stats\<lparr>n_orphan_actions := n_orphan_actions stats + int (length pending)\<rparr>))))
     (\<lambda>d. (final_stats (log_lines F log_dir icloud),
        insert_days (map fst (log_paths F log_dir icloud)) (apply_actions cfg (applied (log_lines F log_dir icloud)) d)))"
    by (rule yields_eq [OF yields_bnd [OF replay_files fin]])
      (simp add: log_lines_def [symmetric] run final_stats_def applied_def c)
  then show ?thesis
    unfolding replay_logs_def by (rule yields_known [OF yields_collect])
qed

end
