(* ===== verification/RebuildSound.thy ===== *)
theory RebuildSound
  imports RebuildCorrect
begin

text \<open>
  The database invariant through a rebuild, for every pattern of failures, and the properties of the
  rebuilder.
\<close>

section \<open>Runs that keep the invariant\<close>

definition sound_run :: "'a io \<Rightarrow> bool" where
  "sound_run m \<longleftrightarrow> (\<forall>w. sound w \<longrightarrow> wp m (\<lambda>_. sound) (\<lambda>_ w'. db_ok (disk w')) w)"

named_theorems sound_rules

lemma sound_runD: "sound_run m \<Longrightarrow> sound w \<Longrightarrow> wp m (\<lambda>_. sound) (\<lambda>_ w'. db_ok (disk w')) w"
  by (simp add: sound_run_def)

lemma sound_ret [sound_rules]: "sound_run (ret a)"
  by (simp add: sound_run_def wp_simps)

lemma sound_throw [sound_rules]: "sound_run (throw e)"
  by (simp add: sound_run_def wp_simps sound_def)

lemma sound_gets [sound_rules]: "sound_run (gets f)"
  by (simp add: sound_run_def wp_simps)

lemma sound_bnd [sound_rules]: "sound_run m \<Longrightarrow> (\<And>a. sound_run (f a)) \<Longrightarrow> sound_run (bnd m f)"
  unfolding sound_run_def wp_bnd by (auto elim!: wp_mono)

lemma sound_thn [sound_rules]: "sound_run m \<Longrightarrow> sound_run n \<Longrightarrow> sound_run (thn m n)"
  by (simp add: thn_def sound_bnd)

lemma sound_if [sound_rules]: "(b \<Longrightarrow> sound_run m) \<Longrightarrow> (\<not> b \<Longrightarrow> sound_run n) \<Longrightarrow> sound_run (if b then m else n)"
  by simp

lemma sound_option [sound_rules]:
  "sound_run m \<Longrightarrow> (\<And>a. x = Some a \<Longrightarrow> sound_run (f a)) \<Longrightarrow> sound_run (case x of None \<Rightarrow> m | Some a \<Rightarrow> f a)"
  by (cases x) auto

lemma sound_fold [sound_rules]: "(\<And>s x. sound_run (body s x)) \<Longrightarrow> sound_run (fold_io body s xs)"
  by (induction xs arbitrary: s) (auto intro!: sound_rules)

lemma sound_keeps: "keeps sound m \<Longrightarrow> sound_run m"
  unfolding sound_run_def keeps_wp by (auto elim!: wp_mono simp: sound_def)

lemma sound_blind: "blind sound"
  by (simp add: blind_def sound_def)

lemma sound_read [sound_rules]: "sound_run (listdir p)" "sound_run (open_read p)" "sound_run (read_handle p)"
  by (intro sound_keeps keeps_read_only sound_blind)+

lemma sound_commit [sound_rules]: "sound_run commit"
  by (intro sound_keeps keeps_commit sound_blind) (simp add: sound_def)

lemma sound_sql: "(\<And>d. db_ok d \<Longrightarrow> db_ok (snd (f d))) \<Longrightarrow> sound_run (sql ts f)"
  by (intro sound_keeps keeps_sql sound_blind) (simp add: sound_def)

lemma sound_executescript: "(\<And>d. db_ok d \<Longrightarrow> db_ok (f d)) \<Longrightarrow> sound_run (executescript f)"
  by (intro sound_keeps keeps_executescript sound_blind) (simp add: sound_def)

lemma sound_commits: "commits m f \<Longrightarrow> (\<And>d. db_ok d \<Longrightarrow> db_ok (snd (f d))) \<Longrightarrow> sound_run m"
  unfolding sound_run_def using commits_sound by blast

section \<open>The statements of the rebuilder\<close>

lemma db_ok_same:
  "visits d = visits d' \<Longrightarrow> read_events d = read_events d' \<Longrightarrow> skimmed_events d = skimmed_events d' \<Longrightarrow> db_ok d = db_ok d'"
proof -
  assume v: "visits d = visits d'" and "read_events d = read_events d'" "skimmed_events d = skimmed_events d'"
  then have "events tg d = events tg d'" for tg by (cases tg) simp_all
  with v show ?thesis by (simp add: db_ok_def counts_ok_def visited_def events_of_def flip: events.simps)
qed

lemma db_ok_snapshots [simp]:
  "db_ok (d\<lparr>snapshots := ss\<rparr>) = db_ok d" "db_ok (d\<lparr>tables := ts\<rparr>) = db_ok d"
  "db_ok (d\<lparr>read_default := p\<rparr>) = db_ok d" "db_ok (d\<lparr>skimmed_default := p\<rparr>) = db_ok d"
  by (rule db_ok_same; simp)+

lemma db_ok_create [simp]: "db_ok (create_table t d) = db_ok d"
  by (simp add: create_table_def)

lemma db_ok_create_events [simp]: "db_ok (create_events tg p d) = db_ok d"
  by (cases tg) (simp_all add: create_events_def)

lemma db_ok_schema [simp]: "db_ok (schema_sql p d) = db_ok d"
  by (simp add: schema_sql_def)

lemma db_ok_relocate:
  assumes "db_ok d"
  shows "db_ok (snd (sql_relocate tg dir f dl d))"
proof (rule db_okI)
  let ?d = "snd (sql_relocate tg dir f dl d)"
  have v: "visits ?d = visits d"
    by (cases tg) (simp_all add: sql_relocate_def update_where_def)
  have e: "events tg' ?d = (if tg = tg'
      then snd (update_where (\<lambda>e. e_filename e = f \<and> e_directory e = dl) (\<lambda>e. e\<lparr>e_directory := dir\<rparr>) (events tg d))
      else events tg' d)" for tg'
    by (simp add: sql_relocate_def update_where_def)
  show "keyed v_url (visits ?d)" using assms by (simp add: v db_ok_def)
  fix tg'
  have k: "event_key (x\<lparr>e_directory := dir\<rparr>) = event_key x" for x by (simp add: event_key_def)
  have m: "map e_url (events tg' ?d) = map e_url (events tg' d)"
    by (simp add: e update_where_def)
  have len: "length (events_of tg' u ?d) = length (events_of tg' u d)" for u
  proof -
    from m have "length (filter (\<lambda>x. x = u) (map e_url (events tg' ?d))) = length (filter (\<lambda>x. x = u) (map e_url (events tg' d)))"
      by simp
    then show ?thesis by (simp add: events_of_def filter_map_swap comp_def)
  qed
  have url: "e_url ` set (events tg' ?d) = e_url ` set (events tg' d)"
    using arg_cong [OF m, of set] by simp
  note t = db_ok_tag [OF assms, of tg']
  have "keyed event_key (events tg' ?d)"
    using t k by (auto simp: e keyed_update)
  moreover have "counts_ok tg' ?d" using t by (simp add: counts_ok_def v len)
  moreover have "visited tg' ?d"
  proof -
    have "\<forall>u\<in>e_url ` set (events tg' d). has_key v_url u (visits d)"
      using t by (simp add: visited_def list_all_iff)
    then have "\<forall>u\<in>e_url ` set (events tg' ?d). has_key v_url u (visits d)"
      by (simp only: url)
    then show ?thesis by (simp add: visited_def v list_all_iff)
  qed
  ultimately show "keyed event_key (events tg' ?d) \<and> counts_ok tg' ?d \<and> visited tg' ?d" by blast
qed

lemma sound_tag [sound_rules]: "sound_run (tag_visit cfg url tag ts f)"
  by (simp add: sound_run_def tag_visit_sound)

lemma sound_visit [sound_rules]: "sound_run (insert_visit ts url ti)"
  by (rule sound_commits [OF insert_visit_commits db_ok_insert_visit])

lemma sound_action [sound_rules]: "sound_run (apply_action cfg act s)"
  unfolding apply_action_def Let_def
  by (intro sound_rules sound_sql) (simp add: db_ok_of_interest)

lemma sound_line [sound_rules]: "sound_run (replay_line cfg ps raw)"
  by (cases ps) (auto simp: replay_line_kind intro!: sound_rules split: line_kind.split option.split)

lemma sound_file [sound_rules]: "sound_run (replay_one_file cfg p ps)"
  unfolding replay_one_file_def by (intro sound_rules)

lemma sound_collect [sound_rules]: "sound_run (collect_log_paths a b)"
  unfolding collect_log_paths_def logs_of_date_entry_def [abs_def] log_in_date_dir_def [abs_def]
    log_in_log_dir_def [abs_def] Let_def
  by (intro sound_rules)

lemma sound_replay [sound_rules]: "sound_run (replay_logs cfg a b)"
proof -
  have "sound_run (sql [Snapshots] (sql_insert_snapshot day))" for day
    by (rule sound_sql) (simp add: sql_insert_snapshot_def)
  then show ?thesis
    unfolding replay_logs_def case_prod_beta by (intro sound_rules)
qed

lemma sound_ensure [sound_rules]: "sound_run (ensure_db cfg)" "sound_run (ensure_snapshots_table cfg)"
  unfolding ensure_db_def ensure_snapshots_table_def by (intro sound_rules sound_executescript; simp)+

lemma sound_rehydrate [sound_rules]: "sound_run (rehydrate_filesystem cfg a b)"
proof -
  have f: "sound_run (rehydrate_file dd dl lf st fname)" for dd dl lf st fname
    unfolding rehydrate_file_def Let_def by (intro sound_rules sound_sql db_ok_relocate)
  have u: "sound_run (sql [Snapshots] (sql_upsert_snapshot e n))" for e n
    by (rule sound_sql) (simp add: sql_upsert_snapshot_def)
  show ?thesis
    unfolding rehydrate_filesystem_def rehydrate_dir_def [abs_def] Let_def by (intro sound_rules f u)
qed

section \<open>Truncation\<close>

definition emptied :: "world \<Rightarrow> bool" where
  "emptied w \<longleftrightarrow> visits (db w) = [] \<and> read_events (db w) = [] \<and> skimmed_events (db w) = [] \<and> snapshots (db w) = []
     \<and> disk w = db w"

lemma db_ok_empty: "visits d = [] \<Longrightarrow> read_events d = [] \<Longrightarrow> skimmed_events d = [] \<Longrightarrow> db_ok d"
  by (simp add: db_ok_def keyed_def counts_ok_def visited_def)

lemma wp_ddl:
  assumes "\<And>dl. Q () (w\<lparr>db_faults := dl, db := f (db w), disk := (if in_tx w then disk w else f (db w))\<rparr>)"
    and "\<And>e dl. is_sqlite_error e \<Longrightarrow> E e (w\<lparr>db_faults := dl\<rparr>)"
  shows "wp (ddl f) Q E w"
  unfolding ddl_def using assms by (intro wp_db_op) (auto simp: wp_def)

lemma wp_truncate: "wp truncate_rebuildable_tables (\<lambda>_ w'. emptied w' \<and> files w' = files w) (\<lambda>_ _. True) w"
  unfolding truncate_rebuildable_tables_def REBUILDABLE_TABLES_def for_each.simps wp_thn wp_bnd wp_ret
  by (intro wp_ddl wp_commit) (simp_all add: emptied_def)

lemma emptied_sound: "emptied w \<Longrightarrow> sound w"
  by (simp add: sound_def emptied_def db_ok_empty)

lemma sound_rest:
  "sound_run (thn (ensure_db cfg) (thn (ensure_snapshots_table cfg)
     (bnd (if do_log then bnd (replay_logs cfg a b) (\<lambda>s. ret (Some s)) else ret None) (\<lambda>r.
      bnd (if do_rehydrate then bnd (rehydrate_filesystem cfg b c) (\<lambda>s. ret (Some s)) else ret None) (\<lambda>h.
      ret \<lparr>replay = r, rehydrate = h, truncated = trunc\<rparr>)))))"
  by (intro sound_rules)

lemma sound_rebuild_no_truncate: "sound_run (rebuild cfg a b c do_log do_rehydrate False)"
  unfolding rebuild_def if_False by (intro sound_thn [OF sound_ret] sound_rest)

lemma rebuild_truncate_sound:
  "wp (rebuild cfg a b c do_log do_rehydrate True) (\<lambda>_. sound) (\<lambda>_ _. True) w"
  unfolding rebuild_def if_True
proof (subst wp_thn, rule wp_mono [OF wp_truncate])
  fix r and w' :: world assume "emptied w' \<and> files w' = files w"
  then have "sound w'" by (simp add: emptied_sound)
  show "wp (thn (ensure_db cfg) (thn (ensure_snapshots_table cfg)
     (bnd (if do_log then bnd (replay_logs cfg a b) (\<lambda>s. ret (Some s)) else ret None) (\<lambda>r.
      bnd (if do_rehydrate then bnd (rehydrate_filesystem cfg b c) (\<lambda>s. ret (Some s)) else ret None) (\<lambda>h.
      ret \<lparr>replay = r, rehydrate = h, truncated = True\<rparr>))))) (\<lambda>_. sound) (\<lambda>_ _. True) w'"
    by (rule wp_mono [OF sound_runD [OF sound_rest \<open>sound w'\<close>]]) simp_all
qed simp

section \<open>What rehydration does to the database\<close>

text \<open>As \<open>yields\<close>, for the database only.\<close>

definition turns :: "store \<Rightarrow> 'a io \<Rightarrow> (database \<Rightarrow> database) \<Rightarrow> bool" where
  "turns F m g \<longleftrightarrow> (\<forall>w. files w = F \<longrightarrow> wp m (\<lambda>_ w'. db w' = g (db w) \<and> files w' = F) (\<lambda>_ _. True) w)"

lemma yields_turns: "yields F m f \<Longrightarrow> turns F m (\<lambda>d. snd (f d))"
  unfolding turns_def yields_def by (auto elim!: wp_mono)

lemma turns_eq: "turns F m f \<Longrightarrow> (\<And>d. f d = g d) \<Longrightarrow> turns F m g"
  by (metis ext)

lemma turns_ret: "turns F (ret a) (\<lambda>d. d)"
  by (simp add: turns_def wp_simps)

lemma turns_sql: "turns F (sql ts f) (\<lambda>d. snd (f d))"
  by (rule yields_turns [OF yields_sql])

lemma turns_bnd:
  assumes m: "turns F m f" and k: "\<And>a. turns F (k a) g"
  shows "turns F (bnd m k) (\<lambda>d. g (f d))"
  unfolding turns_def wp_bnd
proof (intro allI impI)
  fix w :: world assume "files w = F"
  with m have "wp m (\<lambda>_ w'. db w' = f (db w) \<and> files w' = F) (\<lambda>_ _. True) w" by (simp add: turns_def)
  then show "wp m (\<lambda>a. wp (k a) (\<lambda>_ w'. db w' = g (f (db w)) \<and> files w' = F) (\<lambda>_ _. True)) (\<lambda>_ _. True) w"
  proof (rule wp_mono)
    fix a and w' :: world assume "db w' = f (db w) \<and> files w' = F"
    with k [of a, unfolded turns_def, rule_format, of w']
    show "wp (k a) (\<lambda>_ w'. db w' = g (f (db w)) \<and> files w' = F) (\<lambda>_ _. True) w'" by simp
  qed simp
qed

lemma turns_thn: "turns F m f \<Longrightarrow> turns F n g \<Longrightarrow> turns F (thn m n) (\<lambda>d. g (f d))"
  unfolding thn_def by (rule turns_bnd)

lemma turns_gets: "(\<And>w. files w = F \<Longrightarrow> g w = x) \<Longrightarrow> turns F (k x) f \<Longrightarrow> turns F (bnd (gets g) k) f"
  by (simp add: turns_def wp_simps)

lemma turns_known:
  assumes m: "yields F m (\<lambda>d. (x, d))" and k: "turns F (k x) g"
  shows "turns F (bnd m k) g"
  unfolding turns_def wp_bnd
proof (intro allI impI)
  fix w :: world assume "files w = F"
  with m have "wp m (\<lambda>r w'. r = x \<and> db w' = db w \<and> files w' = F) (\<lambda>_ _. True) w" by (simp add: yields_def)
  then show "wp m (\<lambda>a. wp (k a) (\<lambda>_ w'. db w' = g (db w) \<and> files w' = F) (\<lambda>_ _. True)) (\<lambda>_ _. True) w"
    by (rule wp_mono) (use k in \<open>auto simp: turns_def\<close>)
qed

lemma turns_fold:
  "(\<And>s x. turns F (body s x) (g x)) \<Longrightarrow> turns F (fold_io body s xs) (\<lambda>d. foldl (\<lambda>d x. g x d) d xs)"
proof (induction xs arbitrary: s)
  case Nil
  show ?case by (simp add: turns_ret)
next
  case (Cons x xs)
  show ?case
    unfolding fold_io.simps
    by (rule turns_eq [OF turns_bnd [OF Cons.prems Cons.IH]]) (simp_all add: Cons.prems)
qed

definition relocate_file :: "path \<Rightarrow> path \<Rightarrow> filename \<Rightarrow> filename \<Rightarrow> database \<Rightarrow> database" where
  "relocate_file date_dir downloads log_filename fname d =
     (if fname = ''MANIFEST.tsv'' \<or> fname = log_filename \<or> \<not> SNAPSHOT_FILENAME_RE fname then d
      else snd (sql_relocate Skimmed date_dir fname downloads (snd (sql_relocate Read date_dir fname downloads d))))"

definition rehydrate_entry :: "store \<Rightarrow> path \<Rightarrow> path \<Rightarrow> filename \<Rightarrow> database \<Rightarrow> database" where
  "rehydrate_entry F icloud downloads e d =
     (if DATE_DIR_RE e \<and> dir_in F (path_join icloud e)
      then foldl (\<lambda>d f. relocate_file (path_join icloud e) downloads (log_filename_for e) f d)
             (snd (sql_upsert_snapshot e
                (if node_at F (comps_of (path_join (path_join icloud e) ''MANIFEST.tsv'')) \<noteq> None then 1 else 0) d))
             (sort (children (comps_of (path_join icloud e)) F))
      else d)"

lemma turns_file: "turns F (rehydrate_file dd dl lf st f) (relocate_file dd dl lf f)"
proof (cases "f = ''MANIFEST.tsv'' \<or> f = lf \<or> \<not> SNAPSHOT_FILENAME_RE f")
  case True
  then show ?thesis
    by (intro turns_eq [OF turns_ret [of F st, THEN back_subst [of "\<lambda>m. turns F m _"]]])
      (auto simp: rehydrate_file_def relocate_file_def)
next
  case False
  have "turns F (bnd (sql [ReadEvents] (sql_relocate Read dd f dl)) (\<lambda>n.
        bnd (sql [SkimmedEvents] (sql_relocate Skimmed dd f dl)) (\<lambda>m.
        if n + m > 0 then ret (st\<lparr>n_events_relocated := n_events_relocated st + (n + m)\<rparr>)
        else ret (st\<lparr>n_files_without_events := n_files_without_events st + 1\<rparr>))))
     (\<lambda>d. snd (sql_relocate Skimmed dd f dl (snd (sql_relocate Read dd f dl d))))"
    by (intro turns_eq [OF turns_bnd [OF turns_sql turns_bnd [OF turns_sql, where g = "\<lambda>d. d"]]])
      (auto intro: turns_ret)
  then show ?thesis
    using False by (auto simp: rehydrate_file_def relocate_file_def Let_def elim!: turns_eq)
qed

lemma turns_dir: "turns F (rehydrate_dir icloud dl st e) (rehydrate_entry F icloud dl e)"
proof (cases "DATE_DIR_RE e \<and> dir_in F (path_join icloud e)")
  case True
  let ?dd = "path_join icloud e"
  define m where "m \<longleftrightarrow> node_at F (comps_of (path_join ?dd ''MANIFEST.tsv'')) \<noteq> None"
  have body: "turns F (thn (sql [Snapshots] (sql_upsert_snapshot e (if m then 1 else 0)))
       (bnd (listdir ?dd) (\<lambda>names. fold_io (rehydrate_file ?dd dl (log_filename_for e)) st' (sort names))))
      (rehydrate_entry F icloud dl e)" for st'
    by (rule turns_eq [OF turns_thn [OF turns_sql turns_known [OF yields_listdir turns_fold [OF turns_file]]]])
      (use True in \<open>simp add: rehydrate_entry_def m_def\<close>)
  have "turns F (bnd (gets (isdir ?dd)) (\<lambda>dir. if \<not> dir then ret st
      else bnd (gets (exists (path_join ?dd ''MANIFEST.tsv''))) (\<lambda>manifest.
        thn (sql [Snapshots] (sql_upsert_snapshot e (if manifest then 1 else 0)))
          (bnd (listdir ?dd) (\<lambda>names. fold_io (rehydrate_file ?dd dl (log_filename_for e)) (k manifest) (sort names))))))
      (rehydrate_entry F icloud dl e)" for k
    by (rule turns_gets [where x = True], use True in \<open>simp add: isdir_in\<close>, simp only: not_True_eq_False if_False,
        rule turns_gets [where x = m], simp add: exists_def m_def, rule body)
  with True show ?thesis
    unfolding rehydrate_dir_def Let_def by (simp only: not_True_eq_False if_False)
next
  case False
  show ?thesis
  proof (cases "DATE_DIR_RE e")
    case True
    with False show ?thesis
      unfolding rehydrate_dir_def Let_def
      by (simp, intro turns_gets [where x = False] turns_eq [OF turns_ret])
        (simp_all add: isdir_in rehydrate_entry_def turns_eq [OF turns_ret])
  next
    case not: False
    then show ?thesis
      by (simp add: rehydrate_dir_def rehydrate_entry_def [abs_def] turns_ret)
  qed
qed

lemma turns_rehydrate:
  "turns F (rehydrate_filesystem cfg icloud dl)
     (\<lambda>d. if dir_in F icloud
          then foldl (\<lambda>d e. rehydrate_entry F icloud dl e d) (schema_sql (DOWNLOADS_SNAPSHOTS_DIR cfg) d)
                 (sort (children (comps_of icloud) F))
          else d)"
proof (cases "dir_in F icloud")
  case True
  have e: "turns F (ensure_snapshots_table cfg) (schema_sql (DOWNLOADS_SNAPSHOTS_DIR cfg))"
    unfolding ensure_snapshots_table_def
    by (cases "host_importable cfg")
      (auto simp: turns_def wp_simps executescript_def intro!: wp_db_op wp_commit simp: wp_def [of "\<lambda>w. (Inr (), _ w)"])
  have c: "turns F (thn commit (ret st)) (\<lambda>d. d)" for st :: rehydrate_stats
    by (rule turns_eq [OF turns_thn [OF yields_turns [OF yields_commit] turns_ret]]) simp
  show ?thesis
    unfolding rehydrate_filesystem_def
    by (rule turns_gets [where x = True], use True in \<open>simp add: isdir_in\<close>, simp only: not_True_eq_False if_False,
        rule turns_eq [OF turns_thn [OF e turns_known [OF yields_listdir turns_bnd [OF turns_fold [OF turns_dir] c]]]])
      (simp add: True)
next
  case False
  show ?thesis
    unfolding rehydrate_filesystem_def
    by (rule turns_gets [where x = False], use False in \<open>simp add: isdir_in\<close>, simp add: False turns_ret)
qed

end
