(* ===== verification/RebuildProperties.thy ===== *)
theory RebuildProperties
  imports RebuildSound
begin

text \<open>
  The properties of the rebuilder (\<open>native-host/visits_rebuilder.py\<close>).
\<close>

section \<open>From runs to statements\<close>

lemma yields_run:
  "yields (files w) m f \<Longrightarrow> m w = (Inr r, w') \<Longrightarrow> r = fst (f (db w)) \<and> db w' = snd (f (db w)) \<and> files w' = files w"
  by (auto simp: yields_def wp_def dest!: spec [of _ w])

lemma turns_run: "turns (files w) m g \<Longrightarrow> m w = (Inr r, w') \<Longrightarrow> db w' = g (db w) \<and> files w' = files w"
  by (auto simp: turns_def wp_def dest!: spec [of _ w])

section \<open>Replaying twice\<close>

lemma insert_day_noop: "has_key s_date day (snapshots d) \<Longrightarrow> snd (sql_insert_snapshot day d) = d"
  by (simp add: sql_insert_snapshot_def)

lemma insert_days_has:
  "has_key s_date day (snapshots (insert_days days d)) \<longleftrightarrow> day \<in> set days \<or> has_key s_date day (snapshots d)"
  by (induction days arbitrary: d) (auto simp: insert_days_def sql_insert_snapshot_def tbl_simps)

lemma insert_days_noop: "(\<And>day. day \<in> set days \<Longrightarrow> has_key s_date day (snapshots d)) \<Longrightarrow> insert_days days d = d"
  by (induction days) (simp_all add: insert_days_def insert_day_noop)

lemma insert_days_actions:
  "apply_actions cfg as (insert_days days d) = insert_days days (apply_actions cfg as d)"
  by (induction days arbitrary: d) (simp_all add: insert_days_def insert_day_actions)

lemma snapshots_of_actions [simp]: "snapshots (apply_actions cfg as d) = snapshots d"
  by (induction as arbitrary: d) (simp_all add: apply_actions_def)

lemma replay_twice:
  "insert_days days (apply_actions cfg as (insert_days days (apply_actions cfg as d)))
    = insert_days days (apply_actions cfg as d)"
proof -
  have "apply_actions cfg as (apply_actions cfg as d) = apply_actions cfg as d"
    unfolding apply_actions_eq by (rule rebuild_replay.redelivery) simp
  then have "apply_actions cfg as (insert_days days (apply_actions cfg as d)) = insert_days days (apply_actions cfg as d)"
    by (simp add: insert_days_actions)
  then show ?thesis by (simp add: insert_days_noop insert_days_has)
qed

section \<open>The first visit\<close>

lemma lookup_update_where:
  assumes "\<And>x. key (f x) = key x"
  shows "lookup_key key k (snd (update_where P f t)) =
    map_option (\<lambda>x. if P x then f x else x) (lookup_key key k t)"
  using assms by (induction t) (auto simp: update_where_def)

definition page :: "url \<Rightarrow> database \<Rightarrow> (timestamp \<times> string) option" where
  "page u d = map_option (\<lambda>v. (v_timestamp v, v_title v)) (lookup_key v_url u (visits d))"

lemma page_insert: "page u (snd (sql_insert_visit url ts ti d)) =
  (case page u d of None \<Rightarrow> if u = url then Some (ts, ti) else None | Some x \<Rightarrow> Some x)"
  by (auto simp: page_def sql_insert_visit_def lookup_insert_or_ignore new_visit_def split: option.splits)

lemma bump_title [simp]: "v_title (bump_counter tg v) = v_title v"
  by (cases tg) simp_all

lemma page_event [simp]: "page u (db_event tg e d) = page u d"
proof -
  have "lookup_key v_url u (snd (update_where (\<lambda>v. v_url v = x) (bump_counter tg) vs))
      = map_option (\<lambda>v. if v_url v = x then bump_counter tg v else v) (lookup_key v_url u vs)" for x vs
    by (rule lookup_update_where) simp
  then show ?thesis
    by (auto simp: page_def db_event_def sql_bump_def option.map_comp comp_def intro!: map_option_cong)
qed

lemma page_of_interest [simp]: "page u (snd (sql_set_of_interest url d)) = page u d"
proof -
  have "lookup_key v_url u (snd (update_where (\<lambda>v. v_url v = url) (\<lambda>v. v\<lparr>v_of_interest := Some ''1''\<rparr>) vs))
      = map_option (\<lambda>v. if v_url v = url then v\<lparr>v_of_interest := Some ''1''\<rparr> else v) (lookup_key v_url u vs)" for vs :: "visit list"
    by (rule lookup_update_where) simp
  then have "page u (snd (sql_set_of_interest url d)) =
      map_option (\<lambda>v. (v_timestamp v, v_title v))
        (map_option (\<lambda>v. if v_url v = url then v\<lparr>v_of_interest := Some ''1''\<rparr> else v) (lookup_key v_url u (visits d)))"
    by (simp add: page_def sql_set_of_interest_def case_prod_beta)
  also have "\<dots> = page u d"
    unfolding page_def option.map_comp by (rule map_option_cong) auto
  finally show ?thesis .
qed

lemma page_action: "page u (db_action cfg a d) =
  (case page u d of None \<Rightarrow> if u = a_url a then Some (a_timestamp a, a_title a) else None | Some x \<Rightarrow> Some x)"
  by (simp add: db_action_def Let_def page_insert)

lemma page_actions: "page u (apply_actions cfg as d) =
  (case page u d of
     None \<Rightarrow> map_option (\<lambda>a. (a_timestamp a, a_title a)) (find (\<lambda>a. a_url a = u) as)
   | Some x \<Rightarrow> Some x)"
proof (induction as arbitrary: d)
  case Nil
  then show ?case by (simp add: apply_actions_def split: option.split)
next
  case (Cons a as)
  then show ?case by (auto simp: apply_actions_def page_action split: option.split)
qed

section \<open>The visits of a rebuilt database\<close>

text \<open>The part of the database the actions read and write.\<close>

definition core :: "database \<Rightarrow> visit list \<times> event list \<times> event list" where
  "core d = (visits d, read_events d, skimmed_events d)"

lemma core_action: "core d = core d' \<Longrightarrow> core (db_action cfg a d) = core (db_action cfg a d')"
proof -
  assume c: "core d = core d'"
  let ?D = "\<lambda>d. snd (sql_insert_visit (a_url a) (a_timestamp a) (a_title a) d)"
  have D: "core (?D d) = core (?D d')"
    using c by (simp add: core_def sql_insert_visit_def)
  have i: "core (snd (sql_set_of_interest u x)) = core (snd (sql_set_of_interest u y))" if "core x = core y" for u x y
    using that by (simp add: core_def sql_set_of_interest_def update_where_def)
  have e: "core (db_event tg ev x) = core (db_event tg ev y)" if "core x = core y" for tg ev x y
    using that by (cases tg) (auto simp: core_def db_event_def sql_bump_def)
  show ?thesis
    unfolding db_action_def Let_def if_distrib [of core] i [OF D] e [OF D] D ..
qed

lemma core_actions: "core d = core d' \<Longrightarrow> core (apply_actions cfg as d) = core (apply_actions cfg as d')"
proof (induction as arbitrary: d d')
  case Nil
  then show ?case by (simp add: apply_actions_def)
next
  case (Cons a as)
  from Cons.IH [OF core_action [OF Cons.prems]] show ?case by (simp add: apply_actions_def)
qed

lemma core_days [simp]: "core (insert_days days d) = core d"
  by (induction days arbitrary: d) (simp_all add: insert_days_def core_def sql_insert_snapshot_def)

lemma core_create [simp]: "core (create_table t d) = core d" "core (create_events tg p d) = core d"
  by (cases tg; simp add: core_def create_table_def create_events_def)+

lemma core_schema [simp]: "core (schema_sql p d) = core d"
  by (simp add: schema_sql_def)

lemma visits_relocate [simp]: "visits (snd (sql_relocate tg dir f dl d)) = visits d"
  by (cases tg) (simp_all add: sql_relocate_def update_where_def)

lemma turns_schema: "turns F (ensure_db cfg) (schema_sql (DOWNLOADS_SNAPSHOTS_DIR cfg))"
  "turns F (ensure_snapshots_table cfg) (schema_sql (DOWNLOADS_SNAPSHOTS_DIR cfg))"
  unfolding ensure_snapshots_table_def ensure_db_def
  by (cases "host_importable cfg",
      auto simp: turns_def wp_simps executescript_def intro!: wp_db_op wp_commit simp: wp_def [of "\<lambda>w. (Inr (), _ w)"])

text \<open>Stage by stage: the rows the replay leaves, and its counts in the result.\<close>

definition rebuilt :: "config \<Rightarrow> store \<Rightarrow> path \<Rightarrow> path \<Rightarrow> database \<Rightarrow> database" where
  "rebuilt cfg F log_dir icloud d = apply_actions cfg (applied (log_lines F log_dir icloud)) d"

text \<open>
  A view of the visits and events in which the directory of a file does not show: rehydrating leaves it
  alone, so that it is the replay that decides it.
\<close>

locale replay_view =
  fixes V :: "database \<Rightarrow> 'v"
  assumes view_core: "core d = core d' \<Longrightarrow> V d = V d'"
    and view_relocate: "V (snd (sql_relocate tg dir f dl d)) = V d"
begin

lemma view_schema [simp]: "V (schema_sql p d) = V d"
  by (rule view_core) simp

lemma view_relocate_file [simp]: "V (relocate_file dd dl lf f d) = V d"
  by (simp add: relocate_file_def view_relocate)

lemma view_entry [simp]: "V (rehydrate_entry F icloud dl e d) = V d"
proof -
  have "V (foldl (\<lambda>d f. relocate_file dd dl lf f d) d fs) = V d" for dd lf fs d
    by (induction fs arbitrary: d) simp_all
  moreover have "V (snd (sql_upsert_snapshot e b d)) = V d" for b
    by (rule view_core) (simp add: sql_upsert_snapshot_def core_def)
  ultimately show ?thesis by (simp add: rehydrate_entry_def)
qed

lemma view_entries: "V (foldl (\<lambda>d e. rehydrate_entry F icloud dl e d) d es) = V d"
  by (induction es arbitrary: d) simp_all

lemma rebuild_replayed:
  "wp (rebuild cfg l i c True do_rehydrate True)
     (\<lambda>st w'. replay st = Some (final_stats (log_lines (files w) l i))
        \<and> V (db w') = V (rebuilt cfg (files w) l i empty_database)) (\<lambda>_ _. True) w"
proof -
  let ?F = "files w"
  let ?st = "final_stats (log_lines ?F l i)"
  let ?V = "\<lambda>w'. files w' = ?F \<and> V (db w') = V (rebuilt cfg ?F l i empty_database)"
  have reh: "wp (if do_rehydrate then bnd (rehydrate_filesystem cfg i c) (\<lambda>s. ret (Some s)) else ret None)
      (\<lambda>_ w'. ?V w') (\<lambda>_ _. True) w'" if "?V w'" for w'
  proof -
    have "wp (rehydrate_filesystem cfg i c) (\<lambda>_ w'. ?V w') (\<lambda>_ _. True) w'"
      using turns_rehydrate [of ?F cfg i c, unfolded turns_def, rule_format, of w'] that
      by (auto elim!: wp_mono simp: view_entries intro: view_core)
    then have "wp (bnd (rehydrate_filesystem cfg i c) (\<lambda>s. ret (Some s))) (\<lambda>_ w'. ?V w') (\<lambda>_ _. True) w'"
      unfolding wp_bnd by (rule wp_mono) (simp_all add: wp_ret)
    with that show ?thesis by (simp only: wp_if wp_ret split: if_split) blast
  qed
  have rep: "wp (bnd (replay_logs cfg l i) (\<lambda>s. ret (Some s)))
      (\<lambda>r w'. r = Some ?st \<and> ?V w') (\<lambda>_ _. True) w'" if "files w' = ?F" "core (db w') = core empty_database" for w'
  proof -
    have "V (insert_days days (apply_actions cfg as (db w'))) = V (apply_actions cfg as empty_database)" for days as
      by (rule view_core) (simp add: core_actions [OF that(2)])
    then show ?thesis
      unfolding wp_bnd wp_ret
      using yields_replay [of ?F cfg l i, unfolded yields_def, rule_format, OF that(1)]
      by (elim wp_mono) (simp_all add: rebuilt_def)
  qed
  have ens: "wp (ensure_db cfg) (\<lambda>_ w'. files w' = ?F \<and> core (db w') = core empty_database) (\<lambda>_ _. True) w'"
    "wp (ensure_snapshots_table cfg) (\<lambda>_ w'. files w' = ?F \<and> core (db w') = core empty_database) (\<lambda>_ _. True) w'"
    if "files w' = ?F" "core (db w') = core empty_database" for w'
    using turns_schema [of ?F cfg, unfolded turns_def] that by (auto elim!: wp_mono)
  have tr: "wp truncate_rebuildable_tables (\<lambda>_ w'. files w' = ?F \<and> core (db w') = core empty_database) (\<lambda>_ _. True) w"
    by (rule wp_mono [OF wp_truncate]) (simp_all add: emptied_def core_def empty_database_def)
  show ?thesis
    unfolding rebuild_def if_True wp_thn wp_bnd [of "if do_rehydrate then _ else _"] wp_bnd [of "bnd (replay_logs _ _ _) _"] wp_ret
    by (rule wp_mono [OF tr], rule wp_mono [OF ens(1)], simp, simp, rule wp_mono [OF ens(2)], simp, simp,
        rule wp_mono [OF rep], simp, simp, rule wp_mono [OF reh]) simp_all
qed

end

interpretation visits_view: replay_view visits
  by unfold_locales (simp_all add: core_def)

lemma wp_rebuild_counts:
  "wp (rebuild cfg l i c True do_rehydrate trunc)
     (\<lambda>st w'. replay st = Some (final_stats (log_lines (files w) l i))) (\<lambda>_ _. True) w"
proof -
  let ?F = "files w"
  let ?same = "\<lambda>_ w'. files w' = ?F"
  have rep: "wp (bnd (replay_logs cfg l i) (\<lambda>s. ret (Some s)))
      (\<lambda>r w'. r = Some (final_stats (log_lines ?F l i))) (\<lambda>_ _. True) w'" if "files w' = ?F" for w'
    unfolding wp_bnd
    by (rule wp_mono [OF yields_replay [of ?F cfg l i, unfolded yields_def, rule_format, OF that]])
      (simp_all add: wp_ret)
  have ens: "wp (ensure_db cfg) ?same (\<lambda>_ _. True) w'" "wp (ensure_snapshots_table cfg) ?same (\<lambda>_ _. True) w'"
    if "files w' = ?F" for w'
    using turns_schema [of ?F cfg, unfolded turns_def] that by (auto elim!: wp_mono)
  have tr: "wp (if trunc then truncate_rebuildable_tables else ret ()) ?same (\<lambda>_ _. True) w"
    using wp_mono [OF wp_truncate, of w ?same "\<lambda>_ _. True"] by (auto simp: wp_simps)
  have any: "wp m (\<lambda>_ _. True) (\<lambda>_ _. True) w'" for m :: "'x io" and w'
    by (auto simp: wp_def split: prod.split sum.split)
  show ?thesis
    unfolding rebuild_def if_True wp_thn wp_bnd [of "if do_rehydrate then _ else _"] wp_bnd [of "bnd (replay_logs _ _ _) _"] wp_ret
    by (rule wp_mono [OF tr], rule wp_mono [OF ens(1)], simp, rule wp_mono [OF ens(2)], simp,
        rule wp_mono [OF rep], simp, rule wp_mono [OF any]) simp_all
qed

lemma is_exceptionI: "is_os_error e \<Longrightarrow> is_exception e" "is_sqlite_error e \<Longrightarrow> is_exception e"
  by (cases e; simp)+

lemma raises_exception_os: "raises is_os_error m \<Longrightarrow> raises is_exception m"
  and raises_exception_sqlite: "raises is_sqlite_error m \<Longrightarrow> raises is_exception m"
  by (auto elim: raises_mono intro: is_exceptionI)

lemmas exception_leaves = os_raises [THEN raises_exception_os] sql_raises [THEN raises_exception_sqlite]

lemmas exception_rules = raises_ret raises_gets raises_bnd raises_thn raises_if raises_fold_io raises_for_each
  raises_option exception_leaves

lemma exception_visit: "raises is_exception (insert_visit ts u ti)"
  unfolding insert_visit_def by (intro exception_rules)

lemma exception_tag: "raises is_exception (tag_visit cfg u t ts f)"
  unfolding tag_visit_def insert_event_def by (intro exception_rules)

lemma exception_line: "raises is_exception (replay_line cfg ps raw)"
  by (cases ps) (auto simp: replay_line_kind apply_action_def Let_def
      intro!: exception_rules exception_visit exception_tag split: line_kind.split option.split)

lemma exception_collect: "raises is_exception (collect_log_paths a b)"
  unfolding collect_log_paths_def logs_of_date_entry_def [abs_def] log_in_date_dir_def [abs_def]
    log_in_log_dir_def [abs_def] Let_def
  by (intro exception_rules)

lemma exception_replay: "raises is_exception (replay_logs cfg a b)"
  unfolding replay_logs_def replay_one_file_def [abs_def] case_prod_beta
  by (intro exception_rules exception_collect exception_line)

lemma exception_ensure: "raises is_exception (ensure_db cfg)" "raises is_exception (ensure_snapshots_table cfg)"
  unfolding ensure_db_def ensure_snapshots_table_def by (intro exception_rules raises_throw; simp)+

lemma exception_rehydrate: "raises is_exception (rehydrate_filesystem cfg a b)"
  unfolding rehydrate_filesystem_def rehydrate_dir_def [abs_def] rehydrate_file_def [abs_def] Let_def
  by (intro exception_rules exception_ensure)

lemma exception_rebuild: "raises is_exception (rebuild cfg a b c dl dr t)"
  unfolding rebuild_def truncate_rebuildable_tables_def
  by (intro exception_rules exception_ensure exception_replay exception_rehydrate)

lemma wp_raises: "raises R m \<Longrightarrow> wp m Q E w \<Longrightarrow> wp m Q (\<lambda>e w'. E e w' \<and> R e) w"
  by (cases "m w"; cases "fst (m w)") (auto simp: wp_def dest: raisesD)

lemma wp_cli_zero:
  "wp (rebuild_cli cfg args)
     (\<lambda>r w'. r = 0 \<and> \<not> rehydrate_only args \<longrightarrow>
        \<not> has_skipped_lines (final_stats (log_lines (files w)
           (or_else (opt_log_dir args) (LOG_DIR cfg)) (or_else (opt_dest args) (ICLOUD_SNAPSHOTS_DIR cfg)))))
     (\<lambda>e _. e = SystemExit 2) w"
proof -
  let ?l = "or_else (opt_log_dir args) (LOG_DIR cfg)" and ?i = "or_else (opt_dest args) (ICLOUD_SNAPSHOTS_DIR cfg)"
  let ?skip = "has_skipped_lines (final_stats (log_lines (files w) ?l ?i))"
  let ?ok = "\<lambda>r. r = (0::int) \<and> \<not> rehydrate_only args \<longrightarrow> \<not> ?skip"
  have any: "wp (rebuild c ?l ?i d do_log dr t) (\<lambda>st _. do_log \<longrightarrow> replay st = Some (final_stats (log_lines (files w) ?l ?i)))
      (\<lambda>_ _. True) w'" if "files w' = files w" for c d do_log dr t w'
  proof (cases do_log)
    case True
    then show ?thesis using wp_rebuild_counts [of c ?l ?i d dr t w'] that by simp
  next
    case False
    then show ?thesis by (auto simp: wp_def split: prod.split sum.split)
  qed
  have run: "wp (rebuild c ?l ?i d do_log dr t) (\<lambda>st _. do_log \<longrightarrow> replay st = Some (final_stats (log_lines (files w) ?l ?i)))
      (\<lambda>e _. is_exception e) w'" if "files w' = files w" for c d do_log dr t w'
    by (rule wp_mono [OF wp_raises [OF exception_rebuild any [OF that]]]) simp_all
  have sum: "wp (print_summary st) (\<lambda>_ _. P) E w'" if P for st P E w'
    using that by (simp add: print_summary_def wp_def print_out_def)
  have conn: "wp connect (\<lambda>_ w'. files w' = files w) (\<lambda>e w'. is_exception e) w"
    unfolding connect_def by (intro wp_db_op) (auto simp: wp_def intro: is_exceptionI)
  have att: "wp (catch (thn connect (lastly (bnd (rebuild c ?l ?i d do_log dr t) (\<lambda>s. ret (Some s))) close))
       (\<lambda>exc. if is_exception exc then ret None else throw exc))
      (\<lambda>st _. case st of None \<Rightarrow> True | Some s \<Rightarrow> do_log \<longrightarrow> replay s = Some (final_stats (log_lines (files w) ?l ?i)))
      (\<lambda>_ _. False) w" for c d do_log dr t
  proof -
    have "wp (lastly (bnd (rebuild c ?l ?i d do_log dr t) (\<lambda>s. ret (Some s))) close)
      (\<lambda>st _. case st of None \<Rightarrow> True | Some s \<Rightarrow> do_log \<longrightarrow> replay s = Some (final_stats (log_lines (files w) ?l ?i)))
      (\<lambda>e _. is_exception e) w'" if "files w' = files w" for w'
      unfolding wp_lastly wp_bnd by (rule wp_mono [OF run [OF that]]) (simp_all add: wp_ret)
    then show ?thesis
      unfolding wp_catch wp_thn
      by (intro wp_mono [OF conn]) (auto simp: wp_simps elim!: wp_mono)
  qed
  have fin: "wp (case st of None \<Rightarrow> ret 2 | Some s \<Rightarrow> thn (print_summary s)
       (ret (if case replay s of None \<Rightarrow> False | Some r \<Rightarrow> has_skipped_lines r then 1 else 0)))
      (\<lambda>r _. ?ok r) (\<lambda>e _. e = SystemExit 2) w'"
    if "case st of None \<Rightarrow> True | Some s \<Rightarrow> \<not> rehydrate_only args \<longrightarrow> replay s = Some (final_stats (log_lines (files w) ?l ?i))"
    for st w'
  proof (cases st)
    case None
    then show ?thesis by (simp add: wp_ret)
  next
    case (Some s)
    with that show ?thesis
      by (auto simp: wp_thn print_summary_def wp_print wp_ret)
  qed
  have main: "wp (bnd (catch (thn connect (lastly (bnd (rebuild c ?l ?i d (\<not> rehydrate_only args) dr t) (\<lambda>s. ret (Some s))) close))
       (\<lambda>exc. if is_exception exc then ret None else throw exc))
      (\<lambda>st. case st of None \<Rightarrow> ret 2 | Some s \<Rightarrow> thn (print_summary s)
       (ret (if case replay s of None \<Rightarrow> False | Some r \<Rightarrow> has_skipped_lines r then 1 else 0))))
      (\<lambda>r _. ?ok r) (\<lambda>e _. e = SystemExit 2) w" for c d dr t
    unfolding wp_bnd [of "catch _ _"] by (rule wp_mono [OF att], rule fin) simp_all
  show ?thesis
    using main
    by (auto simp: rebuild_cli_def rebuild_parse_args_def Let_def wp_bnd [of "if _ then _ else _"] wp_bnd [of "gets _"]
        wp_if wp_gets wp_thn wp_throw wp_ret wp_print)
qed

section \<open>Rehydration\<close>

lemma snapshots_relocate [simp]: "snapshots (snd (sql_relocate tg dir f dl d)) = snapshots d"
  by (cases tg) (simp_all add: sql_relocate_def update_where_def)

lemma snapshots_files [simp]: "snapshots (foldl (\<lambda>d f. relocate_file dd dl lf f d) d fs) = snapshots d"
  by (induction fs arbitrary: d) (simp_all add: relocate_file_def)

definition manifest_in :: "store \<Rightarrow> path \<Rightarrow> filename \<Rightarrow> bool" where
  "manifest_in F icloud e \<longleftrightarrow> node_at F (comps_of (path_join (path_join icloud e) ''MANIFEST.tsv'')) \<noteq> None"

lemma entry_snapshots:
  "lookup_key s_date k (snapshots (rehydrate_entry F icloud dl e d)) =
     (if DATE_DIR_RE e \<and> dir_in F (path_join icloud e) \<and> k = e
      then Some (case lookup_key s_date k (snapshots d) of
          None \<Rightarrow> \<lparr>s_date = e, s_sealed = (if manifest_in F icloud e then 1 else 0)\<rparr>
        | Some s \<Rightarrow> s\<lparr>s_sealed := (if manifest_in F icloud e then 1 else 0)\<rparr>)
      else lookup_key s_date k (snapshots d))"
  by (auto simp: rehydrate_entry_def sql_upsert_snapshot_def lookup_upsert manifest_in_def)

definition sealed_as_found :: "store \<Rightarrow> path \<Rightarrow> string \<Rightarrow> database \<Rightarrow> bool" where
  "sealed_as_found F icloud k d \<longleftrightarrow>
     (case lookup_key s_date k (snapshots d) of
        None \<Rightarrow> False
      | Some s \<Rightarrow> s_sealed s = (if manifest_in F icloud k then 1 else 0))"

lemma entries_sealed:
  assumes "DATE_DIR_RE k" and "dir_in F (path_join icloud k)" and "k \<in> set es \<or> sealed_as_found F icloud k d"
  shows "sealed_as_found F icloud k (foldl (\<lambda>d e. rehydrate_entry F icloud dl e d) d es)"
  using assms(3)
proof (induction es arbitrary: d)
  case Nil
  then show ?case by simp
next
  case (Cons e es)
  have "k \<in> set es \<or> sealed_as_found F icloud k (rehydrate_entry F icloud dl e d)"
    using Cons.prems assms(1,2) by (auto simp: sealed_as_found_def entry_snapshots split: option.splits)
  then show ?case using Cons.IH by simp
qed

text \<open>No event of the file \<open>f\<close> still points to Downloads.\<close>

definition moved_out :: "path \<Rightarrow> filename \<Rightarrow> database \<Rightarrow> bool" where
  "moved_out dl f d \<longleftrightarrow> list_all (\<lambda>e. \<not> (e_filename e = f \<and> e_directory e = dl)) (read_events d @ skimmed_events d)"

lemma events_relocate [simp]:
  "read_events (snd (sql_relocate Read dir f dl d)) =
     map (\<lambda>e. if e_filename e = f \<and> e_directory e = dl then e\<lparr>e_directory := dir\<rparr> else e) (read_events d)"
  "skimmed_events (snd (sql_relocate Skimmed dir f dl d)) =
     map (\<lambda>e. if e_filename e = f \<and> e_directory e = dl then e\<lparr>e_directory := dir\<rparr> else e) (skimmed_events d)"
  "read_events (snd (sql_relocate Skimmed dir f dl d)) = read_events d"
  "skimmed_events (snd (sql_relocate Read dir f dl d)) = skimmed_events d"
  by (simp_all add: sql_relocate_def update_where_def)

lemma moved_out_relocate: "dir \<noteq> dl \<Longrightarrow> moved_out dl f d \<Longrightarrow> moved_out dl f (snd (sql_relocate tg dir f' dl d))"
  by (cases tg) (auto simp: moved_out_def list_all_iff)

lemma relocated_out:
  "dir \<noteq> dl \<Longrightarrow> moved_out dl f (snd (sql_relocate Skimmed dir f dl (snd (sql_relocate Read dir f dl d))))"
proof -
  assume "dir \<noteq> dl"
  then have "list_all (\<lambda>e. \<not> (e_filename e = f \<and> e_directory e = dl))
      (map (\<lambda>e. if e_filename e = f \<and> e_directory e = dl then e\<lparr>e_directory := dir\<rparr> else e) es)" for es :: "event list"
    by (induction es) auto
  then show ?thesis by (simp only: moved_out_def list_all_append events_relocate simp_thms)
qed

lemma moved_out_file: "dd \<noteq> dl \<Longrightarrow> moved_out dl f d \<Longrightarrow> moved_out dl f (relocate_file dd dl lf f' d)"
  by (simp add: relocate_file_def moved_out_relocate)

lemma moved_out_files:
  assumes "dd \<noteq> dl" and "moved_out dl f d \<or> f \<in> set fs \<and> SNAPSHOT_FILENAME_RE f \<and> f \<noteq> ''MANIFEST.tsv'' \<and> f \<noteq> lf"
  shows "moved_out dl f (foldl (\<lambda>d f. relocate_file dd dl lf f d) d fs)"
  using assms(2)
proof (induction fs arbitrary: d)
  case Nil
  then show ?case by simp
next
  case (Cons g fs)
  have "moved_out dl f (relocate_file dd dl lf g d) \<or> f \<in> set fs \<and> SNAPSHOT_FILENAME_RE f \<and> f \<noteq> ''MANIFEST.tsv'' \<and> f \<noteq> lf"
  proof (cases "moved_out dl f d")
    case True
    then show ?thesis by (simp add: moved_out_file [OF assms(1)])
  next
    case False
    with Cons.prems show ?thesis
      by (cases "f = g") (auto simp: relocate_file_def relocated_out [OF assms(1)])
  qed
  then show ?case using Cons.IH by simp
qed

lemma moved_out_snapshot [simp]: "moved_out dl f (snd (sql_upsert_snapshot e n d)) = moved_out dl f d"
  by (simp add: moved_out_def sql_upsert_snapshot_def)

lemma snapshot_not_special:
  "SNAPSHOT_FILENAME_RE f \<Longrightarrow> f \<noteq> ''MANIFEST.tsv'' \<and> f \<noteq> log_filename_for e"
  using snapshot_not_log [of e] snapshot_not_manifest by (auto simp: MANIFEST_FILENAME_def)

lemma moved_out_entry:
  assumes "path_join icloud e \<noteq> dl"
    and "moved_out dl f d \<or> DATE_DIR_RE e \<and> dir_in F (path_join icloud e) \<and> SNAPSHOT_FILENAME_RE f
       \<and> f \<in> set (children (comps_of (path_join icloud e)) F)"
  shows "moved_out dl f (rehydrate_entry F icloud dl e d)"
proof (cases "DATE_DIR_RE e \<and> dir_in F (path_join icloud e)")
  case True
  have "moved_out dl f (foldl (\<lambda>d f. relocate_file (path_join icloud e) dl (log_filename_for e) f d)
      (snd (sql_upsert_snapshot e n d)) (sort (children (comps_of (path_join icloud e)) F)))" for n
    using assms(2) snapshot_not_special [of f e] by (intro moved_out_files [OF assms(1)]) auto
  with True show ?thesis by (simp only: rehydrate_entry_def simp_thms if_True)
next
  case False
  with assms(2) show ?thesis by (auto simp: rehydrate_entry_def)
qed

lemma moved_out_entries:
  assumes "\<And>e. e \<in> set es \<Longrightarrow> path_join icloud e \<noteq> dl"
    and "moved_out dl f d \<or> (\<exists>e\<in>set es. DATE_DIR_RE e \<and> dir_in F (path_join icloud e) \<and> SNAPSHOT_FILENAME_RE f
       \<and> f \<in> set (children (comps_of (path_join icloud e)) F))"
  shows "moved_out dl f (foldl (\<lambda>d e. rehydrate_entry F icloud dl e d) d es)"
  using assms
proof (induction es arbitrary: d)
  case Nil
  then show ?case by simp
next
  case (Cons e es)
  have "path_join icloud e \<noteq> dl" using Cons.prems(1) by simp
  then have "moved_out dl f (rehydrate_entry F icloud dl e d) \<or> (\<exists>e\<in>set es. DATE_DIR_RE e \<and> dir_in F (path_join icloud e)
      \<and> SNAPSHOT_FILENAME_RE f \<and> f \<in> set (children (comps_of (path_join icloud e)) F))"
    using Cons.prems(2) moved_out_entry by auto
  then show ?case using Cons.IH Cons.prems(1) by simp
qed

section \<open>Properties\<close>

definition log_id :: string where
  "log_id = ''0123456789abcdef0123456789abcdef''"

definition rebuild_cfg :: config where
  "rebuild_cfg = \<lparr>LOG_DIR = ''/log'', ICLOUD_SNAPSHOTS_DIR = ''/snap'', DOWNLOADS_SNAPSHOTS_DIR = ''/dl'',
     DB_FILE = ''/v.db'', MATCH_BY_FILENAME_ONLY = False, host_importable = True\<rparr>"

text \<open>A log with one pair of lines, and an archived day whose snapshot is still recorded in Downloads.\<close>

definition rebuild_files :: store where
  "rebuild_files =
     [([''log''], Dir),
      ([''log'', ''browser-visits-2024-01-05.log''],
        File (log_id @ [TAB] @ ''t1'' @ [TAB] @ ''u1'' @ [TAB] @ ''T'' @ [NL] @ log_id @ [TAB] @ ''success'' @ [NL]) mode_644)]"

definition rebuild_world :: world where
  "rebuild_world = sample_world\<lparr>files := rebuild_files\<rparr>"

definition archive_files :: store where
  "archive_files =
     [([''snap''], Dir), ([''snap'', ''2024-01-02''], Dir),
      ([''snap'', ''2024-01-02'', ''MANIFEST.tsv''], File ''m'' mode_444),
      ([''snap'', ''2024-01-02'', ''2024-01-02T03-04-05Z-ab.html''], File ''h'' mode_644)]"

definition archive_world :: world where
  "archive_world = sample_world\<lparr>files := archive_files,
     db := (schema_sql ''/dl'' empty_database)\<lparr>read_events := [\<lparr>e_url = ''u'', e_timestamp = ''t'',
        e_filename = ''2024-01-02T03-04-05Z-ab.html'', e_directory = ''/dl''\<rparr>]\<rparr>\<rparr>"

definition plain_args :: rebuild_args where
  "plain_args = \<lparr>log_only = False, rehydrate_only = False, opt_truncate = True, opt_log_dir = None,
     opt_db_path = None, opt_source = None, opt_dest = None\<rparr>"

text \<open>
  The logs are replayed in order of their dates, the archived log of a day before the one in
  \<open>LOG_DIR\<close>, and they are exactly the logs there are: per-day logs in \<open>LOG_DIR\<close> and, in a date directory
  of the archive, the log of that date.
\<close>

theorem log_order:
  "case collect_log_paths log_dir icloud_dir w of
     (Inr paths, w') \<Rightarrow> \<exists>found. paths = map (\<lambda>x. (fst x, snd (snd x))) found \<and> sorted (map log_key found)
       \<and> mset found = mset (found_logs (files w) log_dir icloud_dir)
   | (Inl e, w') \<Rightarrow> True"
proof (cases "collect_log_paths log_dir icloud_dir w")
  case (Pair r w')
  show ?thesis
  proof (cases r)
    case (Inr paths)
    with yields_run [OF yields_collect] Pair
    have "paths = map (\<lambda>x. (fst x, snd (snd x))) (sort_key log_key (found_logs (files w) log_dir icloud_dir))"
      by (fastforce simp: log_paths_def)
    then show ?thesis
      using Pair Inr by (auto intro!: exI [of _ "sort_key log_key (found_logs (files w) log_dir icloud_dir)"])
  qed (simp add: Pair)
qed

text \<open>
  C22. Nothing is lost in the count: when a replay returns, every non-blank line of every log is half of
  a completed pair (applied or an error), a pending action without result, a result without action, or
  malformed, and the reported numbers add up to the lines.
\<close>

theorem replay_accounts_for_lines:
  "case replay_logs cfg log_dir icloud_dir w of
     (Inr s, w') \<Rightarrow>
       2 * (n_success_records s + n_error_records s) + n_orphan_actions s + n_orphan_results s + n_malformed_lines s
       = int (length (filter (\<lambda>l. rstrip_char NL l \<noteq> []) (log_lines (files w) log_dir icloud_dir)))
   | (Inl e, w') \<Rightarrow> True"
proof (cases "replay_logs cfg log_dir icloud_dir w")
  case (Pair r w')
  show ?thesis
  proof (cases r)
    case (Inr s)
    with yields_run [OF yields_replay] Pair have "s = final_stats (log_lines (files w) log_dir icloud_dir)"
      by fastforce
    then show ?thesis
      using final_stats_accounted [of "log_lines (files w) log_dir icloud_dir"] Pair Inr by (simp add: accounted_def)
  qed (simp add: Pair)
qed

text \<open>
  C9. Replay refines its specification: when it returns, the counts are those of the line-by-line
  reference, the database is the old one with the successful actions applied in the order of the logs
  (error records and orphans leave no trace) and a row for each day, and no file has changed.
\<close>

theorem replay_refines:
  "case replay_logs cfg log_dir icloud_dir w of
     (Inr s, w') \<Rightarrow> s = final_stats (log_lines (files w) log_dir icloud_dir) \<and> files w' = files w
       \<and> db w' = insert_days (map fst (log_paths (files w) log_dir icloud_dir))
                   (apply_actions cfg (applied (log_lines (files w) log_dir icloud_dir)) (db w))
   | (Inl e, w') \<Rightarrow> True"
proof (cases "replay_logs cfg log_dir icloud_dir w")
  case (Pair r w')
  show ?thesis
  proof (cases r)
    case (Inr s)
    with Pair have "replay_logs cfg log_dir icloud_dir w = (Inr s, w')" by simp
    from yields_run [OF yields_replay this] Pair Inr show ?thesis by simp
  qed (simp add: Pair)
qed

text \<open>
  C23. Replay is idempotent: a second replay of the same logs reports the same counts and changes no
  row of any table.
\<close>

theorem replay_idempotent:
  "case replay_logs cfg log_dir icloud_dir w of
     (Inr s, w1) \<Rightarrow>
       (case replay_logs cfg log_dir icloud_dir w1 of
          (Inr s', w2) \<Rightarrow> s' = s \<and> db w2 = db w1
        | (Inl e, w2) \<Rightarrow> True)
   | (Inl e, w1) \<Rightarrow> True"
proof -
  have "s' = s \<and> db w2 = db w1"
    if "replay_logs cfg log_dir icloud_dir w = (Inr s, w1)" "replay_logs cfg log_dir icloud_dir w1 = (Inr s', w2)"
    for s w1 s' w2
  proof -
    note one = yields_run [OF yields_replay [of "files w" cfg log_dir icloud_dir] that(1), unfolded fst_conv snd_conv]
    note two = yields_run [OF yields_replay [of "files w1" cfg log_dir icloud_dir] that(2), unfolded fst_conv snd_conv]
    from one have F: "files w1 = files w" by blast
    from two have "s' = s" unfolding F using one by blast
    moreover from two have "db w2 = db w1" unfolding F using one replay_twice by metis
    ultimately show ?thesis ..
  qed
  note again = this
  show ?thesis
  proof (cases "replay_logs cfg log_dir icloud_dir w")
    case (Pair r w1)
    show ?thesis
    proof (cases r)
      case (Inr s)
      obtain r' w2 where two: "replay_logs cfg log_dir icloud_dir w1 = (r', w2)"
        by (cases "replay_logs cfg log_dir icloud_dir w1")
      from again [of s w1 _ w2] Pair Inr two show ?thesis by (cases r') simp_all
    qed (simp add: Pair)
  qed
qed

text \<open>
  The first visit wins: in a rebuilt database a page has the time and title of the earliest
  successful record of its URL, and is missing exactly when there is none.
\<close>

theorem first_visit_wins:
  "case rebuild cfg log_dir icloud_dir downloads True do_rehydrate True w of
     (Inr st, w') \<Rightarrow> map_option (\<lambda>v. (v_timestamp v, v_title v)) (lookup_key v_url u (visits (db w')))
       = map_option (\<lambda>a. (a_timestamp a, a_title a))
           (find (\<lambda>a. a_url a = u) (applied (log_lines (files w) log_dir icloud_dir)))
   | (Inl e, w') \<Rightarrow> True"
proof -
  have "page u (rebuilt cfg F l i empty_database) = map_option (\<lambda>a. (a_timestamp a, a_title a))
      (find (\<lambda>a. a_url a = u) (applied (log_lines F l i)))" for F l i
  proof -
    have "page u empty_database = None" by (simp add: page_def empty_database_def)
    then show ?thesis by (simp add: rebuilt_def page_actions)
  qed
  with visits_view.rebuild_replayed [of cfg log_dir icloud_dir downloads do_rehydrate w] show ?thesis
    by (auto simp: wp_def page_def split: prod.splits sum.splits)
qed

text \<open>
  C11. A rebuild from scratch repairs any database: whatever it held before and whatever failed on the
  way, a rebuild that returns has committed a consistent one (unique URLs and events, every event with
  its visit, counters equal to the number of events).
\<close>

theorem rebuild_repairs:
  "case rebuild cfg log_dir icloud_dir downloads do_log do_rehydrate True w of
     (Inr st, w') \<Rightarrow> db_ok (disk w')
   | (Inl e, w') \<Rightarrow> True"
  using rebuild_truncate_sound [of cfg log_dir icloud_dir downloads do_log do_rehydrate w]
  by (auto simp: wp_def sound_def split: prod.splits sum.splits)

text \<open>
  A rebuild without truncation never commits an inconsistent database, even when it is cut short.
\<close>

theorem rebuild_never_corrupts:
  assumes "db_ok (db w)" and "db_ok (disk w)"
  shows "db_ok (disk (snd (rebuild cfg log_dir icloud_dir downloads do_log do_rehydrate False w)))"
proof -
  have "sound w" using assms by (simp add: sound_def)
  from sound_runD [OF sound_rebuild_no_truncate this, of cfg log_dir icloud_dir downloads do_log do_rehydrate]
  show ?thesis by (auto simp: wp_def sound_def split: prod.splits sum.splits)
qed

theorem rebuild_never_corrupts_witness:
  "db_ok (disk (snd (rebuild rebuild_cfg ''/log'' ''/snap'' ''/dl'' True True False
     (rebuild_world\<lparr>db_faults := [None, None, None, None, None, None, Some (Corrupt ''disk image is malformed'')]\<rparr>))))"
  by (rule rebuild_never_corrupts)
    (simp_all add: rebuild_world_def sample_world_def db_ok_empty empty_database_def)

text \<open>
  C14. Exit code 0 of a rebuild that replays the logs means no line was skipped: each non-blank line
  belongs to a completed pair.
\<close>

theorem exit_zero_means_all_paired:
  assumes "fst (rebuild_cli cfg args w) = Inr 0" and "\<not> rehydrate_only args"
    and "lines = log_lines (files w) (or_else (opt_log_dir args) (LOG_DIR cfg)) (or_else (opt_dest args) (ICLOUD_SNAPSHOTS_DIR cfg))"
  shows "int (length (filter (\<lambda>l. rstrip_char NL l \<noteq> []) lines))
    = 2 * (n_success_records (final_stats lines) + n_error_records (final_stats lines))"
proof -
  have "\<not> has_skipped_lines (final_stats lines)"
    using wp_cli_zero [of cfg args w] assms by (cases "rebuild_cli cfg args w") (simp add: wp_def)
  with final_stats_accounted [of lines] show ?thesis
    by (simp add: accounted_def has_skipped_lines_def)
qed

theorem exit_zero_means_all_paired_witness:
  "int (length (filter (\<lambda>l. rstrip_char NL l \<noteq> []) (log_lines rebuild_files ''/log'' ''/snap'')))
    = 2 * (n_success_records (final_stats (log_lines rebuild_files ''/log'' ''/snap''))
         + n_error_records (final_stats (log_lines rebuild_files ''/log'' ''/snap'')))"
proof (rule exit_zero_means_all_paired)
  show "fst (rebuild_cli rebuild_cfg plain_args rebuild_world) = Inr 0" by code_simp
  show "\<not> rehydrate_only plain_args" by (simp add: plain_args_def)
  show "log_lines rebuild_files ''/log'' ''/snap'' = log_lines (files rebuild_world)
     (or_else (opt_log_dir plain_args) (LOG_DIR rebuild_cfg)) (or_else (opt_dest plain_args) (ICLOUD_SNAPSHOTS_DIR rebuild_cfg))"
    by (simp add: rebuild_world_def plain_args_def rebuild_cfg_def or_else_def)
qed

text \<open>
  The command line raises nothing but the exit code 2 of a wrong combination of options: every
  failure of the rebuild becomes the return value 2.
\<close>

theorem rebuild_cli_errors:
  "case rebuild_cli cfg args w of
     (Inr c, w') \<Rightarrow> True
   | (Inl e, w') \<Rightarrow> e = SystemExit 2"
  using wp_cli_zero [of cfg args w] by (auto simp: wp_def split: prod.splits sum.splits)

text \<open>
  After a rehydration that returns, every date directory of the archive has a \<open>snapshots\<close> row that
  says sealed exactly when the directory has a manifest.
\<close>

theorem rehydrate_marks_sealed:
  assumes "DATE_DIR_RE k" and "dir_in (files w) icloud_dir" and "dir_in (files w) (path_join icloud_dir k)"
    and "k \<in> set (children (comps_of icloud_dir) (files w))"
    and "fst (rehydrate_filesystem cfg icloud_dir downloads w) = Inr st"
  shows "\<exists>s. lookup_key s_date k (snapshots (db (snd (rehydrate_filesystem cfg icloud_dir downloads w)))) = Some s
     \<and> s_sealed s = (if manifest_in (files w) icloud_dir k then 1 else 0)"
proof -
  obtain w' where run: "rehydrate_filesystem cfg icloud_dir downloads w = (Inr st, w')"
    using assms(5) by (cases "rehydrate_filesystem cfg icloud_dir downloads w") simp
  have "sealed_as_found (files w) icloud_dir k (db w')"
    using turns_run [OF turns_rehydrate run] assms(1-4) by (simp add: entries_sealed)
  then show ?thesis by (auto simp: run sealed_as_found_def split: option.splits)
qed

lemma archive_facts:
  "DATE_DIR_RE ''2024-01-02''" "dir_in (files archive_world) ''/snap''"
  "dir_in (files archive_world) (path_join ''/snap'' ''2024-01-02'')"
  "''2024-01-02'' \<in> set (children (comps_of ''/snap'') (files archive_world))"
  "SNAPSHOT_FILENAME_RE ''2024-01-02T03-04-05Z-ab.html''"
  "''2024-01-02T03-04-05Z-ab.html'' \<in> set (children (comps_of (path_join ''/snap'' ''2024-01-02'')) (files archive_world))"
  "list_all (\<lambda>e. path_join ''/snap'' e \<noteq> ''/dl'') (children (comps_of ''/snap'') (files archive_world))"
  by code_simp+

lemma archive_run: "\<exists>st. fst (rehydrate_filesystem rebuild_cfg ''/snap'' ''/dl'' archive_world) = Inr st"
proof -
  have "\<not> isl (fst (rehydrate_filesystem rebuild_cfg ''/snap'' ''/dl'' archive_world))" by code_simp
  then show ?thesis by (cases "fst (rehydrate_filesystem rebuild_cfg ''/snap'' ''/dl'' archive_world)") auto
qed

theorem rehydrate_marks_sealed_witness:
  "\<exists>s. lookup_key s_date ''2024-01-02''
       (snapshots (db (snd (rehydrate_filesystem rebuild_cfg ''/snap'' ''/dl'' archive_world)))) = Some s
     \<and> s_sealed s = (if manifest_in (files archive_world) ''/snap'' ''2024-01-02'' then 1 else 0)"
proof -
  obtain st where "fst (rehydrate_filesystem rebuild_cfg ''/snap'' ''/dl'' archive_world) = Inr st"
    using archive_run by blast
  from rehydrate_marks_sealed [OF archive_facts(1-4) this] show ?thesis .
qed

text \<open>
  After a rehydration that returns, no event of an archived snapshot file still says the file is in
  Downloads.
\<close>

theorem rehydrate_relocates:
  assumes "DATE_DIR_RE k" and "dir_in (files w) icloud_dir" and "dir_in (files w) (path_join icloud_dir k)"
    and "k \<in> set (children (comps_of icloud_dir) (files w))"
    and "SNAPSHOT_FILENAME_RE f" and "f \<in> set (children (comps_of (path_join icloud_dir k)) (files w))"
    and "list_all (\<lambda>e. path_join icloud_dir e \<noteq> downloads) (children (comps_of icloud_dir) (files w))"
    and "fst (rehydrate_filesystem cfg icloud_dir downloads w) = Inr st"
  shows "list_all (\<lambda>ev. \<not> (e_filename ev = f \<and> e_directory ev = downloads))
     (events tg (db (snd (rehydrate_filesystem cfg icloud_dir downloads w))))"
proof -
  obtain w' where run: "rehydrate_filesystem cfg icloud_dir downloads w = (Inr st, w')"
    using assms(8) by (cases "rehydrate_filesystem cfg icloud_dir downloads w") simp
  have "moved_out downloads f (db w')"
    using turns_run [OF turns_rehydrate run] assms(1-7)
    by (auto simp: list_all_iff intro!: moved_out_entries)
  then show ?thesis
    by (cases tg) (simp_all add: run moved_out_def)
qed

theorem rehydrate_relocates_witness:
  "list_all (\<lambda>ev. \<not> (e_filename ev = ''2024-01-02T03-04-05Z-ab.html'' \<and> e_directory ev = ''/dl''))
     (events Read (db (snd (rehydrate_filesystem rebuild_cfg ''/snap'' ''/dl'' archive_world))))"
proof -
  obtain st where "fst (rehydrate_filesystem rebuild_cfg ''/snap'' ''/dl'' archive_world) = Inr st"
    using archive_run by blast
  from rehydrate_relocates [OF archive_facts this] show ?thesis .
qed

end
