(* ===== verification/Migrate.thy ===== *)
theory Migrate
  imports Host
begin

text \<open>
  \<open>browser-visit-tools/migrate_icloud_to_gdrive.py\<close>: copies the archive of snapshots to a new root, file by file
  and checked by hash, and moves the \<open>directory\<close> column of both event tables to that root. The digest is the
  parameter \<open>sha256\<close>. \<open>os.walk\<close> goes at most as deep as the deepest entry of the store, which is the fuel
  of \<open>walk\<close>.
\<close>

section \<open>Copying files\<close>

definition sha256_of :: "(string \<Rightarrow> string) \<Rightarrow> path \<Rightarrow> string io" where
  "sha256_of sha256 p = bnd (read_binary p) (\<lambda>s. ret (sha256 s))"

definition mode_of :: "path \<Rightarrow> world \<Rightarrow> nat" where
  "mode_of p w = (case node_at (files w) (comps_of p) of Some (File _ m) \<Rightarrow> m | _ \<Rightarrow> mode_644)"

text \<open>\<open>shutil.copy2\<close>: the content, then the permission bits.\<close>

definition copy2 :: "path \<Rightarrow> path \<Rightarrow> unit io" where
  "copy2 src dst =
     bnd (read_binary src) (\<lambda>s.
     thn (open_write False dst)
       (thn (write_handle dst s) (bnd (gets (mode_of src)) (\<lambda>m. chmod dst m))))"

definition unlink_missing_ok :: "path \<Rightarrow> unit io" where
  "unlink_missing_ok p = catch (unlink p) (\<lambda>e. case e of OSError ENOENT _ \<Rightarrow> ret () | _ \<Rightarrow> throw e)"

definition migrate_file :: "(string \<Rightarrow> string) \<Rightarrow> path \<Rightarrow> path \<Rightarrow> bool \<Rightarrow> comps \<Rightarrow> int \<Rightarrow> filename \<Rightarrow> int io" where
  "migrate_file sha256 src dst dry_run rel copied fn =
     (let src_path = path_join (foldl path_join src rel) fn;
          out_dir = foldl path_join dst rel;
          dst_path = path_join out_dir fn;
          tmp = dst_path @ ''.partial'' in
      bnd (gets (exists dst_path)) (\<lambda>there.
      if there then
        bnd (sha256_of sha256 src_path) (\<lambda>a.
        bnd (sha256_of sha256 dst_path) (\<lambda>b.
        if a = b then ret copied
        else thn (print_err (''warn: '' @ dst_path @ '' exists with different hash, leaving alone'')) (ret copied)))
      else
        thn (if dry_run then print_out (''would copy: '' @ src_path @ ''  ->  '' @ dst_path)
             else
               thn (makedirs out_dir)
                 (thn (copy2 src_path tmp)
                   (bnd (sha256_of sha256 tmp) (\<lambda>a.
                    bnd (sha256_of sha256 src_path) (\<lambda>b.
                    if a \<noteq> b then thn (unlink_missing_ok tmp) (throw (RuntimeError (''hash mismatch after copy: '' @ src_path)))
                    else move tmp dst_path)))))
          (ret (copied + 1))))"

definition is_file_node :: "store \<Rightarrow> comps \<Rightarrow> bool" where
  "is_file_node fs c = (case node_at fs c of Some (File _ _) \<Rightarrow> True | _ \<Rightarrow> False)"

definition dir_listing :: "comps \<Rightarrow> world \<Rightarrow> string list \<times> string list" where
  "dir_listing c w =
     (filter (\<lambda>n. is_file_node (files w) (c @ [n])) (children c (files w)),
      filter (\<lambda>n. node_at (files w) (c @ [n]) = Some Dir) (children c (files w)))"

fun walk :: "nat \<Rightarrow> comps \<Rightarrow> comps \<Rightarrow> (comps \<Rightarrow> int \<Rightarrow> filename \<Rightarrow> int io) \<Rightarrow> int \<Rightarrow> int io" where
  "walk 0 root rel body n = ret n"
| "walk (Suc k) root rel body n =
     bnd (gets (dir_listing (root @ rel))) (\<lambda>(names, dirs).
     bnd (fold_io (body rel) n names) (\<lambda>n'.
     fold_io (\<lambda>m d. walk k root (rel @ [d]) body m) n' dirs))"

definition depth :: "store \<Rightarrow> nat" where
  "depth fs = fold max (map (length \<circ> fst) fs) 0"

definition migrate_files :: "(string \<Rightarrow> string) \<Rightarrow> path \<Rightarrow> path \<Rightarrow> bool \<Rightarrow> int io" where
  "migrate_files sha256 src dst dry_run =
     bnd (gets (\<lambda>w. depth (files w))) (\<lambda>d.
     walk (Suc d) (comps_of src) [] (migrate_file sha256 src dst dry_run) 0)"

section \<open>Rewriting the directories\<close>

definition ascii_lower :: "char \<Rightarrow> char" where
  "ascii_lower c = (let n = of_char c :: nat in if 65 \<le> n \<and> n \<le> 90 then char_of (n + 32) else c)"

text \<open>SQLite's \<open>LIKE\<close>: per cent and underscore are wildcards, ASCII letters match in either case.\<close>

function like :: "string \<Rightarrow> string \<Rightarrow> bool" where
  "like [] t = (t = [])"
| "like (p # ps) t =
     (if p = CHR ''%'' then like ps t \<or> (case t of [] \<Rightarrow> False | c # cs \<Rightarrow> like (p # ps) cs)
      else (case t of
              [] \<Rightarrow> False
            | c # cs \<Rightarrow> (p = CHR ''_'' \<or> ascii_lower p = ascii_lower c) \<and> like ps cs))"
  by pat_completeness auto
termination by (relation "measure (\<lambda>(ps, t). length ps + length t)") auto

definition with_slash :: "path \<Rightarrow> path" where
  "with_slash p = rstrip_char (CHR ''/'') p @ ''/''"

definition rewrite_event :: "path \<Rightarrow> path \<Rightarrow> event \<Rightarrow> event" where
  "rewrite_event old new e = e\<lparr>e_directory := replace_all old new (e_directory e)\<rparr>"

definition points_into :: "path \<Rightarrow> event \<Rightarrow> bool" where
  "points_into old e = like (old @ ''%'') (e_directory e)"

definition sql_rewrite :: "event_tag \<Rightarrow> path \<Rightarrow> path \<Rightarrow> database \<Rightarrow> int \<times> database" where
  "sql_rewrite tg old new d =
     (let (n, es) = update_where (points_into old) (rewrite_event old new) (events tg d) in (n, set_events tg es d))"

fun table_name :: "event_tag \<Rightarrow> string" where
  "table_name Read = ''read_events''"
| "table_name Skimmed = ''skimmed_events''"

definition rewrite_table :: "path \<Rightarrow> path \<Rightarrow> bool \<Rightarrow> int \<Rightarrow> event_tag \<Rightarrow> int io" where
  "rewrite_table old new dry_run so_far tg =
     (if dry_run then
        bnd (select [event_table tg] (\<lambda>d. int (length (filter (points_into old) (events tg d))))) (\<lambda>n.
        thn (print_out (''would update '' @ int_str n @ '' rows in '' @ table_name tg @ '': '' @ old @ '' -> '' @ new))
          (ret (so_far + n)))
      else bnd (sql [event_table tg] (sql_rewrite tg old new)) (\<lambda>n. ret (so_far + n)))"

definition rewrite_db_directories :: "path \<Rightarrow> path \<Rightarrow> bool \<Rightarrow> int io" where
  "rewrite_db_directories old_root new_root dry_run =
     thn connect
       (lastly
         (bnd (fold_io (rewrite_table (with_slash old_root) (with_slash new_root) dry_run) 0 [Read, Skimmed]) (\<lambda>sum.
          thn (unless dry_run commit) (ret sum)))
         close)"

section \<open>The command\<close>

record migrate_args =
  mi_src :: path
  mi_dst :: path
  mi_db :: path
  mi_dry_run :: bool

definition migrate_main :: "(string \<Rightarrow> string) \<Rightarrow> migrate_args \<Rightarrow> int io" where
  "migrate_main sha256 args =
     (let src = mi_src args; dst = mi_dst args; dry = mi_dry_run args in
      bnd (gets (exists src)) (\<lambda>has_src.
      if \<not> has_src then thn (print_err (''error: --src not found: '' @ src)) (ret 2)
      else bnd (gets (exists (mi_db args))) (\<lambda>has_db.
      if \<not> has_db then thn (print_err (''error: --db not found: '' @ mi_db args)) (ret 2)
      else
        thn (unless dry (makedirs dst))
          (bnd (migrate_files sha256 src dst dry) (\<lambda>copied.
           thn (print_out ((if dry then ''would copy '' else ''copied '') @ int_str copied @ '' files''))
             (bnd (rewrite_db_directories src dst dry) (\<lambda>updated.
              thn (print_out ((if dry then ''would update '' else ''updated '') @ int_str updated @ '' DB rows''))
                (thn (unless dry (print_out (''done. The iCloud copy was left in place; remove it manually ''
                        @ ''after verifying things still work.''))) (ret 0)))))))))"

section \<open>What the rewriting does\<close>

text \<open>Meant: a directory under the old root is the same directory under the new one; no other changes.\<close>

definition relocated :: "path \<Rightarrow> path \<Rightarrow> event \<Rightarrow> event" where
  "relocated old new e =
     (if startswith (e_directory e) old then e\<lparr>e_directory := new @ drop (length old) (e_directory e)\<rparr> else e)"

text \<open>The directories for which the statement does that: the old root occurs in them as their beginning only.\<close>

definition tidy :: "path \<Rightarrow> event \<Rightarrow> bool" where
  "tidy old e \<longleftrightarrow>
     (if startswith (e_directory e) old then \<not> contains (drop (length old) (e_directory e)) old
      else \<not> contains (e_directory e) old)"

lemma like_refl: "like (p @ ''%'') (p @ t)"
proof (induction p)
  case Nil
  have "like ''%'' t" by (induction t) simp_all
  then show ?case by simp
next
  case (Cons c p)
  then show ?case by simp
qed

lemma replace_prefix: "old \<noteq> [] \<Longrightarrow> \<not> contains rest old \<Longrightarrow> replace_all old new (old @ rest) = new @ rest"
  by (cases old) (simp_all add: startswith_def replace_all_none)

lemma rewrite_relocates:
  assumes "old \<noteq> []" and "tidy old e"
  shows "(if points_into old e then rewrite_event old new e else e) = relocated old new e"
proof (cases "startswith (e_directory e) old")
  case True
  then obtain rest where d: "e_directory e = old @ rest" by (auto simp: startswith_iff)
  with assms True have "\<not> contains rest old" by (simp add: tidy_def)
  then show ?thesis
    using assms(1) by (simp add: points_into_def rewrite_event_def relocated_def d like_refl replace_prefix)
next
  case False
  with assms have "replace_all old new (e_directory e) = e_directory e"
    by (simp add: tidy_def replace_all_none)
  then show ?thesis using False by (simp add: rewrite_event_def relocated_def)
qed

definition relocate_db :: "path \<Rightarrow> path \<Rightarrow> database \<Rightarrow> database" where
  "relocate_db old new d =
     d\<lparr>read_events := map (relocated old new) (read_events d), skimmed_events := map (relocated old new) (skimmed_events d)\<rparr>"

lemma sql_rewrite_tidy:
  assumes "old \<noteq> []" and "list_all (tidy old) (events tg d)"
  shows "snd (sql_rewrite tg old new d) = set_events tg (map (relocated old new) (events tg d)) d"
  using assms rewrite_relocates [OF assms(1)]
  by (auto simp: sql_rewrite_def update_where_def list_all_iff intro!: arg_cong [where f = "\<lambda>es. set_events tg es d"])



end
