(* ===== verification/System.thy ===== *)
theory System
  imports SealerProperties OrphanMerge SyncProperties RebuildProperties Migrate
begin

text \<open>
  The programs together. They share one database file and the files around it, and each opens its own
  connection; SQLite lets one of them write at a time, so a history of the installation is a sequence of
  runs. Between the runs anything may happen to the files, the clock, the console and the failures to
  come; the database only changes through the programs.
\<close>

section \<open>Runs\<close>

record installation =
  in_cfg :: config
  in_sync :: sync_config
  in_service :: service

text \<open>A run on a connection of its own.\<close>

definition session :: "'a io \<Rightarrow> 'a io" where
  "session m = thn connect (lastly m close)"

text \<open>
  \<open>Rebuilt\<close> is a rebuild from scratch that returned; one that is cut short between the tables it drops
  leaves a database that only another rebuild repairs, so a history contains none of those.
  \<open>Synced\<close> asks that no SQL statement of the client fails, as its property does.
\<close>

inductive system_step :: "installation \<Rightarrow> world \<Rightarrow> world \<Rightarrow> bool" for i :: installation where
  Outside: "disk w' = disk w \<Longrightarrow> system_step i w w'"
| Visited: "system_step i w (snd (session (insert_visit ts url title) w))"
| Tagged: "system_step i w (snd (session (tag_visit (in_cfg i) url tag ts f) w))"
| Refreshed: "system_step i w (snd (session (rebuild (in_cfg i) log_dir icloud_dir downloads do_log do_rehydrate False) w))"
| Rebuilt: "session (rebuild (in_cfg i) log_dir icloud_dir downloads do_log do_rehydrate True) w = (Inr st, w') \<Longrightarrow>
    system_step i w w'"
| Sealed: "system_step i w (snd (sealer_cli (in_cfg i) args w))"
| Days_sealed: "system_step i w (snd (seal_days_cli (in_cfg i) args w))"
| Synced: "db_faults w = [] \<Longrightarrow>
    system_step i w (snd (sync_main (in_service i) (in_sync i) insecure force machine_id endpoint w))"
| Migrated: "system_step i w (snd (rewrite_db_directories old_root new_root dry w))"

definition disk_ok :: "world \<Rightarrow> bool" where
  "disk_ok w \<longleftrightarrow> db_ok (disk w)"

section \<open>Each run keeps the committed database consistent\<close>

lemma keeps_session:
  assumes "sound_run m"
  shows "keeps disk_ok (session m)"
  unfolding session_def keeps_wp
proof (intro allI impI)
  fix w assume ok: "disk_ok w"
  have inner: "wp m (\<lambda>_ w'. disk_ok (close w')) (\<lambda>_ w'. disk_ok (close w')) (w\<lparr>db_faults := dl, db := disk w, in_tx := False\<rparr>)" for dl
    by (rule wp_mono [OF sound_runD [OF assms]]) (use ok in \<open>auto simp: disk_ok_def sound_def close_def\<close>)
  show "wp (thn connect (lastly m close)) (\<lambda>_. disk_ok) (\<lambda>_. disk_ok) w"
    unfolding wp_thn by (rule wp_connect) (use inner ok in \<open>auto simp: wp_lastly disk_ok_def\<close>)
qed

text \<open>Moving events to other directories changes no key.\<close>

lemma db_ok_map_events:
  assumes "db_ok d" and f: "\<And>e. event_key (f e) = event_key e"
  shows "db_ok (set_events tg (map f (events tg d)) d)"
proof (rule db_okI)
  let ?d = "set_events tg (map f (events tg d)) d"
  have u: "e_url (f e) = e_url e" for e using f [of e] by (simp add: event_key_def)
  show "keyed v_url (visits ?d)" using assms(1) by (simp add: db_ok_def)
  fix tg'
  have e: "events tg' ?d = (if tg = tg' then map f (events tg d) else events tg' d)" by simp
  have "keyed event_key (events tg' ?d)"
    using db_ok_tag [OF assms(1), of tg'] by (cases "tg' = tg") (auto simp: e keyed_def comp_def f)
  moreover have "length (events_of tg' v ?d) = length (events_of tg' v d)" for v
    by (simp add: events_of_def e filter_map_swap comp_def u)
  then have "counts_ok tg' ?d"
    using db_ok_tag [OF assms(1), of tg'] by (simp add: counts_ok_def)
  moreover have "visited tg' ?d"
    using db_ok_tag [OF assms(1), of tg'] by (auto simp: visited_def e list_all_iff u)
  ultimately show "keyed event_key (events tg' ?d) \<and> counts_ok tg' ?d \<and> visited tg' ?d" by blast
qed

lemma db_ok_rewrite: "db_ok d \<Longrightarrow> db_ok (snd (sql_rewrite tg old new d))"
  by (auto simp: sql_rewrite_def update_where_def event_key_def rewrite_event_def intro!: db_ok_map_events)

lemma sound_rewrite: "sound_run (rewrite_table old new dry n tg)"
  unfolding rewrite_table_def
  by (intro sound_rules sound_sql db_ok_rewrite sound_keeps keeps_select sound_blind) (auto simp: keeps_def print_out_def sound_def)

lemma sound_errors_only: "errors_only sound"
  by (simp add: errors_only_def sound_blind sound_def)

lemma sound_files: "sound (w\<lparr>files := fs\<rparr>) = sound w"
  by (simp add: sound_def)

lemma sound_write:
  "keeps sound (unlink p)" "keeps sound (chmod p m)" "keeps sound (open_write k p)" "keeps sound (write_handle p s)"
  by (rule keeps_write [OF sound_blind]; simp add: off_node_def sound_files)+

lemma sound_move: "keeps sound (move p q)"
  unfolding move_def Let_def
  by (rule keeps_fs_op [OF sound_blind])
    (simp add: keeps_def os_raise_def throw_def ret_def sound_files split: option.split node.split)

lemma sound_upsert:
  "keeps sound (sql [Snapshots] (sql_upsert_snapshot k n))" "keeps sound (sql [Snapshots] (sql_insert_snapshot k))"
  by (rule keeps_sql [OF sound_blind]; simp add: sound_def sql_upsert_snapshot_def sql_insert_snapshot_def)+

lemmas sound_steps = sound_write sound_move sound_upsert keeps_read_only [OF sound_blind] keeps_select [OF sound_blind]
  errors_only_commit [OF sound_errors_only] keeps_try_record [OF sound_errors_only] keeps_try_clear [OF sound_errors_only]
  keeps_reconcile [OF sound_errors_only]

lemma sound_scan: "keeps sound (scan_file cfg dir st f)"
  by (cases st) (auto simp: lookup_event_def Let_def intro!: keeps_rules sound_steps)

lemma sound_seal: "keeps sound (seal_directory cfg dir dry key)"
proof -
  have m: "keeps sound (write_manifest_file cfg dir)"
    unfolding write_manifest_file_def build_manifest_rows_def Let_def
    by (auto intro!: keeps_rules sound_scan sound_steps)
  have l: "keeps sound (move_log_into_sealed_dir cfg dir k)" for k
    unfolding move_log_into_sealed_dir_def Let_def by (intro keeps_rules sound_steps)
  show ?thesis
    unfolding seal_directory_def by (intro keeps_rules m l sound_steps)
qed

lemma sound_merge: "keeps sound (orphan_log_merge_pass cfg)"
proof (rule keeps_pass [OF sound_blind])
  show "keeps sound (merge_orphan_log cfg td entry)" for td entry
    unfolding merge_orphan_log_def Let_def by (intro keeps_rules sound_steps)
qed

lemma sound_ensure_tables: "keeps sound (ensure_snapshots_table cfg)" "keeps sound (ensure_mover_errors_table cfg)"
  unfolding ensure_snapshots_table_def ensure_mover_errors_table_def
  by (intro keeps_rules keeps_executescript [OF sound_blind] errors_only_commit [OF sound_errors_only]; simp add: sound_def)+

section \<open>The command lines\<close>

lemma disk_ok_blind: "blind disk_ok"
  by (simp add: blind_def disk_ok_def)

lemma disk_ok_print: "keeps disk_ok (print_out s)" "keeps disk_ok (print_err s)"
  by (simp_all add: keeps_def print_out_def print_err_def disk_ok_def)

lemma keeps_sealer: "keeps disk_ok (sealer_cli cfg args)"
proof -
  have "keeps disk_ok (seal_one c a t)" for c a t
    unfolding seal_one_def session_def [symmetric]
    by (intro keeps_session sound_keeps keeps_rules sound_ensure_tables sound_seal sound_merge)
  then show ?thesis
    unfolding sealer_cli_def refuse_def Let_def by (intro keeps_rules disk_ok_print)
qed

lemma keeps_seal_days: "keeps disk_ok (seal_days_cli cfg args)"
proof -
  have "keeps disk_ok (seal_days c cs)" for c cs
    unfolding seal_days_def session_def [symmetric] case_prod_beta
    by (intro keeps_session sound_keeps keeps_rules sound_ensure_tables sound_seal)
  then show ?thesis
    unfolding seal_days_cli_def refuse_def would_seal_def snapshot_file_count_def day_candidate_def [abs_def] Let_def
    by (intro keeps_rules disk_ok_print keeps_read_only [OF disk_ok_blind])
qed

lemma keeps_migrate: "keeps disk_ok (rewrite_db_directories old_root new_root dry)"
  unfolding rewrite_db_directories_def session_def [symmetric]
  by (intro keeps_session sound_rules sound_rewrite) (auto simp: unless_def intro: sound_rules)

section \<open>The sync client\<close>

text \<open>While nothing fails, each statement of its preparation commits at once.\<close>

definition prepared :: "table list \<Rightarrow> world \<Rightarrow> bool" where
  "prepared ts w \<longleftrightarrow> disk_ok w \<and> db_faults w = [] \<and> db w = disk w \<and> \<not> in_tx w \<and> set ts \<subseteq> set (tables (db w))"

lemma wp_prepare:
  assumes "prepared ts w" and "\<And>d. db_ok d \<Longrightarrow> db_ok (f d)"
    and "\<And>d. set ts \<subseteq> set (tables d) \<Longrightarrow> set ts' \<subseteq> set (tables (f d))"
    and "\<And>w'. prepared ts' w' \<Longrightarrow> Q () w'"
  shows "wp (ddl f) Q E w"
  using assms(1) by (auto simp: wp_def ddl_def db_op_def prepared_def disk_ok_def intro!: assms(2-4))

lemma create_tables:
  "set (tables (create_table t d)) = insert t (set (tables d))"
  "set (tables (create_events tg p d)) = insert (event_table tg) (set (tables d))"
  by (simp_all add: create_table_def create_events_def insert_absorb split: event_tag.split)

lemma open_db_consistent:
  assumes "disk_ok w" and "db_faults w = []"
  shows "wp open_db (\<lambda>_. consistent) (\<lambda>_ _. False) w"
proof -
  have ready: "consistent v" if "prepared [MoverErrors, SyncState, SkimmedEvents, ReadEvents, Visits] v" for v
    using that by (auto simp: prepared_def consistent_def quiet_def disk_ok_def)
  have "wp (thn (ddl (create_table Visits)) (thn (for_each [Read, Skimmed] (\<lambda>tg. ddl (create_events tg [])))
     (thn (ddl (create_table SyncState)) (ddl (create_table MoverErrors))))) (\<lambda>_. consistent) (\<lambda>_ _. False) v"
    if "prepared [] v" for v
    unfolding wp_thn for_each.simps wp_bnd wp_ret
    by (rule wp_prepare [OF that, where ts' = "[Visits]"];
        (rule wp_prepare [where ts = "[Visits]" and ts' = "[ReadEvents, Visits]"])?;
        (rule wp_prepare [where ts = "[ReadEvents, Visits]" and ts' = "[SkimmedEvents, ReadEvents, Visits]"])?;
        (rule wp_prepare [where ts = "[SkimmedEvents, ReadEvents, Visits]"
           and ts' = "[SyncState, SkimmedEvents, ReadEvents, Visits]"])?;
        (rule wp_prepare [where ts = "[SyncState, SkimmedEvents, ReadEvents, Visits]"
           and ts' = "[MoverErrors, SyncState, SkimmedEvents, ReadEvents, Visits]"])?;
        auto simp: create_tables intro: ready)
  moreover have "wp connect (\<lambda>_. prepared []) (\<lambda>_ _. False) w"
    using assms by (simp add: wp_def connect_def db_op_def prepared_def disk_ok_def)
  ultimately show ?thesis
    unfolding open_db_def by (subst wp_thn) (erule wp_mono; simp)
qed

lemma sync_run_consistent:
  assumes "disk_ok w" and "db_faults w = []"
  shows "disk_ok (snd (sync_main srv cfg insecure force m endpoint w))"
proof -
  let ?I = "\<lambda>v. disk_ok v \<and> db_faults v = []"
  have I: "file_free ?I" by (simp add: file_free_def disk_ok_def)
  have locks: "keeps ?I (file_lock srv cfg)"
    unfolding file_lock_def
    by (intro keeps_rules keeps_files I) (auto intro!: keeps_rules split: exn.split errno.split)
  have lock: "wp (file_lock srv cfg) (\<lambda>_. ?I) (\<lambda>_. disk_ok) v" if v: "?I v" for v
    by (rule wp_keeps [where I = ?I]) (use locks v in simp_all)
  have main: "wp (lastly (sync_session srv cfg insecure force m endpoint) close) (\<lambda>_. disk_ok) (\<lambda>_. disk_ok) v"
    if "consistent v" for v
    using session_keeps_consistent [OF that, of srv cfg insecure force m endpoint]
    by (auto simp: wp_def lastly_def close_def disk_ok_def consistent_def split: prod.split sum.split)
  have "wp (sync_main srv cfg insecure force m endpoint) (\<lambda>_. disk_ok) (\<lambda>_. disk_ok) w"
    using assms unfolding sync_main_def
    by (auto simp: wp_thn wp_ret intro!: wp_mono [OF lock] wp_mono [OF open_db_consistent] main)
  then show ?thesis by (auto simp: wp_def split: prod.splits sum.splits)
qed

section \<open>Every reachable database is consistent\<close>

lemma rebuilt_disk_ok:
  assumes "session (rebuild cfg log_dir icloud_dir downloads do_log do_rehydrate True) w = (Inr st, w')"
  shows "disk_ok w'"
proof -
  let ?m = "rebuild cfg log_dir icloud_dir downloads do_log do_rehydrate True"
  have "wp (lastly ?m close) (\<lambda>_. disk_ok) (\<lambda>_ _. True) v" for v
    using rebuild_truncate_sound [of cfg log_dir icloud_dir downloads do_log do_rehydrate v]
    by (auto simp: wp_def lastly_def close_def disk_ok_def sound_def split: prod.splits sum.splits)
  then have "wp (session ?m) (\<lambda>_. disk_ok) (\<lambda>_ _. True) w"
    unfolding session_def wp_thn by (intro wp_connect) simp_all
  then show ?thesis using assms by (simp add: wp_def)
qed

lemma step_disk_ok:
  assumes "system_step i w w'" and "disk_ok w"
  shows "disk_ok w'"
  using assms(1)
proof cases
  case Outside
  then show ?thesis using assms(2) by (simp add: disk_ok_def)
next
  case (Rebuilt log_dir icloud_dir downloads do_log do_rehydrate st)
  then show ?thesis by (intro rebuilt_disk_ok)
next
  case (Synced insecure force machine_id endpoint)
  then show ?thesis using sync_run_consistent assms(2) by simp
qed (use assms(2) in \<open>simp_all add: keepsD keeps_session sound_visit sound_tag sound_rebuild_no_truncate keeps_sealer
       keeps_seal_days keeps_migrate\<close>)



end
