(* ===== verification/ConvergenceProperties.thy ===== *)
theory ConvergenceProperties
  imports Convergence System
begin

text \<open>
  The properties of the laptops and the server together, an instance of two laptops, and what the
  rebuilder of one does to the lines it has from the other.
\<close>

section \<open>An instance\<close>

text \<open>
  Two laptops; the first has two visits in its log, the second one with a tag and a file. The
  reply to the first push of the second laptop is lost.
\<close>

definition sample_line :: "string \<Rightarrow> string \<Rightarrow> string" where
  "sample_line url extra = ''id'' @ [TAB] @ ''T'' @ [TAB] @ url @ [TAB] @ ''t'' @ extra"

definition sample_log :: "string \<Rightarrow> string \<Rightarrow> string" where
  "sample_log url extra = sample_line url extra @ [NL]"

definition sample_laptop :: "string \<Rightarrow> world" where
  "sample_laptop text = sample_world\<lparr>files := [([''l''], Dir), ([''l'', ''browser-visits-2024-01-02.log''], File text 420)]\<rparr>"

definition sample_cluster :: cluster where
  "sample_cluster = \<lparr>vm = \<lparr>mirror = [], canon = schema_sql [] empty_database\<rparr>,
     laptop = (\<lambda>m. sample_laptop (if m = ''a'' then sample_log ''u'' [] @ sample_log ''v'' []
       else sample_log ''u'' ([TAB] @ ''read'' @ [TAB] @ ''f'')))\<rparr>"

definition good_net :: network where
  "good_net = \<lparr>fate_of = (\<lambda>_. Delivered), cut_after = None\<rparr>"

definition bad_net :: network where
  "bad_net = \<lparr>fate_of = (\<lambda>_. Lost_reply), cut_after = None\<rparr>"

definition sample_run :: "string \<Rightarrow> network \<Rightarrow> cluster \<Rightarrow> (exn + int) \<times> cluster" where
  "sample_run m net c = run_session (\<lambda>_. sample_sync) m net True True ''host:1'' c"

definition sample1 :: cluster where "sample1 = snd (sample_run ''a'' good_net sample_cluster)"
definition sample2 :: cluster where "sample2 = snd (sample_run ''b'' bad_net sample1)"
definition sample3 :: cluster where "sample3 = snd (sample_run ''b'' good_net sample2)"

lemma sample_runs:
  "run_session (\<lambda>_. sample_sync) ''a'' good_net True True ''host:1'' sample_cluster = (Inr 0, sample1)"
  "run_session (\<lambda>_. sample_sync) ''b'' bad_net True True ''host:1'' sample1 = (Inr 1, sample2)"
  "run_session (\<lambda>_. sample_sync) ''b'' good_net True True ''host:1'' sample2 = (Inr 0, sample3)"
proof -
  have "fst (sample_run ''a'' good_net sample_cluster) = Inr 0" "fst (sample_run ''b'' bad_net sample1) = Inr 1"
    "fst (sample_run ''b'' good_net sample2) = Inr 0"
    by code_simp+
  then show "run_session (\<lambda>_. sample_sync) ''a'' good_net True True ''host:1'' sample_cluster = (Inr 0, sample1)"
    "run_session (\<lambda>_. sample_sync) ''b'' bad_net True True ''host:1'' sample1 = (Inr 1, sample2)"
    "run_session (\<lambda>_. sample_sync) ''b'' good_net True True ''host:1'' sample2 = (Inr 0, sample3)"
    by (simp_all add: sample1_def sample2_def sample3_def sample_run_def prod_eq_iff)
qed

lemma sample_dates: "local_dates sample_sync (files (sample_laptop t)) = [''2024-01-02'']"
proof -
  have c: "comps_of ''/l'' = [''l'']" "LOG_FILENAME_RE ''browser-visits-2024-01-02.log'' = Some ''2024-01-02''" by code_simp+
  show ?thesis
    by (simp add: local_dates_def sample_laptop_def sample_world_def sample_sync_def c node_at_def children_def List.map_filter_def)
qed

lemma sample_fresh: "fresh (\<lambda>_. sample_sync) sample_cluster"
proof -
  have q: "quiet (opened (sample_laptop t))" for t
    by (simp add: quiet_opened sample_laptop_def sample_world_def has_tables_def schema_sql_def create_table_def
        create_events_def empty_database_def)
  have y: "sync_state (disk (sample_laptop t)) = []" for t
    by (simp add: sample_laptop_def sample_world_def schema_sql_def create_table_def create_events_def empty_database_def)
  have "db_ok (canon (vm sample_cluster))"
    by code_simp
  then show ?thesis
    by (simp add: fresh_def sample_cluster_def q y sample_dates)
qed

lemma sample_lines:
  "map fst (all_lines sample_sync (files (laptop sample_cluster ''a''))) = [''2024-01-02'', ''2024-01-02'']"
  "all_lines sample_sync (files (laptop sample1 ''a'')) = all_lines sample_sync (files (laptop sample_cluster ''a''))"
  "all_lines sample_sync (files (laptop sample2 ''b'')) = all_lines sample_sync (files (laptop sample1 ''b''))"
  "all_lines sample_sync (files (laptop sample3 ''b'')) = all_lines sample_sync (files (laptop sample2 ''b''))"
  "local_dates sample_sync (files (laptop sample1 ''a'')) = [''2024-01-02'']"
  "local_dates sample_sync (files (laptop sample2 ''b'')) = [''2024-01-02'']"
  "local_dates sample_sync (files (laptop sample3 ''b'')) = [''2024-01-02'']"
  by code_simp+

section \<open>The cluster\<close>







section \<open>The server alone\<close>



text \<open>
  C39. The server and the client read a pulled line alike: for every line but those of more than six fields and
  those with the tag of interest and a file, both replays have the same effect on every database.
\<close>

theorem replays_agree:
  assumes "length (split_on TAB raw) \<le> 6" and "length (split_on TAB raw) = 6 \<longrightarrow> split_on TAB raw ! 4 \<noteq> ''of_interest''"
  shows "vm_replay raw d = db_sync raw d"
proof -
  have "vm_action raw = sync_action raw"
    using assms by (auto simp: vm_action_def sync_action_def Let_def)
  then show ?thesis by (simp add: vm_replay_action db_sync_def)
qed

theorem replays_agree_witness:
  "vm_replay (sample_line ''u'' ([TAB] @ ''read'' @ [TAB] @ ''f'')) empty_database =
   db_sync (sample_line ''u'' ([TAB] @ ''read'' @ [TAB] @ ''f'')) empty_database"
proof -
  let ?r = "sample_line ''u'' ([TAB] @ ''read'' @ [TAB] @ ''f'')"
  have "length (split_on TAB ?r) = 6" "split_on TAB ?r ! 4 = ''read''" by code_simp+
  then show ?thesis by (intro replays_agree) simp_all
qed

section \<open>A rebuild forgets the peers\<close>

text \<open>
  A rebuild from scratch replays the own logs only, and leaves the cursors of the sync client: a page of
  the other laptop that was there before is gone after it, and the next session, which returns 0, does not bring it
  back.
\<close>

definition pulled_once :: cluster where
  "pulled_once = snd (sample_run ''b'' good_net
     \<lparr>vm = \<lparr>mirror = [(''a'', [(''2024-01-02'', sample_log ''v'' [])])], canon = empty_database\<rparr>,
      laptop = (\<lambda>_. sample_world)\<rparr>)"

definition rebuilt_once :: cluster where
  "rebuilt_once = pulled_once\<lparr>laptop := (laptop pulled_once)(''b'' :=
     snd (session (rebuild rebuild_cfg ''/l'' ''/i'' ''/dl'' True False True) (laptop pulled_once ''b'')))\<rparr>"

lemma rebuild_forgets_peers:
  "sync_covered (sample_line ''v'' []) (disk (laptop pulled_once ''b''))"
  "fst (sample_run ''b'' good_net rebuilt_once) = Inr 0"
  "\<not> sync_covered (sample_line ''v'' []) (disk (laptop (snd (sample_run ''b'' good_net rebuilt_once)) ''b''))"
proof -
  show "sync_covered (sample_line ''v'' []) (disk (laptop pulled_once ''b''))" by code_simp
  show "fst (sample_run ''b'' good_net rebuilt_once) = Inr 0" by code_simp
  show "\<not> sync_covered (sample_line ''v'' []) (disk (laptop (snd (sample_run ''b'' good_net rebuilt_once)) ''b''))" by code_simp
qed

end
