(* ===== verification/QueryGate.thy ===== *)
theory QueryGate
  imports Effects
begin

text \<open>
  \<open>browser-visit-mcp/server.py\<close>: the two tools of the MCP server, \<open>query\<close> and \<open>schema\<close>, with the text checks
  that come before a query runs. The regular expressions are written out as the scanners they
  denote; SQLite itself, which runs the text, is a parameter, as are the rows of \<open>sqlite_master\<close>. The
  MCP transport is not modelled.
\<close>

section \<open>Settings\<close>

definition DEFAULT_MAX_ROWS :: int where "DEFAULT_MAX_ROWS = 1000"
definition HARD_MAX_ROWS :: int where "HARD_MAX_ROWS = 10000"

definition PRAGMA_SAFELIST :: "string list" where
  "PRAGMA_SAFELIST = [''table_info'', ''index_list'', ''index_info'', ''foreign_key_list'', ''database_list'',
     ''table_xinfo'']"

definition LEADING_KEYWORDS :: "string list" where
  "LEADING_KEYWORDS = [''SELECT'', ''WITH'', ''EXPLAIN'', ''PRAGMA'']"

section \<open>Comments and literals\<close>


text \<open>\<open>--[^\n]*\<close> replaced by nothing.\<close>

function strip_line_comments :: "string \<Rightarrow> string" where
  "strip_line_comments [] = []"
| "strip_line_comments [x] = [x]"
| "strip_line_comments (x # y # xs) =
     (if x = CHR ''-'' \<and> y = CHR ''-'' then strip_line_comments (dropWhile (\<lambda>c. c \<noteq> NL) xs)
      else x # strip_line_comments (y # xs))"
  by pat_completeness auto
termination by (relation "measure length") (auto simp: less_Suc_eq_le intro: le_SucI length_dropWhile_le)

text \<open>What follows the first closing mark, and \<open>/\*.*?\*/\<close> replaced by a space.\<close>

fun after_block :: "string \<Rightarrow> string option" where
  "after_block (x # y # xs) = (if x = CHR ''*'' \<and> y = CHR ''/'' then Some xs else after_block (y # xs))"
| "after_block _ = None"

lemma length_after_block: "after_block s = Some r \<Longrightarrow> length r < length s"
  by (induction s rule: after_block.induct) (auto split: if_splits)

function strip_block_comments :: "string \<Rightarrow> string" where
  "strip_block_comments [] = []"
| "strip_block_comments [x] = [x]"
| "strip_block_comments (x # y # xs) =
     (if x = CHR ''/'' \<and> y = CHR ''*'' then
        (case after_block xs of
           Some r \<Rightarrow> CHR '' '' # strip_block_comments r
         | None \<Rightarrow> x # strip_block_comments (y # xs))
      else x # strip_block_comments (y # xs))"
  by pat_completeness auto
termination by (relation "measure length") (auto dest: length_after_block)

definition strip_comments :: "string \<Rightarrow> string" where
  "strip_comments query = strip_block_comments (strip_line_comments query)"

text \<open>
  \<open>'(?:[^']|'')*'\<close> after its opening quote: what is left behind the longest match. A doubled quote
  continues the literal when it can still be closed, else its first half closes it.
\<close>

fun close_literal :: "string \<Rightarrow> string option" where
  "close_literal [] = None"
| "close_literal [x] = (if x = QUOTE then Some [] else None)"
| "close_literal (x # y # xs) =
     (if x \<noteq> QUOTE then close_literal (y # xs)
      else if y \<noteq> QUOTE then Some (y # xs)
      else (case close_literal xs of Some r \<Rightarrow> Some r | None \<Rightarrow> Some (y # xs)))"

lemma length_close_literal: "close_literal s = Some r \<Longrightarrow> length r < length s"
  by (induction s arbitrary: r rule: close_literal.induct) (fastforce split: if_splits option.splits)+

function mask_literals :: "string \<Rightarrow> string" where
  "mask_literals [] = []"
| "mask_literals (x # xs) =
     (if x = QUOTE then
        (case close_literal xs of
           Some r \<Rightarrow> replicate (Suc (length xs) - length r) (CHR '' '') @ mask_literals r
         | None \<Rightarrow> x # mask_literals xs)
      else x # mask_literals xs)"
  by pat_completeness auto
termination by (relation "measure length") (auto dest: length_close_literal)

definition is_blank :: "string \<Rightarrow> bool" where
  "is_blank s \<longleftrightarrow> strip s = []"

definition statement_count :: "string \<Rightarrow> nat" where
  "statement_count query =
     (let masked = mask_literals query;
          parts = split_on (CHR '';'') masked;
          parts' = (if parts \<noteq> [] \<and> is_blank (List.last parts) then butlast parts else parts)
      in length (filter (\<lambda>p. \<not> is_blank p) parts'))"

section \<open>The check\<close>

definition is_word :: "char \<Rightarrow> bool" where
  "is_word c \<longleftrightarrow> c \<in> set ''ABCDEFGHIJKLMNOPQRSTUVWXYZabcdefghijklmnopqrstuvwxyz_''"

definition upper_char :: "char \<Rightarrow> char" where
  "upper_char c = (let n = of_char c :: nat in if 97 \<le> n \<and> n \<le> 122 then char_of (n - 32) else c)"

definition first_token :: "string \<Rightarrow> string option" where
  "first_token s = (let t = takeWhile is_word (lstrip s) in if t = [] then None else Some t)"

definition pragma_target :: "string \<Rightarrow> string option" where
  "pragma_target s =
     (let s1 = lstrip s; s2 = drop 6 s1; name = takeWhile is_word (lstrip s2)
      in if map upper_char (take 6 s1) = ''PRAGMA'' \<and> s2 \<noteq> [] \<and> is_space (hd s2) \<and> name \<noteq> [] then Some name else None)"

definition repr_list :: "string list \<Rightarrow> string" where
  "repr_list xs = ''['' @ join_with '', '' (map (\<lambda>x. [QUOTE] @ x @ [QUOTE]) (sort xs)) @ '']''"

definition validate_readonly_sql :: "string \<Rightarrow> exn + unit" where
  "validate_readonly_sql query =
     (if is_blank query then Inl (ValueError ''SQL is empty'')
      else
        (let stripped = strip_comments query; n = statement_count stripped in
         if n = 0 then Inl (ValueError ''SQL contains no statements'')
         else if n > 1 then Inl (ValueError ''Multiple statements are not allowed'')
         else
           (case first_token stripped of
              None \<Rightarrow> Inl (ValueError ''Could not identify leading SQL keyword'')
            | Some t \<Rightarrow>
                (let keyword = map upper_char t in
                 if keyword \<notin> set LEADING_KEYWORDS
                 then Inl (ValueError (''Statement must start with one of '' @ repr_list LEADING_KEYWORDS @ ''; got ''
                   @ [QUOTE] @ keyword @ [QUOTE]))
                 else if keyword = ''PRAGMA'' then
                   (case pragma_target stripped of
                      None \<Rightarrow> Inl (ValueError ''PRAGMA missing target'')
                    | Some p \<Rightarrow>
                        if lower p \<notin> set PRAGMA_SAFELIST
                        then Inl (ValueError (''PRAGMA '' @ [QUOTE] @ lower p @ [QUOTE] @ '' is not in the read-only safelist (''
                          @ repr_list PRAGMA_SAFELIST @ '')''))
                        else Inr ())
                 else Inr ()))))"

section \<open>The two tools\<close>

text \<open>
  What SQLite does with a text is the parameter \<open>execute\<close>: the column names and all rows, or an error.
  The watchdog that interrupts a long query is one of the failures a statement can have.
\<close>

type_synonym 'v execute = "string \<Rightarrow> database \<Rightarrow> exn + (string list \<times> 'v list list)"

definition lift_result :: "exn + 'a \<Rightarrow> 'a io" where
  "lift_result r = (case r of Inl e \<Rightarrow> throw e | Inr a \<Rightarrow> ret a)"

definition open_ro :: "path \<Rightarrow> unit io" where
  "open_ro db_path =
     bnd (gets (exists db_path)) (\<lambda>there.
     if \<not> there then throw (OSError ENOENT (''Database not found: '' @ db_path)) else connect)"

definition run_with_timeout :: "'v execute \<Rightarrow> string \<Rightarrow> (string list \<times> 'v list list) io" where
  "run_with_timeout execute query = db_op (\<lambda>w. lift_result (execute query (db w)) w)"

definition fetchmany :: "nat \<Rightarrow> 'v list list \<Rightarrow> 'v list list io" where
  "fetchmany n all_rows = db_op (ret (take n all_rows))"

record 'v query_result =
  columns :: "string list"
  rows :: "'v list list"
  row_count :: nat
  truncated :: bool

definition do_query :: "'v execute \<Rightarrow> path \<Rightarrow> string \<Rightarrow> int \<Rightarrow> 'v query_result io" where
  "do_query execute db_path query max_rows0 =
     bnd (lift_result (validate_readonly_sql query)) (\<lambda>_.
     if max_rows0 < 1 then throw (ValueError ''max_rows must be >= 1'')
     else
       (let max_rows = nat (if max_rows0 > HARD_MAX_ROWS then HARD_MAX_ROWS else max_rows0) in
        thn (open_ro db_path)
          (lastly
            (bnd (run_with_timeout execute query) (\<lambda>(cols, all_rows).
             bnd (fetchmany (max_rows + 1) all_rows) (\<lambda>fetched.
             (let trunc = length fetched > max_rows;
                  kept = (if trunc then take max_rows fetched else fetched)
              in ret \<lparr>columns = cols, rows = kept, row_count = length kept, truncated = trunc\<rparr>))))
            close)))"

text \<open>A row of \<open>sqlite_master\<close>: type, name, sql.\<close>

type_synonym master_row = "string \<times> string \<times> string option"

definition sqlite_internal :: "string \<Rightarrow> bool" where
  "sqlite_internal name \<longleftrightarrow> 7 \<le> length name \<and> lower (take 6 name) = ''sqlite''"

definition master_query :: "master_row list \<Rightarrow> master_row list" where
  "master_query rs =
     sort_key fst (sort_key (fst \<circ> snd)
       (filter (\<lambda>(typ, name, _). typ \<in> {''table'', ''index''} \<and> \<not> sqlite_internal name) rs))"

definition do_schema :: "(database \<Rightarrow> master_row list) \<Rightarrow> path \<Rightarrow> (string list \<times> string) io" where
  "do_schema master db_path =
     thn (open_ro db_path)
       (bnd (lastly (db_op (\<lambda>w. ret (master_query (master (db w))) w)) close) (\<lambda>rs.
        ret (map (fst \<circ> snd) (filter (\<lambda>r. fst r = ''table'') rs),
             join_with [NL, NL] (concat (map (\<lambda>(_, _, s). case s of None \<Rightarrow> [] | Some t \<Rightarrow> if t = [] then [] else [t]) rs)))))"

end
