(* ===== verification/QueryProperties.thy ===== *)
theory QueryProperties
  imports QueryGate MoverErrors
begin

text \<open>
  What the checks of the MCP server mean. The reference is a scanner that looks at a text once, from left
  to right, and toggles at every quote; on texts whose quotes are balanced the regular expression of
  the code masks exactly what lies between the quotes. From there: a second statement is refused, and
  a query returns the first rows of the result, never more than the hard limit.
\<close>

section \<open>Masking\<close>

fun scan_literals :: "bool \<Rightarrow> string \<Rightarrow> string" where
  "scan_literals inside [] = []"
| "scan_literals inside (x # xs) =
     (if x = QUOTE then CHR '' '' # scan_literals (\<not> inside) xs
      else (if inside then CHR '' '' else x) # scan_literals inside xs)"

definition quotes :: "string \<Rightarrow> nat" where
  "quotes s = length (filter (\<lambda>c. c = QUOTE) s)"

lemma quotes_simps [simp]:
  "quotes [] = 0" "quotes (x # xs) = (if x = QUOTE then Suc (quotes xs) else quotes xs)"
  "quotes (s @ t) = quotes s + quotes t"
  by (simp_all add: quotes_def)

lemma length_scan [simp]: "length (scan_literals b s) = length s"
  by (induction s arbitrary: b) auto

lemma scan_append: "scan_literals b (s @ t) = scan_literals b s @ scan_literals (if even (quotes s) then b else \<not> b) t"
  by (induction s arbitrary: b) auto

lemma close_literal_balanced:
  "odd (quotes s) \<Longrightarrow> \<exists>r. close_literal s = Some r \<and> even (quotes r)
     \<and> scan_literals True s = replicate (length s - length r) (CHR '' '') @ scan_literals False r"
proof (induction s rule: close_literal.induct)
  case 1
  then show ?case by simp
next
  case (2 x)
  then show ?case by (simp split: if_splits)
next
  case (3 x y xs)
  show ?case
  proof (cases "x = QUOTE")
    case False
    with 3 obtain r where r: "close_literal (y # xs) = Some r" "even (quotes r)"
      "scan_literals True (y # xs) = replicate (length (y # xs) - length r) (CHR '' '') @ scan_literals False r"
      by (metis quotes_simps(2))
    then show ?thesis
      using False length_close_literal [OF r(1)] by (auto simp: Suc_diff_le less_Suc_eq_le)
  next
    case x: True
    show ?thesis
    proof (cases "y = QUOTE")
      case False
      then show ?thesis using x 3(3) by auto
    next
      case True
      with x 3 obtain r where r: "close_literal xs = Some r" "even (quotes r)"
        "scan_literals True xs = replicate (length xs - length r) (CHR '' '') @ scan_literals False r"
        by auto
      then show ?thesis
        using x True length_close_literal [OF r(1)] by (simp add: Suc_diff_le)
    qed
  qed
qed

lemma mask_balanced: "even (quotes s) \<Longrightarrow> mask_literals s = scan_literals False s"
proof (induction s rule: mask_literals.induct)
  case 1
  then show ?case by simp
next
  case (2 x xs)
  show ?case
  proof (cases "x = QUOTE")
    case False
    then show ?thesis using 2 by simp
  next
    case True
    with 2(4) have "odd (quotes xs)" by simp
    then obtain r where r: "close_literal xs = Some r" "even (quotes r)"
      "scan_literals True xs = replicate (length xs - length r) (CHR '' '') @ scan_literals False r"
      using close_literal_balanced by blast
    then show ?thesis
      using True 2(1,2,3) length_close_literal [OF r(1)] by (simp add: Suc_diff_le)
  qed
qed

section \<open>Counting\<close>

lemma is_blank_Nil [simp]: "is_blank []"
  by (simp add: is_blank_def strip_def lstrip_def)

lemma is_blank_iff: "is_blank s \<longleftrightarrow> (\<forall>c\<in>set s. is_space c)"
  by (auto simp: is_blank_def strip_def lstrip_def dropWhile_eq_Nil_conv dest: set_dropWhileD)
    (metis dropWhile_eq_Nil_conv hd_dropWhile hd_in_set)

lemma statement_count_segments:
  "statement_count s = length (filter (\<lambda>p. \<not> is_blank p) (split_on (CHR '';'') (mask_literals s)))"
proof -
  obtain ps p where "split_on (CHR '';'') (mask_literals s) = ps @ [p]"
    by (metis rev_exhaust split_on_nonempty)
  then show ?thesis by (simp add: statement_count_def Let_def)
qed



section \<open>Refusal of a second statement\<close>

lemma strip_line_none: "\<not> contains s ''--'' \<Longrightarrow> strip_line_comments s = s"
  by (induction s rule: strip_line_comments.induct) (auto simp: startswith_def)

lemma strip_block_none: "\<not> contains s ''/*'' \<Longrightarrow> strip_block_comments s = s"
  by (induction s rule: strip_block_comments.induct) (auto simp: startswith_def)

definition comment_free :: "string \<Rightarrow> bool" where
  "comment_free s \<longleftrightarrow> \<not> contains s ''--'' \<and> \<not> contains s ''/*''"

lemma strip_comments_none: "comment_free s \<Longrightarrow> strip_comments s = s"
  by (simp add: comment_free_def strip_comments_def strip_line_none strip_block_none)

text \<open>A text that has something to execute: a visible character outside the literals that is no semicolon.\<close>

definition has_statement :: "string \<Rightarrow> bool" where
  "has_statement s \<longleftrightarrow> (\<exists>c\<in>set (scan_literals False s). \<not> is_space c \<and> c \<noteq> CHR '';'')"

lemma split_on_visible:
  "x \<in> set s \<Longrightarrow> \<not> is_space x \<Longrightarrow> x \<noteq> c \<Longrightarrow> filter (\<lambda>p. \<not> is_blank p) (split_on c s) \<noteq> []"
proof (induction s)
  case Nil
  then show ?case by simp
next
  case (Cons y ys)
  obtain p ps where yys: "split_on c ys = p # ps" by (cases "split_on c ys") auto
  from Cons yys show ?case by (auto simp: is_blank_iff)
qed

lemma split_has_statement:
  "has_statement s \<Longrightarrow> filter (\<lambda>p. \<not> is_blank p) (split_on (CHR '';'') (scan_literals False s)) \<noteq> []"
  unfolding has_statement_def using split_on_visible by blast

lemma count_two:
  assumes "even (quotes a)" "even (quotes b)" "has_statement a" "has_statement b"
  shows "statement_count (a @ CHR '';'' # b) > 1"
proof -
  let ?n = "\<lambda>s. filter (\<lambda>p. \<not> is_blank p) (split_on (CHR '';'') (scan_literals False s))"
  have "statement_count (a @ CHR '';'' # b) = length (?n a) + length (?n b)"
    using assms by (simp add: statement_count_segments mask_balanced scan_append split_on_append)
  moreover have "length (?n a) > 0" "length (?n b) > 0"
    using assms split_has_statement by auto
  ultimately show ?thesis by linarith
qed



text \<open>
  Comment marks are removed before literals are recognised, and a statement behind \<open>WITH\<close> is not looked
  at: both texts below pass the check, so refusing them is left to SQLite.
\<close>

lemma marks_in_literal_accepted:
  "validate_readonly_sql (''SELECT '' @ [QUOTE] @ ''--'' @ [QUOTE] @ ''; DROP TABLE visits'') = Inr ()"
  by code_simp

lemma with_delete_accepted:
  "validate_readonly_sql ''WITH x AS (SELECT 1) DELETE FROM visits'' = Inr ()"
  by code_simp

section \<open>The rows of an answer\<close>

lemma wp_lift_result:
  "wp (lift_result r) Q E w = (case r of Inl e \<Rightarrow> E e w | Inr a \<Rightarrow> Q a w)"
  "wp (\<lambda>w. lift_result (g w) w) Q E w = (case g w of Inl e \<Rightarrow> E e w | Inr a \<Rightarrow> Q a w)"
  by (simp_all add: lift_result_def wp_def throw_def ret_def split: sum.split)

text \<open>
  C26. An answer holds the first rows of the statement's result: \<open>max_rows\<close> of them, at most ten
  thousand, with the number of rows it has and a flag that says whether the result had more; the
  committed database and the files are unchanged.
\<close>

theorem query_rows:
  assumes "do_query execute db_path query m w = (Inr r, w')"
  shows "\<exists>cols result. execute query (disk w) = Inr (cols, result) \<and> columns r = cols
    \<and> rows r = take (nat (min m 10000)) result \<and> row_count r = length (rows r) \<and> row_count r \<le> 10000
    \<and> truncated r = (nat (min m 10000) < length result)
    \<and> 1 \<le> m \<and> disk w' = disk w \<and> files w' = files w"
proof -
  let ?Q = "\<lambda>r w'. \<exists>cols result. execute query (disk w) = Inr (cols, result) \<and> columns r = cols
    \<and> rows r = take (nat (min m 10000)) result \<and> row_count r = length (rows r) \<and> row_count r \<le> 10000
    \<and> truncated r = (nat (min m 10000) < length result)
    \<and> 1 \<le> m \<and> disk w' = disk w \<and> files w' = files w"
  have "wp (do_query execute db_path query m) ?Q (\<lambda>_ _. True) w"
    by (auto simp: do_query_def open_ro_def run_with_timeout_def fetchmany_def wp_simps wp_lift_result Let_def
        split_def HARD_MAX_ROWS_def close_def min_def nat_le_iff intro!: wp_db_op wp_connect split: sum.splits) arith
  then show ?thesis using assms by (simp add: wp_def)
qed

theorem query_rows_witness:
  "let w = sample_world\<lparr>files := [([''db''], File [] mode_644)]\<rparr>;
       execute = (\<lambda>_ _. Inr ([''n''], [[1], [2], [3 :: int]]))
   in case do_query execute ''/db'' ''SELECT n FROM t'' 2 w of
        (Inr r, w') \<Rightarrow> rows r = [[1], [2]] \<and> truncated r \<and> disk w' = disk w
      | (Inl e, w') \<Rightarrow> False"
proof -
  let ?w = "sample_world\<lparr>files := [([''db''], File [] mode_644)]\<rparr>"
  let ?r = "do_query (\<lambda>_ _. Inr ([''n''], [[1], [2], [3 :: int]])) ''/db'' ''SELECT n FROM t'' 2 ?w"
  have r: "fst ?r = Inr \<lparr>columns = [''n''], rows = [[1], [2]], row_count = 2, truncated = True\<rparr>"
    by code_simp
  then have "?r = (Inr \<lparr>columns = [''n''], rows = [[1], [2]], row_count = 2, truncated = True\<rparr>, snd ?r)"
    by (simp add: prod_eq_iff)
  with query_rows [OF this] show ?thesis
    unfolding Let_def by (auto split: prod.splits)
qed

end
