(* ===== verification/ReadingList.thy ===== *)
theory ReadingList
  imports Host
begin

text \<open>
  \<open>browser-visit-tools/reading_list.py\<close>: the pages that are marked of interest and were never read, as two
  tables in a Markdown or an HTML document. The local time zone is the parameter \<open>local_time\<close>: what
  \<open>fromisoformat\<close>, \<open>astimezone\<close> and \<open>strftime\<close> make of a time stamp, \<open>None\<close> where parsing raises
  \<open>ValueError\<close>. The two symbols of the introduction lie outside the characters of the model; they stand
  in the form in which the UTF-8 file holds them.
\<close>

section \<open>Options\<close>

datatype doc_format = HtmlFormat | MarkdownFormat

fun extension :: "doc_format \<Rightarrow> string" where
  "extension HtmlFormat = ''html''"
| "extension MarkdownFormat = ''md''"

definition default_output_for :: "path \<Rightarrow> doc_format \<Rightarrow> path" where
  "default_output_for output_dir fmt = path_join output_dir (''reading_list.'' @ extension fmt)"

record list_args =
  l_db :: path
  l_format :: doc_format
  l_output :: "path option"

definition list_output :: "path \<Rightarrow> list_args \<Rightarrow> path" where
  "list_output output_dir args =
     (case l_output args of None \<Rightarrow> default_output_for output_dir (l_format args) | Some p \<Rightarrow> p)"

section \<open>Markdown helpers\<close>


definition escape_cell :: "string \<Rightarrow> string" where
  "escape_cell text0 =
     (let text1 = replace_char TAB '' '' (replace_char NL '' '' (replace_char CR '' '' text0));
          text2 = replace_char (CHR ''|'') [BACKSLASH, CHR ''|''] text1;
          text3 = replace_char (CHR '']'') [BACKSLASH, CHR '']''] (replace_char (CHR ''['') [BACKSLASH, CHR ''[''] text2)
      in strip text3)"

definition escape_url :: "string \<Rightarrow> string" where
  "escape_url url = replace_char (CHR '' '') ''%20'' (replace_char (CHR '')'') ''%29'' (replace_char (CHR ''('') ''%28'' url))"

definition format_link :: "string \<Rightarrow> string \<Rightarrow> string" where
  "format_link title url =
     (let label = (if title \<noteq> [] \<and> strip title \<noteq> [] then escape_cell title else escape_cell url)
      in ''['' @ label @ '']('' @ escape_url url @ '')'')"

definition format_timestamp :: "(string \<Rightarrow> string option) \<Rightarrow> string option \<Rightarrow> string" where
  "format_timestamp local_time stamp =
     (case stamp of
        None \<Rightarrow> []
      | Some t \<Rightarrow>
          if t = [] then []
          else (case local_time (replace_char (CHR ''Z'') ''+00:00'' t) of None \<Rightarrow> t | Some s \<Rightarrow> s))"

section \<open>The query\<close>

record list_row =
  r_url :: url
  r_title :: string
  r_first_visited :: timestamp
  r_last_skimmed :: "timestamp option"

definition max_timestamp :: "timestamp list \<Rightarrow> timestamp option" where
  "max_timestamp ts = (case ts of [] \<Rightarrow> None | t # ts' \<Rightarrow> Some (fold max ts' t))"

text \<open>The groups come in the order of the URLs, the order of the primary key's index.\<close>

definition list_query :: "database \<Rightarrow> (list_row \<times> int) list" where
  "list_query d =
     map (\<lambda>v. (\<lparr>r_url = v_url v, r_title = v_title v, r_first_visited = v_timestamp v,
                r_last_skimmed = max_timestamp (map e_timestamp (filter (\<lambda>s. e_url s = v_url v) (skimmed_events d)))\<rparr>,
               v_skimmed v))
       (sort_key v_url (filter (\<lambda>v. v_of_interest v \<noteq> None \<and> v_read v = 0) (visits d)))"

text \<open>\<open>list.sort(key=..., reverse=True)\<close>, which keeps the order of equal keys.\<close>

definition sort_descending :: "('a \<Rightarrow> 'k :: linorder) \<Rightarrow> 'a list \<Rightarrow> 'a list" where
  "sort_descending f xs = rev (sort_key f (rev xs))"

definition place_row :: "list_row list \<times> list_row list \<Rightarrow> list_row \<times> int \<Rightarrow> list_row list \<times> list_row list" where
  "place_row acc x =
     (let (skimmed, unskimmed) = acc; (row, skim_count) = x
      in if skim_count > 0 then (skimmed @ [row], unskimmed) else (skimmed, unskimmed @ [row]))"

definition arrange_rows :: "(list_row \<times> int) list \<Rightarrow> list_row list \<times> list_row list" where
  "arrange_rows result =
     (let (skimmed, unskimmed) = foldl place_row ([], []) result
      in (sort_descending r_first_visited skimmed, sort_descending r_first_visited unskimmed))"

definition fetch_rows :: "(list_row list \<times> list_row list) io" where
  "fetch_rows = bnd (select [Visits, SkimmedEvents] list_query) (\<lambda>result. ret (arrange_rows result))"

section \<open>Markdown document\<close>

definition STAR :: string where "STAR = [CHR 0xE2, CHR 0x98, CHR 0x85]"
definition TICK :: string where "TICK = [CHR 0xE2, CHR 0x9C, CHR 0x93]"
definition SKIMMED_HEADING :: string where "SKIMMED_HEADING = ''Unread URLs that have been skimmed''"
definition UNSKIMMED_HEADING :: string where "UNSKIMMED_HEADING = ''Unread URLs''"

definition INTRO :: string where
  "INTRO = ''Pages tagged '' @ STAR @ '' Of Interest that have not been '' @ TICK @ '' Read yet.  ''
     @ ''Generated by reading_list.py; rerun to refresh.''"

definition count_str :: "'a list \<Rightarrow> string" where
  "count_str xs = '' ('' @ nat_str (length xs) @ '')''"

definition skimmed_line :: "(string \<Rightarrow> string option) \<Rightarrow> list_row \<Rightarrow> string" where
  "skimmed_line tz r = ''| '' @ format_link (r_title r) (r_url r) @ '' | '' @ format_timestamp tz (r_last_skimmed r)
     @ '' | '' @ format_timestamp tz (Some (r_first_visited r)) @ '' |''"

definition unskimmed_line :: "(string \<Rightarrow> string option) \<Rightarrow> list_row \<Rightarrow> string" where
  "unskimmed_line tz r = ''| '' @ format_link (r_title r) (r_url r) @ '' | ''
     @ format_timestamp tz (Some (r_first_visited r)) @ '' |''"

definition render_markdown :: "(string \<Rightarrow> string option) \<Rightarrow> list_row list \<Rightarrow> list_row list \<Rightarrow> string" where
  "render_markdown tz skimmed unskimmed =
     join_with [NL]
      ([''# Reading list'', [],
        ''Pages tagged **'' @ STAR @ '' Of Interest** that have not been **'' @ TICK @ '' Read** yet.'',
        ''Generated by `reading_list.py`; rerun to refresh.'', [],
        ''## '' @ SKIMMED_HEADING @ count_str skimmed, []]
       @ (if skimmed \<noteq> []
          then [''| Title | Last skimmed | First visited |'', ''|-------|--------------|---------------|'']
               @ map (skimmed_line tz) skimmed
          else [''_(none)_''])
       @ [[], ''## '' @ UNSKIMMED_HEADING @ count_str unskimmed, []]
       @ (if unskimmed \<noteq> []
          then [''| Title | First visited |'', ''|-------|---------------|''] @ map (unskimmed_line tz) unskimmed
          else [''_(none)_''])
       @ [[]])"

section \<open>HTML document\<close>

text \<open>\<open>html.escape(s, quote=True)\<close> of the standard library.\<close>

fun html_char :: "char \<Rightarrow> string" where
  "html_char c =
     (if c = CHR ''&'' then ''&amp;'' else if c = CHR ''<'' then ''&lt;'' else if c = CHR ''>'' then ''&gt;''
      else if c = DQUOTE then ''&quot;'' else if c = QUOTE then ''&#x27;'' else [c])"

definition html_escape :: "string \<Rightarrow> string" where
  "html_escape s = concat (map html_char s)"

definition HTML_STYLE :: string where
  "HTML_STYLE = join_with [NL]
     [''body { font-family: -apple-system, BlinkMacSystemFont, '' @ [DQUOTE] @ ''Segoe UI'' @ [DQUOTE] @ '', system-ui, sans-serif;'',
      ''       max-width: 1100px; margin: 2em auto; padding: 0 1em; line-height: 1.5;'',
      ''       color: #1a1a1a; }'',
      ''h1 { border-bottom: 2px solid #ccc; padding-bottom: 0.3em; }'',
      ''h2 { color: #333; margin-top: 2em; }'',
      ''table { border-collapse: collapse; width: 100%; margin-top: 0.5em; }'',
      ''th, td { border: 1px solid #ddd; padding: 0.5em 0.75em; text-align: left;'',
      ''         vertical-align: top; }'',
      ''th { background: #f4f4f4; }'',
      ''tr:nth-child(even) td { background: #fafafa; }'',
      ''a { color: #0366d6; text-decoration: none; word-break: break-word; }'',
      ''a:hover { text-decoration: underline; }'',
      ''.empty { color: #888; font-style: italic; }'',
      ''.intro { color: #555; }'',
      ''.timestamp { white-space: nowrap; color: #555; }'', []]"

definition link_label :: "string \<Rightarrow> string \<Rightarrow> string" where
  "link_label title url = (if title \<noteq> [] \<and> strip title \<noteq> [] then strip title else url)"

definition format_link_html :: "string \<Rightarrow> string \<Rightarrow> string" where
  "format_link_html title url =
     (let label = link_label title url; href = html_escape (replace_char (CHR '' '') ''%20'' url)
      in ''<a href='' @ [DQUOTE] @ href @ [DQUOTE] @ ''>'' @ html_escape label @ ''</a>'')"

definition row_html :: "string list \<Rightarrow> string" where
  "row_html cells = ''<tr>'' @ concat (map (\<lambda>c. ''<td>'' @ c @ ''</td>'') cells) @ ''</tr>''"

definition ts_cell :: "(string \<Rightarrow> string option) \<Rightarrow> string option \<Rightarrow> string" where
  "ts_cell tz stamp = ''<span class='' @ [DQUOTE] @ ''timestamp'' @ [DQUOTE] @ ''>'' @ html_escape (format_timestamp tz stamp) @ ''</span>''"

definition skimmed_row_html :: "(string \<Rightarrow> string option) \<Rightarrow> list_row \<Rightarrow> string" where
  "skimmed_row_html tz r =
     row_html [format_link_html (r_title r) (r_url r), ts_cell tz (r_last_skimmed r), ts_cell tz (Some (r_first_visited r))]"

definition unskimmed_row_html :: "(string \<Rightarrow> string option) \<Rightarrow> list_row \<Rightarrow> string" where
  "unskimmed_row_html tz r = row_html [format_link_html (r_title r) (r_url r), ts_cell tz (Some (r_first_visited r))]"

definition empty_html :: string where
  "empty_html = ''<p class='' @ [DQUOTE] @ ''empty'' @ [DQUOTE] @ ''>(none)</p>''"

definition render_html :: "(string \<Rightarrow> string option) \<Rightarrow> list_row list \<Rightarrow> list_row list \<Rightarrow> string" where
  "render_html tz skimmed unskimmed =
     join_with [NL]
      ([''<!DOCTYPE html>'', ''<html lang='' @ [DQUOTE] @ ''en'' @ [DQUOTE] @ ''>'', ''<head>'',
        ''<meta charset='' @ [DQUOTE] @ ''utf-8'' @ [DQUOTE] @ ''>'', ''<title>Reading list</title>'',
        ''<style>'' @ HTML_STYLE @ ''</style>'', ''</head>'', ''<body>'', ''<h1>Reading list</h1>'',
        ''<p class='' @ [DQUOTE] @ ''intro'' @ [DQUOTE] @ ''>'' @ html_escape INTRO @ ''</p>'',
        ''<h2>'' @ html_escape SKIMMED_HEADING @ count_str skimmed @ ''</h2>'']
       @ (if skimmed \<noteq> []
          then [''<table>'', ''<thead><tr><th>Title</th><th>Last skimmed</th><th>First visited</th></tr></thead><tbody>'']
               @ map (skimmed_row_html tz) skimmed @ [''</tbody></table>'']
          else [empty_html])
       @ [''<h2>'' @ html_escape UNSKIMMED_HEADING @ count_str unskimmed @ ''</h2>'']
       @ (if unskimmed \<noteq> []
          then [''<table>'', ''<thead><tr><th>Title</th><th>First visited</th></tr></thead><tbody>'']
               @ map (unskimmed_row_html tz) unskimmed @ [''</tbody></table>'']
          else [empty_html])
       @ [''</body>'', ''</html>'', []])"

fun renderer :: "doc_format \<Rightarrow> (string \<Rightarrow> string option) \<Rightarrow> list_row list \<Rightarrow> list_row list \<Rightarrow> string" where
  "renderer HtmlFormat = render_html"
| "renderer MarkdownFormat = render_markdown"

section \<open>The command\<close>

text \<open>\<open>os.makedirs\<close> of the empty path raises; the model's \<open>makedirs\<close> starts at the first component.\<close>

definition makedirs_for :: "path \<Rightarrow> unit io" where
  "makedirs_for dir = (if dir = [] then os_raise ENOENT else makedirs dir)"

definition list_main :: "(string \<Rightarrow> string option) \<Rightarrow> path \<Rightarrow> list_args \<Rightarrow> int io" where
  "list_main tz output_dir args =
     (let output_path = list_output output_dir args in
      bnd (gets (exists (l_db args))) (\<lambda>there.
      if \<not> there then ret 1
      else
        thn connect
          (bnd fetch_rows (\<lambda>(skimmed, unskimmed).
           thn (makedirs_for (dirname output_path))
             (thn (open_write False output_path)
               (thn (write_handle output_path (renderer (l_format args) tz skimmed unskimmed)) (ret 0)))))))"

end
