(* ===== verification/ReadingListProperties.thy ===== *)
theory ReadingListProperties
  imports ReadingList
begin

text \<open>
  What the reading list holds and that the HTML of a link cannot be broken by a title or a URL: a reader
  that splits the anchor at its quotes and angle brackets and decodes the entities gets the URL and
  the label back.
\<close>

section \<open>Which pages\<close>

lemma sort_descending_simps [simp]:
  "set (sort_descending f xs) = set xs" "mset (sort_descending f xs) = mset xs" "length (sort_descending f xs) = length xs"
  by (simp_all add: sort_descending_def)

lemma sorted_descending: "sorted (rev (map f (sort_descending f xs)))"
  by (simp add: sort_descending_def rev_map [symmetric])

lemma place_rows:
  "foldl place_row (s, u) xs = (s @ map fst (filter (\<lambda>x. snd x > 0) xs), u @ map fst (filter (\<lambda>x. \<not> snd x > 0) xs))"
  by (induction xs arbitrary: s u) (auto simp: place_row_def split_def)

lemma arrange_rows_set:
  "arrange_rows xs = (sort_descending r_first_visited (map fst (filter (\<lambda>x. snd x > 0) xs)),
     sort_descending r_first_visited (map fst (filter (\<lambda>x. \<not> snd x > 0) xs)))"
  by (simp add: arrange_rows_def place_rows)

definition wanted :: "visit \<Rightarrow> bool" where
  "wanted v \<longleftrightarrow> v_of_interest v \<noteq> None \<and> v_read v = 0"

definition row_of :: "database \<Rightarrow> visit \<Rightarrow> list_row" where
  "row_of d v = \<lparr>r_url = v_url v, r_title = v_title v, r_first_visited = v_timestamp v,
     r_last_skimmed = max_timestamp (map e_timestamp (filter (\<lambda>s. e_url s = v_url v) (skimmed_events d)))\<rparr>"

lemma list_query_row: "list_query d = map (\<lambda>v. (row_of d v, v_skimmed v)) (sort_key v_url (filter wanted (visits d)))"
  by (simp only: list_query_def row_of_def wanted_def [abs_def])

lemma mset_list_query: "mset (list_query d) = mset (map (\<lambda>v. (row_of d v, v_skimmed v)) (filter wanted (visits d)))"
  unfolding list_query_row by (simp add: mset_map)

lemma mset_rows: "mset (map fst (filter P (list_query d)))
    = mset (map (row_of d) (filter (\<lambda>v. wanted v \<and> P (row_of d v, v_skimmed v)) (visits d)))"
proof -
  have "mset (map fst (filter P (list_query d))) = image_mset fst (filter_mset P (mset (list_query d)))"
    by simp
  also have "\<dots> = image_mset fst (filter_mset P (mset (map (\<lambda>v. (row_of d v, v_skimmed v)) (filter wanted (visits d)))))"
    by (simp only: mset_list_query)
  also have "\<dots> = mset (map fst (filter P (map (\<lambda>v. (row_of d v, v_skimmed v)) (filter wanted (visits d)))))"
    by (simp only: mset_map mset_filter)
  also have "map fst (filter P (map (\<lambda>v. (row_of d v, v_skimmed v)) (filter wanted (visits d))))
      = map (row_of d) (filter (\<lambda>v. wanted v \<and> P (row_of d v, v_skimmed v)) (visits d))"
    by (simp add: filter_map_swap comp_def conj_commute)
  finally show ?thesis .
qed

lemma max_timestamp_None: "max_timestamp ts = None \<longleftrightarrow> ts = []"
  by (simp add: max_timestamp_def split: list.split)

lemma fold_max: "fold max ts t = Max (insert t (set ts))" for t :: "'a :: linorder"
  by (metis List.finite_set Max.set_eq_fold list.set(2))

lemma max_timestamp_Some: "ts \<noteq> [] \<Longrightarrow> max_timestamp ts = Some (Max (set ts))"
  by (cases ts) (simp_all add: max_timestamp_def fold_max)

text \<open>
  C35. The two lists together are exactly the pages marked of interest and never read, each once: the
  first list those that were skimmed, the second the others, both with the latest first visit first;
  in a consistent database a page has a time of its last skim iff it stands in the first list.
\<close>

theorem reading_lists:
  assumes "db_ok d"
  shows "let (skimmed, unskimmed) = arrange_rows (list_query d)
    in mset skimmed = mset (map (row_of d) (filter (\<lambda>v. wanted v \<and> v_skimmed v > 0) (visits d)))
     \<and> mset unskimmed = mset (map (row_of d) (filter (\<lambda>v. wanted v \<and> \<not> v_skimmed v > 0) (visits d)))
     \<and> sorted (rev (map r_first_visited skimmed)) \<and> sorted (rev (map r_first_visited unskimmed))
     \<and> list_all (\<lambda>r. r_last_skimmed r \<noteq> None) skimmed \<and> list_all (\<lambda>r. r_last_skimmed r = None) unskimmed"
proof -
  have counter: "(v_skimmed v > 0) = (r_last_skimmed (row_of d v) \<noteq> None)" if "v \<in> set (visits d)" for v
  proof -
    have "v_skimmed v = int (length (filter (\<lambda>s. e_url s = v_url v) (skimmed_events d)))"
      using assms that by (auto simp: db_ok_def counts_ok_def events_of_def list_all_iff)
    then show ?thesis by (simp add: row_of_def max_timestamp_None)
  qed
  let ?s = "map fst (filter (\<lambda>x. snd x > 0) (list_query d))" and ?u = "map fst (filter (\<lambda>x. \<not> snd x > 0) (list_query d))"
  have s: "mset ?s = mset (map (row_of d) (filter (\<lambda>v. wanted v \<and> v_skimmed v > 0) (visits d)))"
    by (subst mset_rows) simp
  have u: "mset ?u = mset (map (row_of d) (filter (\<lambda>v. wanted v \<and> \<not> v_skimmed v > 0) (visits d)))"
    by (subst mset_rows) simp
  have "list_all (\<lambda>r. r_last_skimmed r \<noteq> None) (sort_descending r_first_visited ?s)"
    using counter mset_eq_setD [OF s] by (auto simp: list_all_iff)
  moreover have "list_all (\<lambda>r. r_last_skimmed r = None) (sort_descending r_first_visited ?u)"
    using counter mset_eq_setD [OF u] by (auto simp: list_all_iff)
  ultimately show ?thesis
    using s u by (simp add: arrange_rows_set sorted_descending)
qed

theorem reading_lists_witness:
  "let d = empty_database\<lparr>visits := [\<lparr>v_url = ''http://a/'', v_timestamp = ''2024-05-01'', v_title = ''A'',
        v_of_interest = Some ''1'', v_read = 0, v_skimmed = 1\<rparr>],
      skimmed_events := [\<lparr>e_url = ''http://a/'', e_timestamp = ''2024-05-02'', e_filename = [], e_directory = []\<rparr>]\<rparr>
   in mset (fst (arrange_rows (list_query d))) = mset (map (row_of d) (visits d)) \<and> snd (arrange_rows (list_query d)) = []"
proof -
  let ?d = "empty_database\<lparr>visits := [\<lparr>v_url = ''http://a/'', v_timestamp = ''2024-05-01'', v_title = ''A'',
        v_of_interest = Some ''1'', v_read = 0, v_skimmed = 1\<rparr>],
      skimmed_events := [\<lparr>e_url = ''http://a/'', e_timestamp = ''2024-05-02'', e_filename = [], e_directory = []\<rparr>]\<rparr>"
  have "db_ok ?d" by code_simp
  from reading_lists [OF this] show ?thesis
    by (simp add: Let_def split_def wanted_def empty_database_def)
qed

section \<open>Links\<close>

text \<open>A reader's view of character references: the entities \<open>html.escape\<close> writes, decoded.\<close>

fun html_unescape :: "string \<Rightarrow> string" where
  "html_unescape [] = []"
| "html_unescape (c # cs) =
     (if startswith (c # cs) ''&amp;'' then CHR ''&'' # html_unescape (drop 4 cs)
      else if startswith (c # cs) ''&lt;'' then CHR ''<'' # html_unescape (drop 3 cs)
      else if startswith (c # cs) ''&gt;'' then CHR ''>'' # html_unescape (drop 3 cs)
      else if startswith (c # cs) ''&quot;'' then DQUOTE # html_unescape (drop 5 cs)
      else if startswith (c # cs) ''&#x27;'' then QUOTE # html_unescape (drop 5 cs)
      else c # html_unescape cs)"

lemma html_escape_simps [simp]: "html_escape [] = []" "html_escape (c # cs) = html_char c @ html_escape cs"
  by (simp_all add: html_escape_def)

lemma html_unescape_escape [simp]: "html_unescape (html_escape s) = s"
  by (induction s) (auto simp: startswith_def)

lemma html_escape_safe: "set (html_escape s) \<inter> {CHR ''<'', CHR ''>'', DQUOTE, QUOTE} = {}"
  by (induction s) auto

text \<open>An anchor read by its syntax alone: the attribute up to the next double quote, the text up to the next bracket.\<close>

definition read_anchor :: "string \<Rightarrow> (string \<times> string) option" where
  "read_anchor s =
     (let start = ''<a href='' @ [DQUOTE]; s1 = drop (length start) s;
          href = takeWhile (\<lambda>c. c \<noteq> DQUOTE) s1; s2 = drop (length href) s1;
          label = takeWhile (\<lambda>c. c \<noteq> CHR ''<'') (drop 2 s2); s3 = drop (2 + length label) s2
      in if startswith s start \<and> take 2 s2 = [DQUOTE, CHR ''>''] \<and> s3 = ''</a>''
         then Some (html_unescape href, html_unescape label) else None)"

lemma takeWhile_not: "c \<notin> set s \<Longrightarrow> takeWhile (\<lambda>x. x \<noteq> c) (s @ c # t) = s"
  by (induction s) auto

text \<open>
  C36. No title and no URL breaks out of its link: reading the anchor back by its quotes and brackets
  gives the URL with its spaces percent-encoded, and as the label the stripped title or, when it is
  blank, the URL.
\<close>

theorem anchor_roundtrip:
  "read_anchor (format_link_html title url) = Some (replace_char (CHR '' '') ''%20'' url, link_label title url)"
proof -
  let ?h = "html_escape (replace_char (CHR '' '') ''%20'' url)" and ?l = "html_escape (link_label title url)"
  have h: "takeWhile (\<lambda>c. c \<noteq> DQUOTE) (?h @ DQUOTE # CHR ''>'' # ?l @ ''</a>'') = ?h"
    by (rule takeWhile_not) (use html_escape_safe in blast)
  have l: "takeWhile (\<lambda>c. c \<noteq> CHR ''<'') (?l @ CHR ''<'' # ''/a>'') = ?l"
    by (rule takeWhile_not) (use html_escape_safe in blast)
  show ?thesis
    using h l by (simp add: format_link_html_def read_anchor_def Let_def startswith_def)
qed

text \<open>In Markdown the column separator of a URL is not escaped: it ends the table cell.\<close>

lemma markdown_url_keeps_pipe: "contains (format_link ''t'' ''http://x/?a|b'') ''a|b''"
  by code_simp

text \<open>An output path without a directory part fails: \<open>os.makedirs\<close> gets the empty string.\<close>

lemma bare_output_fails:
  assumes "exists (l_db args) w" and "calm w" and "have_tables [Visits, SkimmedEvents] (disk w)"
    and "l_output args = Some ''list.html''"
  shows "fst (list_main tz output_dir args w) = Inl (OSError ENOENT ''os error'')"
  using assms by (simp add: list_main_def list_output_def makedirs_for_def dirname_def fetch_rows_def io_simps
      Let_def os_raise_def split_def)

end
