(* ===== verification/DbDiff.thy ===== *)
theory DbDiff
  imports Effects "HOL-Library.AList"
begin

text \<open>
  \<open>browser-visit-tools/db_diff.py\<close>: the comparison of two database files, table by table. The tool reads its
  columns and keys from SQLite, so a table here is generic: column names with their position in the
  primary key, and rows of SQLite values. \<open>attached\<close> is what SQLite finds in a file it attaches; \<open>show_list\<close>
  and \<open>show_dict\<close> stand for Python's \<open>repr\<close> of a sampled row, \<open>dumps\<close> for \<open>json.dumps\<close>.
\<close>

section \<open>SQLite values and tables\<close>

text \<open>The order is SQLite's: NULL, then numbers, then text.\<close>

datatype sql_value = Null | Integer int | Text string

instantiation sql_value :: linorder
begin

fun less_sql_value :: "sql_value \<Rightarrow> sql_value \<Rightarrow> bool" where
  "less_sql_value Null y = (y \<noteq> Null)"
| "less_sql_value (Integer i) (Integer j) = (i < j)"
| "less_sql_value (Integer i) (Text s) = True"
| "less_sql_value (Integer i) Null = False"
| "less_sql_value (Text s) (Text t) = (s < t)"
| "less_sql_value (Text s) _ = False"

definition less_eq_sql_value :: "sql_value \<Rightarrow> sql_value \<Rightarrow> bool" where
  "less_eq_sql_value x y \<longleftrightarrow> x < y \<or> x = y"

instance
proof
  fix x y z :: sql_value
  show "(x < y) = (x \<le> y \<and> \<not> y \<le> x)"
    by (cases x; cases y) (auto simp: less_eq_sql_value_def)
  show "x \<le> x" by (simp add: less_eq_sql_value_def)
  show "x \<le> y \<Longrightarrow> y \<le> z \<Longrightarrow> x \<le> z"
    by (cases x; cases y; cases z) (auto simp: less_eq_sql_value_def)
  show "x \<le> y \<Longrightarrow> y \<le> x \<Longrightarrow> x = y"
    by (cases x; cases y) (auto simp: less_eq_sql_value_def)
  show "x \<le> y \<or> y \<le> x"
    by (cases x; cases y) (auto simp: less_eq_sql_value_def)
qed

end

type_synonym row = "sql_value list"

record sql_table =
  t_columns :: "(string \<times> nat) list"
  t_rows :: "row list"

type_synonym sql_file = "(string \<times> sql_table) list"

definition DEFAULT_TABLES :: "string list" where
  "DEFAULT_TABLES = [''visits'', ''read_events'', ''skimmed_events'', ''snapshots'']"

definition COUNTER_COLUMNS :: "string \<Rightarrow> string list" where
  "COUNTER_COLUMNS t = (if t = ''visits'' then [''read'', ''skimmed''] else [])"

section \<open>Queries\<close>

definition query :: "'a \<Rightarrow> 'a io" where
  "query x = db_op (ret x)"

definition table_exists :: "sql_file \<Rightarrow> string \<Rightarrow> bool" where
  "table_exists d t = (map_of d t \<noteq> None)"

definition table_of :: "sql_file \<Rightarrow> string \<Rightarrow> sql_table" where
  "table_of d t = (case map_of d t of Some tb \<Rightarrow> tb | None \<Rightarrow> \<lparr>t_columns = [], t_rows = []\<rparr>)"

definition all_columns :: "sql_table \<Rightarrow> string list" where
  "all_columns tb = map fst (t_columns tb)"

definition pk_columns :: "sql_table \<Rightarrow> string list" where
  "pk_columns tb = map fst (sort_key snd (filter (\<lambda>c. snd c > 0) (t_columns tb)))"

definition value_at :: "string list \<Rightarrow> row \<Rightarrow> string \<Rightarrow> sql_value" where
  "value_at cols r c = (case map_of (zip cols r) c of Some v \<Rightarrow> v | None \<Rightarrow> Null)"

definition key_of :: "string list \<Rightarrow> string list \<Rightarrow> row \<Rightarrow> row" where
  "key_of cols pk r = map (value_at cols r) pk"

text \<open>\<open>SELECT k FROM a EXCEPT SELECT k FROM b\<close>: distinct, NULLs equal to each other, in order.\<close>

definition except :: "row list \<Rightarrow> row list \<Rightarrow> row list" where
  "except xs ys = sort (remdups (filter (\<lambda>x. x \<notin> set ys) xs))"

text \<open>\<open>xs[:n]\<close>; a negative bound counts from the end.\<close>

definition slice_to :: "int \<Rightarrow> 'a list \<Rightarrow> 'a list" where
  "slice_to n xs = take (if n < 0 then length xs - nat (- n) else nat n) xs"

definition presence_diff :: "sql_table \<Rightarrow> sql_table \<Rightarrow> string list \<Rightarrow> string list \<Rightarrow> int \<Rightarrow> (nat \<times> nat \<times> row list \<times> row list) io" where
  "presence_diff ta tb cols pk sample =
     bnd (query (except (map (key_of cols pk) (t_rows ta)) (map (key_of cols pk) (t_rows tb)))) (\<lambda>a_only.
     bnd (query (except (map (key_of cols pk) (t_rows tb)) (map (key_of cols pk) (t_rows ta)))) (\<lambda>b_only.
     ret (length a_only, length b_only, slice_to sample a_only, slice_to sample b_only)))"

text \<open>The join's equality is not true of NULLs; the comparison of the other columns reads NULL as the empty text.\<close>

definition joins :: "string list \<Rightarrow> string list \<Rightarrow> row \<Rightarrow> row \<Rightarrow> bool" where
  "joins cols pk ra rb = list_all (\<lambda>c. value_at cols ra c \<noteq> Null \<and> value_at cols ra c = value_at cols rb c) pk"

definition coalesce :: "sql_value \<Rightarrow> sql_value" where
  "coalesce v = (if v = Null then Text [] else v)"

definition differs :: "string list \<Rightarrow> string list \<Rightarrow> row \<Rightarrow> row \<Rightarrow> bool" where
  "differs cols non_pk ra rb = list_ex (\<lambda>c. coalesce (value_at cols ra c) \<noteq> coalesce (value_at cols rb c)) non_pk"

definition non_pk_columns :: "string list \<Rightarrow> string list \<Rightarrow> string list \<Rightarrow> string list" where
  "non_pk_columns cols pk ignore_cols = filter (\<lambda>c. c \<notin> set pk \<and> c \<notin> set ignore_cols) cols"

definition value_rows :: "sql_table \<Rightarrow> sql_table \<Rightarrow> string list \<Rightarrow> string list \<Rightarrow> string list \<Rightarrow> (row \<times> row) list" where
  "value_rows ta tb cols pk non_pk =
     concat (map (\<lambda>ra. map (Pair ra) (filter (\<lambda>rb. joins cols pk ra rb \<and> differs cols non_pk ra rb) (t_rows tb))) (t_rows ta))"

definition named_row :: "string list \<Rightarrow> string list \<Rightarrow> string list \<Rightarrow> row \<times> row \<Rightarrow> (string \<times> sql_value) list" where
  "named_row cols pk non_pk x =
     map (\<lambda>c. (''pk_'' @ c, value_at cols (fst x) c)) pk @ map (\<lambda>c. (''a_'' @ c, value_at cols (fst x) c)) non_pk
     @ map (\<lambda>c. (''b_'' @ c, value_at cols (snd x) c)) non_pk"

definition take_sample :: "string list \<Rightarrow> string list \<Rightarrow> string list \<Rightarrow> int \<Rightarrow>
    nat \<times> (string \<times> sql_value) list list \<Rightarrow> row \<times> row \<Rightarrow> (nat \<times> (string \<times> sql_value) list list) io" where
  "take_sample cols pk non_pk sample acc x =
     (let count = fst acc + 1 in
      if int (length (snd acc)) < sample
      then bnd (query (named_row cols pk non_pk)) (\<lambda>description. ret (count, snd acc @ [description x]))
      else ret (count, snd acc))"

definition value_diff :: "sql_table \<Rightarrow> sql_table \<Rightarrow> string list \<Rightarrow> string list \<Rightarrow> string list \<Rightarrow> int \<Rightarrow>
    (nat \<times> (string \<times> sql_value) list list) io" where
  "value_diff ta tb pk cols ignore_cols sample =
     (let non_pk = non_pk_columns cols pk ignore_cols in
      if non_pk = [] then ret (0, [])
      else bnd (query (value_rows ta tb cols pk non_pk)) (fold_io (take_sample cols pk non_pk sample) (0, [])))"

section \<open>The report\<close>

record comparison =
  a_only_count :: nat
  b_only_count :: nat
  value_diff_count :: nat
  a_only_sample :: "row list"
  b_only_sample :: "row list"
  value_diff_sample :: "(string \<times> sql_value) list list"
  c_pk :: "string list"
  ignored_columns :: "string list"

datatype table_entry = MissingTable | ColumnListsDiffer "string list" "string list" | Compared comparison

fun entry_differs :: "table_entry \<Rightarrow> bool" where
  "entry_differs (Compared c) = (a_only_count c \<noteq> 0 \<or> b_only_count c \<noteq> 0 \<or> value_diff_count c \<noteq> 0)"
| "entry_differs _ = True"

definition diff_table :: "sql_file \<Rightarrow> sql_file \<Rightarrow> bool \<Rightarrow> int \<Rightarrow> string \<Rightarrow> table_entry io" where
  "diff_table fa fb ignore_counters sample t =
     bnd (query (table_exists fa t)) (\<lambda>in_a.
     bnd (if in_a then query (table_exists fb t) else ret False) (\<lambda>in_both.
     if \<not> in_both then ret MissingTable
     else
       bnd (query (all_columns (table_of fa t))) (\<lambda>cols_a.
       bnd (query (all_columns (table_of fb t))) (\<lambda>cols_b.
       if cols_a \<noteq> cols_b then ret (ColumnListsDiffer cols_a cols_b)
       else
         bnd (query (pk_columns (table_of fa t))) (\<lambda>pk0.
         (let pk = (if pk0 = [] then cols_a else pk0);
              ignored = (if ignore_counters then COUNTER_COLUMNS t else []) in
          bnd (presence_diff (table_of fa t) (table_of fb t) cols_a pk sample) (\<lambda>(na, nb, sa, sb).
          bnd (value_diff (table_of fa t) (table_of fb t) pk cols_a ignored sample) (\<lambda>(nv, sv).
          ret (Compared \<lparr>a_only_count = na, b_only_count = nb, value_diff_count = nv, a_only_sample = sa,
            b_only_sample = sb, value_diff_sample = sv, c_pk = pk, ignored_columns = ignored\<rparr>)))))))))"

record report =
  rep_a :: path
  rep_b :: path
  rep_tables :: "(string \<times> table_entry) list"
  any_difference :: bool

definition add_entry :: "sql_file \<Rightarrow> sql_file \<Rightarrow> bool \<Rightarrow> int \<Rightarrow> report \<Rightarrow> string \<Rightarrow> report io" where
  "add_entry fa fb ignore_counters sample rep t =
     bnd (diff_table fa fb ignore_counters sample t) (\<lambda>e.
     ret (rep\<lparr>rep_tables := AList.update t e (rep_tables rep), any_difference := any_difference rep \<or> entry_differs e\<rparr>))"

definition diff :: "(path \<Rightarrow> sql_file) \<Rightarrow> path \<Rightarrow> path \<Rightarrow> string list \<Rightarrow> bool \<Rightarrow> int \<Rightarrow> report io" where
  "diff attached db_a db_b tabs ignore_counters sample =
     bnd (gets (isfile db_a)) (\<lambda>there_a.
     if \<not> there_a then throw (OSError ENOENT db_a)
     else bnd (gets (isfile db_b)) (\<lambda>there_b.
     if \<not> there_b then throw (OSError ENOENT db_b)
     else
       thn (query ())
         (bnd (query (attached db_a)) (\<lambda>fa.
          bnd (query (attached db_b)) (\<lambda>fb.
          fold_io (add_entry fa fb ignore_counters sample)
            \<lparr>rep_a = db_a, rep_b = db_b, rep_tables = [], any_difference = False\<rparr> tabs)))))"

section \<open>Printing and exit code\<close>

record diff_args =
  d_a :: path
  d_b :: path
  d_tables :: string
  d_ignore_counters :: bool
  d_sample :: int
  d_json :: bool

definition format_entry :: "(row \<Rightarrow> string) \<Rightarrow> ((string \<times> sql_value) list \<Rightarrow> string) \<Rightarrow> string \<times> table_entry \<Rightarrow> string list" where
  "format_entry show_list show_dict x =
     (case snd x of
        MissingTable \<Rightarrow> [''  '' @ fst x @ '': ERROR '' @ [CHR 0xE2, CHR 0x80, CHR 0x94] @ '' missing in one or both DBs'']
      | ColumnListsDiffer _ _ \<Rightarrow> [''  '' @ fst x @ '': ERROR '' @ [CHR 0xE2, CHR 0x80, CHR 0x94] @ '' column lists differ'']
      | Compared c \<Rightarrow>
          [''  '' @ fst x @ '': '' @ nat_str (a_only_count c) @ '' in A only, '' @ nat_str (b_only_count c)
             @ '' in B only, '' @ nat_str (value_diff_count c) @ '' value differences''
             @ (if ignored_columns c \<noteq> [] then '' (ignoring '' @ join_with '','' (ignored_columns c) @ '')'' else [])]
          @ map (\<lambda>r. ''      A-only: '' @ show_list r) (a_only_sample c)
          @ map (\<lambda>r. ''      B-only: '' @ show_list r) (b_only_sample c)
          @ map (\<lambda>r. ''      diff:   '' @ show_dict r) (value_diff_sample c))"

definition format_text :: "(row \<Rightarrow> string) \<Rightarrow> ((string \<times> sql_value) list \<Rightarrow> string) \<Rightarrow> report \<Rightarrow> string" where
  "format_text show_list show_dict rep =
     join_with [NL]
       ([''diff: '' @ rep_a rep @ ''  vs  '' @ rep_b rep]
        @ concat (map (format_entry show_list show_dict) (rep_tables rep))
        @ [''any_difference: '' @ (if any_difference rep then ''True'' else ''False'')])"

definition diff_tables_arg :: "string \<Rightarrow> string list" where
  "diff_tables_arg s = map strip (filter (\<lambda>t. strip t \<noteq> []) (split_on (CHR '','') s))"

definition diff_main :: "(path \<Rightarrow> sql_file) \<Rightarrow> (row \<Rightarrow> string) \<Rightarrow> ((string \<times> sql_value) list \<Rightarrow> string) \<Rightarrow> (report \<Rightarrow> string) \<Rightarrow>
    diff_args \<Rightarrow> int io" where
  "diff_main attached show_list show_dict dumps args =
     bnd (catch
           (bnd (diff attached (d_a args) (d_b args) (diff_tables_arg (d_tables args)) (d_ignore_counters args) (d_sample args))
             (\<lambda>rep. ret (Some rep)))
           (\<lambda>e. case e of
              OSError ENOENT msg \<Rightarrow> thn (print_err (''error: db file not found: '' @ msg)) (ret None)
            | _ \<Rightarrow> throw e)) (\<lambda>r.
     case r of
       None \<Rightarrow> ret 2
     | Some rep \<Rightarrow>
         thn (print_out (if d_json args then dumps rep else format_text show_list show_dict rep))
           (ret (if any_difference rep then 1 else 0)))"

end
