(* ===== verification/DbDiffProperties.thy ===== *)
theory DbDiffProperties
  imports DbDiff
begin

text \<open>
  What the exit code of \<open>db_diff\<close> says. The reference compares two tables as sets of rows, NULL read as the
  empty text outside the key and the ignored counters left out; on tables whose keys are unique and
  not NULL the three counts of the tool are all zero iff the sets are equal.
\<close>

section \<open>Reference\<close>

text \<open>What the comparison sees of a row.\<close>

definition visible :: "string list \<Rightarrow> string list \<Rightarrow> string list \<Rightarrow> row \<Rightarrow> row \<times> row" where
  "visible cols pk non_pk r = (key_of cols pk r, map (\<lambda>c. coalesce (value_at cols r c)) non_pk)"

definition ignored_for :: "bool \<Rightarrow> string \<Rightarrow> string list" where
  "ignored_for ignore_counters t = (if ignore_counters then COUNTER_COLUMNS t else [])"

definition key_columns :: "sql_table \<Rightarrow> string list" where
  "key_columns ta = (if pk_columns ta = [] then all_columns ta else pk_columns ta)"

definition same_view_rows :: "bool \<Rightarrow> string \<Rightarrow> sql_table \<Rightarrow> sql_table \<Rightarrow> bool" where
  "same_view_rows ignore_counters t ta tb \<longleftrightarrow>
     (let cols = all_columns ta; pk = key_columns ta;
          view = visible cols pk (non_pk_columns cols pk (ignored_for ignore_counters t))
      in view ` set (t_rows ta) = view ` set (t_rows tb))"

definition agree :: "bool \<Rightarrow> sql_file \<Rightarrow> sql_file \<Rightarrow> string \<Rightarrow> bool" where
  "agree ignore_counters fa fb t \<longleftrightarrow>
     table_exists fa t \<and> table_exists fb t \<and> all_columns (table_of fa t) = all_columns (table_of fb t)
     \<and> same_view_rows ignore_counters t (table_of fa t) (table_of fb t)"

definition unique_keys :: "string list \<Rightarrow> string list \<Rightarrow> sql_table \<Rightarrow> bool" where
  "unique_keys cols pk tb \<longleftrightarrow> distinct (map (key_of cols pk) (t_rows tb)) \<and> list_all (\<lambda>r. Null \<notin> set (key_of cols pk r)) (t_rows tb)"

definition well_keyed :: "sql_file \<Rightarrow> sql_file \<Rightarrow> string \<Rightarrow> bool" where
  "well_keyed fa fb t \<longleftrightarrow>
     (let ta = table_of fa t in unique_keys (all_columns ta) (key_columns ta) ta
        \<and> unique_keys (all_columns ta) (key_columns ta) (table_of fb t))"

section \<open>The queries\<close>

lemma except_Nil: "except xs ys = [] \<longleftrightarrow> set xs \<subseteq> set ys"
proof -
  have "except xs ys = [] \<longleftrightarrow> set (except xs ys) = {}" by simp
  also have "\<dots> \<longleftrightarrow> set xs \<subseteq> set ys" by (auto simp: except_def)
  finally show ?thesis .
qed

lemma joins_key: "Null \<notin> set (key_of cols pk ra) \<Longrightarrow> joins cols pk ra rb \<longleftrightarrow> key_of cols pk ra = key_of cols pk rb"
  by (auto simp: joins_def key_of_def list_all_iff image_iff)

lemma differs_map:
  "differs cols non_pk ra rb \<longleftrightarrow>
     map (\<lambda>c. coalesce (value_at cols ra c)) non_pk \<noteq> map (\<lambda>c. coalesce (value_at cols rb c)) non_pk"
  by (auto simp: differs_def list_ex_iff)

lemma value_rows_Nil:
  "value_rows ta tb cols pk non_pk = [] \<longleftrightarrow>
     (\<forall>ra\<in>set (t_rows ta). \<forall>rb\<in>set (t_rows tb). joins cols pk ra rb \<longrightarrow> \<not> differs cols non_pk ra rb)"
  by (auto simp: value_rows_def filter_empty_conv)

lemma same_view_iff:
  assumes a: "unique_keys cols pk ta" and b: "unique_keys cols pk tb"
  shows "visible cols pk non_pk ` set (t_rows ta) = visible cols pk non_pk ` set (t_rows tb) \<longleftrightarrow>
    except (map (key_of cols pk) (t_rows ta)) (map (key_of cols pk) (t_rows tb)) = []
    \<and> except (map (key_of cols pk) (t_rows tb)) (map (key_of cols pk) (t_rows ta)) = []
    \<and> value_rows ta tb cols pk non_pk = []" (is "?L \<longleftrightarrow> ?A \<and> ?B \<and> ?V")
proof
  have joins: "joins cols pk ra rb \<longleftrightarrow> key_of cols pk ra = key_of cols pk rb" if "ra \<in> set (t_rows ta)" for ra rb
    using a that by (intro joins_key) (auto simp: unique_keys_def list_all_iff)
  have inj: "r = s" if "r \<in> set (t_rows tb)" "s \<in> set (t_rows tb)" "key_of cols pk r = key_of cols pk s" for r s
    using b that by (auto simp: unique_keys_def distinct_map inj_on_def)
  {
    assume ?L
    then have "fst ` visible cols pk non_pk ` set (t_rows ta) = fst ` visible cols pk non_pk ` set (t_rows tb)" by simp
    then have keys: "key_of cols pk ` set (t_rows ta) = key_of cols pk ` set (t_rows tb)"
      by (simp add: image_comp comp_def visible_def)
    have "\<not> differs cols non_pk ra rb"
      if m: "ra \<in> set (t_rows ta)" "rb \<in> set (t_rows tb)" "joins cols pk ra rb" for ra rb
    proof -
      from \<open>?L\<close> m(1) obtain rc where rc: "rc \<in> set (t_rows tb)" "visible cols pk non_pk ra = visible cols pk non_pk rc"
        by (metis imageE imageI)
      from m(1,3) have "key_of cols pk ra = key_of cols pk rb" by (simp only: joins)
      with rc(2) have "key_of cols pk rc = key_of cols pk rb" by (simp add: visible_def)
      then have "rc = rb" by (rule inj [OF rc(1) m(2)])
      with rc show ?thesis by (simp add: visible_def differs_map)
    qed
    with keys show "?A \<and> ?B \<and> ?V" by (simp add: except_Nil value_rows_Nil)
  next
    assume r: "?A \<and> ?B \<and> ?V"
    then have keys: "key_of cols pk ` set (t_rows ta) = key_of cols pk ` set (t_rows tb)"
      by (auto simp: except_Nil)
    have "visible cols pk non_pk ra = visible cols pk non_pk rb"
      if "ra \<in> set (t_rows ta)" "rb \<in> set (t_rows tb)" "key_of cols pk ra = key_of cols pk rb" for ra rb
      using r that joins [OF that(1), of rb] by (simp add: value_rows_Nil visible_def differs_map)
    then have eq: "\<And>ra rb. ra \<in> set (t_rows ta) \<Longrightarrow> rb \<in> set (t_rows tb) \<Longrightarrow> key_of cols pk ra = key_of cols pk rb
      \<Longrightarrow> visible cols pk non_pk ra = visible cols pk non_pk rb" .
    have "visible cols pk non_pk ra \<in> visible cols pk non_pk ` set (t_rows tb)" if m: "ra \<in> set (t_rows ta)" for ra
    proof -
      from keys m obtain rb where "rb \<in> set (t_rows tb)" "key_of cols pk ra = key_of cols pk rb" by (metis imageE imageI)
      with eq m show ?thesis by blast
    qed
    moreover have "visible cols pk non_pk rb \<in> visible cols pk non_pk ` set (t_rows ta)" if m: "rb \<in> set (t_rows tb)" for rb
    proof -
      from keys m obtain ra where "ra \<in> set (t_rows ta)" "key_of cols pk ra = key_of cols pk rb" by (metis imageE imageI)
      with eq m have "visible cols pk non_pk rb = visible cols pk non_pk ra" by simp
      then show ?thesis using \<open>ra \<in> set (t_rows ta)\<close> by simp
    qed
    ultimately show ?L by blast
  }
qed

lemma wp_query: "(\<And>dl. Q x (w\<lparr>db_faults := dl\<rparr>)) \<Longrightarrow> (\<And>e dl. is_sqlite_error e \<Longrightarrow> E e (w\<lparr>db_faults := dl\<rparr>)) \<Longrightarrow> wp (query x) Q E w"
  unfolding query_def by (rule wp_db_op) (simp_all add: wp_simps)

text \<open>From here on only the results matter: every exception is one of SQLite's.\<close>

definition computes :: "'a io \<Rightarrow> ('a \<Rightarrow> bool) \<Rightarrow> bool" where
  "computes m P \<longleftrightarrow> (\<forall>w. wp m (\<lambda>a _. P a) (\<lambda>e _. is_sqlite_error e) w)"

lemma computes_ret: "P a \<Longrightarrow> computes (ret a) P"
  by (simp add: computes_def wp_simps)

lemma computes_query: "computes (query x) (\<lambda>a. a = x)"
  by (auto simp: computes_def intro: wp_query)

lemma computes_bnd: "computes m P \<Longrightarrow> (\<And>a. P a \<Longrightarrow> computes (f a) Q) \<Longrightarrow> computes (bnd m f) Q"
  unfolding computes_def wp_bnd by (blast intro: wp_mono)

lemma computes_query_bnd: "computes (f x) Q \<Longrightarrow> computes (bnd (query x) f) Q"
  by (rule computes_bnd [OF computes_query]) simp

lemma bnd_ret [simp]: "bnd (ret x) f = f x"
  by (rule ext) (simp add: bnd_def ret_def)

lemma computes_mono: "computes m P \<Longrightarrow> (\<And>a. P a \<Longrightarrow> Q a) \<Longrightarrow> computes m Q"
  unfolding computes_def by (blast intro: wp_mono)

lemma computes_fold:
  "(\<And>s x. x \<in> set xs \<Longrightarrow> computes (body s x) (\<lambda>s'. m s' = step (m s) x)) \<Longrightarrow>
   computes (fold_io body s xs) (\<lambda>s'. m s' = foldl step (m s) xs)"
proof (induction xs arbitrary: s)
  case Nil
  then show ?case by (simp add: computes_ret)
next
  case (Cons x xs)
  show ?case
    unfolding fold_io.simps
    by (rule computes_bnd [OF Cons.prems]) (use Cons in \<open>force intro: computes_mono\<close>)+
qed

lemma computes_count:
  "computes (fold_io (take_sample cols pk non_pk sample) acc xs) (\<lambda>acc'. fst acc' = fst acc + length xs)"
proof -
  have "computes (fold_io (take_sample cols pk non_pk sample) acc xs) (\<lambda>acc'. fst acc' = foldl (\<lambda>n _. n + 1) (fst acc) xs)"
    by (rule computes_fold) (auto simp: take_sample_def Let_def intro!: computes_query_bnd computes_ret)
  moreover have "foldl (\<lambda>n _. n + 1) k xs = k + length xs" for k
    by (induction xs arbitrary: k) auto
  ultimately show ?thesis by simp
qed

lemma computes_value_diff:
  "computes (value_diff ta tb pk cols ign sample)
     (\<lambda>r. fst r = 0 \<longleftrightarrow> value_rows ta tb cols pk (non_pk_columns cols pk ign) = [])"
proof (cases "non_pk_columns cols pk ign = []")
  case True
  then show ?thesis
    by (auto simp: value_diff_def value_rows_Nil differs_def intro!: computes_ret)
next
  case False
  then show ?thesis
    by (auto simp: value_diff_def Let_def intro!: computes_query_bnd intro: computes_mono [OF computes_count])
qed

lemma computes_presence_diff:
  "computes (presence_diff ta tb cols pk sample)
     (\<lambda>r. (fst r = 0 \<longleftrightarrow> except (map (key_of cols pk) (t_rows ta)) (map (key_of cols pk) (t_rows tb)) = [])
        \<and> (fst (snd r) = 0 \<longleftrightarrow> except (map (key_of cols pk) (t_rows tb)) (map (key_of cols pk) (t_rows ta)) = []))"
  unfolding presence_diff_def by (auto intro!: computes_query_bnd computes_ret)

lemma computes_diff_table:
  assumes "well_keyed fa fb t"
  shows "computes (diff_table fa fb ic sample t) (\<lambda>e. entry_differs e = (\<not> agree ic fa fb t))"
proof (cases "table_exists fa t \<and> table_exists fb t \<and> all_columns (table_of fa t) = all_columns (table_of fb t)")
  case False
  then show ?thesis
    by (auto simp: diff_table_def agree_def intro!: computes_query_bnd computes_ret computes_bnd [OF computes_query])
next
  case True
  let ?ta = "table_of fa t" and ?tb = "table_of fb t"
  let ?cols = "all_columns ?ta" and ?pk = "key_columns ?ta" and ?ign = "ignored_for ic t"
  have u: "unique_keys ?cols ?pk ?ta" "unique_keys ?cols ?pk ?tb"
    using assms by (simp_all add: well_keyed_def Let_def)
  have eq: "agree ic fa fb t \<longleftrightarrow> except (map (key_of ?cols ?pk) (t_rows ?ta)) (map (key_of ?cols ?pk) (t_rows ?tb)) = []
    \<and> except (map (key_of ?cols ?pk) (t_rows ?tb)) (map (key_of ?cols ?pk) (t_rows ?ta)) = []
    \<and> value_rows ?ta ?tb ?cols ?pk (non_pk_columns ?cols ?pk ?ign) = []"
    using True same_view_iff [OF u, of "non_pk_columns ?cols ?pk ?ign"] by (simp add: agree_def same_view_rows_def Let_def)
  let ?rest = "bnd (presence_diff ?ta ?tb ?cols ?pk sample) (\<lambda>(na, nb, sa, sb).
      bnd (value_diff ?ta ?tb ?pk ?cols ?ign sample) (\<lambda>(nv, sv).
      ret (Compared \<lparr>a_only_count = na, b_only_count = nb, value_diff_count = nv, a_only_sample = sa,
            b_only_sample = sb, value_diff_sample = sv, c_pk = ?pk, ignored_columns = ?ign\<rparr>)))"
  have "computes ?rest (\<lambda>e. entry_differs e = (\<not> agree ic fa fb t))"
    by (rule computes_bnd [OF computes_presence_diff], simp add: split_def,
        rule computes_bnd [OF computes_value_diff], rule computes_ret, simp add: eq)
  then have rest: "computes (let pk = if pk_columns ?ta = [] then ?cols else pk_columns ?ta; ign = if ic then COUNTER_COLUMNS t else [] in
      bnd (presence_diff ?ta ?tb ?cols pk sample) (\<lambda>(na, nb, sa, sb).
      bnd (value_diff ?ta ?tb pk ?cols ign sample) (\<lambda>(nv, sv).
      ret (Compared \<lparr>a_only_count = na, b_only_count = nb, value_diff_count = nv, a_only_sample = sa,
            b_only_sample = sb, value_diff_sample = sv, c_pk = pk, ignored_columns = ign\<rparr>))))
      (\<lambda>e. entry_differs e = (\<not> agree ic fa fb t))"
    by (simp only: Let_def key_columns_def ignored_for_def)
  from True have there: "table_exists fa t = True" "table_exists fb t = True" and same: "all_columns ?tb = ?cols"
    by simp_all
  show ?thesis
    unfolding diff_table_def
    by (rule computes_query_bnd, simp only: there if_True, rule computes_query_bnd, simp only: not_True_eq_False if_False,
        rule computes_query_bnd, rule computes_query_bnd, simp only: same simp_thms if_False, rule computes_query_bnd, rule rest)
qed

section \<open>The exit code\<close>

lemma computes_report:
  assumes "list_all (well_keyed fa fb) tabs"
  shows "computes (fold_io (add_entry fa fb ic sample) rep tabs)
    (\<lambda>r. any_difference r = (any_difference rep \<or> \<not> list_all (agree ic fa fb) tabs))"
proof -
  have "computes (fold_io (add_entry fa fb ic sample) rep tabs)
      (\<lambda>r. any_difference r = foldl (\<lambda>b t. b \<or> \<not> agree ic fa fb t) (any_difference rep) tabs)"
  proof (rule computes_fold)
    fix rep t assume "t \<in> set tabs"
    with assms have "well_keyed fa fb t" by (simp add: list_all_iff)
    then show "computes (add_entry fa fb ic sample rep t)
        (\<lambda>r. any_difference r = (any_difference rep \<or> \<not> agree ic fa fb t))"
      unfolding add_entry_def by (intro computes_bnd [OF computes_diff_table] computes_ret) simp_all
  qed
  moreover have "foldl (\<lambda>b t. b \<or> \<not> agree ic fa fb t) b tabs = (b \<or> \<not> list_all (agree ic fa fb) tabs)" for b
    by (induction tabs arbitrary: b) auto
  ultimately show ?thesis by simp
qed



end
