(* ===== verification/Aws.thy ===== *)
theory Aws
  imports Effects "HOL-Library.AList"
begin

text \<open>
  \<open>browser-visit-tools/_bvl_aws.py\<close>: what the two AWS tools share. AWS is a service the repository only
  calls, so it is a parameter: \<open>answer\<close> gives, for the calls made before and the next one, the reply or
  the error, and \<open>delay\<close> how long the call takes. The state of a run holds the calls made so far (each
  with the region of its client), the monotonic clock, the state file \<open>vm.json\<close> (as the dictionary it
  parses to), the local files that are uploaded and the texts that were printed.
\<close>

section \<open>Calls and replies\<close>

text \<open>
  A request is represented by the arguments that vary or that a property reads; arguments that are the same
  constants in every request of its kind (the shell document, the protocol, the volume type, the counts, the
  description of the group) are left out.
\<close>

record ec2_instance =
  i_id :: string
  i_state :: string
  i_type :: "string option"
  i_dns :: "string option"
  i_ip :: "string option"

record invocation =
  inv_status :: string
  inv_code :: "int option"
  inv_stdout :: "string option"
  inv_stderr :: "string option"

record launch =
  la_ami :: string
  la_type :: string
  la_group :: string
  la_profile :: string
  la_volume :: int
  la_tags :: "(string \<times> string) list"
  la_token :: string

datatype call =
    DescribeInstances "(string \<times> string list) list"
  | DescribeInstance string
  | RunInstances launch
  | StartInstances string
  | StopInstances string
  | RebootInstances string
  | TerminateInstances string
  | DescribeSecurityGroups string
  | CreateSecurityGroup string "(string \<times> string) list"
  | AuthorizeIngress string int string
  | DeleteSecurityGroup string
  | GetRole string
  | CreateRole string string
  | AttachRolePolicy string string
  | PutRolePolicy string string string
  | DetachRolePolicy string string
  | DeleteRolePolicy string string
  | DeleteRole string
  | GetInstanceProfile string
  | CreateInstanceProfile string
  | AddRoleToInstanceProfile string string
  | RemoveRoleFromInstanceProfile string string
  | DeleteInstanceProfile string
  | GetCallerIdentity
  | GetParameter string
  | DescribeInstanceInformation string
  | SendCommand string string "string list"
  | GetCommandInvocation string string
  | HeadBucket string
  | CreateBucket string "string option"
  | PutBucketLifecycle string nat
  | UploadFile path string string bool

datatype reply =
    Reservations "ec2_instance list list"
  | Groups "string list"
  | Ident string
  | Launched "string list"
  | PingStatuses "string option list"
  | Invocation invocation
  | Done

type_synonym region = "string option"

record cloud =
  trace :: "(region \<times> call) list"
  answer :: "(region \<times> call) list \<Rightarrow> region \<times> call \<Rightarrow> exn + reply"
  delay :: "(region \<times> call) list \<Rightarrow> nat"
  now :: int
  vm_state :: "(string \<times> string option) list option"
  saves :: nat
  stamp :: "nat \<Rightarrow> string"
  env_region :: "string option"
  local_file :: "path \<Rightarrow> string option"
  uuid :: string
  c_out :: "string list"
  c_err :: "string list"

type_synonym 'a aws = "(cloud, 'a) prog"

definition aws_call :: "region \<Rightarrow> call \<Rightarrow> reply aws" where
  "aws_call region k c =
     (answer c (trace c) (region, k),
      c\<lparr>trace := trace c @ [(region, k)], now := now c + int (delay c (trace c))\<rparr>)"

definition aws_do :: "region \<Rightarrow> call \<Rightarrow> unit aws" where
  "aws_do region k = thn (aws_call region k) (ret ())"

text \<open>\<open>sys.stdout.write\<close> and \<open>print\<close>, and the same for the error output.\<close>

definition put_out :: "string \<Rightarrow> unit aws" where
  "put_out s c = (Inr (), c\<lparr>c_out := c_out c @ [s]\<rparr>)"

definition put_err :: "string \<Rightarrow> unit aws" where
  "put_err s c = (Inr (), c\<lparr>c_err := c_err c @ [s]\<rparr>)"

definition say :: "string \<Rightarrow> unit aws" where
  "say s = put_out (s @ [NL])"

definition warn :: "string \<Rightarrow> unit aws" where
  "warn s = put_err (s @ [NL])"

text \<open>A reply of another shape than the caller reads.\<close>

definition bad_reply :: "'a aws" where
  "bad_reply = throw (TypeError ''unexpected reply'')"

section \<open>Region, names, error codes\<close>

definition TAG_MANAGED_BY :: "string \<times> string" where "TAG_MANAGED_BY = (''bvl:managed-by'', ''browser-visit-tools'')"
definition TAG_ROLE :: "string \<times> string" where "TAG_ROLE = (''bvl:role'', ''sync-server'')"
definition SG_NAME :: string where "SG_NAME = ''bvl-sync-server-sg''"
definition ROLE_NAME :: string where "ROLE_NAME = ''bvl-sync-server-role''"
definition PROFILE_NAME :: string where "PROFILE_NAME = ''bvl-sync-server-profile''"
definition GRPC_PORT :: int where "GRPC_PORT = 50443"

text \<open>Python's \<open>or\<close> on optional strings: the empty string counts as missing.\<close>

definition or_str :: "string option \<Rightarrow> string option \<Rightarrow> string option" where
  "or_str x y = (if x = None \<or> x = Some [] then y else x)"

definition resolve_region :: "string option \<Rightarrow> region aws" where
  "resolve_region arg_region = gets (\<lambda>c. or_str arg_region (or_str (env_region c) None))"

fun error_code :: "exn \<Rightarrow> string option" where
  "error_code (ClientError code _) = code"
| "error_code _ = None"

section \<open>The state file\<close>

definition load_state :: "(string \<times> string option) list aws" where
  "load_state = gets (\<lambda>c. case vm_state c of None \<Rightarrow> [] | Some s \<Rightarrow> s)"

definition save_state :: "(string \<times> string option) list \<Rightarrow> (string \<times> string option) list aws" where
  "save_state st c =
     (let written = AList.update ''updated_at'' (Some (stamp c (saves c))) st
      in (Inr written, c\<lparr>vm_state := Some written, saves := Suc (saves c)\<rparr>))"

text \<open>\<open>dict.get\<close>: a missing key and a null are both \<open>None\<close>.\<close>

definition dict_get :: "(string \<times> string option) list \<Rightarrow> string \<Rightarrow> string option" where
  "dict_get st k = (case map_of st k of Some v \<Rightarrow> v | None \<Rightarrow> None)"

section \<open>Discovery\<close>

definition LIVE_STATES :: "string list" where
  "LIVE_STATES = [''pending'', ''running'', ''stopping'', ''stopped'']"

definition live_filter :: "(string \<times> string list) list" where
  "live_filter = [(''tag:'' @ fst TAG_ROLE, [snd TAG_ROLE]), (''instance-state-name'', LIVE_STATES)]"

definition discover_instances :: "region \<Rightarrow> ec2_instance list aws" where
  "discover_instances region =
     bnd (aws_call region (DescribeInstances live_filter)) (\<lambda>resp.
     case resp of Reservations rs \<Rightarrow> ret (concat rs) | _ \<Rightarrow> bad_reply)"

definition only_instance :: "ec2_instance list \<Rightarrow> string aws" where
  "only_instance found =
     (case found of
        [] \<Rightarrow> throw (RuntimeError (''no sync-server VM found (state file empty and no instance carries tag ''
                @ fst TAG_ROLE @ ''='' @ snd TAG_ROLE @ ''); run `create` first''))
      | [i] \<Rightarrow> ret (i_id i)
      | _ \<Rightarrow> throw (RuntimeError (''ambiguous: multiple sync-server instances found (''
                @ join_with '', '' (sort (remdups (map i_id found))) @ ''); terminate the extras or fix the state file'')))"

definition resolve_instance_id :: "region \<Rightarrow> (string \<times> string option) list \<Rightarrow> string aws" where
  "resolve_instance_id region st =
     (let want = dict_get st ''instance_id'' in
      bnd (discover_instances region) (\<lambda>found.
      case want of
        Some i \<Rightarrow> if i \<noteq> [] \<and> i \<in> set (map i_id found) then ret i else only_instance found
      | None \<Rightarrow> only_instance found))"

section \<open>Polling\<close>

text \<open>
  The loop both waits share: try; when the try is not final and the deadline has passed, raise; else sleep
  and try again. An attempt ends the loop with \<open>Inr\<close>, or hands the state of the next one on with \<open>Inl\<close>.
\<close>

definition sleep :: "int \<Rightarrow> cloud \<Rightarrow> cloud" where
  "sleep interval c = c\<lparr>now := now c + interval\<rparr>"

partial_function (option) poll ::
    "('b \<Rightarrow> (cloud, 'b + 'a) prog) \<Rightarrow> ('b \<Rightarrow> string) \<Rightarrow> int \<Rightarrow> int \<Rightarrow> 'b \<Rightarrow> cloud \<Rightarrow> ((exn + 'a) \<times> cloud) option" where
  "poll attempt message deadline interval s c =
     (case attempt s c of
        (Inl e, c') \<Rightarrow> Some (Inl e, c')
      | (Inr (Inr a), c') \<Rightarrow> Some (Inr a, c')
      | (Inr (Inl s'), c') \<Rightarrow>
          if now c' \<ge> deadline then Some (Inl (TimeoutError (message s')), c')
          else poll attempt message deadline interval s' (sleep interval c'))"

declare poll.simps [code]

text \<open>A loop that is known to end, as a step of a run.\<close>

definition finish :: "(cloud \<Rightarrow> ((exn + 'a) \<times> cloud) option) \<Rightarrow> 'a aws" where
  "finish m c = the (m c)"

definition ping_attempt :: "region \<Rightarrow> string \<Rightarrow> unit \<Rightarrow> (cloud, unit + unit) prog" where
  "ping_attempt region instance_id u =
     bnd (aws_call region (DescribeInstanceInformation instance_id)) (\<lambda>resp.
     case resp of
       PingStatuses infos \<Rightarrow> if infos \<noteq> [] \<and> hd infos = Some ''Online'' then ret (Inr ()) else ret (Inl ())
     | _ \<Rightarrow> bad_reply)"

definition wait_for_ssm_online :: "region \<Rightarrow> string \<Rightarrow> int \<Rightarrow> int \<Rightarrow> cloud \<Rightarrow> ((exn + unit) \<times> cloud) option" where
  "wait_for_ssm_online region instance_id timeout interval c =
     poll (ping_attempt region instance_id)
       (\<lambda>_. ''SSM agent on '' @ instance_id @ '' not Online after '' @ int_str timeout @ ''s'')
       (now c + timeout) interval () c"

record remote_result =
  r_status :: string
  r_exit_code :: int
  r_stdout :: string
  r_stderr :: string

definition SSM_TERMINAL :: "string list" where
  "SSM_TERMINAL = [''Success'', ''Cancelled'', ''Failed'', ''TimedOut'']"

definition or_default :: "'a \<Rightarrow> 'a option \<Rightarrow> 'a" where
  "or_default d x = (case x of Some v \<Rightarrow> v | None \<Rightarrow> d)"

definition invocation_attempt :: "region \<Rightarrow> string \<Rightarrow> string \<Rightarrow> string \<Rightarrow> (cloud, string + remote_result) prog" where
  "invocation_attempt region command_id instance_id status =
     catch
       (bnd (aws_call region (GetCommandInvocation command_id instance_id)) (\<lambda>resp.
        case resp of
          Invocation i \<Rightarrow>
            if inv_status i \<in> set SSM_TERMINAL
            then ret (Inr \<lparr>r_status = inv_status i, r_exit_code = or_default (-1) (inv_code i),
                   r_stdout = or_default [] (inv_stdout i), r_stderr = or_default [] (inv_stderr i)\<rparr>)
            else ret (Inl (inv_status i))
        | _ \<Rightarrow> bad_reply))
       (\<lambda>e. if error_code e \<noteq> Some ''InvocationDoesNotExist'' then throw e else ret (Inl status))"

definition run_remote :: "region \<Rightarrow> string \<Rightarrow> string list \<Rightarrow> string \<Rightarrow> int \<Rightarrow> int \<Rightarrow> remote_result aws" where
  "run_remote region instance_id commands comment timeout interval =
     bnd (aws_call region (SendCommand instance_id (take 100 comment) commands)) (\<lambda>sent.
     case sent of
       Ident command_id \<Rightarrow>
         bnd (gets now) (\<lambda>start.
         finish (poll (invocation_attempt region command_id instance_id)
           (\<lambda>status. ''SSM command '' @ command_id @ '' still '' @ status @ '' after '' @ int_str timeout @ ''s'')
           (start + timeout) interval ''pending''))
     | _ \<Rightarrow> bad_reply)"

section \<open>Staging bucket\<close>

text \<open>An f-string renders \<open>None\<close> as the word.\<close>

definition str_of_region :: "region \<Rightarrow> string" where
  "str_of_region region = (case region of None \<Rightarrow> ''None'' | Some r \<Rightarrow> r)"

definition caller_account :: "region \<Rightarrow> string aws" where
  "caller_account region =
     bnd (aws_call region GetCallerIdentity) (\<lambda>resp. case resp of Ident a \<Rightarrow> ret a | _ \<Rightarrow> bad_reply)"

definition staging_bucket_name :: "region \<Rightarrow> string aws" where
  "staging_bucket_name region =
     bnd (caller_account region) (\<lambda>account. ret (''bvl-sync-deploy-'' @ account @ ''-'' @ str_of_region region))"

definition ensure_bucket :: "region \<Rightarrow> string \<Rightarrow> string \<Rightarrow> string aws" where
  "ensure_bucket client_region name region =
     thn (catch (aws_do client_region (HeadBucket name))
           (\<lambda>e. if error_code e \<notin> set [Some ''404'', Some ''NoSuchBucket'', Some ''NotFound''] then throw e
                else aws_do client_region (CreateBucket name (if region = ''us-east-1'' then None else Some region))))
       (thn (aws_do client_region (PutBucketLifecycle name 7)) (ret name))"

definition upload_file :: "region \<Rightarrow> path \<Rightarrow> string \<Rightarrow> string \<Rightarrow> bool \<Rightarrow> string aws" where
  "upload_file region path bucket key encrypt =
     thn (aws_do region (UploadFile path bucket key encrypt)) (ret (''s3://'' @ bucket @ ''/'' @ key))"

section \<open>Entry point\<close>

text \<open>The entry point of both tools: the two exceptions of their own become exit code 1.\<close>

definition guarded_main :: "int aws \<Rightarrow> int aws" where
  "guarded_main m =
     catch m (\<lambda>e. case e of
        RuntimeError s \<Rightarrow> thn (warn (''error: '' @ s)) (ret 1)
      | TimeoutError s \<Rightarrow> thn (warn (''error: '' @ s)) (ret 1)
      | _ \<Rightarrow> throw e)"

end
