(* ===== verification/ManageServer.thy ===== *)
theory ManageServer
  imports Aws
begin

text \<open>
  \<open>browser-visit-tools/manage_sync_server.py\<close>: provisioning, deploying and operating the sync server on the VM,
  every step a shell script that AWS SSM runs there. The scripts are values here, line by line; what
  they do on the VM is outside the repository's Python and not modelled. The digest of the binary is
  the parameter \<open>sha256\<close>, the fingerprint of a certificate the parameter \<open>fingerprint\<close>.
\<close>

section \<open>Constants\<close>

definition BVL_LIB :: string where "BVL_LIB = ''/usr/local/lib/bvl''"
definition DATA_DIR :: string where "DATA_DIR = ''/var/lib/browser-visit-sync''"
definition ETC_DIR :: string where "ETC_DIR = ''/etc/browser-visit-sync''"
definition ENROLLED_DB :: string where "ENROLLED_DB = DATA_DIR @ ''/enrolled_machines.db''"
definition SNAPSHOTS_DB :: string where "SNAPSHOTS_DB = DATA_DIR @ ''/browser-visits.db''"
definition GDRIVE_MOUNT :: string where "GDRIVE_MOUNT = ''/mnt/gdrive-snapshots''"
definition GDRIVE_SA :: string where "GDRIVE_SA = ETC_DIR @ ''/gdrive-sa.json''"
definition RCLONE_CONF :: string where "RCLONE_CONF = ETC_DIR @ ''/rclone.conf''"

text \<open>The files of the checkout that are uploaded, under its directory \<open>browser-visit-tools/..\<close>.\<close>

definition deploy_file :: "path \<Rightarrow> string \<Rightarrow> path" where
  "deploy_file checkout name = checkout @ ''/browser-visit-sync-server/deploy/'' @ name"

definition SEALER_SCRIPTS :: "path \<Rightarrow> (string \<times> path) list" where
  "SEALER_SCRIPTS checkout =
     [(''snapshot_mover.py'', checkout @ ''/browser-visit-snapshot-lib/snapshot_mover.py''),
      (''seal_completed_days.py'', checkout @ ''/browser-visit-sync-server/sealer/seal_completed_days.py'')]"

definition GOARCH :: "(string \<times> string) list" where
  "GOARCH = [(''x86_64'', ''amd64''), (''arm64'', ''arm64'')]"

text \<open>The two programs that run on the VM, as texts.\<close>

definition DB_SUMMARY_PY :: string where
  \<open>DB_SUMMARY_PY = join_with [NL]
     [''import sqlite3, sys'',
      ''try:'',
      ''    c = sqlite3.connect("file:%s?mode=ro" % sys.argv[1], uri=True)'',
      ''    def count(t):'',
      ''        try:'',
      ''            return str(c.execute("SELECT COUNT(*) FROM %s" % t).fetchone()[0])'',
      ''        except Exception:'',
      ''            return "n/a"'',
      ''    print("  event rows to seal: read=%s skimmed=%s"'',
      ''          % (count("read_events"), count("skimmed_events")))'',
      ''    rows = c.execute("SELECT date, sealed FROM snapshots "'',
      ''                     "ORDER BY date DESC LIMIT 5").fetchall()'',
      ''    if not rows:'',
      ''        print("  snapshots table: (empty)")'',
      ''    for d, s in rows:'',
      ''        print("  snapshots: %s sealed=%s" % (d, s))'',
      ''except Exception as e:'',
      ''    print("  (query failed: %s)" % e)'',
      []]\<close>

definition ENROLL_PY :: string where
  \<open>ENROLL_PY = join_with [NL]
     [''import sqlite3, sys, datetime'',
      ''conn = sqlite3.connect(sys.argv[1])'',
      ''conn.execute("PRAGMA busy_timeout=5000")'',
      ''conn.execute("CREATE TABLE IF NOT EXISTS enrolled_machines ("'',
      ''             "machine_id TEXT PRIMARY KEY, cert_sha256 TEXT NOT NULL, "'',
      ''             "enrolled_at TEXT NOT NULL)")'',
      ''op = sys.argv[2]'',
      ''if op == "list":'',
      ''    rows = conn.execute("SELECT machine_id, cert_sha256, enrolled_at FROM "'',
      ''                        "enrolled_machines ORDER BY machine_id").fetchall()'',
      ''    for r in rows:'',
      ''        print("%-30s %s... %s" % (r[0], r[1][:16], r[2]))'',
      ''    print("(%d enrolled)" % len(rows))'',
      ''elif op == "revoke":'',
      ''    n = conn.execute("DELETE FROM enrolled_machines WHERE machine_id=?",'',
      ''                     (sys.argv[3],)).rowcount'',
      ''    conn.commit()'',
      ''    print("revoked %s (%d row(s))" % (sys.argv[3], n))'',
      ''else:'',
      ''    conn.execute("INSERT OR REPLACE INTO enrolled_machines VALUES (?,?,?)",'',
      ''                 (sys.argv[3], sys.argv[4],'',
      ''                  datetime.datetime.now(datetime.timezone.utc).isoformat()))'',
      ''    conn.commit()'',
      ''    print("enrolled %s" % sys.argv[3])'',
      []]\<close>

section \<open>Quoting\<close>


text \<open>\<open>shlex.quote\<close> of the standard library.\<close>

definition shell_safe :: "char \<Rightarrow> bool" where
  "shell_safe c \<longleftrightarrow> c \<in> set ''ABCDEFGHIJKLMNOPQRSTUVWXYZabcdefghijklmnopqrstuvwxyz0123456789_@%+=:,./-''"

definition shell_quote :: "string \<Rightarrow> string" where
  "shell_quote s =
     (if s = [] then [QUOTE, QUOTE]
      else if list_all shell_safe s then s
      else [QUOTE] @ replace_char QUOTE [QUOTE, DQUOTE, QUOTE, DQUOTE, QUOTE] s @ [QUOTE])"

text \<open>\<open>repr\<close> of a string.\<close>

definition hex_digit :: "nat \<Rightarrow> char" where
  "hex_digit n = ''0123456789abcdef'' ! n"

definition repr_char :: "char \<Rightarrow> char \<Rightarrow> string" where
  "repr_char q c =
     (let n = of_char c :: nat in
      if c = q \<or> c = BACKSLASH then [BACKSLASH, c]
      else if c = NL then [BACKSLASH, CHR ''n''] else if c = CR then [BACKSLASH, CHR ''r''] else if c = TAB then [BACKSLASH, CHR ''t'']
      else if n < 32 \<or> 127 \<le> n \<and> n \<le> 160 \<or> n = 173 then [BACKSLASH, CHR ''x'', hex_digit (n div 16), hex_digit (n mod 16)]
      else [c])"

definition py_repr :: "string \<Rightarrow> string" where
  "py_repr s =
     (let q = (if QUOTE \<in> set s \<and> DQUOTE \<notin> set s then DQUOTE else QUOTE)
      in [q] @ concat (map (repr_char q) s) @ [q])"

section \<open>Shared steps\<close>

definition surface :: "remote_result \<Rightarrow> int aws" where
  "surface res =
     thn (unless (r_stdout res = [])
           (thn (put_out (r_stdout res)) (unless (endswith (r_stdout res) [NL]) (put_out [NL]))))
       (thn (unless (r_stderr res = []) (put_err (r_stderr res)))
         (if r_status res = ''Success'' \<and> r_exit_code res = 0 then ret 0
          else thn (warn (''remote command '' @ r_status res @ '' (exit '' @ int_str (r_exit_code res) @ '')'')) (ret 1)))"

definition ssm_target :: "string option \<Rightarrow> (region \<times> string) aws" where
  "ssm_target arg_region =
     bnd load_state (\<lambda>st.
     bnd (resolve_region arg_region) (\<lambda>r.
     (let region = or_str r (dict_get st ''region'') in
      bnd (resolve_instance_id region st) (\<lambda>instance_id.
      thn (say (''region='' @ (case or_str region None of Some r \<Rightarrow> r | None \<Rightarrow> ''default'') @ '' instance='' @ instance_id))
        (thn (finish (wait_for_ssm_online region instance_id 180 5)) (ret (region, instance_id)))))))"

definition stage_clients :: "region \<Rightarrow> string aws" where
  "stage_clients region =
     bnd (staging_bucket_name region) (\<lambda>bucket.
     ensure_bucket region bucket (case or_str region None of Some r \<Rightarrow> r | None \<Rightarrow> ''us-east-1''))"

text \<open>\<open>_surface(aws.run_remote(ssm, instance_id, script, comment=...))\<close>.\<close>

definition remote :: "region \<Rightarrow> string \<Rightarrow> string list \<Rightarrow> string \<Rightarrow> int aws" where
  "remote region instance_id script comment = bnd (run_remote region instance_id script comment 300 3) surface"

definition s3_copy :: "string \<Rightarrow> string \<Rightarrow> string \<Rightarrow> string" where
  "s3_copy bucket key target = ''aws s3 cp s3://'' @ bucket @ ''/'' @ key @ '' '' @ target"

definition say_when :: "bool \<Rightarrow> string \<Rightarrow> unit aws" where
  "say_when b s = unless (\<not> b) (say s)"

section \<open>deploy\<close>

text \<open>\<open>Path(p).name\<close>.\<close>

definition path_name :: "path \<Rightarrow> string" where
  "path_name p = (case comps_of p of [] \<Rightarrow> [] | cs \<Rightarrow> List.last cs)"

definition check_arch :: "path \<Rightarrow> string option aws" where
  "check_arch binary =
     bnd load_state (\<lambda>st.
     case or_str (dict_get st ''arch'') None of
       None \<Rightarrow> ret None
     | Some arch \<Rightarrow>
         (case map_of GOARCH arch of
            None \<Rightarrow> ret None
          | Some token \<Rightarrow>
              if \<not> contains (path_name binary) token
              then ret (Some (''binary '' @ py_repr (path_name binary) @ '' does not look like a '' @ token
                     @ '' build but the VM arch is '' @ arch @ ''; rebuild with the matching GOARCH or pass --force''))
              else ret None))"

definition deploy_script :: "string \<Rightarrow> string \<Rightarrow> string list" where
  "deploy_script bucket key =
     [''set -euo pipefail'', s3_copy bucket key ''/tmp/sync-server.new'',
      ''install -m 0755 /tmp/sync-server.new /usr/local/bin/sync-server'', ''rm -f /tmp/sync-server.new'',
      ''systemctl restart sync-server'']"

definition read_bytes :: "path \<Rightarrow> string aws" where
  "read_bytes p =
     bnd (gets (\<lambda>c. local_file c p)) (\<lambda>content.
     case content of None \<Rightarrow> throw (OSError ENOENT p) | Some data \<Rightarrow> ret data)"

definition deploy :: "(string \<Rightarrow> string) \<Rightarrow> region \<Rightarrow> string \<Rightarrow> path option \<Rightarrow> int aws" where
  "deploy sha256 region instance_id binary =
     bnd (stage_clients region) (\<lambda>bucket.
     case binary of
       None \<Rightarrow> throw (TypeError ''expected str, bytes or os.PathLike object, not NoneType'')
     | Some b \<Rightarrow>
         bnd (read_bytes b) (\<lambda>data.
         (let digest = sha256 data; key = ''sync-server/'' @ digest in
          thn (upload_file region b bucket key False)
            (thn (say (''deploying '' @ path_name b @ '' ('' @ take 12 digest @ '') ...''))
              (remote region instance_id (deploy_script bucket key) ''bvl deploy'')))))"

definition server_cmd_deploy :: "(string \<Rightarrow> string) \<Rightarrow> string option \<Rightarrow> path \<Rightarrow> bool \<Rightarrow> int aws" where
  "server_cmd_deploy sha256 arg_region binary force =
     bnd (gets (\<lambda>c. local_file c binary)) (\<lambda>content.
     if content = None then thn (warn (''error: binary not found: '' @ binary)) (ret 1)
     else
       bnd (check_arch binary) (\<lambda>problem.
       case (problem, force) of
         (Some p, False) \<Rightarrow> thn (warn (''error: '' @ p)) (ret 1)
       | _ \<Rightarrow> bnd (ssm_target arg_region) (\<lambda>(region, instance_id). deploy sha256 region instance_id (Some binary))))"

section \<open>provision\<close>

record provision_args =
  pa_region :: "string option"
  pa_server_cert :: path
  pa_server_key :: path
  pa_clients_ca :: path
  pa_and_deploy :: bool
  pa_binary :: "path option"

definition provision_script :: "string \<Rightarrow> string list" where
  "provision_script bucket =
     [''set -euo pipefail'',
      ''id -u bvlsync &>/dev/null || useradd --system --no-create-home --shell /usr/sbin/nologin bvlsync'',
      ''mkdir -p '' @ DATA_DIR @ ''/logs '' @ ETC_DIR,
      ''chown -R bvlsync:bvlsync '' @ DATA_DIR,
      ''chmod 750 '' @ ETC_DIR,
      s3_copy bucket ''deploy/sync-server.service'' ''/etc/systemd/system/sync-server.service'',
      s3_copy bucket ''tls/server.crt'' (ETC_DIR @ ''/server.crt''),
      s3_copy bucket ''tls/server.key'' (ETC_DIR @ ''/server.key''),
      s3_copy bucket ''tls/clients-ca.crt'' (ETC_DIR @ ''/clients-ca.crt''),
      ''chown -R bvlsync:bvlsync '' @ ETC_DIR,
      ''chmod 600 '' @ ETC_DIR @ ''/server.key'',
      ''systemctl daemon-reload'',
      ''systemctl enable sync-server'']"

definition cmd_provision :: "(string \<Rightarrow> string) \<Rightarrow> path \<Rightarrow> provision_args \<Rightarrow> int aws" where
  "cmd_provision sha256 checkout args =
     bnd (ssm_target (pa_region args)) (\<lambda>(region, instance_id).
     bnd (stage_clients region) (\<lambda>bucket.
     thn (upload_file region (deploy_file checkout ''sync-server.service'') bucket ''deploy/sync-server.service'' False)
       (thn (upload_file region (pa_server_cert args) bucket ''tls/server.crt'' True)
         (thn (upload_file region (pa_server_key args) bucket ''tls/server.key'' True)
           (thn (upload_file region (pa_clients_ca args) bucket ''tls/clients-ca.crt'' True)
             (bnd (remote region instance_id (provision_script bucket) ''bvl provision'') (\<lambda>rc.
              thn (say_when (rc = 0) ''provisioned; run `deploy` to install the binary'')
                (if rc = 0 \<and> pa_and_deploy args then deploy sha256 region instance_id (pa_binary args) else ret rc))))))))"

section \<open>The Drive mount\<close>

definition rclone_conf :: "string \<Rightarrow> string" where
  "rclone_conf root_folder_id =
     ''[gdrive]'' @ [NL] @ ''type = drive'' @ [NL] @ ''scope = drive'' @ [NL]
     @ ''service_account_file = '' @ GDRIVE_SA @ [NL] @ ''root_folder_id = '' @ root_folder_id @ [NL]"

definition drive_script :: "string \<Rightarrow> string \<Rightarrow> string list" where
  "drive_script bucket conf =
     [''set -euo pipefail'',
      ''command -v rclone >/dev/null || dnf install -y rclone fuse3'',
      ''mkdir -p '' @ GDRIVE_MOUNT,
      ''chown bvlsync:bvlsync '' @ GDRIVE_MOUNT,
      s3_copy bucket ''gdrive/gdrive-sa.json'' GDRIVE_SA,
      ''printf %s '' @ shell_quote conf @ '' > '' @ RCLONE_CONF,
      s3_copy bucket ''deploy/gdrive-snapshots.service'' ''/etc/systemd/system/gdrive-snapshots.service'',
      ''chown bvlsync:bvlsync '' @ GDRIVE_SA @ '' '' @ RCLONE_CONF,
      ''chmod 400 '' @ GDRIVE_SA,
      ''chmod 600 '' @ RCLONE_CONF,
      ''systemctl daemon-reload'',
      ''systemctl enable --now gdrive-snapshots'']"

definition cmd_provision_drive :: "path \<Rightarrow> string option \<Rightarrow> path \<Rightarrow> string \<Rightarrow> int aws" where
  "cmd_provision_drive checkout arg_region service_account root_folder_id =
     bnd (gets (\<lambda>c. local_file c service_account)) (\<lambda>key.
     if key = None then thn (warn (''error: service account key not found: '' @ service_account)) (ret 1)
     else
       bnd (ssm_target arg_region) (\<lambda>(region, instance_id).
       bnd (stage_clients region) (\<lambda>bucket.
       thn (upload_file region (deploy_file checkout ''gdrive-snapshots.service'') bucket ''deploy/gdrive-snapshots.service'' False)
         (thn (upload_file region service_account bucket ''gdrive/gdrive-sa.json'' True)
           (bnd (remote region instance_id (drive_script bucket (rclone_conf root_folder_id)) ''bvl provision-drive'') (\<lambda>rc.
            thn (say_when (rc = 0) (''drive mount provisioned at '' @ GDRIVE_MOUNT @ ''; run `drive-status` to verify''))
              (ret rc)))))))"

definition drive_status_script :: "string list" where
  \<open>drive_status_script =
     [''runuser -u bvlsync -- mountpoint -q '' @ GDRIVE_MOUNT @ '' && echo "mount: mounted at '' @ GDRIVE_MOUNT
        @ ''" || echo "mount: NOT mounted"'',
      ''echo "service: $(systemctl is-active gdrive-snapshots.service 2>/dev/null || echo absent)"'',
      ''echo "recent snapshot days on Drive:"; days=$(runuser -u bvlsync -- ls -1 '' @ GDRIVE_MOUNT
        @ '' 2>/dev/null | tail -5); echo "${days:-  (none yet)}"'',
      ''echo "canonical DB (sealer input + state):"; python3 -c '' @ shell_quote DB_SUMMARY_PY @ '' '' @ SNAPSHOTS_DB]\<close>

definition cmd_drive_status :: "string option \<Rightarrow> int aws" where
  "cmd_drive_status arg_region =
     bnd (ssm_target arg_region) (\<lambda>(region, instance_id). remote region instance_id drive_status_script ''bvl drive-status'')"

section \<open>The seal pass on the VM\<close>

definition sealer_script :: "path \<Rightarrow> string \<Rightarrow> string list" where
  "sealer_script checkout bucket =
     [''set -euo pipefail'', ''mkdir -p '' @ BVL_LIB]
     @ map (\<lambda>(name, _). s3_copy bucket (''sealer/'' @ name) (BVL_LIB @ ''/'' @ name)) (SEALER_SCRIPTS checkout)
     @ [''chmod 0755 '' @ BVL_LIB @ ''/seal_completed_days.py'',
        s3_copy bucket ''deploy/gdrive-verifier.service'' ''/etc/systemd/system/gdrive-verifier.service'',
        s3_copy bucket ''deploy/gdrive-verifier.timer'' ''/etc/systemd/system/gdrive-verifier.timer'',
        ''systemctl daemon-reload'',
        ''systemctl enable --now gdrive-verifier.timer'']"

definition cmd_provision_sealer :: "path \<Rightarrow> string option \<Rightarrow> int aws" where
  "cmd_provision_sealer checkout arg_region =
     bnd (ssm_target arg_region) (\<lambda>(region, instance_id).
     bnd (stage_clients region) (\<lambda>bucket.
     thn (for_each (SEALER_SCRIPTS checkout) (\<lambda>(name, src). thn (upload_file region src bucket (''sealer/'' @ name) False) (ret ())))
       (thn (upload_file region (deploy_file checkout ''gdrive-verifier.service'') bucket ''deploy/gdrive-verifier.service'' False)
         (thn (upload_file region (deploy_file checkout ''gdrive-verifier.timer'') bucket ''deploy/gdrive-verifier.timer'' False)
           (bnd (remote region instance_id (sealer_script checkout bucket) ''bvl provision-sealer'') (\<lambda>rc.
            thn (say_when (rc = 0) (''sealer provisioned; gdrive-verifier.timer enabled. Preview ''
                   @ ''with `sealer-run --dry-run`, then `drive-status`.''))
              (ret rc)))))))"

definition sealer_run_command :: "bool \<Rightarrow> string" where
  "sealer_run_command dry_run =
     ''runuser -u bvlsync -- env BVL_ICLOUD_SNAPSHOTS_DIR='' @ GDRIVE_MOUNT @ '' BVL_DB_FILE='' @ SNAPSHOTS_DB
     @ '' BVL_MATCH_BY_FILENAME=1 python3 '' @ BVL_LIB @ ''/seal_completed_days.py'' @ (if dry_run then '' --dry-run'' else [])"

definition cmd_sealer_run :: "string option \<Rightarrow> bool \<Rightarrow> int aws" where
  "cmd_sealer_run arg_region dry_run =
     bnd (ssm_target arg_region) (\<lambda>(region, instance_id).
     remote region instance_id [''set -euo pipefail'', sealer_run_command dry_run] ''bvl sealer-run'')"

section \<open>Operating the service\<close>

definition systemctl :: "string option \<Rightarrow> string \<Rightarrow> int aws" where
  "systemctl arg_region action =
     bnd (ssm_target arg_region) (\<lambda>(region, instance_id).
     remote region instance_id [''systemctl '' @ action @ '' sync-server''] (''bvl '' @ action))"

definition server_status :: "string option \<Rightarrow> int aws" where
  "server_status arg_region =
     bnd (ssm_target arg_region) (\<lambda>(region, instance_id).
     remote region instance_id
       [''systemctl is-active sync-server || true'', ''systemctl status sync-server --no-pager || true''] ''bvl status'')"

definition logs_command :: "int \<Rightarrow> string option \<Rightarrow> string" where
  "logs_command n since =
     ''journalctl -u sync-server -n '' @ int_str n @ '' --no-pager''
     @ (case or_str since None of Some s \<Rightarrow> '' --since '' @ py_repr s | None \<Rightarrow> [])"

definition cmd_logs :: "string option \<Rightarrow> int \<Rightarrow> string option \<Rightarrow> int aws" where
  "cmd_logs arg_region n since =
     bnd (ssm_target arg_region) (\<lambda>(region, instance_id).
     remote region instance_id [logs_command n since] ''bvl logs'')"

definition health_script :: "string list" where
  \<open>health_script =
     [''set -e'',
      ''systemctl is-active --quiet sync-server && echo "service: active" || { echo "service: INACTIVE"; exit 1; }'',
      ''timeout 3 bash -c "</dev/tcp/127.0.0.1/'' @ int_str GRPC_PORT @ ''" && echo "port '' @ int_str GRPC_PORT
        @ '': open" || { echo "port '' @ int_str GRPC_PORT @ '': CLOSED"; exit 1; }'',
      ''use=$(df --output=pcent '' @ DATA_DIR @ '' | tail -1 | tr -dc "0-9"); echo "disk: ${use}% used"; [ "$use" -lt 90 ] || { echo "disk: OVER 90%"; exit 1; }'']\<close>

definition cmd_health :: "string option \<Rightarrow> int aws" where
  "cmd_health arg_region =
     bnd (ssm_target arg_region) (\<lambda>(region, instance_id). remote region instance_id health_script ''bvl health'')"

section \<open>enroll\<close>

datatype enroll_op = EnrollOp string string | RevokeOp string | ListOp

definition enroll_argv :: "enroll_op \<Rightarrow> string list" where
  "enroll_argv op =
     ENROLLED_DB # (case op of EnrollOp m fp \<Rightarrow> [''enroll'', m, fp] | RevokeOp m \<Rightarrow> [''revoke'', m] | ListOp \<Rightarrow> [''list''])"

definition enroll_command :: "enroll_op \<Rightarrow> string" where
  "enroll_command op =
     ''python3 -c '' @ shell_quote ENROLL_PY @ '' '' @ join_with '' '' (map shell_quote (enroll_argv op))"

definition enroll_remote :: "enroll_op \<Rightarrow> string list" where
  "enroll_remote op =
     [''set -euo pipefail'', enroll_command op]
     @ (if op \<noteq> ListOp then [''chown bvlsync:bvlsync '' @ ENROLLED_DB] else [])"

record enroll_args =
  ea_region :: "string option"
  ea_machine_id :: "string option"
  ea_cert :: "path option"
  ea_revoke :: bool
  ea_list :: bool

text \<open>The fingerprint needs the certificate's file; its format is the parameter's business.\<close>

definition cert_fingerprint_of :: "(string \<Rightarrow> string) \<Rightarrow> path \<Rightarrow> string aws" where
  "cert_fingerprint_of fingerprint cert = bnd (read_bytes cert) (\<lambda>data. ret (fingerprint data))"

definition enroll_usage :: "string \<Rightarrow> int aws" where
  "enroll_usage message = thn (warn message) (ret 2)"

definition enroll_send :: "string option \<Rightarrow> enroll_op \<Rightarrow> int aws" where
  "enroll_send arg_region op =
     bnd (ssm_target arg_region) (\<lambda>(region, instance_id).
     remote region instance_id (enroll_remote op)
       (''bvl enroll '' @ (case op of EnrollOp _ _ \<Rightarrow> ''enroll'' | RevokeOp _ \<Rightarrow> ''revoke'' | ListOp \<Rightarrow> ''list'')))"

definition cmd_enroll :: "(string \<Rightarrow> string) \<Rightarrow> enroll_args \<Rightarrow> int aws" where
  "cmd_enroll fingerprint args =
     (if ea_list args then enroll_send (ea_region args) ListOp
      else
        (case or_str (ea_machine_id args) None of
           None \<Rightarrow>
             enroll_usage (if ea_revoke args then ''error: --machine-id required to revoke''
               else ''error: --machine-id and --cert required to enroll'')
         | Some m \<Rightarrow>
             if ea_revoke args then enroll_send (ea_region args) (RevokeOp m)
             else
               (case or_str (ea_cert args) None of
                  None \<Rightarrow> enroll_usage ''error: --machine-id and --cert required to enroll''
                | Some cert \<Rightarrow>
                    bnd (cert_fingerprint_of fingerprint cert) (\<lambda>fp. enroll_send (ea_region args) (EnrollOp m fp)))))"

section \<open>Dispatch\<close>

datatype server_command =
    Provision provision_args
  | Deploy "string option" path bool
  | Systemctl string "string option"
  | ServerStatus "string option"
  | Logs "string option" int "string option"
  | Health "string option"
  | EnrollCmd enroll_args
  | ProvisionDrive "string option" path string
  | DriveStatus "string option"
  | ProvisionSealer "string option"
  | SealerRun "string option" bool

fun server_dispatch :: "(string \<Rightarrow> string) \<Rightarrow> (string \<Rightarrow> string) \<Rightarrow> path \<Rightarrow> server_command \<Rightarrow> int aws" where
  "server_dispatch sha256 fingerprint checkout (Provision args) = cmd_provision sha256 checkout args"
| "server_dispatch sha256 fingerprint checkout (Deploy r binary force) = server_cmd_deploy sha256 r binary force"
| "server_dispatch sha256 fingerprint checkout (Systemctl action r) = systemctl r action"
| "server_dispatch sha256 fingerprint checkout (ServerStatus r) = server_status r"
| "server_dispatch sha256 fingerprint checkout (Logs r n since) = cmd_logs r n since"
| "server_dispatch sha256 fingerprint checkout (Health r) = cmd_health r"
| "server_dispatch sha256 fingerprint checkout (EnrollCmd args) = cmd_enroll fingerprint args"
| "server_dispatch sha256 fingerprint checkout (ProvisionDrive r sa folder) = cmd_provision_drive checkout r sa folder"
| "server_dispatch sha256 fingerprint checkout (DriveStatus r) = cmd_drive_status r"
| "server_dispatch sha256 fingerprint checkout (ProvisionSealer r) = cmd_provision_sealer checkout r"
| "server_dispatch sha256 fingerprint checkout (SealerRun r dry_run) = cmd_sealer_run r dry_run"

definition server_main :: "(string \<Rightarrow> string) \<Rightarrow> (string \<Rightarrow> string) \<Rightarrow> path \<Rightarrow> server_command \<Rightarrow> int aws" where
  "server_main sha256 fingerprint checkout k = guarded_main (server_dispatch sha256 fingerprint checkout k)"

end
