(* ===== verification/AwsWaits.thy ===== *)
theory AwsWaits
  imports Aws
begin

text \<open>
  The two polling loops end, whatever AWS answers and however long each call takes: the clock never runs
  backwards and every round sleeps. The rule \<open>poll_rule\<close> is the loop rule for total correctness; its
  variant is the number of rounds left before the deadline.
\<close>

section \<open>A rule for polling\<close>

lemma poll_rule:
  assumes step: "\<And>s c. I s c \<Longrightarrow>
      (case attempt s c of
         (Inl e, c') \<Rightarrow> E e c'
       | (Inr (Inr a), c') \<Rightarrow> Q a c'
       | (Inr (Inl s'), c') \<Rightarrow> now c \<le> now c'
           \<and> (if now c' \<ge> deadline then E (TimeoutError (message s')) c' else I s' (sleep interval c')))"
    and "I s c" and interval: "0 < interval"
  shows "\<exists>r c'. poll attempt message deadline interval s c = Some (r, c') \<and> (case r of Inl e \<Rightarrow> E e c' | Inr a \<Rightarrow> Q a c')"
proof -
  have "I s c \<Longrightarrow> deadline - now c \<le> int n * interval \<Longrightarrow>
      \<exists>r c'. poll attempt message deadline interval s c = Some (r, c') \<and> (case r of Inl e \<Rightarrow> E e c' | Inr a \<Rightarrow> Q a c')" for n
  proof (induction n arbitrary: s c)
    case 0
    then show ?case
      using step [OF 0(1)] by (auto simp: poll.simps [of _ _ _ _ s c] split: prod.splits sum.splits if_splits)
  next
    case (Suc n)
    show ?case
    proof (cases "\<exists>s' c'. attempt s c = (Inr (Inl s'), c') \<and> now c' < deadline")
      case False
      then show ?thesis
        using step [OF Suc.prems(1)] by (auto simp: poll.simps [of _ _ _ _ s c] split: prod.splits sum.splits if_splits)
    next
      case True
      then obtain s' c' where a: "attempt s c = (Inr (Inl s'), c')" "now c' < deadline" by blast
      with step [OF Suc.prems(1)] have next_round: "I s' (sleep interval c')" "now c \<le> now c'" by auto
      have "deadline - now (sleep interval c') \<le> int n * interval"
        using next_round(2) Suc.prems(2) by (simp add: sleep_def algebra_simps)
      from Suc.IH [OF next_round(1) this] show ?thesis
        using a by (simp add: poll.simps [of _ _ _ _ s c])
    qed
  qed
  moreover have "deadline - now c \<le> int (nat (deadline - now c)) * interval"
    using interval by (cases "deadline - now c \<le> 0") (auto simp: mult_le_cancel_left1 intro: order_trans [of _ 0])
  ultimately show ?thesis using assms(2) by blast
qed

text \<open>
  Rounds and time: after \<open>k\<close> rounds that make one call each, at least \<open>k\<close> intervals have passed, and the
  round before the last one ended before the deadline.
\<close>

definition rounds :: "int \<Rightarrow> int \<Rightarrow> int \<Rightarrow> nat \<Rightarrow> cloud \<Rightarrow> bool" where
  "rounds start deadline interval n0 c \<longleftrightarrow>
     n0 \<le> length (trace c) \<and> start + int (length (trace c) - n0) * interval \<le> now c
     \<and> (length (trace c) = n0 \<or> start + int (length (trace c) - n0 - 1) * interval < deadline)"

lemma rounds_next:
  assumes "rounds start deadline interval n0 c" and "length (trace c') = Suc (length (trace c))"
    and "now c \<le> now c'" and "now c' < deadline"
  shows "rounds start deadline interval n0 (sleep interval c')"
  using assms by (auto simp: rounds_def sleep_def Suc_diff_le algebra_simps)

lemma rounds_bound:
  assumes "rounds start (start + timeout) interval n0 c" and "0 < interval" and "timeout \<le> int m * interval"
  shows "length (trace c) \<le> n0 + m"
proof (cases "length (trace c) = n0")
  case False
  with assms have "int (length (trace c) - n0 - 1) * interval < int m * interval"
    unfolding rounds_def by linarith
  with assms(2) have "int (length (trace c) - n0 - 1) < int m" by (simp only: mult_less_cancel_right_pos)
  then show ?thesis by linarith
qed simp

section \<open>What an attempt does\<close>

definition last_answer :: "cloud \<Rightarrow> exn + reply" where
  "last_answer c = answer c (butlast (trace c)) (last (trace c))"

lemma run_aws_call:
  "aws_call region k c = (r, c') \<longleftrightarrow>
     r = answer c (trace c) (region, k)
     \<and> c' = c\<lparr>trace := trace c @ [(region, k)], now := now c + int (delay c (trace c))\<rparr>"
  by (auto simp: aws_call_def)

lemma ping_attempt_run:
  "ping_attempt region i u c =
     (let c' = c\<lparr>trace := trace c @ [(region, DescribeInstanceInformation i)], now := now c + int (delay c (trace c))\<rparr>
      in (case last_answer c' of
            Inl e \<Rightarrow> Inl e
          | Inr (PingStatuses (Some s # _)) \<Rightarrow> if s = ''Online'' then Inr (Inr ()) else Inr (Inl ())
          | Inr (PingStatuses _) \<Rightarrow> Inr (Inl ())
          | Inr _ \<Rightarrow> Inl (TypeError ''unexpected reply''), c'))"
  by (auto simp: ping_attempt_def last_answer_def bad_reply_def io_simps aws_call_def Let_def neq_Nil_conv
      split: sum.split reply.split list.split option.split)

text \<open>What the wait for the agent may end with.\<close>

definition ping_outcome :: "int \<Rightarrow> exn + unit \<Rightarrow> cloud \<Rightarrow> bool" where
  "ping_outcome deadline r c \<longleftrightarrow>
     (case r of
        Inr u \<Rightarrow> (\<exists>more. last_answer c = Inr (PingStatuses (Some ''Online'' # more)))
      | Inl e \<Rightarrow> last_answer c = Inl e \<or> e = TypeError ''unexpected reply'' \<or> (\<exists>m. e = TimeoutError m) \<and> deadline \<le> now c)"

text \<open>
  The wait for the SSM agent always ends: it makes at most 37 requests, whatever AWS answers and
  however slow it is, and returns only when the last answer says Online; it times out only when 180
  seconds have passed, and hands every error of AWS on at once.
\<close>

theorem wait_for_ssm_ends:
  "\<exists>r c'. wait_for_ssm_online region i 180 5 c = Some (r, c')
     \<and> length (trace c') \<le> length (trace c) + 37 \<and> ping_outcome (now c + 180) r c'"
proof -
  let ?I = "\<lambda>(_ :: unit). rounds (now c) (now c + 180) 5 (length (trace c))"
  let ?E = "\<lambda>e c'. length (trace c') \<le> length (trace c) + 37 \<and> ping_outcome (now c + 180) (Inl e) c'"
  let ?Q = "\<lambda>u c'. length (trace c') \<le> length (trace c) + 37 \<and> ping_outcome (now c + 180) (Inr u) c'"
  have "\<exists>r c'. poll (ping_attempt region i)
       (\<lambda>_. ''SSM agent on '' @ i @ '' not Online after '' @ int_str 180 @ ''s'') (now c + 180) 5 () c = Some (r, c')
     \<and> (case r of Inl e \<Rightarrow> ?E e c' | Inr a \<Rightarrow> ?Q a c')"
  proof (rule poll_rule [where I = ?I])
    fix s :: unit and d
    assume I: "rounds (now c) (now c + 180) 5 (length (trace c)) d"
    have "length (trace d) \<le> length (trace c) + 36" using rounds_bound [OF I, of 36] by simp
    moreover have "rounds (now c) (now c + 180) 5 (length (trace c))
        (sleep 5 (d\<lparr>trace := trace d @ [(region, DescribeInstanceInformation i)], now := now d + int (delay d (trace d))\<rparr>))"
      if "now d + int (delay d (trace d)) < now c + 180"
      using that by (intro rounds_next [OF I]) simp_all
    ultimately show "case ping_attempt region i s d of
         (Inl e, c') \<Rightarrow> ?E e c'
       | (Inr (Inr a), c') \<Rightarrow> ?Q a c'
       | (Inr (Inl s'), c') \<Rightarrow> now d \<le> now c'
           \<and> (if now c' \<ge> now c + 180 then ?E (TimeoutError (''SSM agent on '' @ i @ '' not Online after '' @ int_str 180 @ ''s'')) c'
              else ?I s' (sleep 5 c'))"
      by (auto simp: ping_attempt_run Let_def ping_outcome_def split: sum.split reply.split list.split option.split)
  qed (simp_all add: rounds_def)
  then obtain r c' where "poll (ping_attempt region i)
       (\<lambda>_. ''SSM agent on '' @ i @ '' not Online after '' @ int_str 180 @ ''s'') (now c + 180) 5 () c = Some (r, c')"
     "case r of Inl e \<Rightarrow> ?E e c' | Inr a \<Rightarrow> ?Q a c'" by blast
  then show ?thesis
    unfolding wait_for_ssm_online_def by (cases r) auto
qed

section \<open>Remote commands\<close>

lemma invocation_attempt_run:
  "invocation_attempt region cmd i status c =
     (let c' = c\<lparr>trace := trace c @ [(region, GetCommandInvocation cmd i)], now := now c + int (delay c (trace c))\<rparr>
      in (case last_answer c' of
            Inl e \<Rightarrow> if error_code e = Some ''InvocationDoesNotExist'' then Inr (Inl status) else Inl e
          | Inr (Invocation v) \<Rightarrow>
              if inv_status v \<in> set SSM_TERMINAL
              then Inr (Inr \<lparr>r_status = inv_status v, r_exit_code = or_default (-1) (inv_code v),
                   r_stdout = or_default [] (inv_stdout v), r_stderr = or_default [] (inv_stderr v)\<rparr>)
              else Inr (Inl (inv_status v))
          | Inr _ \<Rightarrow> Inl (TypeError ''unexpected reply''), c'))"
  by (simp add: invocation_attempt_def last_answer_def bad_reply_def io_simps aws_call_def Let_def
      split: sum.split reply.split)

definition remote_outcome :: "int \<Rightarrow> exn + remote_result \<Rightarrow> cloud \<Rightarrow> bool" where
  "remote_outcome start r c \<longleftrightarrow>
     (case r of
        Inr res \<Rightarrow> (\<exists>v. last_answer c = Inr (Invocation v) \<and> inv_status v \<in> set SSM_TERMINAL
          \<and> r_status res = inv_status v \<and> r_exit_code res = or_default (-1) (inv_code v))
      | Inl e \<Rightarrow> last_answer c = Inl e \<or> e = TypeError ''unexpected reply'' \<or> (\<exists>m. e = TimeoutError m) \<and> start + 300 \<le> now c)"

lemma remote_poll_ends:
  "\<exists>r c'. poll (invocation_attempt region cmd i) message (now c + 300) 3 status c = Some (r, c')
     \<and> length (trace c') \<le> length (trace c) + 101 \<and> remote_outcome (now c) r c'"
proof -
  let ?I = "\<lambda>(_ :: string). rounds (now c) (now c + 300) 3 (length (trace c))"
  let ?E = "\<lambda>e c'. length (trace c') \<le> length (trace c) + 101 \<and> remote_outcome (now c) (Inl e) c'"
  let ?Q = "\<lambda>u c'. length (trace c') \<le> length (trace c) + 101 \<and> remote_outcome (now c) (Inr u) c'"
  have "\<exists>r c'. poll (invocation_attempt region cmd i) message (now c + 300) 3 status c = Some (r, c')
     \<and> (case r of Inl e \<Rightarrow> ?E e c' | Inr a \<Rightarrow> ?Q a c')"
  proof (rule poll_rule [where I = ?I])
    fix s :: string and d
    assume I: "rounds (now c) (now c + 300) 3 (length (trace c)) d"
    have "length (trace d) \<le> length (trace c) + 100" using rounds_bound [OF I, of 100] by simp
    moreover have "rounds (now c) (now c + 300) 3 (length (trace c))
        (sleep 3 (d\<lparr>trace := trace d @ [(region, GetCommandInvocation cmd i)], now := now d + int (delay d (trace d))\<rparr>))"
      if "now d + int (delay d (trace d)) < now c + 300"
      using that by (intro rounds_next [OF I]) simp_all
    ultimately show "case invocation_attempt region cmd i s d of
         (Inl e, c') \<Rightarrow> ?E e c'
       | (Inr (Inr a), c') \<Rightarrow> ?Q a c'
       | (Inr (Inl s'), c') \<Rightarrow> now d \<le> now c'
           \<and> (if now c' \<ge> now c + 300 then ?E (TimeoutError (message s')) c' else ?I s' (sleep 3 c'))"
      by (auto simp: invocation_attempt_run Let_def remote_outcome_def split: sum.split reply.split)
  qed (simp_all add: rounds_def)
  then obtain r c' where "poll (invocation_attempt region cmd i) message (now c + 300) 3 status c = Some (r, c')"
     "case r of Inl e \<Rightarrow> ?E e c' | Inr a \<Rightarrow> ?Q a c'" by blast
  then show ?thesis by (cases r) auto
qed

text \<open>
  C31. A remote command always ends, after at most one request to send it and 101 to poll it: with a
  result exactly when the last answer was a final state of the command, with a timeout only after 300
  seconds, and with any other error of AWS at once; that the command is not known yet is waited out.
\<close>

theorem run_remote_ends:
  "case run_remote region i commands comment 300 3 c of (r, c') \<Rightarrow>
     length (trace c') \<le> length (trace c) + 102
     \<and> (\<exists>start. now c \<le> start \<and> remote_outcome start r c')"
proof (cases "answer c (trace c) (region, SendCommand i (take 100 comment) commands)")
  case (Inl e)
  then show ?thesis
    by (auto simp: run_remote_def io_simps aws_call_def remote_outcome_def last_answer_def)
next
  case (Inr rep)
  let ?c = "c\<lparr>trace := trace c @ [(region, SendCommand i (take 100 comment) commands)], now := now c + int (delay c (trace c))\<rparr>"
  show ?thesis
  proof (cases "\<exists>cmd. rep = Ident cmd")
    case False
    with Inr show ?thesis
      by (cases rep) (auto simp: run_remote_def io_simps aws_call_def remote_outcome_def bad_reply_def)
  next
    case True
    then obtain cmd where cmd: "rep = Ident cmd" by blast
    obtain r c' where p: "poll (invocation_attempt region cmd i)
        (\<lambda>status. ''SSM command '' @ cmd @ '' still '' @ status @ '' after '' @ int_str 300 @ ''s'')
        (now ?c + 300) 3 ''pending'' ?c = Some (r, c')"
      "length (trace c') \<le> length (trace ?c) + 101" "remote_outcome (now ?c) r c'"
      using remote_poll_ends by blast
    have run: "run_remote region i commands comment 300 3 c = (r, c')"
      using Inr cmd p(1) by (simp add: run_remote_def io_simps aws_call_def finish_def)
    show ?thesis
      unfolding run using p(2,3) by (auto intro!: exI [of _ "now ?c"])
  qed
qed

end
