(* ===== verification/ServerProperties.thy ===== *)
theory ServerProperties
  imports ManageServer AwsWaits
begin

text \<open>
  What the remote commands guarantee. The quoting of the enrolment is checked against a reader of shell
  words of its own: it knows single and double quotes and plain characters, and gives up on anything a
  shell would expand. The exit code 0 is traced back to the last answer of AWS.
\<close>

section \<open>Shell words\<close>

definition up_to :: "char \<Rightarrow> string \<Rightarrow> (string \<times> string) option" where
  "up_to q s = (if q \<in> set s then Some (takeWhile (\<lambda>c. c \<noteq> q) s, tl (dropWhile (\<lambda>c. c \<noteq> q) s)) else None)"

lemma up_to_append [simp]: "q \<notin> set u \<Longrightarrow> up_to q (u @ q # v) = Some (u, v)"
proof -
  assume "q \<notin> set u"
  then have "takeWhile (\<lambda>c. c \<noteq> q) (u @ q # v) = u" "dropWhile (\<lambda>c. c \<noteq> q) (u @ q # v) = q # v"
    by (induction u) auto
  then show ?thesis by (simp add: up_to_def)
qed

lemma length_up_to: "up_to q s = Some (u, v) \<Longrightarrow> length v < length s"
proof -
  assume a: "up_to q s = Some (u, v)"
  then have q: "q \<in> set s" and v: "v = tl (dropWhile (\<lambda>c. c \<noteq> q) s)" by (auto simp: up_to_def split: if_splits)
  from q have "dropWhile (\<lambda>c. c \<noteq> q) s \<noteq> []" by (auto simp: dropWhile_eq_Nil_conv)
  moreover have "length (dropWhile (\<lambda>c. c \<noteq> q) s) \<le> length s" by (rule length_dropWhile_le)
  ultimately show ?thesis using v by (cases "dropWhile (\<lambda>c. c \<noteq> q) s") auto
qed

definition expands :: "char \<Rightarrow> bool" where
  "expands c \<longleftrightarrow> c \<in> {CHR ''$'', CHR 0x60, BACKSLASH, CHR ''!''}"

function shell_words :: "string option \<Rightarrow> string \<Rightarrow> string list option" where
  "shell_words cur [] = Some (case cur of None \<Rightarrow> [] | Some w \<Rightarrow> [w])"
| "shell_words cur (c # cs) =
     (if c = CHR '' '' then
        (case cur of None \<Rightarrow> shell_words None cs | Some w \<Rightarrow> map_option ((#) w) (shell_words None cs))
      else if c = QUOTE then
        (case up_to QUOTE cs of None \<Rightarrow> None | Some (q, rest) \<Rightarrow> shell_words (Some (or_default [] cur @ q)) rest)
      else if c = DQUOTE then
        (case up_to DQUOTE cs of
           None \<Rightarrow> None
         | Some (q, rest) \<Rightarrow> if list_ex expands q then None else shell_words (Some (or_default [] cur @ q)) rest)
      else if shell_safe c then shell_words (Some (or_default [] cur @ [c])) cs
      else None)"
  by pat_completeness auto
termination by (relation "measure (\<lambda>(_, s). length s)") (auto dest: length_up_to)

lemma safe_chars [simp]: "\<not> shell_safe (CHR '' '')" "\<not> shell_safe QUOTE" "\<not> shell_safe DQUOTE"
  by (simp_all add: shell_safe_def)

lemma shell_words_safe:
  "list_all shell_safe s \<Longrightarrow> s \<noteq> [] \<Longrightarrow> shell_words cur (s @ rest) = shell_words (Some (or_default [] cur @ s)) rest"
proof (induction s arbitrary: cur)
  case Nil
  then show ?case by simp
next
  case (Cons x xs)
  then have x: "shell_safe x" and xs: "list_all shell_safe xs" by simp_all
  from x have "x \<noteq> CHR '' ''" "x \<noteq> QUOTE" "x \<noteq> DQUOTE" using safe_chars by metis+
  then have step: "shell_words cur ((x # xs) @ rest) = shell_words (Some (or_default [] cur @ [x])) (xs @ rest)"
    using x by simp
  show ?case
  proof (cases "xs = []")
    case True
    then show ?thesis using step by simp
  next
    case False
    then show ?thesis
      unfolding step Cons.IH [OF xs False] by (simp add: or_default_def)
  qed
qed

lemma shell_words_quoted:
  "shell_words cur (QUOTE # replace_char QUOTE [QUOTE, DQUOTE, QUOTE, DQUOTE, QUOTE] s @ QUOTE # rest) = shell_words (Some (or_default [] cur @ s)) rest"
proof (induction "length s" arbitrary: s cur rule: less_induct)
  case less
  show ?case
  proof (cases "QUOTE \<in> set s")
    case False
    then show ?thesis by simp
  next
    case True
    then obtain u v where uv: "s = u @ QUOTE # v" "QUOTE \<notin> set u" by (meson split_list_first)
    have esc: "replace_char QUOTE [QUOTE, DQUOTE, QUOTE, DQUOTE, QUOTE] s = u @ [QUOTE, DQUOTE, QUOTE, DQUOTE, QUOTE] @ replace_char QUOTE [QUOTE, DQUOTE, QUOTE, DQUOTE, QUOTE] v"
      using uv by (simp add: replace_char_def) (metis replace_char_def replace_char_id)
    have dq: "up_to DQUOTE (QUOTE # DQUOTE # t) = Some ([QUOTE], t)" for t
      by (simp add: up_to_def)
    have "shell_words cur (QUOTE # replace_char QUOTE [QUOTE, DQUOTE, QUOTE, DQUOTE, QUOTE] s @ QUOTE # rest)
        = shell_words (Some (or_default [] cur @ u @ [QUOTE])) (QUOTE # replace_char QUOTE [QUOTE, DQUOTE, QUOTE, DQUOTE, QUOTE] v @ QUOTE # rest)"
      unfolding esc using uv(2) by (simp add: dq expands_def or_default_def)
    also have "\<dots> = shell_words (Some ((or_default [] cur @ u @ [QUOTE]) @ v)) rest"
      using less [of v "Some (or_default [] cur @ u @ [QUOTE])"] uv(1) by (simp add: or_default_def)
    finally show ?thesis using uv(1) by simp
  qed
qed

lemma shell_words_quote: "shell_words cur (shell_quote s @ rest) = shell_words (Some (or_default [] cur @ s)) rest"
proof -
  consider "s = []" | "s \<noteq> []" "list_all shell_safe s" | "s \<noteq> []" "\<not> list_all shell_safe s" by blast
  then show ?thesis
  proof cases
    case 1
    then show ?thesis by (simp add: shell_quote_def up_to_def)
  next
    case 2
    then show ?thesis by (simp add: shell_quote_def shell_words_safe)
  next
    case 3
    then show ?thesis using shell_words_quoted [of cur s rest] by (simp add: shell_quote_def)
  qed
qed

lemma shell_words_space: "shell_words (Some w) (CHR '' '' # s) = map_option ((#) w) (shell_words None s)"
  by simp

lemma shell_words_join: "shell_words None (join_with '' '' (map shell_quote ws)) = Some ws"
proof (induction ws)
  case Nil
  then show ?case by simp
next
  case (Cons w ws)
  show ?case
  proof (cases "ws = []")
    case True
    then show ?thesis
      using shell_words_quote [of None w "[]"] by (simp add: or_default_def)
  next
    case False
    then show ?thesis
      using Cons shell_words_quote [of None w]
      by (simp add: join_with_Cons or_default_def del: shell_words.simps) (simp add: shell_words_space)
  qed
qed

text \<open>
  C28. Whatever characters the machine id and the fingerprint hold, the line that enrols, revokes or lists
  on the VM reads as exactly these shell words: \<open>python3 -c\<close>, the program, the database, the operation
  and its arguments. Nothing of them is expanded or splits into another command.
\<close>

theorem enroll_command_words:
  "shell_words None (enroll_command op) = Some ([''python3'', ''-c'', ENROLL_PY] @ enroll_argv op)"
proof -
  have "enroll_command op = join_with '' '' (map shell_quote ([''python3'', ''-c'', ENROLL_PY] @ enroll_argv op))"
  proof -
    have "shell_quote ''python3'' = ''python3''" "shell_quote ''-c'' = ''-c''" by code_simp+
    then show ?thesis by (simp add: enroll_command_def enroll_argv_def)
  qed
  then show ?thesis by (simp only: shell_words_join)
qed

text \<open>
  The option of the log command is quoted with \<open>repr\<close> instead: a text with a single quote comes out in double
  quotes, in which the shell still expands.
\<close>

lemma logs_since_expands:
  "logs_command 5 (Some [QUOTE, CHR ''$'', CHR ''('', CHR ''x'', CHR '')'']) =
     ''journalctl -u sync-server -n 5 --no-pager --since '' @ [DQUOTE, QUOTE, CHR ''$'', CHR ''('', CHR ''x'', CHR '')'', DQUOTE]"
  by code_simp

section \<open>Exit code 0\<close>

text \<open>The last thing AWS said: a command that ended well.\<close>

definition succeeded :: "cloud \<Rightarrow> bool" where
  "succeeded c \<longleftrightarrow> (case last_answer c of
     Inr (Invocation v) \<Rightarrow> inv_status v = ''Success'' \<and> inv_code v = Some 0
   | _ \<Rightarrow> False)"

definition zero_means_success :: "int aws \<Rightarrow> bool" where
  "zero_means_success m \<longleftrightarrow> (\<forall>c. wp m (\<lambda>rc c'. rc = 0 \<longrightarrow> succeeded c') (\<lambda>_ _. True) c)"

lemma zms_ret: "rc \<noteq> 0 \<Longrightarrow> zero_means_success (ret rc)"
  by (simp add: zero_means_success_def wp_simps)

lemma zms_throw: "zero_means_success (throw e)"
  by (simp add: zero_means_success_def wp_simps)

lemma wp_any: "(\<And>a c'. Q a c') \<Longrightarrow> wp m Q (\<lambda>_ _. True) c"
  by (simp add: wp_def split: prod.split sum.split)

lemma zms_bnd: "(\<And>a. zero_means_success (f a)) \<Longrightarrow> zero_means_success (bnd m f)"
  unfolding zero_means_success_def wp_bnd by (rule allI, rule wp_any) blast

lemma zms_thn: "zero_means_success n \<Longrightarrow> zero_means_success (thn m n)"
  unfolding thn_def by (rule zms_bnd)

lemma trace_put [simp]: "last_answer (c\<lparr>c_out := xs\<rparr>) = last_answer c" "last_answer (c\<lparr>c_err := xs\<rparr>) = last_answer c"
  by (simp_all add: last_answer_def)

lemma succeeded_put [simp]: "succeeded (c\<lparr>c_out := xs\<rparr>) = succeeded c" "succeeded (c\<lparr>c_err := xs\<rparr>) = succeeded c"
  by (simp_all add: succeeded_def)

lemma wp_put [wp_simps]:
  "wp (put_out s) Q E c = Q () (c\<lparr>c_out := c_out c @ [s]\<rparr>)" "wp (put_err s) Q E c = Q () (c\<lparr>c_err := c_err c @ [s]\<rparr>)"
  "wp (say s) Q E c = Q () (c\<lparr>c_out := c_out c @ [s @ [NL]]\<rparr>)" "wp (warn s) Q E c = Q () (c\<lparr>c_err := c_err c @ [s @ [NL]]\<rparr>)"
  by (simp_all add: wp_def put_out_def put_err_def say_def warn_def)

lemma surface_zero:
  "wp (surface res) (\<lambda>rc c'. (rc = 0 \<longleftrightarrow> r_status res = ''Success'' \<and> r_exit_code res = 0) \<and> succeeded c' = succeeded c) (\<lambda>_ _. False) c"
  by (simp add: surface_def wp_simps)

lemma zms_remote: "zero_means_success (remote region i script comment)"
  unfolding zero_means_success_def remote_def wp_bnd
proof
  fix c
  obtain r c' where run: "run_remote region i script comment 300 3 c = (r, c')" by (cases "run_remote region i script comment 300 3 c")
  from run_remote_ends [where region = region and i = i and commands = script and comment = comment and c = c] run obtain start where o: "remote_outcome start r c'" by auto
  show "wp (run_remote region i script comment 300 3) (\<lambda>res. wp (surface res) (\<lambda>rc c'. rc = 0 \<longrightarrow> succeeded c') (\<lambda>_ _. True)) (\<lambda>_ _. True) c"
  proof (cases r)
    case (Inl e)
    with run show ?thesis by (simp add: wp_def)
  next
    case (Inr res)
    with o have s: "succeeded c'" if "r_status res = ''Success''" "r_exit_code res = 0"
      using that by (auto simp: remote_outcome_def succeeded_def or_default_def split: option.splits)
    have "wp (surface res) (\<lambda>rc c'. rc = 0 \<longrightarrow> succeeded c') (\<lambda>_ _. True) c'"
      by (rule wp_mono [OF surface_zero]) (use s in auto)
    with run Inr show ?thesis by (simp add: wp_def)
  qed
qed

lemmas zms_rules = zms_remote zms_throw zms_bnd zms_thn

lemma zms_deploy: "zero_means_success (deploy sha256 region i binary)"
  unfolding deploy_def by (auto simp: Let_def intro!: zms_rules split: option.split)

lemma zms_refuse: "rc \<noteq> 0 \<Longrightarrow> zero_means_success (thn (warn s) (ret rc))"
  by (intro zms_thn zms_ret)

lemma zms_after: "zero_means_success m \<Longrightarrow> zero_means_success (bnd m (\<lambda>rc. thn (say_when (b rc) s) (ret rc)))"
proof -
  assume m: "zero_means_success m"
  show ?thesis
    unfolding zero_means_success_def wp_bnd
  proof
    fix c
    have "wp m (\<lambda>rc c'. rc = 0 \<longrightarrow> succeeded c') (\<lambda>_ _. True) c"
      using m by (simp add: zero_means_success_def)
    then show "wp m (\<lambda>rc. wp (thn (say_when (b rc) s) (ret rc)) (\<lambda>rc c'. rc = 0 \<longrightarrow> succeeded c') (\<lambda>_ _. True)) (\<lambda>_ _. True) c"
      by (rule wp_mono) (simp_all add: wp_simps say_when_def)
  qed
qed

lemma zms_if: "(b \<Longrightarrow> zero_means_success m) \<Longrightarrow> (\<not> b \<Longrightarrow> zero_means_success n) \<Longrightarrow> zero_means_success (if b then m else n)"
  by simp

lemma zms_prod: "(\<And>x y. zero_means_success (f x y)) \<Longrightarrow> zero_means_success (case p of (x, y) \<Rightarrow> f x y)"
  by (simp split: prod.split)

lemma zms_enroll: "zero_means_success (cmd_enroll fingerprint args)"
  unfolding cmd_enroll_def enroll_usage_def enroll_send_def
  by (auto intro!: zms_rules zms_ret split: option.split prod.split)

lemma zms_provision: "zero_means_success (cmd_provision sha256 checkout args)"
proof -
  have tail: "zero_means_success (bnd (remote region i script comment) (\<lambda>rc.
      thn (say_when (rc = 0) s) (if rc = 0 \<and> b then deploy sha256 region i binary else ret rc)))" for region i script comment s b binary
  proof (cases b)
    case True
    have "zero_means_success (thn (say_when (rc = 0) s) (if rc = 0 then deploy sha256 region i binary else ret rc))" for rc
      by (intro zms_thn) (simp add: zms_deploy zms_ret)
    then show ?thesis using True by (simp add: zms_bnd)
  next
    case False
    then show ?thesis using zms_after [OF zms_remote, where b = "\<lambda>rc. rc = 0"] by simp
  qed
  show ?thesis
    unfolding cmd_provision_def
    by (rule zms_bnd, rule zms_prod, rule zms_bnd, rule zms_thn, rule zms_thn, rule zms_thn, rule zms_thn, rule tail)
qed

lemma zms_dispatch: "zero_means_success (server_dispatch sha256 fingerprint checkout k)"
proof (cases k)
  case (Provision x1)
  then show ?thesis by (simp add: zms_provision)
next
  case (Deploy r b f)
  then show ?thesis
    by (auto simp: server_cmd_deploy_def zms_deploy intro!: zms_bnd zms_refuse split: option.split bool.split prod.split)
next
  case (EnrollCmd args)
  then show ?thesis by (simp add: zms_enroll)
next
  case (ProvisionDrive r sa f)
  have "zero_means_success (cmd_provision_drive checkout r sa f)"
    unfolding cmd_provision_drive_def
    by (rule zms_bnd, rule zms_if, simp add: zms_refuse, rule zms_bnd, rule zms_prod, rule zms_bnd, rule zms_thn, rule zms_thn,
        rule zms_after, rule zms_remote)
  with ProvisionDrive show ?thesis by simp
next
  case (ProvisionSealer r)
  have "zero_means_success (cmd_provision_sealer checkout r)"
    unfolding cmd_provision_sealer_def
    by (rule zms_bnd, rule zms_prod, rule zms_bnd, rule zms_thn, rule zms_thn, rule zms_thn, rule zms_after, rule zms_remote)
  with ProvisionSealer show ?thesis by simp
qed (auto simp: systemctl_def server_status_def cmd_logs_def cmd_health_def cmd_drive_status_def cmd_sealer_run_def
      intro!: zms_rules split: prod.split)

text \<open>
  C29. When a command of the tool ends with exit code 0, the last thing AWS answered is a command on the VM
  that ended with status Success and exit code 0: no error, timeout or usage mistake is reported as
  success.
\<close>

theorem server_exit_zero:
  assumes "server_main sha256 fingerprint checkout k c = (Inr 0, c')"
  shows "succeeded c'"
proof -
  have "zero_means_success (server_main sha256 fingerprint checkout k)"
    unfolding server_main_def guarded_main_def zero_means_success_def wp_catch
    by (intro allI wp_mono [OF spec [OF zms_dispatch [unfolded zero_means_success_def]]])
      (auto simp: wp_simps split: exn.split)
  with assms show ?thesis by (auto simp: zero_means_success_def wp_def dest!: spec [where x = c])
qed

lemma poll_final: "attempt s c = (Inr (Inr a), c') \<Longrightarrow> poll attempt message deadline interval s c = Some (Inr a, c')"
  by (simp add: poll.simps [of _ _ _ _ s c])

lemma wait_online:
  "last_answer (c\<lparr>trace := trace c @ [(region, DescribeInstanceInformation i)], now := now c + int (delay c (trace c))\<rparr>)
     = Inr (PingStatuses [Some ''Online'']) \<Longrightarrow>
   finish (wait_for_ssm_online region i timeout interval) c
     = (Inr (), c\<lparr>trace := trace c @ [(region, DescribeInstanceInformation i)], now := now c + int (delay c (trace c))\<rparr>)"
  unfolding finish_def wait_for_ssm_online_def
  by (subst poll_final [where a = "()"]) (simp_all add: ping_attempt_run Let_def)

lemma remote_at_once:
  assumes "answer c (trace c) (region, SendCommand i (take 100 comment) script) = Inr (Ident cmd)"
    and "answer c (trace c @ [(region, SendCommand i (take 100 comment) script)]) (region, GetCommandInvocation cmd i)
      = Inr (Invocation \<lparr>inv_status = ''Success'', inv_code = Some 0, inv_stdout = None, inv_stderr = None\<rparr>)"
  shows "fst (remote region i script comment c) = Inr 0"
proof -
  let ?c = "c\<lparr>trace := trace c @ [(region, SendCommand i (take 100 comment) script)], now := now c + int (delay c (trace c))\<rparr>"
  have "finish (poll (invocation_attempt region cmd i) message deadline 3 status) ?c
      = (Inr \<lparr>r_status = ''Success'', r_exit_code = 0, r_stdout = [], r_stderr = []\<rparr>,
         snd (invocation_attempt region cmd i status ?c))" for message deadline status
    unfolding finish_def
    by (subst poll_final [where a = "\<lparr>r_status = ''Success'', r_exit_code = 0, r_stdout = [], r_stderr = []\<rparr>"])
      (simp_all add: invocation_attempt_run Let_def last_answer_def butlast_append assms(2) SSM_TERMINAL_def or_default_def)
  with assms(1) show ?thesis
    by (simp add: remote_def run_remote_def io_simps aws_call_def surface_def)
qed

lemma main_zero: "fst (server_dispatch sha256 fingerprint checkout k c) = Inr 0 \<Longrightarrow>
    server_main sha256 fingerprint checkout k c = (Inr 0, snd (server_main sha256 fingerprint checkout k c))"
  by (cases "server_dispatch sha256 fingerprint checkout k c") (simp add: server_main_def guarded_main_def io_simps)

theorem server_exit_zero_witness:
  "let c = \<lparr>trace = [], answer = (\<lambda>tr (r, k). case k of
        DescribeInstances _ \<Rightarrow> Inr (Reservations [[\<lparr>i_id = ''i-1'', i_state = ''running'', i_type = None, i_dns = None, i_ip = None\<rparr>]])
      | DescribeInstanceInformation _ \<Rightarrow> Inr (PingStatuses [Some ''Online''])
      | SendCommand _ _ _ \<Rightarrow> Inr (Ident ''cmd'')
      | _ \<Rightarrow> Inr (Invocation \<lparr>inv_status = ''Success'', inv_code = Some 0, inv_stdout = None, inv_stderr = None\<rparr>)),
      delay = (\<lambda>_. 1), now = 0, vm_state = None, saves = 0, stamp = (\<lambda>_. []), env_region = None, local_file = (\<lambda>_. None),
      uuid = [], c_out = [], c_err = []\<rparr>
   in succeeded (snd (server_main (\<lambda>_. []) (\<lambda>_. []) [] (Health None) c))"
proof -
  let ?c = "\<lparr>trace = [], answer = (\<lambda>tr (r, k). case k of
        DescribeInstances _ \<Rightarrow> Inr (Reservations [[\<lparr>i_id = ''i-1'', i_state = ''running'', i_type = None, i_dns = None, i_ip = None\<rparr>]])
      | DescribeInstanceInformation _ \<Rightarrow> Inr (PingStatuses [Some ''Online''])
      | SendCommand _ _ _ \<Rightarrow> Inr (Ident ''cmd'')
      | _ \<Rightarrow> Inr (Invocation \<lparr>inv_status = ''Success'', inv_code = Some 0, inv_stdout = None, inv_stderr = None\<rparr>)),
      delay = (\<lambda>_. 1), now = 0, vm_state = None, saves = 0, stamp = (\<lambda>_. []), env_region = None, local_file = (\<lambda>_. None),
      uuid = [], c_out = [], c_err = []\<rparr>"
  let ?r = "server_main (\<lambda>_. []) (\<lambda>_. []) [] (Health None) ?c"
  let ?d = "snd (ssm_target None ?c)"
  have "ssm_target None ?c = (Inr (None, ''i-1''), ?d)" and "answer ?d = answer ?c"
    by (simp_all add: ssm_target_def resolve_instance_id_def discover_instances_def only_instance_def load_state_def
        resolve_region_def dict_get_def or_str_def aws_call_def put_out_def say_def io_simps Let_def wait_online last_answer_def)
  then obtain d where t: "ssm_target None ?c = (Inr (None, ''i-1''), d)" and a: "answer d = answer ?c" by blast
  have "fst (cmd_health None ?c) = fst (remote None ''i-1'' health_script ''bvl health'' d)"
    by (simp only: cmd_health_def run_bnd t sum.case prod.case)
  also have "\<dots> = Inr 0" by (rule remote_at_once) (simp_all add: a)
  finally have "fst (server_dispatch (\<lambda>_. []) (\<lambda>_. []) [] (Health None) ?c) = Inr 0" by simp
  then have "?r = (Inr 0, snd ?r)" by (rule main_zero)
  from server_exit_zero [OF this] show ?thesis by (simp only: Let_def)
qed

end
