(* ===== verification/ManageVm.thy ===== *)
theory ManageVm
  imports Aws
begin

text \<open>
  \<open>browser-visit-tools/manage_vm.py\<close>: creating, operating and terminating the VM. JSON documents that are
  constants of the program (the trust policy, the inline policy) are kept as far as they carry data: the
  role's trust is fixed, the inline policy is its bucket resource.
\<close>

section \<open>Options and constants\<close>

record create_args =
  ca_region :: "string option"
  ca_allow_cidr :: "string list"
  ca_instance_type :: "string option"
  ca_volume_size :: int
  ca_arch :: string
  ca_ami :: "string option"

text \<open>AMI suffix and default instance type of an architecture.\<close>

definition ARCH :: "string \<Rightarrow> string \<times> string" where
  "ARCH arch = (if arch = ''x86_64'' then (''x86_64'', ''t3.small'') else (''arm64'', ''t4g.small''))"

definition TRUST_POLICY :: string where
  \<open>TRUST_POLICY = ''{"Version": "2012-10-17", "Statement": [{"Effect": "Allow", "Principal": {"Service": "ec2.amazonaws.com"}, ''
     @ ''"Action": "sts:AssumeRole"}]}''\<close>

definition SSM_CORE_POLICY :: string where
  "SSM_CORE_POLICY = ''arn:aws:iam::aws:policy/AmazonSSMManagedInstanceCore''"

definition tag_spec :: "(string \<times> string) list" where
  "tag_spec = [TAG_MANAGED_BY, TAG_ROLE]"

definition resolve_ami :: "region \<Rightarrow> string \<Rightarrow> string aws" where
  "resolve_ami region arch =
     bnd (aws_call region (GetParameter (''/aws/service/ami-amazon-linux-latest/'' @ ''al2023-ami-kernel-default-'' @ fst (ARCH arch))))
       (\<lambda>resp. case resp of Ident v \<Rightarrow> ret v | _ \<Rightarrow> bad_reply)"

section \<open>Find or create\<close>

text \<open>A call whose error of the given code is taken as done, and a lookup whose error of that code leads to a creation.\<close>

definition tolerate :: "string \<Rightarrow> unit aws \<Rightarrow> unit aws" where
  "tolerate code m = catch m (\<lambda>e. if error_code e \<noteq> Some code then throw e else ret ())"

definition or_create :: "unit aws \<Rightarrow> unit aws \<Rightarrow> unit aws" where
  "or_create look creation = catch look (\<lambda>e. if error_code e \<noteq> Some ''NoSuchEntity'' then throw e else creation)"

definition find_or_create_group :: "region \<Rightarrow> string aws" where
  "find_or_create_group region =
     bnd (aws_call region (DescribeSecurityGroups SG_NAME)) (\<lambda>resp.
     case resp of
       Groups (g # _) \<Rightarrow> ret g
     | Groups [] \<Rightarrow>
         bnd (aws_call region (CreateSecurityGroup SG_NAME tag_spec)) (\<lambda>created.
         case created of Ident g \<Rightarrow> ret g | _ \<Rightarrow> bad_reply)
     | _ \<Rightarrow> bad_reply)"

definition ensure_security_group :: "region \<Rightarrow> string list \<Rightarrow> string aws" where
  "ensure_security_group region allow_cidrs =
     bnd (find_or_create_group region) (\<lambda>sg_id.
     thn (for_each allow_cidrs (\<lambda>cidr.
            tolerate ''InvalidPermission.Duplicate'' (aws_do region (AuthorizeIngress sg_id GRPC_PORT cidr))))
       (ret sg_id))"

definition deploy_bucket :: "string \<Rightarrow> region \<Rightarrow> string" where
  "deploy_bucket account region = ''bvl-sync-deploy-'' @ account @ ''-'' @ str_of_region region"

definition bucket_policy :: "string \<Rightarrow> string" where
  \<open>bucket_policy bucket =
     ''{"Version": "2012-10-17", "Statement": [{"Effect": "Allow", "Action": "s3:GetObject", "Resource": "arn:aws:s3:::''
     @ bucket @ ''/*"}]}''\<close>

definition ensure_iam :: "string \<Rightarrow> region \<Rightarrow> string aws" where
  "ensure_iam account region =
     thn (or_create (aws_do region (GetRole ROLE_NAME)) (aws_do region (CreateRole ROLE_NAME TRUST_POLICY)))
       (thn (aws_do region (AttachRolePolicy ROLE_NAME SSM_CORE_POLICY))
         (thn (aws_do region (PutRolePolicy ROLE_NAME ''bvl-deploy-bucket-read''
                 (bucket_policy (deploy_bucket account region))))
           (thn (or_create (aws_do region (GetInstanceProfile PROFILE_NAME)) (aws_do region (CreateInstanceProfile PROFILE_NAME)))
             (thn (tolerate ''LimitExceeded'' (aws_do region (AddRoleToInstanceProfile PROFILE_NAME ROLE_NAME)))
               (ret PROFILE_NAME)))))"

section \<open>create\<close>

text \<open>The dictionary displays \<open>{**state, ...}\<close> and \<open>{...}\<close>.\<close>

definition dict_set :: "(string \<times> string option) list \<Rightarrow> (string \<times> string option) list \<Rightarrow> (string \<times> string option) list" where
  "dict_set st kvs = foldl (\<lambda>d (k, v). AList.update k v d) st kvs"

definition launch_request :: "create_args \<Rightarrow> region \<Rightarrow> string \<Rightarrow> string \<Rightarrow> string \<Rightarrow> string \<Rightarrow> launch" where
  "launch_request args region ami sg_id profile token =
     \<lparr>la_ami = ami, la_type = (case or_str (ca_instance_type args) None of Some t \<Rightarrow> t | None \<Rightarrow> snd (ARCH (ca_arch args))),
      la_group = sg_id, la_profile = profile, la_volume = ca_volume_size args, la_tags = tag_spec,
      la_token = ''bvl-sync-server-'' @ (case or_str region None of Some r \<Rightarrow> r | None \<Rightarrow> ''default'') @ ''-'' @ token\<rparr>"

definition record_existing :: "create_args \<Rightarrow> region \<Rightarrow> ec2_instance \<Rightarrow> int aws" where
  "record_existing args region i =
     thn (say (''VM already exists: '' @ i_id i @ '' ('' @ i_state i @ '') '' @ [CHR 0xE2, CHR 0x80, CHR 0x94] @ '' nothing to do''))
       (bnd load_state (\<lambda>st.
        thn (save_state (dict_set st [(''region'', region), (''instance_id'', Some (i_id i)), (''arch'', Some (ca_arch args))]))
          (ret 0)))"

definition launch_instance :: "create_args \<Rightarrow> region \<Rightarrow> int aws" where
  "launch_instance args region =
     bnd (caller_account region) (\<lambda>account.
     bnd (ensure_security_group region (ca_allow_cidr args)) (\<lambda>sg_id.
     bnd (ensure_iam account region) (\<lambda>profile.
     bnd (case or_str (ca_ami args) None of Some a \<Rightarrow> ret a | None \<Rightarrow> resolve_ami region (ca_arch args)) (\<lambda>ami.
     bnd (gets uuid) (\<lambda>token.
     (let req = launch_request args region ami sg_id profile token in
      thn (say (''launching '' @ la_type req @ '' ('' @ ca_arch args @ '') from '' @ ami @ '' in ''
             @ (case or_str region None of Some r \<Rightarrow> r | None \<Rightarrow> ''default region'') @ '' ...''))
        (bnd (aws_call region (RunInstances req)) (\<lambda>run.
         case run of
           Launched (i # _) \<Rightarrow>
             thn (save_state (dict_set [] [(''region'', region), (''instance_id'', Some i), (''arch'', Some (ca_arch args)),
                    (''security_group_id'', Some sg_id), (''iam_instance_profile'', Some profile)]))
               (thn (say (''created '' @ i @ ''; run `manage_sync_server.py provision` once it boots'')) (ret 0))
         | _ \<Rightarrow> bad_reply))))))))"

definition cmd_create :: "create_args \<Rightarrow> int aws" where
  "cmd_create args =
     bnd (resolve_region (ca_region args)) (\<lambda>region.
     bnd (discover_instances region) (\<lambda>existing.
     case existing of
       [] \<Rightarrow> launch_instance args region
     | [i] \<Rightarrow> record_existing args region i
     | _ \<Rightarrow>
         thn (warn (''error: multiple tagged instances already exist ('' @ join_with '', '' (sort (map i_id existing))
                @ ''); refusing to create another'')) (ret 1)))"

section \<open>Lifecycle\<close>

definition vm_resolve :: "string option \<Rightarrow> (region \<times> string) aws" where
  "vm_resolve arg_region =
     bnd (resolve_region arg_region) (\<lambda>region.
     bnd load_state (\<lambda>st.
     bnd (resolve_instance_id region st) (\<lambda>instance_id.
     thn (say (''region='' @ (case or_str region None of Some r \<Rightarrow> r | None \<Rightarrow> ''default'') @ '' instance='' @ instance_id))
       (ret (region, instance_id)))))"

definition vm_simple :: "(string \<Rightarrow> call) \<Rightarrow> string \<Rightarrow> string option \<Rightarrow> int aws" where
  "vm_simple k verb arg_region =
     bnd (vm_resolve arg_region) (\<lambda>(region, instance_id).
     thn (aws_do region (k instance_id)) (thn (say (verb @ '' '' @ instance_id)) (ret 0)))"

definition cmd_start :: "string option \<Rightarrow> int aws" where
  "cmd_start = vm_simple StartInstances ''starting''"

definition cmd_stop :: "string option \<Rightarrow> int aws" where
  "cmd_stop = vm_simple StopInstances ''stopping''"

definition cmd_reboot :: "string option \<Rightarrow> int aws" where
  "cmd_reboot = vm_simple RebootInstances ''rebooting''"

definition cmd_status :: "string option \<Rightarrow> int aws" where
  "cmd_status arg_region =
     bnd (vm_resolve arg_region) (\<lambda>(region, instance_id).
     bnd (aws_call region (DescribeInstance instance_id)) (\<lambda>resp.
     case resp of
       Reservations ((i # _) # _) \<Rightarrow>
         thn (say (''state:   '' @ i_state i))
           (thn (say (''type:    '' @ or_default ''?'' (i_type i)))
             (thn (say (rev (dropWhile is_space (rev (''public:  '' @ or_default ''(none)'' (or_str (i_dns i) None)
                    @ '' '' @ or_default [] (or_str (i_ip i) None)))))) (ret 0)))
     | _ \<Rightarrow> bad_reply))"

text \<open>Both clean-ups are best effort: every exception is turned into a warning.\<close>

definition best_effort :: "string \<Rightarrow> unit aws \<Rightarrow> unit aws" where
  "best_effort what m = catch m (\<lambda>e. warn (''warn: '' @ what @ '': '' @ exn_str e))"

definition purge_infra :: "region \<Rightarrow> unit aws" where
  "purge_infra region =
     thn (best_effort ''could not delete security group'' (aws_do region (DeleteSecurityGroup SG_NAME)))
       (best_effort ''could not fully delete IAM role/profile''
         (thn (aws_do region (RemoveRoleFromInstanceProfile PROFILE_NAME ROLE_NAME))
           (thn (aws_do region (DeleteInstanceProfile PROFILE_NAME))
             (thn (aws_do region (DeleteRolePolicy ROLE_NAME ''bvl-deploy-bucket-read''))
               (thn (aws_do region (DetachRolePolicy ROLE_NAME SSM_CORE_POLICY))
                 (aws_do region (DeleteRole ROLE_NAME)))))))"

definition cmd_terminate :: "bool \<Rightarrow> string option \<Rightarrow> int aws" where
  "cmd_terminate purge arg_region =
     bnd (vm_resolve arg_region) (\<lambda>(region, instance_id).
     thn (aws_do region (TerminateInstances instance_id))
       (thn (say (''terminating '' @ instance_id))
         (thn (unless (\<not> purge) (purge_infra region)) (ret 0))))"

datatype vm_command = Create create_args | Start "string option" | Stop "string option" | Reboot "string option"
  | Status "string option" | Terminate bool "string option"

fun vm_dispatch :: "vm_command \<Rightarrow> int aws" where
  "vm_dispatch (Create args) = cmd_create args"
| "vm_dispatch (Start r) = cmd_start r"
| "vm_dispatch (Stop r) = cmd_stop r"
| "vm_dispatch (Reboot r) = cmd_reboot r"
| "vm_dispatch (Status r) = cmd_status r"
| "vm_dispatch (Terminate purge r) = cmd_terminate purge r"

definition vm_main :: "vm_command \<Rightarrow> int aws" where
  "vm_main k = guarded_main (vm_dispatch k)"

end
