(* ===== verification/VmProperties.thy ===== *)
theory VmProperties
  imports ManageVm AwsWaits
begin

text \<open>
  What \<open>manage_vm\<close> does to AWS, as a property of the calls it makes: whatever AWS answers, \<open>create\<close> launches at
  most one instance and only after an answer that none is there, and the clean-up of \<open>terminate\<close>
  cannot turn a successful termination into a failure.
\<close>

section \<open>Launches\<close>

fun is_launch :: "region \<times> call \<Rightarrow> bool" where
  "is_launch (_, RunInstances _) = True"
| "is_launch _ = False"

definition launches :: "(region \<times> call) list \<Rightarrow> nat" where
  "launches tr = length (filter is_launch tr)"

lemma launches_append [simp]: "launches (tr @ ks) = launches tr + launches ks"
  by (simp add: launches_def)

lemma launches_call [simp]: "launches [k] = (if is_launch k then 1 else 0)"
  by (simp add: launches_def)

definition launched :: "nat \<Rightarrow> cloud \<Rightarrow> bool" where
  "launched n c \<longleftrightarrow> launches (trace c) = n"

lemma keeps_aws_call: "\<not> is_launch (region, k) \<Longrightarrow> keeps (launched n) (aws_call region k)"
  by (simp add: keeps_def launched_def aws_call_def)

lemma keeps_aws_do: "\<not> is_launch (region, k) \<Longrightarrow> keeps (launched n) (aws_do region k)"
  unfolding aws_do_def by (intro keeps_rules keeps_aws_call)

lemma keeps_bad_reply: "keeps (launched n) bad_reply"
  unfolding bad_reply_def by (rule keeps_rules)

lemma keeps_say: "keeps (launched n) (say s)" "keeps (launched n) (warn s)" "keeps (launched n) (save_state st)"
  by (simp_all add: keeps_def launched_def say_def warn_def put_out_def put_err_def save_state_def Let_def)

lemmas launch_rules = keeps_rules keeps_aws_call keeps_aws_do keeps_bad_reply keeps_say

lemma keeps_account: "keeps (launched n) (caller_account region)"
  unfolding caller_account_def by (auto intro!: launch_rules split: reply.split)

lemma keeps_group: "keeps (launched n) (ensure_security_group region cidrs)"
  unfolding ensure_security_group_def find_or_create_group_def tolerate_def
  by (auto intro!: launch_rules split: reply.split list.split)

lemma keeps_iam: "keeps (launched n) (ensure_iam account region)"
  unfolding ensure_iam_def or_create_def tolerate_def by (auto intro!: launch_rules)

lemma keeps_ami: "keeps (launched n) (resolve_ami region arch)"
  unfolding resolve_ami_def by (auto intro!: launch_rules split: reply.split)

text \<open>Steps that launch at most once: first steps that launch nothing, then the one that may.\<close>

definition once :: "int aws \<Rightarrow> bool" where
  "once m \<longleftrightarrow> (\<forall>n c. launched n c \<longrightarrow> launches (trace (snd (m c))) \<le> Suc n)"

lemma once_keeps: "(\<And>n. keeps (launched n) m) \<Longrightarrow> once m"
  by (auto simp: once_def keeps_def launched_def)

lemma once_bnd: "(\<And>n. keeps (launched n) m) \<Longrightarrow> (\<And>a. once (f a)) \<Longrightarrow> once (bnd m f)"
proof -
  assume m: "\<And>n. keeps (launched n) m" and f: "\<And>a. once (f a)"
  have "launches (trace (snd (bnd m f c))) \<le> Suc (launches (trace c))" for c
  proof -
    obtain r d where run: "m c = (r, d)" by (cases "m c")
    have "launches (trace d) = launches (trace c)"
      using m [of "launches (trace c)"] run by (auto simp: keeps_def launched_def dest!: spec [where x = c])
    moreover have "launches (trace (snd (f a d))) \<le> Suc (launches (trace d))" for a
      using f [of a] by (simp add: once_def launched_def)
    ultimately show ?thesis
      by (cases r) (simp_all add: run_bnd run)
  qed
  then show ?thesis by (auto simp: once_def launched_def)
qed

lemma once_thn: "(\<And>n. keeps (launched n) m) \<Longrightarrow> once f \<Longrightarrow> once (thn m f)"
  unfolding thn_def by (rule once_bnd)

lemma once_launch: "(\<And>n a. keeps (launched n) (f a)) \<Longrightarrow> once (bnd (aws_call region (RunInstances req)) f)"
proof -
  assume f: "\<And>n a. keeps (launched n) (f a)"
  have "launches (trace (snd (f a (c\<lparr>trace := trace c @ [(region, RunInstances req)], now := t\<rparr>)))) = Suc (launches (trace c))" for a c t
    using f [where n = "Suc (launches (trace c))"] by (simp add: keeps_def launched_def)
  then show ?thesis
    by (auto simp: once_def launched_def run_bnd aws_call_def split: sum.split)
qed

lemma launch_once: "once (launch_instance args region)"
  unfolding launch_instance_def
  by (auto simp: Let_def intro!: once_bnd [OF keeps_account] once_bnd [OF keeps_group] once_bnd [OF keeps_iam] once_bnd [OF keeps_gets]
      once_thn [OF keeps_say(1)] once_launch launch_rules
      split: reply.split list.split option.split
      | rule once_bnd, (auto intro!: launch_rules keeps_ami split: option.split)[1])+

section \<open>create\<close>

text \<open>
  C30. Creating never makes a second VM: before anything else \<open>create\<close> asks which instances are live. When the
  answer names one or more, or fails, that was its only call; when it names none, at most one instance
  is launched, however the other calls end.
\<close>

theorem create_one_vm:
  "let region = or_str (ca_region args) (or_str (env_region c) None);
       ask = (region, DescribeInstances live_filter);
       tr = trace (snd (cmd_create args c))
   in (case answer c (trace c) ask of
         Inr (Reservations rs) \<Rightarrow>
           if concat rs = [] then launches tr \<le> launches (trace c) + 1 else tr = trace c @ [ask]
       | _ \<Rightarrow> tr = trace c @ [ask])"
proof -
  let ?region = "or_str (ca_region args) (or_str (env_region c) None)"
  let ?ask = "(?region, DescribeInstances live_filter)"
  let ?c = "c\<lparr>trace := trace c @ [?ask], now := now c + int (delay c (trace c))\<rparr>"
  have empty: "launches (trace (snd (launch_instance args ?region ?c))) \<le> launches (trace c) + 1"
  proof -
    have "launches (trace (snd (launch_instance args ?region ?c))) \<le> Suc (launches (trace ?c))"
      using launch_once [of args ?region] unfolding once_def launched_def by blast
    then show ?thesis by simp
  qed
  have others: "trace (snd (record_existing args r i d)) = trace d" "trace (snd (warn s d)) = trace d" for r i d s
    by (simp_all add: record_existing_def io_simps say_def warn_def put_out_def put_err_def load_state_def save_state_def Let_def)
  show ?thesis
    using empty
    by (auto simp: Let_def cmd_create_def resolve_region_def discover_instances_def bad_reply_def aws_call_def io_simps others
        warn_def put_err_def split: sum.split reply.split list.split)
qed

section \<open>terminate\<close>

lemma best_effort_total: "raises (\<lambda>_. False) (best_effort what m)"
  unfolding best_effort_def
  by (rule raises_catch [where S = "\<lambda>_. True"]) (auto simp: raises_def wp_def warn_def put_err_def split: prod.split sum.split)

lemma purge_total: "raises (\<lambda>_. False) (purge_infra region)"
  unfolding purge_infra_def by (intro raises_thn best_effort_total)

text \<open>The bucket the VM's role may read is the one the server tool uploads to, for the same account and region.\<close>

lemma deploy_bucket_staging:
  "staging_bucket_name region c =
     (case caller_account region c of (Inl e, c') \<Rightarrow> (Inl e, c') | (Inr a, c') \<Rightarrow> (Inr (deploy_bucket a region), c'))"
  by (simp add: staging_bucket_name_def deploy_bucket_def io_simps split: prod.split sum.split)

text \<open>Without a region both tools write the word None into the name, which S3 does not allow.\<close>

lemma bucket_without_region: "deploy_bucket ''1'' None = ''bvl-sync-deploy-1-None''"
  by code_simp

end
