(* ===== verification/Enrollment.thy ===== *)
theory Enrollment
  imports Effects
begin

text \<open>
  \<open>browser-visit-tools/enroll_machine.py\<close>: the list of laptops the sync server accepts, in a database of its own
  (\<open>enrolled_machines.db\<close>). The SHA-256 digest and the decoding of a PEM certificate are parameters. Each
  statement first takes the head of \<open>g_faults\<close>, as in the other stores of the development. That \<open>main\<close> first
  makes the directory of the file is left out.
\<close>

section \<open>The registry\<close>

record enrolled =
  n_machine :: string
  n_sha256 :: string
  n_at :: string

text \<open>\<open>g_rows\<close> is what the connection sees, \<open>g_disk\<close> what is committed; \<open>None\<close> is a missing table.\<close>

record registry =
  g_rows :: "enrolled list option"
  g_disk :: "enrolled list option"
  g_faults :: "exn option list"
  g_clock :: "nat \<Rightarrow> string"
  g_reads :: nat
  g_files :: "path \<Rightarrow> string option"
  g_out :: "string list"
  g_err :: "string list"

type_synonym 'a reg = "(registry, 'a) prog"

definition reg_op :: "(registry \<Rightarrow> 'a \<times> registry) \<Rightarrow> 'a reg" where
  "reg_op f g =
     (case g_faults g of
        Some e # fl \<Rightarrow> (Inl e, g\<lparr>g_faults := fl\<rparr>)
      | fl \<Rightarrow> (case f (g\<lparr>g_faults := tl fl\<rparr>) of (a, g') \<Rightarrow> (Inr a, g')))"

definition reg_connect :: "unit reg" where
  "reg_connect = reg_op (\<lambda>g. ((), g\<lparr>g_rows := g_disk g\<rparr>))"

definition reg_commit :: "unit reg" where
  "reg_commit = reg_op (\<lambda>g. ((), g\<lparr>g_disk := g_rows g\<rparr>))"

definition reg_close :: "registry \<Rightarrow> registry" where
  "reg_close g = g\<lparr>g_rows := g_disk g\<rparr>"

definition reg_print :: "string \<Rightarrow> unit reg" where
  "reg_print s g = (Inr (), g\<lparr>g_out := g_out g @ [s]\<rparr>)"

definition reg_error :: "string \<Rightarrow> unit reg" where
  "reg_error s g = (Inr (), g\<lparr>g_err := g_err g @ [s]\<rparr>)"

definition reg_now :: "string reg" where
  "reg_now g = (Inr (g_clock g (g_reads g)), g\<lparr>g_reads := Suc (g_reads g)\<rparr>)"

definition rows_of :: "enrolled list option \<Rightarrow> enrolled list" where
  "rows_of t = (case t of None \<Rightarrow> [] | Some rs \<Rightarrow> rs)"

section \<open>Operations\<close>

definition cert_fingerprint :: "(string \<Rightarrow> string) \<Rightarrow> (string \<Rightarrow> exn + string) \<Rightarrow> path \<Rightarrow> string reg" where
  "cert_fingerprint sha256 pem_to_der cert_path =
     bnd (gets (\<lambda>g. g_files g cert_path)) (\<lambda>content.
     case content of
       None \<Rightarrow> throw (OSError ENOENT cert_path)
     | Some data \<Rightarrow>
         if contains data ''-----BEGIN CERTIFICATE-----''
         then (case pem_to_der data of Inl e \<Rightarrow> throw e | Inr der \<Rightarrow> ret (sha256 der))
         else ret (sha256 data))"

text \<open>\<open>CREATE TABLE IF NOT EXISTS\<close>, at once on disk: no transaction is open.\<close>

definition ensure_schema :: "unit reg" where
  "ensure_schema = reg_op (\<lambda>g.
     ((), if g_rows g = None then g\<lparr>g_rows := Some [], g_disk := Some []\<rparr> else g))"

definition insert_or_replace :: "enrolled \<Rightarrow> enrolled list \<Rightarrow> enrolled list" where
  "insert_or_replace r rs = filter (\<lambda>x. n_machine x \<noteq> n_machine r) rs @ [r]"

definition enroll :: "(string \<Rightarrow> string) \<Rightarrow> (string \<Rightarrow> exn + string) \<Rightarrow> string \<Rightarrow> path \<Rightarrow> unit reg" where
  "enroll sha256 pem_to_der machine_id cert_path =
     bnd (cert_fingerprint sha256 pem_to_der cert_path) (\<lambda>fp.
     thn reg_connect
       (lastly
         (thn ensure_schema
           (bnd reg_now (\<lambda>at.
            thn (reg_op (\<lambda>g. ((), g\<lparr>g_rows := Some (insert_or_replace \<lparr>n_machine = machine_id, n_sha256 = fp, n_at = at\<rparr> (rows_of (g_rows g)))\<rparr>)))
              (thn reg_commit (reg_print (''enrolled '' @ machine_id @ '' with fingerprint '' @ fp))))))
         reg_close))"

definition revoke :: "string \<Rightarrow> unit reg" where
  "revoke machine_id =
     thn reg_connect
       (lastly
         (thn ensure_schema
           (bnd (reg_op (\<lambda>g. (length (filter (\<lambda>x. n_machine x = machine_id) (rows_of (g_rows g))),
                   g\<lparr>g_rows := Some (filter (\<lambda>x. n_machine x \<noteq> machine_id) (rows_of (g_rows g)))\<rparr>))) (\<lambda>n.
            thn reg_commit (reg_print (''revoked '' @ machine_id @ '' (deleted '' @ nat_str n @ '' row(s))'')))))
         reg_close)"

text \<open>\<open>f"{s:30s}"\<close>\<close>

definition pad :: "nat \<Rightarrow> string \<Rightarrow> string" where
  "pad n s = s @ replicate (n - length s) (CHR '' '')"

definition list_line :: "enrolled \<Rightarrow> string" where
  "list_line r = pad 30 (n_machine r) @ ''  '' @ take 16 (n_sha256 r) @ ''...  '' @ n_at r"

definition list_all_machines :: "unit reg" where
  "list_all_machines =
     thn reg_connect
       (lastly
         (thn ensure_schema
           (bnd (reg_op (\<lambda>g. (sort_key n_machine (rows_of (g_rows g)), g))) (\<lambda>rs. for_each rs (\<lambda>r. reg_print (list_line r)))))
         reg_close)"

record enroll_options =
  o_machine_id :: "string option"
  o_cert :: "path option"
  o_revoke :: bool
  o_list :: bool

definition given :: "string option \<Rightarrow> string option" where
  "given x = (if x = Some [] then None else x)"

definition enroll_main :: "(string \<Rightarrow> string) \<Rightarrow> (string \<Rightarrow> exn + string) \<Rightarrow> enroll_options \<Rightarrow> int reg" where
  "enroll_main sha256 pem_to_der args =
     (if o_list args then thn list_all_machines (ret 0)
      else
        (case given (o_machine_id args) of
           None \<Rightarrow> thn (reg_error ''error: --machine-id required (or use --list)'') (ret 2)
         | Some m \<Rightarrow>
             if o_revoke args then thn (revoke m) (ret 0)
             else
               (case given (o_cert args) of
                  None \<Rightarrow> thn (reg_error ''error: --cert required to enroll'') (ret 2)
                | Some cert \<Rightarrow> thn (enroll sha256 pem_to_der m cert) (ret 0))))"

section \<open>The registry as a map\<close>

text \<open>What the server reads of it: the fingerprint of each machine.\<close>

definition allowed :: "enrolled list option \<Rightarrow> string \<Rightarrow> string option" where
  "allowed t m = map_option n_sha256 (find (\<lambda>r. n_machine r = m) (rows_of t))"

definition one_each :: "enrolled list option \<Rightarrow> bool" where
  "one_each t \<longleftrightarrow> distinct (map n_machine (rows_of t))"

lemma find_append: "find P (xs @ ys) = (case find P xs of None \<Rightarrow> find P ys | Some x \<Rightarrow> Some x)"
  by (induction xs) auto

lemma find_filter: "find P (filter Q xs) = (case find P xs of Some x \<Rightarrow> if Q x then Some x else find P (filter Q xs) | None \<Rightarrow> None)"
  by (induction xs) (auto split: option.split)

lemma find_other: "find (\<lambda>r. n_machine r = m) (filter (\<lambda>x. n_machine x \<noteq> k) xs)
    = (if m = k then None else find (\<lambda>r. n_machine r = m) xs)"
  by (induction xs) auto

lemma allowed_insert: "allowed (Some (insert_or_replace r (rows_of t))) = (allowed t)(n_machine r \<mapsto> n_sha256 r)"
  by (rule ext) (auto simp: allowed_def insert_or_replace_def rows_of_def find_append find_other split: option.split)

lemma allowed_delete: "allowed (Some (filter (\<lambda>x. n_machine x \<noteq> m) (rows_of t))) = (allowed t)(m := None)"
  by (rule ext) (auto simp: allowed_def rows_of_def find_other)

lemma one_each_simps:
  "one_each t \<Longrightarrow> one_each (Some (insert_or_replace r (rows_of t)))"
  "one_each t \<Longrightarrow> one_each (Some (filter P (rows_of t)))"
  by (auto simp: one_each_def insert_or_replace_def rows_of_def distinct_map_filter_key)

text \<open>What a command is meant to do to that map.\<close>

definition intended :: "(string \<Rightarrow> string) \<Rightarrow> (string \<Rightarrow> exn + string) \<Rightarrow> enroll_options \<Rightarrow> registry \<Rightarrow>
    (string \<Rightarrow> string option) \<Rightarrow> string \<Rightarrow> string option" where
  "intended sha256 pem_to_der args g acl =
     (if o_list args then acl
      else
        (case given (o_machine_id args) of
           None \<Rightarrow> acl
         | Some m \<Rightarrow>
             if o_revoke args then acl(m := None)
             else
               (case given (o_cert args) of
                  None \<Rightarrow> acl
                | Some cert \<Rightarrow>
                    (case fst (cert_fingerprint sha256 pem_to_der cert g) of
                       Inr fp \<Rightarrow> acl(m \<mapsto> fp)
                     | Inl _ \<Rightarrow> acl))))"

lemma wp_reg_op:
  "(\<And>fl. case f (g\<lparr>g_faults := fl\<rparr>) of (a, g') \<Rightarrow> Q a g') \<Longrightarrow> (\<And>e fl. E e (g\<lparr>g_faults := fl\<rparr>)) \<Longrightarrow> wp (reg_op f) Q E g"
  by (force simp: wp_def reg_op_def split: list.splits option.splits prod.splits)

lemma wp_reg [wp_simps]:
  "wp (reg_print s) Q E g = Q () (g\<lparr>g_out := g_out g @ [s]\<rparr>)" "wp (reg_error s) Q E g = Q () (g\<lparr>g_err := g_err g @ [s]\<rparr>)"
  "wp reg_now Q' E g = Q' (g_clock g (g_reads g)) (g\<lparr>g_reads := Suc (g_reads g)\<rparr>)"
  by (simp_all add: wp_def reg_print_def reg_error_def reg_now_def)

lemma allowed_empty: "allowed (Some []) = allowed None"
  by (rule ext) (simp add: allowed_def rows_of_def)

lemma fingerprint_pure: "snd (cert_fingerprint sha256 pem_to_der cert g) = g"
  by (simp add: cert_fingerprint_def io_simps split: option.split sum.split)

lemma wp_fingerprint: "wp (cert_fingerprint sha256 pem_to_der cert) Q E g =
    (case fst (cert_fingerprint sha256 pem_to_der cert g) of Inl e \<Rightarrow> E e g | Inr fp \<Rightarrow> Q fp g)"
  using fingerprint_pure [of sha256 pem_to_der cert g]
  by (cases "cert_fingerprint sha256 pem_to_der cert g") (simp add: wp_def split: sum.split)

definition holds :: "(string \<Rightarrow> string option) \<Rightarrow> registry \<Rightarrow> bool" where
  "holds acl g \<longleftrightarrow> allowed (g_disk g) = acl \<and> one_each (g_disk g)"

lemma holds_simps [simp]:
  "holds acl (g\<lparr>g_faults := fl\<rparr>) = holds acl g" "holds acl (g\<lparr>g_rows := rs\<rparr>) = holds acl g"
  "holds acl (g\<lparr>g_reads := n\<rparr>) = holds acl g" "holds acl (g\<lparr>g_out := xs\<rparr>) = holds acl g"
  "holds acl (g\<lparr>g_err := xs\<rparr>) = holds acl g" "holds acl (reg_close g) = holds acl g"
  by (simp_all add: holds_def reg_close_def)

definition in_step :: "(string \<Rightarrow> string option) \<Rightarrow> registry \<Rightarrow> bool" where
  "in_step acl g \<longleftrightarrow> holds acl g \<and> allowed (g_rows g) = acl \<and> one_each (g_rows g)"

lemma wp_open:
  assumes "holds acl g" and "\<And>g'. in_step acl g' \<Longrightarrow> wp m (\<lambda>a g'. Q a (reg_close g')) (\<lambda>e g'. E e (reg_close g')) g'"
    and "\<And>e g'. holds acl g' \<Longrightarrow> E e g'"
  shows "wp (thn reg_connect (lastly (thn ensure_schema m) reg_close)) Q E g"
  using assms
  by (auto simp: wp_simps reg_connect_def ensure_schema_def in_step_def holds_def allowed_empty one_each_def rows_of_def reg_close_def
      intro!: wp_reg_op)

lemma wp_revoke:
  assumes "holds acl g"
  shows "wp (revoke m) (\<lambda>_. holds (acl(m := None))) (\<lambda>_. holds acl) g"
  unfolding revoke_def
  by (rule wp_open [OF assms])
    (auto simp: wp_simps reg_commit_def in_step_def holds_def allowed_delete one_each_simps reg_close_def intro!: wp_reg_op)

lemma wp_enroll_fails:
  assumes "holds acl g" and "fst (cert_fingerprint sha256 pem_to_der cert g) = Inl e"
  shows "wp (enroll sha256 pem_to_der m cert) Q (\<lambda>_. holds acl) g"
  using assms by (simp add: enroll_def wp_simps wp_fingerprint)

lemma wp_enroll:
  assumes "holds acl g" and fp: "fst (cert_fingerprint sha256 pem_to_der cert g) = Inr fp"
  shows "wp (enroll sha256 pem_to_der m cert) (\<lambda>_. holds (acl(m \<mapsto> fp))) (\<lambda>_. holds acl) g"
proof -
  have "wp (thn reg_connect (lastly (thn ensure_schema (bnd reg_now (\<lambda>at.
            thn (reg_op (\<lambda>g. ((), g\<lparr>g_rows := Some (insert_or_replace \<lparr>n_machine = m, n_sha256 = fp, n_at = at\<rparr> (rows_of (g_rows g)))\<rparr>)))
              (thn reg_commit (reg_print (''enrolled '' @ m @ '' with fingerprint '' @ fp)))))) reg_close))
      (\<lambda>_. holds (acl(m \<mapsto> fp))) (\<lambda>_. holds acl) g"
    by (rule wp_open [OF assms(1)])
      (auto simp: wp_simps reg_commit_def in_step_def holds_def allowed_insert one_each_simps reg_close_def intro!: wp_reg_op)
  with fp show ?thesis by (simp add: enroll_def wp_bnd wp_fingerprint)
qed

lemma wp_list:
  assumes "holds acl g"
  shows "wp list_all_machines (\<lambda>_. holds acl) (\<lambda>_. holds acl) g"
proof -
  have loop: "wp (for_each rs (\<lambda>r. reg_print (list_line r))) (\<lambda>_. holds a) E g'" if "holds a g'" for rs g' a and E :: "exn \<Rightarrow> registry \<Rightarrow> bool"
    by (rule wp_for_each [where I = "holds a", OF that]) (simp add: wp_simps)
  show ?thesis
    unfolding list_all_machines_def
    by (rule wp_open [OF assms]) (auto simp: wp_simps in_step_def intro!: wp_reg_op loop)
qed

text \<open>
  C32. Each command is atomic on the list of accepted laptops: when it returns 0, the committed list is the
  intended one (the machine with its new fingerprint, without the revoked machine, or as it was); when it
  ends with a usage error or any failure, it is as it was; no machine ever has two entries.
\<close>

theorem enroll_atomic:
  assumes "one_each (g_disk g)"
  shows "case enroll_main sha256 pem_to_der args g of (r, g') \<Rightarrow>
     allowed (g_disk g') = (if r = Inr 0 then intended sha256 pem_to_der args g (allowed (g_disk g)) else allowed (g_disk g))
     \<and> one_each (g_disk g')"
proof -
  let ?acl = "allowed (g_disk g)" and ?new = "intended sha256 pem_to_der args g (allowed (g_disk g))"
  have h: "holds ?acl g" using assms by (simp add: holds_def)
  have zero: "wp m (\<lambda>_. holds ?new) (\<lambda>_. holds ?acl) g \<Longrightarrow>
      wp (thn m (ret 0)) (\<lambda>rc. holds (if rc = 0 then ?new else ?acl)) (\<lambda>_. holds ?acl) g" for m :: "unit reg"
    unfolding wp_thn by (erule wp_mono) (simp_all add: wp_ret)
  have "wp (enroll_main sha256 pem_to_der args) (\<lambda>rc. holds (if rc = 0 then ?new else ?acl)) (\<lambda>_. holds ?acl) g"
  proof (cases "o_list args")
    case True
    then show ?thesis using zero [of list_all_machines] wp_list [OF h] by (simp add: enroll_main_def intended_def)
  next
    case False
    show ?thesis
    proof (cases "given (o_machine_id args)")
      case None
      then show ?thesis using False by (simp add: enroll_main_def wp_simps h)
    next
      case m: (Some m)
      show ?thesis
      proof (cases "o_revoke args")
        case True
        then show ?thesis using False m zero [of "revoke m"] wp_revoke [OF h, of m] by (simp add: enroll_main_def intended_def)
      next
        case no_revoke: False
        show ?thesis
        proof (cases "given (o_cert args)")
          case None
          then show ?thesis using False m no_revoke by (simp add: enroll_main_def wp_simps h)
        next
          case (Some cert)
          then show ?thesis
            using False m no_revoke zero [of "enroll sha256 pem_to_der m cert"] wp_enroll [OF h] wp_enroll_fails [OF h]
            by (cases "fst (cert_fingerprint sha256 pem_to_der cert g)") (simp_all add: enroll_main_def intended_def)
        qed
      qed
    qed
  qed
  then show ?thesis
    by (auto simp: wp_def holds_def split: prod.splits sum.splits if_splits)
qed

theorem enroll_atomic_witness:
  "allowed (g_disk (snd (enroll_main (\<lambda>s. s) Inr \<lparr>o_machine_id = Some ''m'', o_cert = Some ''/c'', o_revoke = False, o_list = False\<rparr>
     \<lparr>g_rows = None, g_disk = Some [\<lparr>n_machine = ''m'', n_sha256 = ''old'', n_at = []\<rparr>], g_faults = [], g_clock = (\<lambda>_. []), g_reads = 0,
      g_files = (\<lambda>_. Some ''der''), g_out = [], g_err = []\<rparr>))) ''m'' = Some ''der''"
proof -
  let ?args = "\<lparr>o_machine_id = Some ''m'', o_cert = Some ''/c'', o_revoke = False, o_list = False\<rparr>"
  let ?g = "\<lparr>g_rows = None, g_disk = Some [\<lparr>n_machine = ''m'', n_sha256 = ''old'', n_at = []\<rparr>], g_faults = [], g_clock = (\<lambda>_. []), g_reads = 0,
      g_files = (\<lambda>_. Some ''der''), g_out = [], g_err = []\<rparr>"
  have one: "one_each (g_disk ?g)" by code_simp
  have ok: "fst (enroll_main (\<lambda>s. s) Inr ?args ?g) = Inr 0" by code_simp
  have int: "intended (\<lambda>s. s) Inr ?args ?g (allowed (g_disk ?g)) ''m'' = Some ''der''" by code_simp
  from enroll_atomic [OF one, of "\<lambda>s. s" Inr ?args] ok
  have "allowed (g_disk (snd (enroll_main (\<lambda>s. s) Inr ?args ?g))) = intended (\<lambda>s. s) Inr ?args ?g (allowed (g_disk ?g))"
    by (simp add: split_def)
  then show ?thesis by (simp only: int)
qed

end
