(* ===== verification/Reset.thy ===== *)
theory Reset
  imports OrphanMerge
begin

text \<open>
  \<open>browser-visit-logger/reset.py\<close>: deletes the data the extension produced, after it has listed what it is going
  to delete and asked. What the user types is a parameter; \<open>None\<close> is the end of the input or an interrupt.
  \<open>shutil.rmtree\<close> removes the entries of a tree one by one, each before the directory it stands in, and
  stops at the first that fails.
\<close>

section \<open>Settings and targets\<close>

record reset_env =
  LOG_ROOT :: path
  HOST_LOG :: path
  MOVER_LOG :: path
  VERIFIER_LOG :: path
  DB_PATH :: path
  SNAP_DIR :: path
  ICLOUD_DIR :: path

record reset_args =
  a_log :: bool
  a_host_log :: bool
  a_db :: bool
  a_snapshots :: bool
  a_icloud :: bool
  a_force :: bool

datatype kind = PlainFile | Folder | Glob

type_synonym target = "path \<times> string \<times> kind"

definition per_day_log_paths :: "reset_env \<Rightarrow> path list io" where
  "per_day_log_paths env =
     bnd (gets (isdir (LOG_ROOT env))) (\<lambda>dir.
     if \<not> dir then ret []
     else bnd (listdir (LOG_ROOT env)) (\<lambda>names.
       ret (sort (map (path_join (LOG_ROOT env)) (filter (\<lambda>n. LOG_FILENAME_RE n \<noteq> None) names)))))"

definition fixed_targets :: "reset_env \<Rightarrow> reset_args \<Rightarrow> bool \<Rightarrow> target list" where
  "fixed_targets env args all_of_it =
     (if a_host_log args \<or> all_of_it
      then [(HOST_LOG env, ''host log'', PlainFile), (MOVER_LOG env, ''mover log'', PlainFile), (VERIFIER_LOG env, ''verifier log'', PlainFile)]
      else [])
     @ (if a_db args \<or> all_of_it then [(DB_PATH env, ''database'', PlainFile)] else [])
     @ (if a_snapshots args \<or> all_of_it then [(SNAP_DIR env, ''Downloads snapshots directory'', Folder)] else [])
     @ (if a_icloud args \<or> all_of_it then [(ICLOUD_DIR env, ''iCloud archive directory'', Folder)] else [])"

definition log_targets :: "reset_env \<Rightarrow> path list \<Rightarrow> target list" where
  "log_targets env logs =
     (if logs \<noteq> [] then map (\<lambda>p. (p, ''per-day visit log'', PlainFile)) logs
      else [(path_join (LOG_ROOT env) ''browser-visits-*.log'', ''per-day visit logs (none found)'', Glob)])"

definition reset_all :: "reset_args \<Rightarrow> bool" where
  "reset_all args \<longleftrightarrow> \<not> (a_log args \<or> a_host_log args \<or> a_db args \<or> a_snapshots args \<or> a_icloud args)"

definition collect_targets :: "reset_env \<Rightarrow> reset_args \<Rightarrow> target list io" where
  "collect_targets env args =
     (if a_log args \<or> reset_all args
      then bnd (per_day_log_paths env) (\<lambda>logs. ret (log_targets env logs @ fixed_targets env args (reset_all args)))
      else ret (fixed_targets env args (reset_all args)))"

section \<open>Deleting\<close>

definition delete_file :: "path \<Rightarrow> string \<Rightarrow> unit io" where
  "delete_file p label =
     bnd (gets (exists p)) (\<lambda>there.
     if there then thn (unlink p) (print_out (''Deleted '' @ label @ '': '' @ p))
     else print_out (label @ '' not found, skipping: '' @ p))"

definition below :: "comps \<Rightarrow> comps \<Rightarrow> bool" where
  "below d c \<longleftrightarrow> take (length d) c = d"

definition remove_entry :: "comps \<Rightarrow> unit io" where
  "remove_entry c = fs_op (\<lambda>w. ret () (w\<lparr>files := del_node c (files w)\<rparr>))"

definition tree_entries :: "comps \<Rightarrow> store \<Rightarrow> comps list" where
  "tree_entries d fs = rev (sort_key length (filter (\<lambda>c. c \<noteq> [] \<and> below d c) (map fst fs)))"

definition rmtree :: "path \<Rightarrow> unit io" where
  "rmtree p = bnd (gets (\<lambda>w. tree_entries (comps_of p) (files w))) (\<lambda>cs. for_each cs remove_entry)"

definition delete_dir :: "path \<Rightarrow> string \<Rightarrow> unit io" where
  "delete_dir p label =
     bnd (gets (isdir p)) (\<lambda>dir.
     if dir then thn (rmtree p) (print_out (''Deleted '' @ label @ '': '' @ p))
     else print_out (label @ '' not found, skipping: '' @ p))"

fun delete_target :: "target \<Rightarrow> unit io" where
  "delete_target (p, label, Folder) = delete_dir p label"
| "delete_target (p, label, Glob) = print_out (label @ '': no matches under '' @ p)"
| "delete_target (p, label, PlainFile) = delete_file p label"

fun show_target :: "target \<Rightarrow> unit io" where
  "show_target (p, label, kind) =
     bnd (gets (exists p)) (\<lambda>there.
     print_out (''  ['' @ (if kind = Glob then ''no match'' else if there then ''exists'' else ''not found'') @ ''] '' @ p))"

definition confirmed :: "string \<Rightarrow> bool" where
  "confirmed answer \<longleftrightarrow> lower (strip answer) \<in> {''y'', ''yes''}"

definition ask :: "bool \<Rightarrow> string option \<Rightarrow> unit io" where
  "ask force typed =
     (if force then ret ()
      else
        thn (print_out ([NL] @ ''Proceed? [y/N] ''))
          (case typed of
             None \<Rightarrow> thn (print_out ([NL] @ ''Aborted.'')) (throw (SystemExit 0))
           | Some answer \<Rightarrow>
               if confirmed answer then ret () else thn (print_out ''Aborted.'') (throw (SystemExit 0))))"

definition reset_main :: "reset_env \<Rightarrow> reset_args \<Rightarrow> string option \<Rightarrow> unit io" where
  "reset_main env args typed =
     bnd (collect_targets env args) (\<lambda>targets.
     thn (print_out ''The following will be permanently deleted:'')
       (thn (for_each targets show_target)
         (thn (ask (a_force args) typed) (thn (print_out []) (for_each targets delete_target)))))"

section \<open>What is spared\<close>

text \<open>The files and trees a reset is about: per-day logs directly in the log directory, the named files, the two trees.\<close>

definition in_scope :: "reset_env \<Rightarrow> reset_args \<Rightarrow> comps \<Rightarrow> bool" where
  "in_scope env args c \<longleftrightarrow>
     (let every = reset_all args in
      (a_log args \<or> every) \<and> c \<noteq> [] \<and> butlast c = comps_of (LOG_ROOT env) \<and> LOG_FILENAME_RE (List.last c) \<noteq> None
    \<or> (a_host_log args \<or> every) \<and> c \<in> set (map comps_of [HOST_LOG env, MOVER_LOG env, VERIFIER_LOG env])
    \<or> (a_db args \<or> every) \<and> c = comps_of (DB_PATH env)
    \<or> (a_snapshots args \<or> every) \<and> below (comps_of (SNAP_DIR env)) c
    \<or> (a_icloud args \<or> every) \<and> below (comps_of (ICLOUD_DIR env)) c)"

fun spares :: "comps \<Rightarrow> target \<Rightarrow> bool" where
  "spares c (p, _, PlainFile) = (comps_of p \<noteq> c)"
| "spares c (p, _, Folder) = (\<not> below (comps_of p) c)"
| "spares c (_, _, Glob) = True"

lemma keeps_node_rules:
  "keeps (\<lambda>w. node_at (files w) c = n) (print_out s)"
  "blind (\<lambda>w. node_at (files w) c = n)"
  by (auto simp: keeps_def print_out_def blind_def)

lemma keeps_unlink_other: "comps_of p \<noteq> c \<Longrightarrow> keeps (\<lambda>w. node_at (files w) c = n) (unlink p)"
proof (cases "comps_of p = []")
  case True
  then show ?thesis
    unfolding unlink_def
    by (intro keeps_fs_op keeps_node_rules) (simp add: keeps_def os_raise_def throw_def)
next
  case False
  assume "comps_of p \<noteq> c"
  then show ?thesis using False by (intro keeps_write keeps_node_rules off_node_same) auto
qed

lemma keeps_delete_target:
  assumes "spares c t"
  shows "keeps (\<lambda>w. node_at (files w) c = n) (delete_target t)"
proof -
  obtain p label kind where t: "t = (p, label, kind)" by (cases t)
  show ?thesis
  proof (cases kind)
    case PlainFile
    with assms t have "comps_of p \<noteq> c" by simp
    then show ?thesis
      unfolding t PlainFile delete_target.simps delete_file_def by (intro keeps_rules keeps_unlink_other keeps_node_rules)
  next
    case Folder
    with assms t have not_below: "\<not> below (comps_of p) c" by simp
    have "keeps (\<lambda>w. node_at (files w) c = n) (remove_entry e)" if "e \<noteq> []" "below (comps_of p) e" for e
    proof -
      from that not_below have "e \<noteq> c" by blast
      with that(1) show ?thesis
        unfolding remove_entry_def by (intro keeps_fs_op keeps_node_rules) (simp add: keeps_def ret_def)
    qed
    then have "keeps (\<lambda>w. node_at (files w) c = n) (for_each (tree_entries (comps_of p) fs) remove_entry)" for fs
      by (intro keeps_rules) (auto simp: tree_entries_def)
    then have "keeps (\<lambda>w. node_at (files w) c = n) (rmtree p)"
      unfolding rmtree_def by (rule keeps_gets_bnd)
    then show ?thesis
      unfolding t Folder delete_target.simps delete_dir_def by (intro keeps_rules keeps_node_rules)
  next
    case Glob
    then show ?thesis using t by (simp add: keeps_node_rules)
  qed
qed

lemma fixed_targets_spare:
  assumes "\<not> in_scope env args c"
  shows "list_all (spares c) (fixed_targets env args (reset_all args))"
  using assms by (auto simp: fixed_targets_def in_scope_def Let_def)

lemma log_targets_spare:
  assumes "\<not> in_scope env args c" and "a_log args \<or> reset_all args"
  shows "list_all (spares c)
     (log_targets env (sort (map (path_join (LOG_ROOT env)) (filter (\<lambda>n. LOG_FILENAME_RE n \<noteq> None) names))))"
proof -
  have "comps_of (path_join (LOG_ROOT env) n) \<noteq> c" if re: "LOG_FILENAME_RE n \<noteq> None" for n
  proof
    assume c: "comps_of (path_join (LOG_ROOT env) n) = c"
    obtain d where "LOG_FILENAME_RE n = Some d" using re by auto
    then have "c = comps_of (LOG_ROOT env) @ [n]" using c by (simp add: comps_log_entry(1))
    with assms(1,2) re show False by (auto simp: in_scope_def Let_def)
  qed
  then show ?thesis
    by (auto simp: log_targets_def list_all_iff)
qed

lemma keeps_bnd_targets:
  assumes "keeps I m" and "\<And>w. I w \<Longrightarrow> wp m (\<lambda>a _. P a) (\<lambda>_ _. True) w" and "\<And>a. P a \<Longrightarrow> keeps I (f a)"
  shows "keeps I (bnd m f)"
  unfolding keeps_wp wp_bnd
proof (intro allI impI)
  fix w assume "I w"
  then have "wp m (\<lambda>a w'. I w' \<and> P a) (\<lambda>_ w'. I w' \<and> True) w"
    using assms(1,2) by (intro wp_conj) (auto simp: keeps_wp)
  then show "wp m (\<lambda>a. wp (f a) (\<lambda>_. I) (\<lambda>_. I)) (\<lambda>_. I) w"
    by (rule wp_mono) (use assms(3) in \<open>auto simp: keeps_wp\<close>)
qed

lemma collect_targets_spare:
  assumes "\<not> in_scope env args c"
  shows "wp (collect_targets env args) (\<lambda>ts _. list_all (spares c) ts) (\<lambda>_ _. True) w"
    and "keeps (\<lambda>w. node_at (files w) c = n) (collect_targets env args)"
proof -
  show "wp (collect_targets env args) (\<lambda>ts _. list_all (spares c) ts) (\<lambda>_ _. True) w"
    using fixed_targets_spare [OF assms] log_targets_spare [OF assms, of "[]"] log_targets_spare [OF assms]
    by (auto simp: collect_targets_def per_day_log_paths_def wp_simps intro!: wp_listdir)
  show "keeps (\<lambda>w. node_at (files w) c = n) (collect_targets env args)"
    unfolding collect_targets_def per_day_log_paths_def by (intro keeps_rules keeps_read_only keeps_node_rules)
qed

lemma keeps_delete_targets: "list_all (spares c) ts \<Longrightarrow> keeps (\<lambda>w. node_at (files w) c = n) (for_each ts delete_target)"
  by (intro keeps_rules keeps_delete_target) (auto simp: list_all_iff)

text \<open>
  C24. A reset deletes nothing but what it was asked for: whatever fails on the way, every file outside the
  chosen logs, named files and trees is as it was; and when the prompt is not answered with yes, no
  file at all is touched.
\<close>

theorem reset_spares:
  assumes "\<not> in_scope env args c \<or> (\<not> a_force args \<and> (case typed of None \<Rightarrow> True | Some answer \<Rightarrow> \<not> confirmed answer))"
  shows "node_at (files (snd (reset_main env args typed w))) c = node_at (files w) c"
proof -
  let ?I = "\<lambda>w'. node_at (files w') c = node_at (files w) c"
  have show_all: "keeps ?I (for_each ts show_target)" for ts
  proof (intro keeps_rules)
    fix t :: target
    show "keeps ?I (show_target t)" by (cases t) (simp, intro keeps_rules keeps_node_rules)
  qed
  have ask: "keeps ?I (ask b t)" for b t
    unfolding ask_def by (intro keeps_rules keeps_node_rules)
  have collect: "keeps ?I (collect_targets env args)"
    unfolding collect_targets_def per_day_log_paths_def by (intro keeps_rules keeps_read_only keeps_node_rules)
  have "keeps ?I (reset_main env args typed)"
  proof (cases "in_scope env args c")
    case False
    show ?thesis
      unfolding reset_main_def
      by (rule keeps_bnd_targets [OF collect collect_targets_spare(1) [OF False]])
        (intro keeps_rules keeps_node_rules show_all ask keeps_delete_targets)
  next
    case True
    with assms have stop: "thn (ask (a_force args) typed) m = bnd (ask (a_force args) typed) (\<lambda>_. throw (SystemExit 0))" for m :: "unit io"
      by (rule_tac ext) (auto simp: ask_def io_simps split: option.splits)
    show ?thesis
      unfolding reset_main_def stop by (intro keeps_rules keeps_node_rules show_all ask collect)
  qed
  then show ?thesis by (simp add: keeps_def)
qed

definition sample_env :: reset_env where
  "sample_env = \<lparr>LOG_ROOT = ''/h'', HOST_LOG = ''/h/host.log'', MOVER_LOG = ''/h/mover.log'', VERIFIER_LOG = ''/h/verifier.log'',
     DB_PATH = ''/h/visits.db'', SNAP_DIR = ''/h/snap'', ICLOUD_DIR = ''/h/docs''\<rparr>"

theorem reset_spares_witness:
  "let w = sample_world\<lparr>files := [([''h''], Dir), ([''h'', ''visits.db''], File ''d'' 420),
             ([''h'', ''browser-visits-2024-01-02.log''], File ''l'' 420)]\<rparr>
   in node_at (files (snd (reset_main sample_env \<lparr>a_log = True, a_host_log = False, a_db = False, a_snapshots = False,
        a_icloud = False, a_force = True\<rparr> None w))) [''h'', ''visits.db''] = node_at (files w) [''h'', ''visits.db'']"
  unfolding Let_def by (rule reset_spares, rule disjI1, code_simp)

end
