(* ===== verification/FetchSnapshot.thy ===== *)
theory FetchSnapshot
  imports Effects
begin

text \<open>
  \<open>browser-visit-tools/fetch_vm_snapshot.py\<close>: the download of the server's database. The stream the server sends is
  a parameter: its chunks, and the error that ends it, if any; so is the directory of the generated
  stubs, which the tool imports.
\<close>

record fetch_args =
  f_server :: string
  f_machine_id :: string
  f_cert :: path
  f_key :: path
  f_ca :: path
  f_out :: path
  f_insecure :: bool

datatype fetch_channel = Insecure string | Secure string string string string

definition open_channel :: "fetch_args \<Rightarrow> fetch_channel io" where
  "open_channel args =
     (if f_insecure args then ret (Insecure (f_server args))
      else
        bnd (read_binary (f_cert args)) (\<lambda>cert.
        bnd (read_binary (f_key args)) (\<lambda>key.
        bnd (read_binary (f_ca args)) (\<lambda>ca.
        ret (Secure (f_server args) ca key cert)))))"

definition write_chunk :: "path \<Rightarrow> nat \<Rightarrow> exn + string \<Rightarrow> nat io" where
  "write_chunk p written chunk =
     (case chunk of
        Inl e \<Rightarrow> throw e
      | Inr data \<Rightarrow> thn (write_handle p data) (ret (written + length data)))"

definition fetch_main :: "(fetch_channel \<Rightarrow> string \<Rightarrow> (exn + string) list) \<Rightarrow> (unit io) \<Rightarrow> fetch_args \<Rightarrow> int io" where
  "fetch_main export load_stubs args =
     thn load_stubs
       (bnd (open_channel args) (\<lambda>channel.
        thn (open_write False (f_out args))
          (bnd (fold_io (write_chunk (f_out args)) 0 (export channel (f_machine_id args))) (\<lambda>written.
           thn (print_out (''wrote '' @ nat_str written @ '' bytes to '' @ f_out args)) (ret 0)))))"

section \<open>What is written\<close>

lemma run_chunks:
  assumes "calm w" and "node_at (files w) (comps_of p) = Some (File s m)" and "comps_of p \<noteq> []"
  shows "\<exists>w'. fold_io (write_chunk p) n (map Inr chunks) w = (Inr (n + length (concat chunks)), w')
    \<and> node_at (files w') (comps_of p) = Some (File (s @ concat chunks) m) \<and> calm w'"
  using assms
proof (induction chunks arbitrary: w s n)
  case Nil
  then show ?case by (simp add: io_simps)
next
  case (Cons c cs)
  let ?w = "w\<lparr>files := append_node (comps_of p) c (files w)\<rparr>"
  have "node_at (files ?w) (comps_of p) = Some (File (s @ c) m)" and "calm ?w"
    using Cons.prems by (simp_all add: append_node_def)
  from Cons.IH [OF this(2,1) Cons.prems(3), of "n + length c"] Cons.prems(1) show ?case
    by (simp add: write_chunk_def io_simps add.assoc)
qed

text \<open>A download without failures leaves exactly the bytes the server sent, whatever the file held before.\<close>

lemma fetch_complete:
  assumes "calm w" and "f_insecure args" and "comps_of (f_out args) \<noteq> []"
    and "node_at (files w) (comps_of (f_out args)) = Some (File old m)" and "writable m"
    and "export (Insecure (f_server args)) (f_machine_id args) = map Inr chunks"
  shows "\<exists>w'. fetch_main export (ret ()) args w = (Inr 0, w')
    \<and> node_at (files w') (comps_of (f_out args)) = Some (File (concat chunks) m)"
proof -
  let ?w = "w\<lparr>files := set_node (comps_of (f_out args)) (File [] m) (files w)\<rparr>"
  have o: "open_write False (f_out args) w = (Inr (), ?w)"
    using assms by (simp add: open_write_def ret_def)
  have "calm ?w" "node_at (files ?w) (comps_of (f_out args)) = Some (File [] m)"
    using assms by simp_all
  from run_chunks [OF this assms(3), of 0 chunks] obtain w' where
    "fold_io (write_chunk (f_out args)) 0 (map Inr chunks) ?w = (Inr (length (concat chunks)), w')"
    "node_at (files w') (comps_of (f_out args)) = Some (File (concat chunks) m)" by auto
  with assms o show ?thesis
    by (simp add: fetch_main_def open_channel_def io_simps)
qed

end
