(* ===== verification/SwiftCore.thy ===== *)
theory SwiftCore
  imports SealDirectory Rebuilder "HOL-Library.Word"
begin

text \<open>
  The part of \<open>browser-visit-logger/swift/Sources/BVLCore\<close> the native host runs: the SQLite wrapper
  (\<open>Database.swift\<close>), the tables it creates (\<open>Schema.swift\<close>), the error log (\<open>Errors.swift\<close>), the
  manifest of a day (\<open>Seal.swift\<close>), and the archiving of one snapshot file (\<open>Archive.swift\<close>,
  \<open>Sweep.swift\<close>).

  It works on the same database and the same files as the Python programs, so it runs over the same
  \<open>world\<close>. What a Swift call throws is an \<open>exn\<close>; its text is the description that ends up in the logs.
  The modification time that is copied along with a file, and the host's own log, are left out.
\<close>

section \<open>Strings\<close>

text \<open>
  \<open>tsvSanitise\<close> goes through the Characters of the string, and CR LF is one Character, equal to none of
  the three that are replaced.
\<close>

fun tsvSanitise :: "string \<Rightarrow> string" where
  "tsvSanitise [] = []"
| "tsvSanitise (c # s) =
     (if c = CR \<and> s \<noteq> [] \<and> hd s = NL then CR # NL # tsvSanitise (tl s)
      else if c = TAB \<or> c = NL then CHR '' '' # tsvSanitise s
      else if c = CR then tsvSanitise s
      else c # tsvSanitise s)"

text \<open>\<open>NSString.lastPathComponent\<close>: trailing slashes do not count.\<close>

definition lastPathComponent :: "path \<Rightarrow> string" where
  "lastPathComponent p =
     (let q = rstrip_char (CHR ''/'') p in if q = [] then (if p = [] then [] else ''/'') else basename q)"

text \<open>
  \<open>SnapshotName.dateString\<close>: the pattern of the Python side in the dialect of \<open>NSRegularExpression\<close>,
  where more characters end a line, so that \<open>.\<close> does not match them and \<open>$\<close> matches before them.
\<close>

definition LINE_ENDS :: "char list" where
  "LINE_ENDS = [NL, CHR 0x0B, CHR 0x0C, CR, CHR 0x85]"

definition dateString :: "string \<Rightarrow> string option" where
  "dateString s =
     (case match_atoms (DATE @ TIME) s of
        None \<Rightarrow> None
      | Some r \<Rightarrow>
          (let dots = takeWhile (\<lambda>c. c \<notin> set LINE_ENDS) r; rest = dropWhile (\<lambda>c. c \<notin> set LINE_ENDS) r
           in if dots \<noteq> [] \<and> (length rest \<le> 1 \<or> rest = [CR, NL]) then Some (take 10 s) else None))"

section \<open>The database\<close>

text \<open>A statement commits by itself unless a transaction was begun.\<close>

definition run_sql :: "table list \<Rightarrow> (database \<Rightarrow> 'a \<times> database) \<Rightarrow> 'a io" where
  "run_sql ts f = db_op (\<lambda>w.
     if have_tables ts (db w)
     then (Inr (fst (f (db w))), w\<lparr>db := snd (f (db w)), disk := (if in_tx w then disk w else snd (f (db w)))\<rparr>)
     else (Inl (OperationalError ''no such table''), w))"

definition begin_tx :: "unit io" where
  "begin_tx = db_op (\<lambda>w. (Inr (), w\<lparr>in_tx := True\<rparr>))"

definition rollback :: "unit io" where
  "rollback = db_op (\<lambda>w. (Inr (), w\<lparr>db := disk w, in_tx := False\<rparr>))"

text \<open>\<open>try?\<close>: the error is dropped.\<close>

definition attempt :: "unit io \<Rightarrow> unit io" where
  "attempt m = catch m (\<lambda>_. ret ())"

definition ensureHostTables :: "config \<Rightarrow> unit io" where
  "ensureHostTables cfg =
     thn (ddl (create_table Visits))
       (thn (ddl (\<lambda>d. d))
         (thn (ddl (create_events Read (DOWNLOADS_SNAPSHOTS_DIR cfg)))
           (thn (ddl (create_events Skimmed (DOWNLOADS_SNAPSHOTS_DIR cfg))) (ddl (create_table Snapshots)))))"

definition ensureMoverErrorsTable :: "unit io" where
  "ensureMoverErrorsTable = ddl (create_table MoverErrors)"

section \<open>The error log\<close>

text \<open>
  \<open>posix e\<close> says whether the thrown error is an \<open>NSError\<close> of the POSIX domain; Foundation wraps most of
  them, so this is a parameter of the model.
\<close>

definition isImmediate :: "(exn \<Rightarrow> bool) \<Rightarrow> string \<Rightarrow> exn \<Rightarrow> bool" where
  "isImmediate posix op e \<longleftrightarrow>
     op \<in> set [''top_level'', ''rewrite_manifest'', ''invalid_filename'', ''orphan_file'', ''manifest_invalid'']
     \<or> posix e \<and> (case e of OSError n _ \<Rightarrow> n \<in> set [ENOSPC, EROFS, EDQUOT] | _ \<Rightarrow> False)"

definition record_mover_error :: "(exn \<Rightarrow> bool) \<Rightarrow> string \<Rightarrow> string \<Rightarrow> exn \<Rightarrow> unit io" where
  "record_mover_error posix op target e =
     bnd now_iso (\<lambda>now.
     run_sql [MoverErrors] (\<lambda>d. ((), d\<lparr>mover_errors :=
       upsert_error (error_key op target) op target (take 500 (tsvSanitise (exn_str e))) now
         (if isImmediate posix op e then 1 else 0) (mover_errors d)\<rparr>)))"

definition tryRecord :: "(exn \<Rightarrow> bool) \<Rightarrow> string \<Rightarrow> string \<Rightarrow> exn \<Rightarrow> unit io" where
  "tryRecord posix op target e = attempt (record_mover_error posix op target e)"

definition tryClear :: "string \<Rightarrow> string \<Rightarrow> unit io" where
  "tryClear op target = attempt (run_sql [MoverErrors] (\<lambda>d. ((), d\<lparr>mover_errors :=
     delete_where (\<lambda>r. m_key r = error_key op target) (mover_errors d)\<rparr>)))"

text \<open>
  \<open>reconcileDirScoped\<close>. The prefix it compares with has lost its leading slash as well as the trailing
  one: \<open>trimmingCharacters\<close> trims both ends.
\<close>

definition trim_slashes :: "string \<Rightarrow> string" where
  "trim_slashes s = rstrip_char (CHR ''/'') (dropWhile (\<lambda>c. c = CHR ''/'') s)"

definition scope_prefix :: "path \<Rightarrow> string" where
  "scope_prefix dir = trim_slashes (dir @ ''/'') @ ''/''"

definition reconcileDirScoped :: "string \<Rightarrow> path \<Rightarrow> path list \<Rightarrow> unit io" where
  "reconcileDirScoped op dirPath currentStrays =
     attempt
       (bnd (select [MoverErrors] (\<lambda>d. map (\<lambda>r. (m_key r, m_target r))
               (filter (\<lambda>r. m_operation r = op) (mover_errors d)))) (\<lambda>prior.
        for_each prior (\<lambda>(key, target).
          if startswith target (scope_prefix dirPath) \<and> target \<notin> set currentStrays
          then run_sql [MoverErrors] (\<lambda>d. ((), d\<lparr>mover_errors :=
                 delete_where (\<lambda>r. m_key r = key) (mover_errors d)\<rparr>))
          else ret ())))"

section \<open>Files\<close>

text \<open>\<open>removeItem\<close> takes a directory with everything in it.\<close>

definition inside :: "comps \<Rightarrow> comps \<Rightarrow> bool" where
  "inside c k \<longleftrightarrow> take (length c) k = c"

definition removeItem :: "path \<Rightarrow> unit io" where
  "removeItem p = fs_op (\<lambda>w.
     (case node_at (files w) (comps_of p) of
        None \<Rightarrow> os_raise ENOENT w
      | Some _ \<Rightarrow> ret () (w\<lparr>files := delete_where (\<lambda>x. inside (comps_of p) (fst x)) (files w)\<rparr>)))"

text \<open>
  \<open>copyItem\<close>: the destination must not exist. A directory is copied with everything in it, a file
  text after text: a failing copy leaves a prefix.
\<close>

definition copy_tree :: "comps \<Rightarrow> comps \<Rightarrow> store \<Rightarrow> store" where
  "copy_tree c d fs =
     fs @ (d, Dir) # map (\<lambda>x. (d @ drop (length c) (fst x), snd x)) (filter (\<lambda>x. inside c (fst x) \<and> fst x \<noteq> c) fs)"

definition copy_start :: "path \<Rightarrow> path \<Rightarrow> string io" where
  "copy_start src dst = fs_op (\<lambda>w.
     (let fs = files w; c = comps_of src; d = comps_of dst in
      case node_at fs c of
        None \<Rightarrow> os_raise ENOENT w
      | Some n \<Rightarrow>
          if node_at fs d \<noteq> None then os_raise EEXIST w
          else
            (case parent_error d fs of
               Some e \<Rightarrow> os_raise e w
             | None \<Rightarrow>
                 (case n of
                    File s m \<Rightarrow>
                      if readable m then ret s (w\<lparr>files := set_node d (File [] m) fs\<rparr>) else os_raise EACCES w
                  | Dir \<Rightarrow> ret [] (w\<lparr>files := copy_tree c d fs\<rparr>)))))"

definition copyItem :: "path \<Rightarrow> path \<Rightarrow> unit io" where
  "copyItem src dst = bnd (copy_start src dst) (write_handle dst)"

text \<open>\<open>write(toFile:atomically:true)\<close>: the file is there with all its text or as before.\<close>

definition write_atomically :: "path \<Rightarrow> string \<Rightarrow> unit io" where
  "write_atomically p s = fs_op (\<lambda>w.
     (case node_at (files w) (comps_of p) of
        Some Dir \<Rightarrow> os_raise EISDIR w
      | _ \<Rightarrow>
          (case parent_error (comps_of p) (files w) of
             Some e \<Rightarrow> os_raise e w
           | None \<Rightarrow> ret () (w\<lparr>files := set_node (comps_of p) (File s mode_644) (files w)\<rparr>))))"

section \<open>The manifest\<close>

definition isDateDirName :: "string \<Rightarrow> bool" where
  "isDateDirName s =
     (case match_atoms DATE s of
        None \<Rightarrow> False
      | Some r \<Rightarrow> r = [] \<or> r = [CR, NL] \<or> length r = 1 \<and> hd r \<in> set LINE_ENDS)"

definition expectedLog :: "path \<Rightarrow> filename option" where
  "expectedLog dateSubdir =
     (let base = lastPathComponent dateSubdir in if isDateDirName base then Some (log_filename_for base) else None)"

definition manifest_candidate :: "path \<Rightarrow> world \<Rightarrow> filename \<Rightarrow> bool" where
  "manifest_candidate dateSubdir w f \<longleftrightarrow>
     f \<noteq> MANIFEST_FILENAME \<and> expectedLog dateSubdir \<noteq> Some f \<and> f \<notin> set IGNORED_NAMES
     \<and> isfile (path_join dateSubdir f) w"

definition lookupEvent :: "config \<Rightarrow> filename \<Rightarrow> path \<Rightarrow> event_info option io" where
  "lookupEvent cfg name directory =
     (let c = cfg\<lparr>MATCH_BY_FILENAME_ONLY := False\<rparr> in
      bnd (select [ReadEvents, Visits] (select_event c Read name directory)) (\<lambda>r.
      case r of
        None \<Rightarrow> select [SkimmedEvents, Visits] (select_event c Skimmed name directory)
      | Some i \<Rightarrow> ret (Some i)))"

text \<open>The body of the loop over the files; its state is \<open>(rows, currentInvalid, currentOrphan)\<close>.\<close>

fun manifest_file ::
    "config \<Rightarrow> (exn \<Rightarrow> bool) \<Rightarrow> path \<Rightarrow> string list list \<times> path list \<times> path list \<Rightarrow> filename \<Rightarrow>
     (string list list \<times> path list \<times> path list) io" where
  "manifest_file cfg posix dateSubdir (rows, invalid, orphan) name =
     (let full = path_join dateSubdir name
      in if dateString name = None
         then thn (tryRecord posix ''invalid_filename'' full (ValueError ''filename does not match snapshot format''))
                  (ret (rows, full # invalid, orphan))
         else bnd (lookupEvent cfg name dateSubdir) (\<lambda>info.
              case info of
                None \<Rightarrow> thn (tryRecord posix ''orphan_file'' full
                              (ValueError ''snapshot file has no matching events row''))
                        (ret (rows, invalid, full # orphan))
              | Some i \<Rightarrow> ret (rows @ [[tsvSanitise name, i_tag i, tsvSanitise (i_timestamp i),
                  tsvSanitise (i_url i), tsvSanitise (i_title i)]], invalid, orphan)))"

definition buildManifestRows :: "config \<Rightarrow> (exn \<Rightarrow> bool) \<Rightarrow> path \<Rightarrow> string list list io" where
  "buildManifestRows cfg posix dateSubdir =
     bnd (listdir dateSubdir) (\<lambda>entries.
     bnd (gets (\<lambda>w. sort (filter (manifest_candidate dateSubdir w) entries))) (\<lambda>fs.
     bnd (fold_io (manifest_file cfg posix dateSubdir) ([], [], []) fs) (\<lambda>(rows, invalid, orphan).
     thn (reconcileDirScoped ''invalid_filename'' dateSubdir invalid)
       (thn (reconcileDirScoped ''orphan_file'' dateSubdir orphan) (ret rows)))))"

definition writeManifestFile :: "config \<Rightarrow> (exn \<Rightarrow> bool) \<Rightarrow> path \<Rightarrow> nat io" where
  "writeManifestFile cfg posix dateSubdir =
     (let p = path_join dateSubdir MANIFEST_FILENAME in
      bnd (gets (exists p)) (\<lambda>there.
      thn (if there then thn (attempt (chmod p mode_644)) (removeItem p) else ret ())
        (bnd (buildManifestRows cfg posix dateSubdir) (\<lambda>rows.
         thn (write_atomically p (concat (map tsv_line (MANIFEST_HEADER # rows))))
           (thn (chmod p mode_444) (ret (length rows)))))))"

definition rewriteManifestForStraggler :: "config \<Rightarrow> (exn \<Rightarrow> bool) \<Rightarrow> path \<Rightarrow> unit io" where
  "rewriteManifestForStraggler cfg posix dateSubdir =
     catch (thn (writeManifestFile cfg posix dateSubdir) (tryClear ''rewrite_manifest'' dateSubdir))
       (tryRecord posix ''rewrite_manifest'' dateSubdir)"

section \<open>Where the archive is\<close>

text \<open>
  The environment of the process, its home directory, the \<open>gdrive_account\<close> of \<open>config.json\<close> (\<open>None\<close>
  when the file or the field is missing), and how Foundation reports errors.
\<close>

record host_env =
  environ :: "string \<Rightarrow> string option"
  home :: path
  config_account :: "string option"
  posix_error :: "exn \<Rightarrow> bool"

definition gdriveAccount :: "host_env \<Rightarrow> string option" where
  "gdriveAccount env =
     (case environ env ''BVL_GDRIVE_ACCOUNT'' of
        Some a \<Rightarrow> if a \<noteq> [] then Some a else config_account env
      | None \<Rightarrow> config_account env)"

definition archiveSnapshotsDir :: "host_env \<Rightarrow> path io" where
  "archiveSnapshotsDir env =
     (case environ env ''BVL_GDRIVE_SNAPSHOTS_DIR'' of
        Some v \<Rightarrow> ret v
      | None \<Rightarrow>
          (case environ env ''BVL_ICLOUD_SNAPSHOTS_DIR'' of
             Some v \<Rightarrow> ret v
           | None \<Rightarrow>
               (case gdriveAccount env of
                  None \<Rightarrow> throw (RuntimeError ''Google Drive snapshot archive is not configured'')
                | Some account \<Rightarrow>
                    if account = []
                    then throw (RuntimeError ''Google Drive snapshot archive is not configured'')
                    else
                      (let mountBase = path_join (home env)
                             (''Library/CloudStorage/GoogleDrive-'' @ account @ ''/My Drive'')
                       in bnd (gets (isdir mountBase)) (\<lambda>dir.
                          if dir then ret (path_join mountBase ''browser-visit-logger/snapshots'')
                          else throw (RuntimeError (''Google Drive mount '' @ mountBase @ '' does not exist'')))))))"

section \<open>Archiving a snapshot\<close>

definition make_way :: "path \<Rightarrow> unit io" where
  "make_way dest =
     bnd (gets (exists dest)) (\<lambda>there.
     if there then thn (attempt (chmod dest mode_644)) (removeItem dest) else ret ())"

definition relocate_rows :: "config \<Rightarrow> path \<Rightarrow> filename \<Rightarrow> unit io" where
  "relocate_rows cfg dateSubdir name =
     for_each [Read, Skimmed] (\<lambda>tg.
       thn (run_sql [event_table tg] (sql_relocate tg dateSubdir name (DOWNLOADS_SNAPSHOTS_DIR cfg))) (ret ()))"

text \<open>Steps (e) to (i): the day's row, the source, and the manifest of a day that was sealed before.\<close>

definition finish_move :: "config \<Rightarrow> host_env \<Rightarrow> path \<Rightarrow> path \<Rightarrow> string \<Rightarrow> unit io" where
  "finish_move cfg env source dateSubdir dateStr =
     bnd (select [Snapshots] (\<lambda>d. map_option s_sealed (lookup_key s_date dateStr (snapshots d)))) (\<lambda>prevSealed.
     thn (run_sql [Snapshots] (sql_insert_snapshot dateStr))
       (thn (removeItem source)
         (thn (tryClear ''move'' source)
           (if prevSealed = Some 1 then rewriteManifestForStraggler cfg (posix_error env) dateSubdir
            else ret ()))))"

definition moveOne :: "config \<Rightarrow> host_env \<Rightarrow> path \<Rightarrow> filename \<Rightarrow> string \<Rightarrow> unit io" where
  "moveOne cfg env source name dateStr =
     catch
       (bnd (archiveSnapshotsDir env) (\<lambda>root.
        let dateSubdir = path_join root dateStr; dest = path_join dateSubdir name in
        thn (makedirs dateSubdir)
          (thn (make_way dest)
            (thn (copyItem source dest)
              (thn (chmod dest mode_444)
                (thn (relocate_rows cfg dateSubdir name)
                  (finish_move cfg env source dateSubdir dateStr)))))))
       (tryRecord (posix_error env) ''move'' source)"

definition archive_for_tag :: "config \<Rightarrow> host_env \<Rightarrow> filename \<Rightarrow> unit io" where
  "archive_for_tag cfg env filename =
     (let name = lastPathComponent filename;
          source = path_join (DOWNLOADS_SNAPSHOTS_DIR cfg) name
      in if name = [] then ret ()
         else
           (case dateString name of
              None \<Rightarrow> tryRecord (posix_error env) ''invalid_filename'' source
                        (ValueError ''filename does not match snapshot format'')
            | Some dateStr \<Rightarrow>
                bnd (gets (exists source)) (\<lambda>there.
                if there then moveOne cfg env source name dateStr else ret ())))"

end
