(* ===== verification/NativeHost.thy ===== *)
theory NativeHost
  imports SwiftCore
begin

text \<open>
  The native messaging host, \<open>browser-visit-logger/swift/Sources/BVLHost\<close> (\<open>main.swift\<close>, \<open>Log.swift\<close>,
  \<open>NativeMessaging.swift\<close>) with \<open>BVLCore/EventsTable.swift\<close>: the program the browser extension
  starts for every message, and the only writer of visits. It appends the request to the day's log,
  records it in the database in one transaction, archives the downloaded snapshot, and appends the
  result to the log; the Python rebuilder and the sync client replay that log.

  Starting the sync client at the end is a later run in the theories on synchronisation, not part of
  this one. The record id is drawn by the operating system and is a parameter.
\<close>

section \<open>Framing\<close>

text \<open>
  A message is its length in four bytes, the least significant first, and the body, here bytes as
  characters. Chrome and \<open>UInt32(body.count)\<close> stop at \<open>2 ^ 32\<close>.
\<close>

datatype framing_error = EofBeforeLength | EofMidMessage | DecodeFailed string

definition length_header :: "32 word \<Rightarrow> string" where
  "length_header n = map (\<lambda>i. char_of (unat (drop_bit (8 * i) n) mod 256)) [0, 1, 2, 3]"

definition header_value :: "string \<Rightarrow> 32 word" where
  "header_value h = foldr (\<lambda>c v. of_nat (of_char c) + 256 * v) h 0"

text \<open>\<open>decode\<close> is \<open>JSONSerialization\<close> with the check for an object; the rest of the input is not looked at.\<close>

definition read_message :: "(string \<Rightarrow> string + 'm) \<Rightarrow> string \<Rightarrow> framing_error + 'm" where
  "read_message decode stdin =
     (let header = take 4 stdin; rest = drop 4 stdin in
      if length header < 4 then Inl EofBeforeLength
      else
        (let n = unat (header_value header); body = take n rest in
         if length body < n then Inl EofMidMessage
         else (case decode body of Inl e \<Rightarrow> Inl (DecodeFailed e) | Inr m \<Rightarrow> Inr m)))"

definition write_message :: "string \<Rightarrow> string option" where
  "write_message body =
     (if length body < 2 ^ 32 then Some (length_header (of_nat (length body)) @ body) else None)"

section \<open>Messages and responses\<close>

datatype json = JString string | JBool bool | JOther

type_synonym message = "(string \<times> json) list"

definition string_field :: "message \<Rightarrow> string \<Rightarrow> string" where
  "string_field m key = (case map_of m key of Some (JString s) \<Rightarrow> s | _ \<Rightarrow> [])"

definition bool_field :: "message \<Rightarrow> string \<Rightarrow> bool" where
  "bool_field m key = (case map_of m key of Some (JBool b) \<Rightarrow> b | _ \<Rightarrow> False)"

text \<open>\<open>trimmingCharacters(in: .whitespaces)\<close>: spaces, tabs and no-break spaces, at both ends.\<close>

definition is_white :: "char \<Rightarrow> bool" where
  "is_white c \<longleftrightarrow> c = CHR '' '' \<or> c = TAB \<or> c = CHR 0xA0"

definition trimmed :: "string \<Rightarrow> string" where
  "trimmed s = rev (dropWhile is_white (rev (dropWhile is_white s)))"

record request =
  q_timestamp :: timestamp
  q_url :: url
  q_title :: string
  q_tag :: string
  q_filename :: filename
  q_also :: bool

definition request_of :: "message \<Rightarrow> request" where
  "request_of m = \<lparr>q_timestamp = trimmed (string_field m ''timestamp''), q_url = trimmed (string_field m ''url''),
     q_title = string_field m ''title'', q_tag = trimmed (string_field m ''tag''),
     q_filename = trimmed (string_field m ''filename''), q_also = bool_field m ''alsoOfInterest''\<rparr>"

record visit_record =
  r_time :: timestamp
  r_title :: string
  r_interest :: bool
  r_read :: "(timestamp \<times> filename \<times> path) list"
  r_skimmed :: "(timestamp \<times> filename \<times> path) list"

datatype response = Written | Found "visit_record option" | Refused string | Failed "string list"

definition validTags :: "string list" where
  "validTags = [''of_interest'', ''read'', ''skimmed'']"

section \<open>The visit log\<close>

definition action_fields :: "string \<Rightarrow> request \<Rightarrow> string list" where
  "action_fields recordId q =
     [tsvSanitise recordId, tsvSanitise (q_timestamp q), tsvSanitise (q_url q), tsvSanitise (q_title q)]
     @ (if q_tag q = [] then []
        else tsvSanitise (q_tag q)
             # (if q_tag q = ''read'' \<or> q_tag q = ''skimmed'' then [tsvSanitise (q_filename q)] else []))"

definition action_line :: "string \<Rightarrow> request \<Rightarrow> string" where
  "action_line recordId q = join_with [TAB] (action_fields recordId q)"

definition result_line :: "string \<Rightarrow> string \<Rightarrow> string" where
  "result_line recordId res = tsvSanitise recordId @ TAB # tsvSanitise res"

text \<open>\<open>FileHandle(forWritingTo:)\<close> opens a file that is there, and leaves its text.\<close>

definition open_existing :: "path \<Rightarrow> unit io" where
  "open_existing p = fs_op (\<lambda>w.
     (case node_at (files w) (comps_of p) of
        None \<Rightarrow> os_raise ENOENT w
      | Some Dir \<Rightarrow> os_raise EISDIR w
      | Some (File _ m) \<Rightarrow> if writable m then ret () w else os_raise EACCES w))"

definition seek_to_end :: "unit io" where
  "seek_to_end = fs_op (ret ())"

definition logPath :: "config \<Rightarrow> string \<Rightarrow> path" where
  "logPath cfg dateISO = path_join (LOG_DIR cfg) (log_filename_for dateISO)"

text \<open>The directory of the log path is \<open>LOG_DIR\<close>. What \<open>createFile\<close> returns is not looked at.\<close>

definition appendLine :: "config \<Rightarrow> string \<Rightarrow> string \<Rightarrow> unit io" where
  "appendLine cfg dateISO line =
     (let p = logPath cfg dateISO in
      bnd (gets (exists p)) (\<lambda>there.
      thn (if there then ret () else thn (makedirs (LOG_DIR cfg)) (attempt (open_write False p)))
        (thn (open_existing p) (thn seek_to_end (write_handle p (line @ [NL]))))))"

section \<open>The tables\<close>

definition tagTable :: "string \<Rightarrow> event_tag option" where
  "tagTable tag = (if tag = ''read'' then Some Read else if tag = ''skimmed'' then Some Skimmed else None)"

definition insertVisit :: "timestamp \<Rightarrow> url \<Rightarrow> string \<Rightarrow> unit io" where
  "insertVisit timestamp url title = run_sql [Visits] (sql_insert_visit url timestamp title)"

definition insertEvent :: "config \<Rightarrow> event_tag \<Rightarrow> url \<Rightarrow> timestamp \<Rightarrow> filename \<Rightarrow> bool io" where
  "insertEvent cfg tg url timestamp filename =
     bnd (select [Visits] (\<lambda>d. has_key v_url url (visits d))) (\<lambda>there.
     if \<not> there then ret False
     else bnd (run_sql [event_table tg] (sql_insert_event tg
                 \<lparr>e_url = url, e_timestamp = timestamp, e_filename = lastPathComponent filename,
                  e_directory = DOWNLOADS_SNAPSHOTS_DIR cfg\<rparr>)) (\<lambda>inserted.
          thn (if inserted > 0 then run_sql [Visits] (sql_bump tg url) else ret ()) (ret True)))"

definition tagVisit :: "config \<Rightarrow> url \<Rightarrow> string \<Rightarrow> timestamp \<Rightarrow> filename \<Rightarrow> bool io" where
  "tagVisit cfg url tag timestamp filename =
     (if tag = ''of_interest''
      then bnd (run_sql [Visits] (sql_set_of_interest url)) (\<lambda>changed. ret (changed > 0))
      else
        (case tagTable tag of
           None \<Rightarrow> ret False
         | Some tg \<Rightarrow> insertEvent cfg tg url timestamp filename))"

definition fetchEvents :: "event_tag \<Rightarrow> url \<Rightarrow> (timestamp \<times> filename \<times> path) list io" where
  "fetchEvents tg url =
     select [event_table tg] (\<lambda>d. map (\<lambda>e. (e_timestamp e, e_filename e, e_directory e))
       (sort_key e_timestamp (filter (\<lambda>e. e_url e = url) (events tg d))))"

definition queryVisit :: "url \<Rightarrow> visit_record option io" where
  "queryVisit url =
     bnd (select [Visits] (\<lambda>d. lookup_key v_url url (visits d))) (\<lambda>basics.
     case basics of
       None \<Rightarrow> ret None
     | Some v \<Rightarrow>
         bnd (fetchEvents Read url) (\<lambda>rd.
         bnd (fetchEvents Skimmed url) (\<lambda>sk.
         ret (Some \<lparr>r_time = v_timestamp v, r_title = v_title v, r_interest = (v_of_interest v \<noteq> None),
           r_read = rd, r_skimmed = sk\<rparr>))))"

section \<open>One run of the host\<close>

definition host_query :: "config \<Rightarrow> url \<Rightarrow> response io" where
  "host_query cfg url =
     (if url = [] then ret (Refused ''url is required'')
      else lastly (catch
        (thn connect (thn (ensureHostTables cfg) (bnd (queryVisit url) (\<lambda>r. ret (Found r)))))
        (\<lambda>e. ret (Refused (exn_str e)))) close)"

definition visit_and_tags :: "config \<Rightarrow> request \<Rightarrow> unit io" where
  "visit_and_tags cfg q =
     thn (insertVisit (q_timestamp q) (q_url q) (q_title q))
       (if q_tag q \<noteq> []
        then thn (tagVisit cfg (q_url q) (q_tag q) (q_timestamp q) (q_filename q))
               (if q_also q \<and> (q_tag q = ''read'' \<or> q_tag q = ''skimmed'')
                then thn (tagVisit cfg (q_url q) ''of_interest'' (q_timestamp q) []) (ret ())
                else ret ())
        else ret ())"

definition record_in_transaction :: "config \<Rightarrow> request \<Rightarrow> unit io" where
  "record_in_transaction cfg q =
     thn begin_tx
       (catch (thn (visit_and_tags cfg q) commit) (\<lambda>e. thn (attempt rollback) (throw e)))"

definition write_database :: "config \<Rightarrow> host_env \<Rightarrow> string \<Rightarrow> request \<Rightarrow> unit io" where
  "write_database cfg env todayISO q =
     lastly
       (thn connect
         (thn (ensureHostTables cfg)
           (thn ensureMoverErrorsTable
             (thn (run_sql [Snapshots] (sql_insert_snapshot todayISO))
               (thn (record_in_transaction cfg q)
                 (if (q_tag q = ''read'' \<or> q_tag q = ''skimmed'') \<and> q_filename q \<noteq> []
                  then archive_for_tag cfg env (q_filename q) else ret ())))))) close"

text \<open>A block whose error becomes one entry of the list \<open>errors\<close>.\<close>

definition noting :: "string \<Rightarrow> unit io \<Rightarrow> string list io" where
  "noting label m = catch (thn m (ret [])) (\<lambda>e. ret [label @ exn_str e])"

definition result_text :: "string list \<Rightarrow> string" where
  "result_text errors = (if errors = [] then ''success'' else ''error: '' @ join_with ''; '' errors)"

definition host_write :: "config \<Rightarrow> host_env \<Rightarrow> string \<Rightarrow> request \<Rightarrow> response io" where
  "host_write cfg env recordId q =
     (if q_url q = [] then ret (Refused ''url is required'')
      else if q_timestamp q = [] then ret (Refused ''timestamp is required'')
      else if q_tag q \<noteq> [] \<and> q_tag q \<notin> set validTags then ret (Refused (''invalid tag: '' @ q_tag q))
      else
        bnd (gets today) (\<lambda>todayISO.
        bnd (noting ''log: '' (appendLine cfg todayISO (action_line recordId q))) (\<lambda>logged.
        bnd (noting ''db: '' (write_database cfg env todayISO q)) (\<lambda>stored.
        let errors = logged @ stored in
        thn (attempt (appendLine cfg todayISO (result_line recordId (result_text errors))))
          (ret (if errors = [] then Written else Failed errors))))))"

definition host_run :: "config \<Rightarrow> host_env \<Rightarrow> string \<Rightarrow> message \<Rightarrow> response io" where
  "host_run cfg env recordId m =
     (if trimmed (string_field m ''action'') = ''query''
      then host_query cfg (trimmed (string_field m ''url''))
      else host_write cfg env recordId (request_of m))"

end
