(* ===== verification/ArchiveCorrect.thy ===== *)
theory ArchiveCorrect
  imports NativeHost RebuildSound OrphanMerge
begin

text \<open>
  What archiving a snapshot leaves alone, whatever fails. The locales are the contract: an invariant that
  survives the statements on the error log and on the directory column (\<open>rows_frame\<close>), and every call the
  archive makes on the files of the archive and the Downloads directory (\<open>archive_frame\<close>), survives
  the archive. Its interpretations
  are the invariants the host's own properties need.
\<close>

section \<open>The files the archive may touch\<close>

text \<open>
  Everything the archive writes or removes has the name of a snapshot in its path or is a manifest;
  apart from that it creates directories. Whatever has a \<open>plain\<close> path stays.
\<close>

definition plain :: "comps \<Rightarrow> bool" where
  "plain c \<longleftrightarrow> c \<noteq> [] \<and> list_all (\<lambda>x. dateString x = None \<and> x \<noteq> MANIFEST_FILENAME) c"

definition not_plain :: "path \<Rightarrow> bool" where
  "not_plain p \<longleftrightarrow> comps_of p \<noteq> [] \<and> \<not> plain (comps_of p)"

text \<open>What a statement of the archive does not read or write.\<close>

definition undirected :: "event \<Rightarrow> event" where
  "undirected e = e\<lparr>e_directory := []\<rparr>"

definition recorded :: "database \<Rightarrow> visit list \<times> event list \<times> event list" where
  "recorded d = (visits d, map undirected (read_events d), map undirected (skimmed_events d))"

definition bookkeeping :: "(database \<Rightarrow> database) \<Rightarrow> bool" where
  "bookkeeping f \<longleftrightarrow> (\<forall>d. recorded (f d) = recorded d \<and> tables (f d) = tables d \<and> sync_state (f d) = sync_state d)"

lemma recorded_parts [simp]:
  "recorded (d\<lparr>mover_errors := es\<rparr>) = recorded d" "recorded (d\<lparr>snapshots := ss\<rparr>) = recorded d"
  "recorded (d\<lparr>sync_state := ys\<rparr>) = recorded d" "recorded (d\<lparr>tables := ts\<rparr>) = recorded d"
  "recorded (d\<lparr>read_default := p\<rparr>) = recorded d" "recorded (d\<lparr>skimmed_default := p\<rparr>) = recorded d"
  by (simp_all add: recorded_def)

lemma undirected_relocated:
  "map undirected (snd (update_where P (\<lambda>e. e\<lparr>e_directory := dir\<rparr>) es)) = map undirected es"
  by (induction es) (auto simp: update_where_def undirected_def)

lemma bookkeeping_errors [intro]: "bookkeeping (\<lambda>d. snd ((), d\<lparr>mover_errors := f (mover_errors d)\<rparr>))"
  by (simp add: bookkeeping_def)

lemma bookkeeping_snapshot [intro]: "bookkeeping (\<lambda>d. snd (sql_insert_snapshot day d))"
  by (simp add: bookkeeping_def sql_insert_snapshot_def)

lemma relocate_parts:
  "tables (snd (sql_relocate tg dir f dl d)) = tables d" "sync_state (snd (sql_relocate tg dir f dl d)) = sync_state d"
  by (cases tg; simp add: sql_relocate_def case_prod_beta)+

lemma recorded_relocate [simp]: "recorded (snd (sql_relocate tg dir f dl d)) = recorded d"
  by (cases tg) (simp_all add: recorded_def sql_relocate_def case_prod_beta undirected_relocated)

lemma bookkeeping_relocate [intro]: "bookkeeping (\<lambda>d. snd (sql_relocate tg dir f dl d))"
  by (simp add: bookkeeping_def relocate_parts)

section \<open>The contract\<close>

lemma keeps_attempt [keeps_rules]: "keeps I m \<Longrightarrow> keeps I (attempt m)"
  unfolding attempt_def by (intro keeps_rules)

lemma not_plain_name:
  assumes "proper_name x" and "dateString x \<noteq> None \<or> x = MANIFEST_FILENAME"
  shows "not_plain (path_join dir x)"
  using assms by (auto simp: not_plain_def plain_def comps_of_join)

lemma dateString_digit: "dateString s = Some d \<Longrightarrow> \<exists>c cs. s = c # cs \<and> is_digit c"
  by (cases s) (auto simp: dateString_def DATE_def split: option.splits if_splits)

lemma lastPathComponent_no_slash: "CHR ''/'' \<in> set (lastPathComponent p) \<Longrightarrow> lastPathComponent p = ''/''"
  using basename_no_slash_in by (auto simp: lastPathComponent_def Let_def split: if_splits)

lemma proper_snapshot:
  assumes "dateString (lastPathComponent p) = Some d"
  shows "proper_name (lastPathComponent p)"
proof -
  obtain c cs where *: "lastPathComponent p = c # cs" "is_digit c"
    using dateString_digit [OF assms] by blast
  then show ?thesis
    using lastPathComponent_no_slash [of p] by (auto simp: proper_name_def is_digit_def)
qed

locale rows_frame =
  fixes I :: "world \<Rightarrow> bool"
  assumes statement: "bookkeeping f \<Longrightarrow> I w \<Longrightarrow>
      I (w\<lparr>db := f (db w), disk := (if in_tx w then disk w else f (db w))\<rparr>)"
    and statements_left: "I w \<Longrightarrow> db_faults w = x # dl \<Longrightarrow> I (w\<lparr>db_faults := dl\<rparr>)"
    and clock_read: "I w \<Longrightarrow> I (w\<lparr>reads := n\<rparr>)"
    and list: "keeps I (listdir p)"
begin

lemma on_db: "keeps I m \<Longrightarrow> keeps I (db_op m)"
  using statements_left unfolding keeps_def db_op_def by (fastforce split: list.split option.split)

lemma run:
  assumes "bookkeeping (\<lambda>d. snd (f d))"
  shows "keeps I (run_sql ts f)"
  unfolding run_sql_def
proof (rule on_db, unfold keeps_def, intro allI impI)
  fix w :: world assume "I w"
  from statement [OF assms this] this
  show "I (snd (if have_tables ts (db w)
     then (Inr (fst (f (db w))), w\<lparr>db := snd (f (db w)), disk := (if in_tx w then disk w else snd (f (db w)))\<rparr>)
     else (Inl (OperationalError ''no such table''), w)))"
    by (cases "have_tables ts (db w)") (simp_all split del: if_split)
qed

lemma query: "keeps I (select ts g)"
  unfolding select_def by (rule on_db) (simp add: keeps_def)

lemma now: "keeps I now_iso"
  by (simp add: keeps_def now_iso_def clock_read)

lemma keeps_tryRecord: "keeps I (tryRecord posix op target e)"
  unfolding tryRecord_def record_mover_error_def
  by (intro keeps_rules now run bookkeeping_errors)

lemma keeps_tryClear: "keeps I (tryClear op target)"
  unfolding tryClear_def by (intro keeps_rules run bookkeeping_errors)

lemma keeps_reconcileDir: "keeps I (reconcileDirScoped op dir strays)"
  unfolding reconcileDirScoped_def
  by (intro keeps_rules query) (auto intro!: keeps_rules run bookkeeping_errors split: prod.split)

lemma keeps_lookup: "keeps I (lookupEvent cfg name dir)"
  unfolding lookupEvent_def Let_def by (intro keeps_rules query)

lemma keeps_manifest_file: "keeps I (manifest_file cfg posix dir s name)"
  by (cases s) (auto simp: Let_def intro!: keeps_rules keeps_tryRecord keeps_lookup split: option.split)

lemma keeps_build: "keeps I (buildManifestRows cfg posix dir)"
  unfolding buildManifestRows_def
  by (intro keeps_rules list keeps_manifest_file)
    (auto intro!: keeps_rules keeps_reconcileDir split: prod.split)

lemma keeps_relocate_rows: "keeps I (relocate_rows cfg dir name)"
  unfolding relocate_rows_def by (intro keeps_rules run bookkeeping_relocate)

lemma keeps_archiveDir: "keeps I (archiveSnapshotsDir env)"
  unfolding archiveSnapshotsDir_def Let_def by (intro keeps_rules)

end

text \<open>With the calls that change files.\<close>

locale archive_frame = rows_frame I for I :: "world \<Rightarrow> bool" +
  assumes dirs: "keeps I (makedirs p)"
    and mode: "not_plain p \<Longrightarrow> keeps I (chmod p m)"
    and remove: "not_plain p \<Longrightarrow> keeps I (removeItem p)"
    and copy: "not_plain p \<Longrightarrow> keeps I (copyItem q p)"
    and atomic: "not_plain p \<Longrightarrow> keeps I (write_atomically p s)"
begin

lemma keeps_writeManifest: "not_plain (path_join dir MANIFEST_FILENAME) \<Longrightarrow> keeps I (writeManifestFile cfg posix dir)"
  unfolding writeManifestFile_def Let_def
  by (intro keeps_rules mode remove keeps_build atomic)

lemma keeps_rewrite: "not_plain (path_join dir MANIFEST_FILENAME) \<Longrightarrow> keeps I (rewriteManifestForStraggler cfg posix dir)"
  unfolding rewriteManifestForStraggler_def
  by (intro keeps_rules keeps_writeManifest keeps_tryClear keeps_tryRecord)

lemma keeps_make_way: "not_plain dest \<Longrightarrow> keeps I (make_way dest)"
  unfolding make_way_def by (intro keeps_rules mode remove)

lemma keeps_finish:
  "not_plain source \<Longrightarrow> not_plain (path_join dir MANIFEST_FILENAME) \<Longrightarrow> keeps I (finish_move cfg env source dir day)"
  unfolding finish_move_def
  by (intro keeps_rules query run bookkeeping_snapshot remove keeps_tryClear keeps_rewrite)

lemma keeps_moveOne:
  assumes "not_plain source" and "proper_name name" and "dateString name = Some d"
  shows "keeps I (moveOne cfg env source name day)"
  unfolding moveOne_def Let_def
  by (intro keeps_rules dirs copy mode keeps_archiveDir keeps_make_way keeps_relocate_rows keeps_finish
      keeps_tryRecord not_plain_name proper_manifest assms) (simp_all add: assms)

lemma keeps_archive: "keeps I (archive_for_tag cfg env filename)"
  unfolding archive_for_tag_def Let_def
  by (intro keeps_rules keeps_tryRecord keeps_moveOne not_plain_name proper_snapshot) auto

end

section \<open>Invariants of the files\<close>

text \<open>For an invariant of the file store alone the contract comes down to four ways of changing it.\<close>

lemma parent_error_None: "parent_error c fs = None \<longleftrightarrow> node_at fs (butlast c) = Some Dir"
  by (simp add: parent_error_def split: option.split node.split)

locale archive_store =
  fixes P :: "store \<Rightarrow> bool"
  assumes new_dir: "P fs \<Longrightarrow> c \<noteq> [] \<Longrightarrow> node_at fs c = None \<Longrightarrow> node_at fs (butlast c) = Some Dir \<Longrightarrow> P (set_node c Dir fs)"
    and new_file: "P fs \<Longrightarrow> c \<noteq> [] \<Longrightarrow> \<not> plain c \<Longrightarrow> node_at fs c = None \<Longrightarrow> node_at fs (butlast c) = Some Dir \<Longrightarrow>
      P (set_node c (File s m) fs)"
    and old_file: "P fs \<Longrightarrow> c \<noteq> [] \<Longrightarrow> \<not> plain c \<Longrightarrow> node_at fs c = Some (File s' m') \<Longrightarrow> P (set_node c (File s m) fs)"
    and removed: "P fs \<Longrightarrow> c \<noteq> [] \<Longrightarrow> \<not> plain c \<Longrightarrow> P (delete_where (\<lambda>x. inside c (fst x)) fs)"
    and copied: "P fs \<Longrightarrow> d \<noteq> [] \<Longrightarrow> \<not> plain d \<Longrightarrow> node_at fs d = None \<Longrightarrow> node_at fs (butlast d) = Some Dir \<Longrightarrow>
      node_at fs c = Some Dir \<Longrightarrow> P (copy_tree c d fs)"
begin

lemma on_files: "keeps (\<lambda>w. P (files w)) m \<Longrightarrow> keeps (\<lambda>w. P (files w)) (fs_op m)"
  by (rule keeps_fs_op) (simp_all add: blind_def)

lemma keeps_makedirs: "keeps (\<lambda>w. P (files w)) (makedirs p)"
  unfolding makedirs_def
proof (rule keeps_for_each)
  fix c assume "c \<in> set (map (\<lambda>n. take n (comps_of p)) [1..<Suc (length (comps_of p))])"
  then have "c \<noteq> []" by auto
  then show "keeps (\<lambda>w. P (files w)) (makedirs_step (comps_of p) c)"
    unfolding makedirs_step_def
    by (intro on_files)
      (auto simp: keeps_def ret_def os_raise_def throw_def parent_error_None new_dir split: option.split node.split)
qed

lemma keeps_append_node:
  assumes "not_plain p" and "P fs"
  shows "P (append_node (comps_of p) s fs)"
  using assms old_file by (auto simp: append_node_def not_plain_def split: option.split node.split)

lemma keeps_write_file: "not_plain p \<Longrightarrow> keeps (\<lambda>w. P (files w)) (write_handle p s)"
  by (auto simp: keeps_def write_handle_def keeps_append_node split: list.split option.split)

lemma keeps_copy_start: "not_plain p \<Longrightarrow> keeps (\<lambda>w. P (files w)) (copy_start q p)"
  unfolding copy_start_def
  by (intro on_files)
    (auto simp: keeps_def ret_def os_raise_def throw_def Let_def parent_error_None not_plain_def new_file copied
      split: option.split node.split)

lemma keeps_chmod: "not_plain p \<Longrightarrow> keeps (\<lambda>w. P (files w)) (chmod p m)"
  unfolding chmod_def
  by (intro on_files)
    (auto simp: keeps_def ret_def os_raise_def throw_def not_plain_def old_file split: option.split node.split)

lemma keeps_removeItem: "not_plain p \<Longrightarrow> keeps (\<lambda>w. P (files w)) (removeItem p)"
  unfolding removeItem_def
  by (intro on_files)
    (auto simp: keeps_def ret_def os_raise_def throw_def not_plain_def removed split: option.split)

lemma keeps_atomic: "not_plain p \<Longrightarrow> keeps (\<lambda>w. P (files w)) (write_atomically p s)"
  unfolding write_atomically_def
  by (intro on_files)
    (auto simp: keeps_def ret_def os_raise_def throw_def not_plain_def parent_error_None new_file old_file
      split: option.split node.split)

lemma keeps_list: "keeps (\<lambda>w. P (files w)) (listdir p)"
  unfolding listdir_def
  by (intro on_files) (auto simp: keeps_def ret_def os_raise_def throw_def split: option.split node.split)

end

sublocale archive_store \<subseteq> archive_frame "\<lambda>w. P (files w)"
  by unfold_locales
    (simp_all add: keeps_list keeps_makedirs keeps_chmod keeps_removeItem keeps_atomic
      keeps_copy_start keeps_write_file copyItem_def keeps_bnd)

section \<open>What is left alone\<close>

text \<open>A plain path keeps its node; at most a directory appears where nothing was.\<close>

definition kept_plain :: "store \<Rightarrow> store \<Rightarrow> bool" where
  "kept_plain F fs \<longleftrightarrow>
     (\<forall>c. plain c \<longrightarrow> node_at fs c = node_at F c \<or> node_at F c = None \<and> node_at fs c = Some Dir)"

lemma below_plain: "inside c k \<Longrightarrow> c \<noteq> [] \<Longrightarrow> plain k \<Longrightarrow> plain c"
proof -
  assume "inside c k" "c \<noteq> []" "plain k"
  then have "c = take (length c) k" by (simp add: inside_def)
  then obtain r where "k = c @ r" by (metis append_take_drop_id)
  with \<open>plain k\<close> \<open>c \<noteq> []\<close> show "plain c" by (simp add: plain_def)
qed

lemma node_at_removed:
  "c \<noteq> [] \<Longrightarrow> node_at (delete_where (\<lambda>x. inside c (fst x)) fs) k = (if inside c k then None else node_at fs k)"
  by (induction fs) (auto simp: node_at_def delete_where_def inside_def)

text \<open>The nodes of a copied directory.\<close>

definition copies :: "comps \<Rightarrow> comps \<Rightarrow> store \<Rightarrow> store" where
  "copies c d fs =
     (d, Dir) # map (\<lambda>x. (d @ drop (length c) (fst x), snd x)) (filter (\<lambda>x. inside c (fst x) \<and> fst x \<noteq> c) fs)"

lemma copy_tree_copies: "copy_tree c d fs = fs @ copies c d fs"
  by (simp add: copy_tree_def copies_def)

lemma copies_below: "x \<in> set (copies c d fs) \<Longrightarrow> inside d (fst x)"
  by (auto simp: copies_def inside_def)

lemma node_at_append:
  "k \<noteq> [] \<Longrightarrow> node_at (fs @ gs) k = (case node_at fs k of None \<Rightarrow> node_at gs k | Some n \<Rightarrow> Some n)"
  by (simp add: node_at_def lookup_append split: option.split)

lemma node_at_none: "k \<noteq> [] \<Longrightarrow> (\<And>x. x \<in> set fs \<Longrightarrow> fst x \<noteq> k) \<Longrightarrow> node_at fs k = None"
  by (auto simp: node_at_def lookup_key_None has_key_iff)

lemma node_at_copied_other: "\<not> inside d k \<Longrightarrow> node_at (copy_tree c d fs) k = node_at fs k"
  using node_at_none [of k "copies c d fs"] copies_below
  by (cases "k = []") (fastforce simp: copy_tree_copies node_at_append split: option.split)+

interpretation plain_files: archive_store "kept_plain F" for F
proof
  fix fs c and n :: node and d :: comps
  assume P: "kept_plain F fs"
  show "c \<noteq> [] \<Longrightarrow> node_at fs c = None \<Longrightarrow> node_at fs (butlast c) = Some Dir \<Longrightarrow> kept_plain F (set_node c Dir fs)"
    using P by (force simp: kept_plain_def)
  show "c \<noteq> [] \<Longrightarrow> \<not> plain c \<Longrightarrow> node_at fs c = None \<Longrightarrow> node_at fs (butlast c) = Some Dir \<Longrightarrow>
      kept_plain F (set_node c (File s m) fs)" for s m
    using P by (auto simp: kept_plain_def)
  show "c \<noteq> [] \<Longrightarrow> \<not> plain c \<Longrightarrow> node_at fs c = Some (File s' m') \<Longrightarrow> kept_plain F (set_node c (File s m) fs)" for s m s' m'
    using P by (auto simp: kept_plain_def)
  show "c \<noteq> [] \<Longrightarrow> \<not> plain c \<Longrightarrow> kept_plain F (delete_where (\<lambda>x. inside c (fst x)) fs)"
    using P by (auto simp: kept_plain_def node_at_removed dest: below_plain)
  show "d \<noteq> [] \<Longrightarrow> \<not> plain d \<Longrightarrow> node_at fs d = None \<Longrightarrow> node_at fs (butlast d) = Some Dir \<Longrightarrow>
      node_at fs c = Some Dir \<Longrightarrow> kept_plain F (copy_tree c d fs)"
  proof -
    assume d: "d \<noteq> []" "\<not> plain d"
    have "node_at (copy_tree c d fs) k = node_at fs k" if "plain k" for k
      using that d below_plain node_at_copied_other by blast
    with P show ?thesis by (simp add: kept_plain_def)
  qed
qed

text \<open>The store stays a tree: one node per path, and every node in a directory.\<close>

definition store_wf :: "store \<Rightarrow> bool" where
  "store_wf fs \<longleftrightarrow> store_keyed fs \<and> (\<forall>c. c \<noteq> [] \<and> node_at fs c \<noteq> None \<longrightarrow> node_at fs (butlast c) = Some Dir)"

lemma store_wf_parent: "store_wf fs \<Longrightarrow> node_at fs c \<noteq> None \<Longrightarrow> c \<noteq> [] \<Longrightarrow> node_at fs (butlast c) = Some Dir"
  by (simp add: store_wf_def)

lemma store_wf_set:
  assumes "store_wf fs" and "c \<noteq> []" and "node_at fs (butlast c) = Some Dir" and "node_at fs c \<noteq> Some Dir \<or> n = Dir"
  shows "store_wf (set_node c n fs)"
proof -
  have ne: "butlast c \<noteq> c" using assms(2) by (metis append_butlast_last_id append_self_conv list.distinct(1))
  have "node_at (set_node c n fs) (butlast k) = Some Dir" if "k \<noteq> []" "node_at (set_node c n fs) k \<noteq> None" for k
  proof (cases "k = c")
    case True
    with assms(3) ne assms(2) show ?thesis by simp
  next
    case False
    with that assms(2) have "node_at fs (butlast k) = Some Dir" using assms(1) by (simp add: store_wf_def)
    with assms(2,4) show ?thesis by auto
  qed
  then show ?thesis using assms(1) by (simp add: store_wf_def)
qed

lemma store_wf_children:
  assumes "store_wf fs" and "node_at fs c \<noteq> Some Dir" and "inside c k" and "k \<noteq> c"
  shows "node_at fs k = None"
  using assms(3,4)
proof (induction "length k" arbitrary: k rule: less_induct)
  case less
  have "length c < length k"
  proof (rule ccontr)
    assume "\<not> length c < length k"
    with less.prems show False by (simp add: inside_def)
  qed
  then have k: "k \<noteq> []" "length c < length k" by auto
  then have b: "inside c (butlast k)" using less.prems(1) by (auto simp: inside_def take_butlast)
  have "node_at fs (butlast k) \<noteq> Some Dir"
  proof (cases "butlast k = c")
    case False
    with less.hyps [of "butlast k"] b k show ?thesis by simp
  qed (simp add: assms(2))
  then show ?case using assms(1) k by (auto simp: store_wf_def)
qed

lemma below_butlast: "inside c (butlast k) \<Longrightarrow> inside c k"
  by (cases k rule: rev_cases) (auto simp: inside_def, metis append_take_drop_id butlast_snoc le_cases take_all take_append length_take min.absorb2 diff_is_0_eq take0 append_Nil2)

lemma store_wf_removed:
  assumes "store_wf fs" and "c \<noteq> []"
  shows "store_wf (delete_where (\<lambda>x. inside c (fst x)) fs)"
proof -
  let ?fs = "delete_where (\<lambda>x. inside c (fst x)) fs"
  have "node_at ?fs (butlast k) = Some Dir" if "k \<noteq> []" "node_at ?fs k \<noteq> None" for k
    using that assms by (auto simp: node_at_removed store_wf_def split: if_splits dest: below_butlast)
  moreover have "store_keyed ?fs"
    using assms(1) by (simp add: store_wf_def store_keyed_def keyed_delete)
  ultimately show ?thesis by (simp add: store_wf_def)
qed

lemma store_wf_copied:
  assumes wf: "store_wf fs" and d: "d \<noteq> []" "node_at fs d = None" "node_at fs (butlast d) = Some Dir"
    and c: "node_at fs c = Some Dir"
  shows "store_wf (copy_tree c d fs)"
proof -
  have none: "node_at fs k = None" if "inside d k" for k
    using store_wf_children [OF wf, of d k] d that by (cases "k = d") auto
  have key: "distinct (map fst fs)" using wf by (simp add: store_wf_def store_keyed_def keyed_def)
  let ?F = "filter (\<lambda>x. inside c (fst x) \<and> fst x \<noteq> c) fs"
  have split: "fst x = c @ drop (length c) (fst x)" if "x \<in> set ?F" for x
    using that append_take_drop_id [of "length c" "fst x"] by (auto simp: inside_def)
  have "inj_on (\<lambda>x. d @ drop (length c) x) (fst ` set ?F)"
  proof (rule inj_onI)
    fix x y assume "x \<in> fst ` set ?F" "y \<in> fst ` set ?F" and e: "d @ drop (length c) x = d @ drop (length c) y"
    then have "x = c @ drop (length c) x" "y = c @ drop (length c) y" using split by blast+
    with e show "x = y" by (metis same_append_eq)
  qed
  moreover have "distinct (map fst ?F)" using key by (rule distinct_map_filter_key)
  ultimately have dist: "distinct (map (\<lambda>x. d @ drop (length c) x) (map fst ?F))"
    by (simp only: distinct_map set_map)
  have rest: "drop (length c) (fst x) \<noteq> []" if "x \<in> set ?F" for x
  proof
    assume e: "drop (length c) (fst x) = []"
    from split [OF that, unfolded e] that show False by simp
  qed
  have "d \<notin> set (map (\<lambda>x. d @ drop (length c) x) (map fst ?F))"
  proof
    assume "d \<in> set (map (\<lambda>x. d @ drop (length c) x) (map fst ?F))"
    then obtain x where "x \<in> set ?F" "d = d @ drop (length c) (fst x)" by (auto simp only: set_map image_iff)
    with rest [of x] show False by (metis append_self_conv)
  qed
  moreover have "map fst (copies c d fs) = d # map (\<lambda>x. d @ drop (length c) x) (map fst ?F)"
    by (simp add: copies_def comp_def)
  ultimately have "distinct (map fst (copies c d fs))"
    using dist by (simp only: distinct.simps simp_thms)
  moreover have "fst ` set fs \<inter> fst ` set (copies c d fs) = {}"
  proof (rule ccontr)
    assume "fst ` set fs \<inter> fst ` set (copies c d fs) \<noteq> {}"
    then obtain x y where xy: "x \<in> set fs" "y \<in> set (copies c d fs)" "fst x = fst y" by auto
    from copies_below [OF xy(2)] have "inside d (fst x)" by (simp add: xy(3))
    from none [OF this] have "fst x = [] \<or> \<not> has_key fst (fst x) fs"
      by (auto simp: node_at_def lookup_key_None split: if_splits)
    with xy(1) \<open>inside d (fst x)\<close> d(1) show False by (auto simp: has_key_iff inside_def)
  qed
  ultimately have k: "store_keyed (copy_tree c d fs)"
    using key by (simp add: store_keyed_def keyed_def copy_tree_copies)
  have new: "node_at (copy_tree c d fs) (fst x) = Some (snd x)" if "x \<in> set (copies c d fs)" for x
  proof -
    have "lookup_key fst (fst x) (copy_tree c d fs) = Some x"
      using k that by (intro lookup_key_unique) (simp_all add: store_keyed_def copy_tree_copies)
    moreover have "fst x \<noteq> []" using copies_below [OF that] d(1) by (auto simp: inside_def)
    ultimately show ?thesis by (simp add: node_at_def)
  qed
  have "node_at (copy_tree c d fs) (butlast k) = Some Dir" if "k \<noteq> []" "node_at (copy_tree c d fs) k \<noteq> None" for k
  proof (cases "node_at fs k")
    case (Some n)
    then have "node_at fs (butlast k) = Some Dir" using wf that(1) by (simp add: store_wf_def)
    then show ?thesis
      by (cases "butlast k = []") (simp_all add: copy_tree_copies node_at_append)
  next
    case None
    with that have "node_at (copies c d fs) k \<noteq> None" by (simp add: copy_tree_copies node_at_append)
    with that(1) obtain x where x: "x \<in> set (copies c d fs)" "fst x = k"
      by (metis node_at_none)
    show ?thesis
    proof (cases "k = d")
      case True
      with d show ?thesis by (cases "butlast d = []") (simp_all add: copy_tree_copies node_at_append)
    next
      case False
      with x obtain y where y: "y \<in> set ?F" "k = d @ drop (length c) (fst y)" by (auto simp: copies_def)
      define r where "r = drop (length c) (fst y)"
      from split [OF y(1)] y(1) have r: "r \<noteq> []" "fst y = c @ r" by (auto simp: r_def)
      have "node_at fs (fst y) \<noteq> None"
        using y(1) r by (auto simp: node_at_def lookup_key_None has_key_iff image_iff intro!: bexI [of _ y])
      then have b: "node_at fs (c @ butlast r) = Some Dir"
        using store_wf_parent [OF wf, of "c @ r"] r by (simp add: butlast_append)
      show ?thesis
      proof (cases "butlast r = []")
        case True
        with new [of "(d, Dir)"] y(2) r show ?thesis by (simp add: r_def [symmetric] butlast_append copies_def)
      next
        case False
        then obtain z where "z \<in> set fs" "fst z = c @ butlast r" "snd z = Dir"
          using b by (auto simp: node_at_def dest!: lookup_key_SomeD split: if_splits)
        then have "(d @ butlast r, Dir) \<in> set (copies c d fs)"
          using False by (force simp: copies_def inside_def)
        from new [OF this] y(2) r show ?thesis by (simp add: r_def [symmetric] butlast_append)
      qed
    qed
  qed
  with k show ?thesis by (simp add: store_wf_def)
qed

interpretation tree_files: archive_store store_wf
proof
  fix fs c and d :: comps and s s' :: string and m m' :: nat
  assume wf: "store_wf fs"
  show "c \<noteq> [] \<Longrightarrow> node_at fs c = None \<Longrightarrow> node_at fs (butlast c) = Some Dir \<Longrightarrow> store_wf (set_node c Dir fs)"
    and "c \<noteq> [] \<Longrightarrow> \<not> plain c \<Longrightarrow> node_at fs c = None \<Longrightarrow> node_at fs (butlast c) = Some Dir \<Longrightarrow>
      store_wf (set_node c (File s m) fs)"
    using wf by (simp_all add: store_wf_set)
  show "c \<noteq> [] \<Longrightarrow> \<not> plain c \<Longrightarrow> node_at fs c = Some (File s' m') \<Longrightarrow> store_wf (set_node c (File s m) fs)"
    using wf store_wf_parent [OF wf, of c] by (simp add: store_wf_set)
  show "c \<noteq> [] \<Longrightarrow> \<not> plain c \<Longrightarrow> store_wf (delete_where (\<lambda>x. inside c (fst x)) fs)"
    using wf by (simp add: store_wf_removed)
  show "d \<noteq> [] \<Longrightarrow> \<not> plain d \<Longrightarrow> node_at fs d = None \<Longrightarrow> node_at fs (butlast d) = Some Dir \<Longrightarrow>
      node_at fs c = Some Dir \<Longrightarrow> store_wf (copy_tree c d fs)"
    using wf by (simp add: store_wf_copied)
qed

section \<open>Invariants of the database, and of what is going to fail\<close>

text \<open>The visits and events, up to the directory of a file, in the open and in the committed state.\<close>

definition records :: "visit list \<times> event list \<times> event list \<Rightarrow> world \<Rightarrow> bool" where
  "records R w \<longleftrightarrow> recorded (db w) = R \<and> recorded (disk w) = R"

lemma keeps_fs_op_only:
  "(\<And>w x fl. I w \<Longrightarrow> fs_faults w = x # fl \<Longrightarrow> I (w\<lparr>fs_faults := fl\<rparr>)) \<Longrightarrow> keeps I f \<Longrightarrow> keeps I (fs_op f)"
  unfolding keeps_def fs_op_def by (fastforce split: list.split option.split)

lemma files_only:
  assumes fl: "\<And>w x fl. I w \<Longrightarrow> fs_faults w = x # fl \<Longrightarrow> I (w\<lparr>fs_faults := fl\<rparr>)"
    and fs: "\<And>w fs. I w \<Longrightarrow> I (w\<lparr>files := fs\<rparr>)"
  shows "keeps I (listdir p)" "keeps I (makedirs p)" "keeps I (chmod p m)" "keeps I (removeItem p)"
    "keeps I (copyItem q p)" "keeps I (write_atomically p s)"
proof -
  have mk: "keeps I (makedirs_step full c)" for full c
    unfolding makedirs_step_def
    by (rule keeps_fs_op_only, erule fl, assumption) (simp add: keeps_def os_raise_def throw_def ret_def fs split: option.split node.split)
  show "keeps I (makedirs p)" unfolding makedirs_def by (intro keeps_for_each mk)
  show "keeps I (chmod p m)" "keeps I (removeItem p)" "keeps I (write_atomically p s)"
    unfolding chmod_def removeItem_def write_atomically_def
    by (rule keeps_fs_op_only, erule fl, assumption, simp add: keeps_def os_raise_def throw_def ret_def fs split: option.split node.split)+
  have wr: "keeps I (write_handle p s)" for s
    unfolding keeps_def
  proof (intro allI impI)
    fix w :: world assume I: "I w"
    show "I (snd (write_handle p s w))"
    proof (cases "fs_faults w")
      case Nil
      then have e: "w\<lparr>fs_faults := [], files := f\<rparr> = w\<lparr>files := f\<rparr>" for f by (cases w) simp
      with fs [OF I, of "append_node (comps_of p) s (files w)"] Nil show ?thesis
        by (simp add: write_handle_def e)
    next
      case (Cons x fl)
      from fs [OF fl [OF I Cons]] Cons show ?thesis
        by (cases x) (simp_all add: write_handle_def split: prod.split)
    qed
  qed
  have "keeps I (copy_start q p)"
    unfolding copy_start_def
    by (rule keeps_fs_op_only, erule fl, assumption) (simp add: keeps_def os_raise_def throw_def ret_def fs Let_def split: option.split node.split)
  with wr show "keeps I (copyItem q p)" unfolding copyItem_def by (intro keeps_bnd)
  show "keeps I (listdir p)"
    unfolding listdir_def
    by (rule keeps_fs_op_only, erule fl, assumption) (auto simp: keeps_def os_raise_def throw_def ret_def split: option.split node.split)
qed

interpretation kept_records: archive_frame "records R" for R
  by unfold_locales (auto simp: records_def bookkeeping_def intro!: files_only)

interpretation no_file_faults: archive_frame "\<lambda>w. fs_faults w = []"
  by unfold_locales (auto intro!: files_only)

section \<open>The archive never throws\<close>

lemma raises_attempt [raises_rules]: "raises R (attempt m)"
  unfolding attempt_def by (rule raises_catch [where S = "\<lambda>_. True"]) (simp_all add: raises_ret, simp add: raises_def wp_def split: prod.split sum.split)

lemma archive_never_throws: "raises R (archive_for_tag cfg env filename)"
proof -
  have any: "raises (\<lambda>_. True) m" for m :: "unit io"
    by (simp add: raises_def wp_def split: prod.split sum.split)
  have "raises R (moveOne cfg env source name day)" for source name day
    unfolding moveOne_def by (rule raises_catch [OF any]) (simp add: tryRecord_def raises_attempt)
  then show ?thesis
    unfolding archive_for_tag_def Let_def tryRecord_def by (intro raises_rules)
qed

end
