(* ===== verification/NativeHostCorrect.thy ===== *)
theory NativeHostCorrect
  imports ArchiveCorrect RebuildProperties
begin

text \<open>
  What one run of the native host does: to the database, whatever fails, and to the log when the file
  system does not fail; and how the lines it appends read back in the rebuilder's replay.
\<close>

section \<open>The request as a function of the database\<close>

definition host_event :: "config \<Rightarrow> url \<Rightarrow> timestamp \<Rightarrow> filename \<Rightarrow> event" where
  "host_event cfg url ts filename = \<lparr>e_url = url, e_timestamp = ts, e_filename = lastPathComponent filename,
     e_directory = DOWNLOADS_SNAPSHOTS_DIR cfg\<rparr>"

definition db_tag :: "config \<Rightarrow> url \<Rightarrow> string \<Rightarrow> timestamp \<Rightarrow> filename \<Rightarrow> database \<Rightarrow> database" where
  "db_tag cfg url tag ts f d =
     (if tag = ''of_interest'' then snd (sql_set_of_interest url d)
      else (case tagTable tag of
              None \<Rightarrow> d
            | Some tg \<Rightarrow> if has_key v_url url (visits d) then db_event tg (host_event cfg url ts f) d else d))"

definition db_request :: "config \<Rightarrow> request \<Rightarrow> database \<Rightarrow> database" where
  "db_request cfg q d =
     (let d = snd (sql_insert_visit (q_url q) (q_timestamp q) (q_title q) d);
          d = (if q_tag q = [] then d else db_tag cfg (q_url q) (q_tag q) (q_timestamp q) (q_filename q) d)
      in if q_also q \<and> (q_tag q = ''read'' \<or> q_tag q = ''skimmed'') then snd (sql_set_of_interest (q_url q) d) else d)"

section \<open>Statements inside the transaction\<close>

text \<open>\<open>within m f\<close>: inside a transaction \<open>m\<close> computes \<open>f\<close> on the open state; the committed one stays.\<close>

definition aside :: "world \<Rightarrow> world \<Rightarrow> bool" where
  "aside w w' \<longleftrightarrow> in_tx w' \<and> disk w' = disk w \<and> files w' = files w \<and> fs_faults w' = fs_faults w \<and> today w' = today w"

definition within :: "'a io \<Rightarrow> (database \<Rightarrow> database) \<Rightarrow> bool" where
  "within m f \<longleftrightarrow> (\<forall>w. in_tx w \<longrightarrow> wp m (\<lambda>_ w'. aside w w' \<and> db w' = f (db w)) (\<lambda>_. aside w) w)"

lemma aside_trans: "aside w v \<Longrightarrow> aside v u \<Longrightarrow> aside w u"
  by (simp add: aside_def)

lemma aside_tx: "aside w v \<Longrightarrow> in_tx v"
  by (simp add: aside_def)

lemma withinD: "within m f \<Longrightarrow> in_tx w \<Longrightarrow> wp m (\<lambda>_ w'. aside w w' \<and> db w' = f (db w)) (\<lambda>_. aside w) w"
  by (simp add: within_def)

lemma wp_run_sql:
  assumes "\<And>dl. Q (fst (f (db w))) (w\<lparr>db_faults := dl, db := snd (f (db w)),
      disk := (if in_tx w then disk w else snd (f (db w)))\<rparr>)"
    and "\<And>e dl. is_sqlite_error e \<Longrightarrow> E e (w\<lparr>db_faults := dl\<rparr>)"
  shows "wp (run_sql ts f) Q E w"
  unfolding run_sql_def
  using assms by (intro wp_db_op; cases "have_tables ts (db w)"; cases "in_tx w") (simp_all add: wp_def)

lemma within_sql: "within (run_sql ts f) (\<lambda>d. snd (f d))"
  unfolding within_def by (intro allI impI wp_run_sql) (simp_all add: aside_def)

lemma within_ret: "within (ret x) (\<lambda>d. d)"
  by (simp add: within_def wp_ret aside_def)

lemma within_after:
  assumes "within n g" and "aside w v" and "db v = d"
  shows "wp n (\<lambda>_ w'. aside w w' \<and> db w' = g d) (\<lambda>_. aside w) v"
  by (rule wp_mono [OF withinD [OF assms(1) aside_tx [OF assms(2)]]])
    (use assms(2,3) in \<open>auto intro: aside_trans\<close>)

lemma within_thn:
  assumes "within m f" and "within n g"
  shows "within (thn m n) (\<lambda>d. g (f d))"
  unfolding within_def wp_thn
  by (intro allI impI, rule wp_mono [OF withinD [OF assms(1)]]) (auto intro: within_after [OF assms(2)])

lemma within_if: "(b \<Longrightarrow> within m f) \<Longrightarrow> (\<not> b \<Longrightarrow> within n g) \<Longrightarrow> within (if b then m else n) (if b then f else g)"
  by simp

lemma within_eq: "within m f \<Longrightarrow> (\<And>d. f d = g d) \<Longrightarrow> within m g"
  by (metis ext)

text \<open>A statement whose result decides what follows.\<close>

lemma within_bnd_sql:
  assumes "\<And>r. within (k r) (g r)"
  shows "within (bnd (run_sql ts f) k) (\<lambda>d. g (fst (f d)) (snd (f d)))"
  unfolding within_def wp_bnd
  by (intro allI impI wp_run_sql within_after [OF assms]) (simp_all add: aside_def)

lemma within_bnd_select:
  assumes "\<And>r. within (k r) (g r)"
  shows "within (bnd (select ts f) k) (\<lambda>d. g (f d) d)"
  unfolding within_def wp_bnd
  by (intro allI impI wp_select within_after [OF assms]) (simp_all add: aside_def)

lemma within_insertVisit: "within (insertVisit ts url title) (\<lambda>d. snd (sql_insert_visit url ts title d))"
  unfolding insertVisit_def by (rule within_sql)

lemma within_insertEvent:
  "within (insertEvent cfg tg url ts f)
     (\<lambda>d. if has_key v_url url (visits d) then db_event tg (host_event cfg url ts f) d else d)"
proof -
  let ?e = "host_event cfg url ts f"
  have bump: "within (thn (if (0::int) < n then run_sql [Visits] (sql_bump tg url) else ret ()) (ret True))
      (\<lambda>d. if 0 < n then snd (sql_bump tg url d) else d)" for n
    by (rule within_eq [OF within_thn [OF within_if [OF within_sql within_ret] within_ret]]) simp
  have ins: "within (bnd (run_sql [event_table tg] (sql_insert_event tg ?e))
      (\<lambda>inserted. thn (if 0 < inserted then run_sql [Visits] (sql_bump tg url) else ret ()) (ret True)))
      (db_event tg ?e)"
    by (rule within_eq [OF within_bnd_sql [OF bump]])
      (simp add: sql_insert_event_split db_event_def host_event_def)
  show ?thesis
    unfolding insertEvent_def
    by (rule within_eq [OF within_bnd_select [OF within_if [OF within_ret ins [unfolded host_event_def]]]])
      (simp add: host_event_def)
qed

lemma within_tagVisit: "within (tagVisit cfg url tag ts f) (db_tag cfg url tag ts f)"
proof (cases "tag = ''of_interest''")
  case True
  then show ?thesis
    unfolding tagVisit_def
    by (auto simp: db_tag_def intro!: within_eq [OF within_bnd_sql [OF within_ret]])
next
  case False
  show ?thesis
  proof (cases "tagTable tag")
    case None
    with False show ?thesis by (auto simp: tagVisit_def db_tag_def intro!: within_eq [OF within_ret])
  next
    case (Some tg)
    with False show ?thesis
      by (auto simp: tagVisit_def db_tag_def intro!: within_eq [OF within_insertEvent])
  qed
qed

lemma within_request: "within (visit_and_tags cfg q) (db_request cfg q)"
proof -
  let ?u = "q_url q"
  have i: "db_tag cfg ?u ''of_interest'' (q_timestamp q) [] d = snd (sql_set_of_interest ?u d)" for d
    by (simp add: db_tag_def)
  have also_i: "within (if q_also q \<and> (q_tag q = ''read'' \<or> q_tag q = ''skimmed'')
      then thn (tagVisit cfg ?u ''of_interest'' (q_timestamp q) []) (ret ()) else ret ())
    (\<lambda>d. if q_also q \<and> (q_tag q = ''read'' \<or> q_tag q = ''skimmed'') then snd (sql_set_of_interest ?u d) else d)"
    by (rule within_eq [OF within_if [OF within_thn [OF within_tagVisit within_ret] within_ret]]) (auto simp: i)
  show ?thesis
    unfolding visit_and_tags_def
    by (rule within_eq [OF within_thn [OF within_insertVisit
          within_if [OF within_thn [OF within_tagVisit also_i] within_ret]]])
      (auto simp: db_request_def Let_def)
qed

section \<open>What is committed\<close>

text \<open>
  \<open>write_database\<close> works on the committed state: when it returns, the visits and events of the request
  are committed, all of them; when it throws, none.
\<close>

definition elsewhere :: "world \<Rightarrow> world \<Rightarrow> bool" where
  "elsewhere w w' \<longleftrightarrow> files w' = files w \<and> fs_faults w' = fs_faults w \<and> today w' = today w"

lemma recorded_tables [simp]:
  "recorded (create_table t d) = recorded d" "recorded (create_events tg p d) = recorded d"
  by (cases tg; simp add: recorded_def create_table_def create_events_def)+

lemma recorded_snapshot [simp]: "recorded (snd (sql_insert_snapshot day d)) = recorded d"
  by (simp add: sql_insert_snapshot_def)

definition idle :: "world \<Rightarrow> visit list \<times> event list \<times> event list \<Rightarrow> world \<Rightarrow> bool" where
  "idle w R w' \<longleftrightarrow> \<not> in_tx w' \<and> records R w' \<and> elsewhere w w'"

lemma idle_ddl:
  assumes "\<And>d. recorded (f d) = recorded d" and "idle w R v"
  shows "wp (ddl f) (\<lambda>_. idle w R) (\<lambda>_. idle w R) v"
  unfolding ddl_def using assms
  by (intro wp_db_op) (auto simp: wp_def idle_def records_def elsewhere_def)

lemma idle_sql:
  assumes "\<And>d. recorded (snd (f d)) = recorded d" and "idle w R v"
  shows "wp (run_sql ts f) (\<lambda>_. idle w R) (\<lambda>_. idle w R) v"
  using assms by (intro wp_run_sql) (auto simp: idle_def records_def elsewhere_def)

lemma idle_tables:
  "idle w R v \<Longrightarrow> wp (ensureHostTables cfg) (\<lambda>_. idle w R) (\<lambda>_. idle w R) v"
  "idle w R v \<Longrightarrow> wp ensureMoverErrorsTable (\<lambda>_. idle w R) (\<lambda>_. idle w R) v"
  unfolding ensureHostTables_def ensureMoverErrorsTable_def wp_thn
  by (rule wp_mono [OF idle_ddl]; (simp; fail)?; assumption?
      | (rule idle_ddl; simp))+

text \<open>The content of the visits and events determines what a request does to it.\<close>

lemma recorded_congs:
  assumes "recorded d = recorded d'"
  shows "recorded (snd (sql_insert_visit u t ti d)) = recorded (snd (sql_insert_visit u t ti d'))"
    and "recorded (snd (sql_set_of_interest u d)) = recorded (snd (sql_set_of_interest u d'))"
    and "undirected e = undirected e' \<Longrightarrow> recorded (db_event tg e d) = recorded (db_event tg e' d')"
    and "has_key v_url u (visits d) = has_key v_url u (visits d')"
proof -
  show "recorded (snd (sql_insert_visit u t ti d)) = recorded (snd (sql_insert_visit u t ti d'))"
    "recorded (snd (sql_set_of_interest u d)) = recorded (snd (sql_set_of_interest u d'))"
    "has_key v_url u (visits d) = has_key v_url u (visits d')"
    using assms by (simp_all add: recorded_def sql_insert_visit_def sql_set_of_interest_def case_prod_beta)
  assume e: "undirected e = undirected e'"
  then have k: "event_key e = event_key e'" "e_url e = e_url e'"
    by (cases e; cases e'; simp add: undirected_def event_key_def)+
  have hk: "has_key event_key x es \<longleftrightarrow> x \<in> set (map event_key (map undirected es))" for x es
    by (auto simp: has_key_iff undirected_def event_key_def)
  have ev: "map undirected (events tg d) = map undirected (events tg d')"
    using assms by (cases tg) (simp_all add: recorded_def)
  have h: "has_key event_key x (events tg d) = has_key event_key x (events tg d')" for x
    unfolding hk ev ..
  show "recorded (db_event tg e d) = recorded (db_event tg e' d')"
    using assms e k h by (cases tg) (auto simp: db_event_def recorded_def sql_bump_def)
qed

lemma recorded_db_tag:
  assumes "recorded d = recorded d'" and "undirected (host_event cfg u ts f) = undirected (host_event cfg' u ts f)"
  shows "recorded (db_tag cfg u tag ts f d) = recorded (db_tag cfg' u tag ts f d')"
  using recorded_congs [OF assms(1)] assms by (auto simp: db_tag_def split: option.split)

lemma recorded_request: "recorded d = recorded d' \<Longrightarrow> recorded (db_request cfg q d) = recorded (db_request cfg q d')"
  by (auto simp: db_request_def Let_def intro!: recorded_congs recorded_db_tag)

lemma recorded_db_action: "recorded d = recorded d' \<Longrightarrow> recorded (db_action cfg a d) = recorded (db_action cfg' a d')"
  by (auto simp: db_action_def Let_def new_event_def undirected_def intro!: recorded_congs)

lemma record_in_transaction_wp:
  assumes "idle w R v" and "recorded d = R"
  shows "wp (record_in_transaction cfg q) (\<lambda>_. idle w (recorded (db_request cfg q d)))
     (\<lambda>_ w'. recorded (disk w') = R \<and> elsewhere w w') v"
proof -
  let ?E = "\<lambda>_ w'. recorded (disk w') = R \<and> elsewhere w w'"
  have bg: "wp begin_tx (\<lambda>_ w'. aside v w' \<and> db w' = db v) ?E v"
    unfolding begin_tx_def
    using assms(1) by (intro wp_db_op) (auto simp: wp_def aside_def idle_def records_def elsewhere_def)
  have body: "wp (catch (thn (visit_and_tags cfg q) commit) (\<lambda>e. thn (attempt rollback) (throw e)))
      (\<lambda>_. idle w (recorded (db_request cfg q d))) ?E u" if "aside v u" "db u = db v" for u
  proof -
    have fail: "wp (attempt rollback) (\<lambda>_. wp (throw e) Q ?E) ?E x" if "aside v x"
      for e x and Q :: "unit \<Rightarrow> world \<Rightarrow> bool"
      unfolding attempt_def wp_catch rollback_def wp_ret wp_throw
      using that assms(1) by (intro wp_db_op) (auto simp: wp_def aside_def idle_def records_def elsewhere_def)
    have "recorded (db_request cfg q (db v)) = recorded (db_request cfg q d)"
      using assms by (intro recorded_request) (simp add: idle_def records_def)
    note same = this
    have fin: "wp commit (\<lambda>_. idle w (recorded (db_request cfg q d))) (\<lambda>e. wp (attempt rollback)
        (\<lambda>_. wp (throw e :: unit io) (\<lambda>_. idle w (recorded (db_request cfg q d))) ?E) ?E) x" if "aside v x" "db x = db_request cfg q (db v)" for x
    proof (rule wp_commit)
      have "aside v (x\<lparr>db_faults := dl\<rparr>)" for dl using that by (simp add: aside_def)
      then show "wp (attempt rollback) (\<lambda>_. wp (throw e :: unit io) (\<lambda>_. idle w (recorded (db_request cfg q d))) ?E) ?E
          (x\<lparr>db_faults := dl\<rparr>)" for e dl
        by (rule fail)
    qed (use that assms(1) same in \<open>auto simp: idle_def records_def elsewhere_def aside_def\<close>)
    show ?thesis
      unfolding wp_catch wp_thn
      by (rule wp_mono [OF within_after [OF within_request that]]) (auto intro: fin fail)
  qed
  show ?thesis
    unfolding record_in_transaction_def wp_thn by (rule wp_mono [OF bg]) (auto intro: body)
qed

lemma keeps_total_wp: "keeps I m \<Longrightarrow> raises (\<lambda>_. False) m \<Longrightarrow> I w \<Longrightarrow> wp m (\<lambda>_. I) E w"
  by (rule wp_keeps_total)

lemma write_database_commits:
  "wp (write_database cfg env day q)
     (\<lambda>_ w'. records (recorded (db_request cfg q (disk w))) w' \<and> \<not> in_tx w')
     (\<lambda>_ w'. records (recorded (disk w)) w' \<and> \<not> in_tx w' \<and> elsewhere w w') w"
proof -
  let ?R = "recorded (disk w)" and ?R' = "recorded (db_request cfg q (disk w))"
  let ?E = "\<lambda>_ w'. recorded (disk w') = ?R \<and> elsewhere w w'"
  have idle_E: "idle w ?R v \<Longrightarrow> ?E e v" for v and e :: exn by (simp add: idle_def records_def)
  have c: "wp connect (\<lambda>_. idle w ?R) ?E w"
    by (rule wp_connect) (simp_all add: idle_def records_def elsewhere_def)
  have arch: "wp (if (q_tag q = ''read'' \<or> q_tag q = ''skimmed'') \<and> q_filename q \<noteq> []
      then archive_for_tag cfg env (q_filename q) else ret ()) (\<lambda>_ w'. records ?R' w') E v"
    if "idle w ?R' v" for v and E :: "exn \<Rightarrow> world \<Rightarrow> bool"
    using that keeps_total_wp [OF kept_records.keeps_archive archive_never_throws, of ?R' v]
    by (auto simp: wp_ret idle_def)
  have "wp (thn connect (thn (ensureHostTables cfg) (thn ensureMoverErrorsTable
      (thn (run_sql [Snapshots] (sql_insert_snapshot day)) (thn (record_in_transaction cfg q)
        (if (q_tag q = ''read'' \<or> q_tag q = ''skimmed'') \<and> q_filename q \<noteq> []
         then archive_for_tag cfg env (q_filename q) else ret ()))))))
      (\<lambda>_ w'. records ?R' w') ?E w"
    unfolding wp_thn
    by (rule wp_mono [OF c], rule wp_mono [OF idle_tables(1)], assumption,
        rule wp_mono [OF idle_tables(2)], assumption, rule wp_mono [OF idle_sql], simp, assumption,
        rule wp_mono [OF record_in_transaction_wp], assumption, simp, erule arch)
      (simp_all add: idle_E)
  then show ?thesis
    unfolding write_database_def wp_lastly
    by (rule wp_mono) (auto simp: records_def close_def elsewhere_def)
qed

section \<open>Appending to the log\<close>

definition log_node :: "config \<Rightarrow> string \<Rightarrow> comps" where
  "log_node cfg day = comps_of (LOG_DIR cfg) @ [log_filename_for day]"

lemma comps_logPath: "is_date day \<Longrightarrow> comps_of (logPath cfg day) = log_node cfg day"
  by (simp add: logPath_def comps_of_join log_node_def)

text \<open>The text of the log of a day, and the log with text at its end.\<close>

definition log_of :: "config \<Rightarrow> string \<Rightarrow> store \<Rightarrow> string" where
  "log_of cfg day fs = (case node_at fs (log_node cfg day) of Some (File s _) \<Rightarrow> s | _ \<Rightarrow> [])"

definition with_text :: "comps \<Rightarrow> string \<Rightarrow> store \<Rightarrow> store" where
  "with_text c s fs =
     set_node c (case node_at fs c of Some (File t m) \<Rightarrow> File (t @ s) m | _ \<Rightarrow> File s mode_644) fs"

text \<open>Nothing is in the way of writing the log of a day.\<close>

definition log_ready :: "config \<Rightarrow> string \<Rightarrow> store \<Rightarrow> bool" where
  "log_ready cfg day fs \<longleftrightarrow> store_wf fs \<and> node_at fs (comps_of (LOG_DIR cfg)) = Some Dir
     \<and> (case node_at fs (log_node cfg day) of None \<Rightarrow> True | Some Dir \<Rightarrow> False | Some (File _ m) \<Rightarrow> writable m)"

lemma store_wf_prefixes:
  assumes "store_wf fs" and "node_at fs c = Some Dir"
  shows "node_at fs (take n c) = Some Dir"
proof (induction "length c - n" arbitrary: n)
  case 0
  then show ?case using assms(2) by simp
next
  case (Suc k)
  then have n: "n < length c" by simp
  with Suc have "node_at fs (take (Suc n) c) = Some Dir" by simp
  moreover have "butlast (take (Suc n) c) = take n c" using n by (simp add: butlast_take)
  ultimately show ?case using store_wf_parent [OF assms(1), of "take (Suc n) c"] n by force
qed

lemma run_makedirs_there:
  assumes "fs_faults w = []" and "store_wf (files w)" and "node_at (files w) (comps_of p) = Some Dir"
  shows "makedirs p w = (Inr (), w)"
proof -
  have step: "makedirs_step (comps_of p) (take n (comps_of p)) w = (Inr (), w)" for n
    using assms store_wf_prefixes [OF assms(2,3), of n]
    by (simp add: makedirs_step_def fs_op_def ret_def)
  have "for_each (map (\<lambda>n. take n (comps_of p)) ns) (makedirs_step (comps_of p)) w = (Inr (), w)" for ns
    by (induction ns) (simp_all add: io_simps step)
  then show ?thesis by (simp add: makedirs_def)
qed

lemma set_node_twice: "set_node c n (set_node c m fs) = set_node c n fs"
proof (cases "has_key fst c fs")
  case True
  moreover have "has_key fst c (map (\<lambda>x. if fst x = c then (fst x, m) else x) fs) = has_key fst c fs"
    by (induction fs) auto
  ultimately show ?thesis by (auto simp: set_node_def upsert_def)
next
  case False
  then have "map (\<lambda>x. if fst x = c then (fst x, n) else x) fs = fs"
    by (intro map_idI_set) (auto simp: has_key_iff)
  with False show ?thesis by (simp add: set_node_def upsert_def has_key_append)
qed

lemma run_appendLine:
  assumes calm: "fs_faults w = []" and ready: "log_ready cfg day (files w)" and day: "is_date day"
  shows "appendLine cfg day line w = (Inr (), w\<lparr>files := with_text (log_node cfg day) (line @ [NL]) (files w)\<rparr>)"
proof -
  let ?c = "log_node cfg day"
  have ne: "?c \<noteq> []" by (simp add: log_node_def)
  have same: "w\<lparr>fs_faults := [], files := F\<rparr> = w\<lparr>files := F\<rparr>" for F using calm by (cases w) simp
  have mk: "makedirs (LOG_DIR cfg) w = (Inr (), w)"
    using calm ready by (intro run_makedirs_there) (simp_all add: log_ready_def)
  show ?thesis
  proof (cases "node_at (files w) ?c")
    case None
    have par: "parent_error ?c (files w) = None"
      using ready by (simp add: parent_error_None log_ready_def log_node_def)
    show ?thesis
      unfolding appendLine_def Let_def
      using calm None par mk ne
      by (simp add: io_simps exists_def comps_logPath [OF day] attempt_def open_write_def fs_op_def ret_def
          open_existing_def seek_to_end_def write_handle_def append_node_def with_text_def same set_node_twice)
  next
    case (Some n)
    with ready obtain t m where "n = File t m" "writable m"
      by (cases n) (auto simp: log_ready_def)
    then show ?thesis
      unfolding appendLine_def Let_def
      using calm Some ne
      by (simp add: io_simps exists_def comps_logPath [OF day] open_existing_def fs_op_def ret_def
          seek_to_end_def write_handle_def append_node_def with_text_def same)
  qed
qed

end
