(* ===== verification/HostReplay.thy ===== *)
theory HostReplay
  imports NativeHostCorrect
begin

text \<open>
  The lines the native host appends, read by the rebuilder: the action line is the action of the
  request, the result line its result, and together they are one applied record. Then the same for the
  log of a day and for all logs of a machine.
\<close>

section \<open>Sanitised fields\<close>

lemma tsvSanitise_no_tab [simp]: "TAB \<notin> set (tsvSanitise s)"
  by (induction s rule: tsvSanitise.induct) auto

lemma tsvSanitise_clean: "clean_field s \<Longrightarrow> tsvSanitise s = s"
  by (induction s rule: tsvSanitise.induct) (auto simp: clean_field_def)

lemma tsvSanitise_prefix:
  "clean_field p \<Longrightarrow> tsvSanitise (p @ s) = p @ tsvSanitise s"
  by (induction p) (auto simp: clean_field_def)

text \<open>The two sanitisers agree exactly where there is no CR LF.\<close>

lemma tsv_sanitise_Cons:
  "tsv_sanitise (c # s) = (if c = CR then [] else if c = TAB \<or> c = NL then '' '' else [c]) @ tsv_sanitise s"
  by (auto simp: tsv_sanitise_def str_simps)

fun has_crlf :: "string \<Rightarrow> bool" where
  "has_crlf [] = False"
| "has_crlf (c # s) = (c = CR \<and> s \<noteq> [] \<and> hd s = NL \<or> has_crlf s)"

lemma has_crlf_contains: "has_crlf s = contains s [CR, NL]"
proof (induction s)
  case Nil
  then show ?case by (simp add: contains_iff)
next
  case (Cons c s)
  have "contains (c # s) [CR, NL] \<longleftrightarrow> c = CR \<and> s \<noteq> [] \<and> hd s = NL \<or> contains s [CR, NL]"
    unfolding contains_iff
    by (auto simp: Cons_eq_append_conv neq_Nil_conv; metis append_Cons)
  with Cons show ?case by simp
qed

lemma tsvSanitise_crlf: "has_crlf s \<Longrightarrow> CR \<in> set (tsvSanitise s)"
  by (induction s rule: tsvSanitise.induct) auto

lemma tsvSanitise_python: "\<not> has_crlf s \<Longrightarrow> tsvSanitise s = tsv_sanitise s"
proof (induction s rule: tsvSanitise.induct)
  case 1
  then show ?case by (simp add: tsv_sanitise_def)
next
  case (2 c s)
  then show ?case by (cases s) (auto simp: tsv_sanitise_Cons)
qed

lemma sanitisers_agree: "tsvSanitise s = tsv_sanitise s \<longleftrightarrow> \<not> contains s [CR, NL]"
  unfolding has_crlf_contains [symmetric]
  using tsvSanitise_crlf tsvSanitise_python tsv_sanitise_no_cr by metis

section \<open>The two lines of a request\<close>

definition action_of :: "request \<Rightarrow> action" where
  "action_of q = \<lparr>a_timestamp = q_timestamp q, a_url = q_url q, a_title = q_title q, a_tag = q_tag q,
     a_filename = (if q_tag q = ''read'' \<or> q_tag q = ''skimmed'' then q_filename q else [])\<rparr>"

text \<open>
  A request the log can carry: no tab, line feed or carriage return in a field, a file name that does
  not end in a slash, and no request to set the page of interest on the side.
\<close>

definition loggable :: "request \<Rightarrow> bool" where
  "loggable q \<longleftrightarrow> clean_field (q_timestamp q) \<and> clean_field (q_url q) \<and> clean_field (q_title q)
     \<and> clean_field (q_filename q) \<and> (q_filename q = [] \<or> last (q_filename q) \<noteq> CHR ''/'')
     \<and> \<not> (q_also q \<and> (q_tag q = ''read'' \<or> q_tag q = ''skimmed''))"

lemma clean_valid: "tag = [] \<or> tag \<in> set validTags \<Longrightarrow> clean_field tag"
  by (auto simp: validTags_def clean_field_def)

lemma clean_uuid: "looks_like_uuid rid \<Longrightarrow> clean_field rid"
  using uuid_no_tab by (auto simp: clean_field_def)

lemma action_fields_loggable:
  assumes "looks_like_uuid rid" and "loggable q" and "q_tag q = [] \<or> q_tag q \<in> set validTags"
  shows "action_fields rid q = [rid, q_timestamp q, q_url q, q_title q]
     @ (if q_tag q = [] then [] else q_tag q # (if q_tag q = ''read'' \<or> q_tag q = ''skimmed'' then [q_filename q] else []))"
  using assms clean_uuid [OF assms(1)] clean_valid [OF assms(3)]
  by (simp add: action_fields_def loggable_def tsvSanitise_clean)

lemma action_fields_clean:
  assumes "looks_like_uuid rid" and "loggable q" and "q_tag q = [] \<or> q_tag q \<in> set validTags"
  shows "\<forall>f\<in>set (action_fields rid q). clean_field f"
  using assms clean_uuid [OF assms(1)] clean_valid [OF assms(3)]
  by (auto simp: action_fields_loggable loggable_def)

lemma classify_action:
  assumes "looks_like_uuid rid" and "loggable q" and "q_tag q = [] \<or> q_tag q \<in> set validTags"
  shows "classify (action_line rid q @ [NL]) = Action rid (action_of q)"
proof -
  let ?fs = "action_fields rid q"
  have c: "NL \<notin> set (action_line rid q)"
    using clean_join [OF action_fields_clean [OF assms]] by (simp add: action_line_def)
  have "\<forall>f\<in>set ?fs. TAB \<notin> set f" using action_fields_clean [OF assms] by (auto simp: clean_field_def)
  then have "split_on TAB (action_line rid q) = ?fs"
    unfolding action_line_def by (intro split_join) (simp_all add: action_fields_def)
  moreover have "action_line rid q \<noteq> []"
    using uuid_length [OF assms(1)] by (auto simp: action_line_def action_fields_loggable [OF assms])
  ultimately show ?thesis
    using assms(1) c
    by (simp add: classify_def rstrip_char_snoc action_fields_loggable [OF assms] parse_action_fields_def action_of_def)
qed

lemma action_line_no_CR:
  assumes "looks_like_uuid rid" and "loggable q" and "q_tag q = [] \<or> q_tag q \<in> set validTags"
  shows "CR \<notin> set (action_line rid q) \<and> NL \<notin> set (action_line rid q)"
  using clean_join [OF action_fields_clean [OF assms]] by (simp add: action_line_def)

text \<open>A line without a tab carries nothing: it is blank or malformed.\<close>

definition silent :: "string \<Rightarrow> bool" where
  "silent l \<longleftrightarrow> classify l = Blank \<or> classify l = Malformed"

lemma rstrip_subset: "set (rstrip_char c s) \<subseteq> set s"
  by (auto simp: rstrip_char_def dest: set_dropWhileD)

lemma silent_no_tab: "TAB \<notin> set l \<Longrightarrow> silent l"
proof -
  assume "TAB \<notin> set l"
  then have "split_on TAB (rstrip_char NL l) = [rstrip_char NL l]"
    using rstrip_subset [of NL l] by (intro split_on_no_sep) auto
  then show ?thesis by (simp add: silent_def classify_def parse_action_fields_def Let_def)
qed

lemma univ_nl_prefix: "CR \<notin> set p \<Longrightarrow> univ_nl (p @ s) = p @ univ_nl s"
  by (induction p) auto

lemma univ_nl_set: "set (univ_nl s) \<subseteq> insert NL (set s)"
proof (induction s rule: univ_nl.induct)
  case (2 x xs)
  show ?case
  proof (cases "x = CR")
    case True
    show ?thesis
    proof (cases xs)
      case (Cons y ys)
      then show ?thesis
        using 2(1) [OF True Cons] 2(2) [OF True Cons] True by (cases "y = NL") auto
    qed (simp add: True)
  next
    case False
    then show ?thesis using 2(3) by auto
  qed
qed simp

lemma univ_nl_nonempty: "s \<noteq> [] \<Longrightarrow> univ_nl s \<noteq> []"
  by (cases s) auto

lemma file_lines_nonempty: "s \<noteq> [] \<Longrightarrow> file_lines s \<noteq> []"
  by (cases s) (auto split: list.split)

lemma file_lines_set:
  assumes "l \<in> set (file_lines s)"
  shows "set l \<subseteq> set s"
proof -
  from assms have "set l \<subseteq> set (concat (file_lines s))" by auto
  then show ?thesis by (simp only: concat_file_lines)
qed

lemma file_lines_prefix:
  "NL \<notin> set p \<Longrightarrow> p \<noteq> [] \<Longrightarrow> file_lines (p @ s) = (case file_lines s of [] \<Rightarrow> [p] | l # ls \<Rightarrow> (p @ l) # ls)"
proof (induction p)
  case Nil
  then show ?case by simp
next
  case (Cons x p)
  then show ?case by (cases "p = []") (auto split: list.split)
qed

lemma file_lines_shape:
  "l \<in> set (file_lines s) \<Longrightarrow> \<exists>k. NL \<notin> set k \<and> (l = k @ [NL] \<or> l = k)"
proof (induction s arbitrary: l)
  case (Cons x s)
  show ?case
  proof (cases "x = NL")
    case True
    with Cons show ?thesis by (auto intro: exI [of _ "[]"])
  next
    case False
    from Cons.prems False consider "l = [x]" | k ls where "file_lines s = k # ls" "l = x # k" | "l \<in> set (file_lines s)"
      by (auto split: list.splits)
    then show ?thesis
    proof cases
      case 2
      with Cons.IH [of k] obtain j where "NL \<notin> set j" "k = j @ [NL] \<or> k = j" by auto
      with 2 False show ?thesis by (intro exI [of _ "x # j"]) auto
    qed (use Cons.IH False in auto)
  qed
qed simp

lemma rstrip_line: "NL \<notin> set k \<Longrightarrow> l = k @ [NL] \<or> l = k \<Longrightarrow> rstrip_char NL l = k"
  by (auto simp: rstrip_char_snoc rstrip_char_none)

lemma classify_result:
  assumes "looks_like_uuid rid" and "res = ''success'' \<or> startswith res ''error: ''" and "TAB \<notin> set res"
    and "NL \<notin> set res" and "l = (rid @ TAB # res) @ [NL] \<or> l = rid @ TAB # res"
  shows "classify l = Result rid (res = ''success'')"
proof -
  have n: "NL \<notin> set (rid @ TAB # res)" using uuid_no_tab [OF assms(1)] assms(4) by auto
  have "split_on TAB (rid @ TAB # res) = [rid, res]"
    using uuid_no_tab [OF assms(1)] assms(3) by (simp add: split_on_append_sep split_on_no_sep)
  then show ?thesis
    using assms(1,2) rstrip_line [OF n assms(5)] by (auto simp: classify_def is_result_payload_def)
qed

text \<open>The result line, read back: its first line says the result, what an odd error text adds is silent.\<close>

lemma result_line_reads:
  assumes "looks_like_uuid rid"
  shows "\<exists>r junk. file_lines (univ_nl (result_line rid (result_text errors) @ [NL])) = r # junk
     \<and> classify r = Result rid (errors = []) \<and> list_all silent junk"
proof (cases "errors = []")
  case True
  have "tsvSanitise rid = rid" by (simp add: tsvSanitise_clean clean_uuid assms)
  moreover have "tsvSanitise ''success'' = ''success''" by (simp add: tsvSanitise_clean clean_field_def)
  ultimately have e: "result_line rid (result_text errors) @ [NL] = (rid @ TAB # ''success'') @ [NL]"
    by (simp add: result_line_def result_text_def True)
  have "CR \<notin> set ((rid @ TAB # ''success'') @ [NL])" "NL \<notin> set (rid @ TAB # ''success'')"
    using uuid_no_tab [OF assms] by auto
  then have "file_lines (univ_nl ((rid @ TAB # ''success'') @ [NL])) = [(rid @ TAB # ''success'') @ [NL]]"
    using file_lines_append_NL [of "rid @ TAB # ''success''" "[]"] by (simp only: univ_nl_no_CR) simp
  then show ?thesis
    unfolding e using classify_result [OF assms, of "''success''"] by (simp add: True)
next
  case False
  define x where "x = tsvSanitise (join_with ''; '' errors) @ [NL]"
  let ?p = "rid @ TAB # ''error: ''"
  have "tsvSanitise rid = rid" by (simp add: tsvSanitise_clean clean_uuid assms)
  moreover have "tsvSanitise (''error: '' @ y) = ''error: '' @ tsvSanitise y" for y
    by (rule tsvSanitise_prefix) (simp add: clean_field_def)
  ultimately have e: "result_line rid (result_text errors) @ [NL] = ?p @ x"
    by (simp add: result_line_def result_text_def False x_def)
  have p: "CR \<notin> set ?p" "NL \<notin> set ?p" "?p \<noteq> []" using uuid_no_tab [OF assms] by auto
  have tab: "TAB \<notin> set (univ_nl x)" using univ_nl_set [of x] by (auto simp: x_def)
  have "univ_nl x \<noteq> []" by (rule univ_nl_nonempty) (simp add: x_def)
  then obtain l ls where lls: "file_lines (univ_nl x) = l # ls"
    using file_lines_nonempty by (meson neq_Nil_conv)
  then have sub: "\<forall>k\<in>set (l # ls). TAB \<notin> set k"
    using file_lines_set [of _ "univ_nl x"] tab by auto
  obtain k where k: "NL \<notin> set k" "l = k @ [NL] \<or> l = k"
    using file_lines_shape [of l "univ_nl x"] lls by auto
  have "classify (?p @ l) = Result rid False"
  proof -
    have "classify (?p @ l) = Result rid (''error: '' @ k = ''success'')"
    proof (rule classify_result [OF assms])
      show "''error: '' @ k = ''success'' \<or> startswith (''error: '' @ k) ''error: ''"
        by (rule disjI2) (rule startswith_append)
      show "TAB \<notin> set (''error: '' @ k)" "NL \<notin> set (''error: '' @ k)" using k sub by auto
      show "?p @ l = (rid @ TAB # ''error: '' @ k) @ [NL] \<or> ?p @ l = rid @ TAB # ''error: '' @ k"
        using k(2) by auto
    qed
    then show ?thesis by simp
  qed
  moreover have "file_lines (univ_nl (?p @ x)) = (?p @ l) # ls"
    unfolding univ_nl_prefix [OF p(1)] file_lines_prefix [OF p(2,3)] lls list.case ..
  moreover have "list_all silent ls" using sub silent_no_tab by (auto simp: list_all_iff)
  ultimately show ?thesis unfolding e using False by (intro exI [of _ "?p @ l"] exI [of _ ls] conjI) simp_all
qed

section \<open>A record, applied\<close>

lemma count_line_lists:
  "silent l \<Longrightarrow> \<exists>s'. count_line (p, s, as) (classify l) = (p, s', as)"
  by (auto simp: silent_def)

lemma count_silent: "list_all silent ls \<Longrightarrow> \<exists>s'. foldl count_line (p, s, as) (map classify ls) = (p, s', as)"
proof (induction ls arbitrary: s)
  case (Cons l ls)
  then obtain s' where "count_line (p, s, as) (classify l) = (p, s', as)" using count_line_lists by fastforce
  with Cons show ?case by simp
qed simp

lemma applied_record:
  assumes "classify a = Action rid act" and "classify r = Result rid ok" and "list_all silent junk"
  shows "applied (L @ a # r # junk) = applied L @ (if ok then [act] else [])"
proof -
  obtain p s as where c: "foldl count_line ([], no_replay, []) (map classify L) = (p, s, as)"
    by (cases "foldl count_line ([], no_replay, []) (map classify L)")
  let ?p = "upsert fst (\<lambda>_. (rid, act)) (rid, act) p"
  have up: "lookup_key fst rid ?p = Some (rid, act)"
  proof -
    have "?p = upsert fst (\<lambda>x. (fst x, act)) (rid, act) p" by (auto simp: upsert_def)
    then show ?thesis by (simp add: lookup_upsert split: option.split) (auto dest: lookup_key_SomeD)
  qed
  obtain s' where "count_line (count_line (p, s, as) (Action rid act)) (Result rid ok)
      = (delete_where (\<lambda>x. fst x = rid) ?p, s', as @ (if ok then [act] else []))"
    by (simp add: up)
  with count_silent [OF assms(3), of "delete_where (\<lambda>x. fst x = rid) ?p" s' "as @ (if ok then [act] else [])"]
  show ?thesis
    by (auto simp: applied_def count_lines_def c assms(1,2))
qed

end
