(* ===== verification/HostHistory.thy ===== *)
theory HostHistory
  imports HostReplay
begin

text \<open>
  The logs of a machine as the rebuilder sees them, run after run of the native host: each run appends
  its record at the end of what is replayed, so that the database the host wrote and the database a
  replay of the logs builds stay the same.
\<close>

section \<open>All logs, day by day\<close>

text \<open>The text of the log of a day, in \<open>LOG_DIR\<close> or in the day's directory of the archive.\<close>

definition log_place :: "path \<Rightarrow> path \<Rightarrow> string \<times> log_source \<Rightarrow> comps" where
  "log_place l i k =
     (case snd k of LogDir \<Rightarrow> comps_of l | ICloud \<Rightarrow> comps_of i @ [fst k]) @ [log_filename_for (fst k)]"

definition day_text :: "store \<Rightarrow> path \<Rightarrow> path \<Rightarrow> string \<times> log_source \<Rightarrow> string option" where
  "day_text F l i k = (case node_at F (log_place l i k) of Some (File s _) \<Rightarrow> Some s | _ \<Rightarrow> None)"

definition log_days :: "store \<Rightarrow> path \<Rightarrow> path \<Rightarrow> (string \<times> log_source) set" where
  "log_days F l i = {k. is_date (fst k) \<and> day_text F l i k \<noteq> None}"

definition day_lines :: "store \<Rightarrow> path \<Rightarrow> path \<Rightarrow> string \<times> log_source \<Rightarrow> string list" where
  "day_lines F l i k = file_lines (univ_nl (the (day_text F l i k)))"

text \<open>No log has a line feed at the end of its name, which the pattern of the source would let through.\<close>

definition no_odd_logs :: "store \<Rightarrow> path \<Rightarrow> path \<Rightarrow> bool" where
  "no_odd_logs F l i \<longleftrightarrow> (\<forall>d s m. is_date d \<longrightarrow>
     node_at F (comps_of l @ [log_filename_for d @ [NL]]) \<noteq> Some (File s m)
     \<and> node_at F (comps_of i @ [d, log_filename_for d @ [NL]]) \<noteq> Some (File s m))"

lemma proper_date: "is_date d \<Longrightarrow> proper_name d"
  using is_date_length [of d] is_date_no_slash [of d] by (auto simp: proper_name_def)

lemma file_in_join: "proper_name f \<Longrightarrow> file_in F (path_join p f) \<longleftrightarrow> (\<exists>s m. node_at F (comps_of p @ [f]) = Some (File s m))"
  by (auto simp: file_in_def comps_of_join split: option.split node.split)

lemma log_name_cases:
  assumes "LOG_FILENAME_RE f = Some d" and "file_in F (path_join p f)"
    and "\<And>s m. node_at F (comps_of p @ [log_filename_for d @ [NL]]) \<noteq> Some (File s m)"
  shows "f = log_filename_for d"
proof -
  have "f = log_filename_for d \<or> f = log_filename_for d @ [NL]" using assms(1) by (simp add: LOG_FILENAME_RE_Some)
  moreover have "proper_name f" using comps_log_entry [OF assms(1)] by simp
  ultimately show ?thesis using assms(2,3) by (auto simp: file_in_join)
qed

text \<open>What the rebuilder finds: one path per day and place.\<close>

definition log_path :: "path \<Rightarrow> path \<Rightarrow> string \<times> log_source \<Rightarrow> path" where
  "log_path l i k = path_join (case snd k of LogDir \<Rightarrow> l | ICloud \<Rightarrow> path_join i (fst k)) (log_filename_for (fst k))"

lemma comps_log_path: "is_date (fst k) \<Longrightarrow> comps_of (log_path l i k) = log_place l i k"
  by (cases "snd k") (simp_all add: log_path_def log_place_def comps_of_join proper_date)

lemma date_logs_iff:
  assumes "no_odd_logs F l i"
  shows "(d, s, p) \<in> set (date_logs F i e) \<longleftrightarrow>
     e = d \<and> s = ICloud \<and> is_date d \<and> dir_in F (path_join i d) \<and> day_text F l i (d, ICloud) \<noteq> None
     \<and> log_filename_for d \<in> set (children (comps_of (path_join i d)) F) \<and> p = log_path l i (d, ICloud)"
proof -
  have name: "f = log_filename_for d" if "is_date d" "LOG_FILENAME_RE f = Some d" "file_in F (path_join (path_join i d) f)" for f
    using log_name_cases [OF that(2,3)] assms that(1) by (auto simp: no_odd_logs_def comps_of_join proper_date)
  have there: "file_in F (path_join (path_join i d) (log_filename_for d)) \<longleftrightarrow> day_text F l i (d, ICloud) \<noteq> None" if "is_date d"
    using that by (auto simp: file_in_join day_text_def log_place_def comps_of_join proper_date split: option.split node.split)
  have date: "is_date d" if "LOG_FILENAME_RE f = Some d" for f using that by (simp add: LOG_FILENAME_RE_Some)
  show ?thesis
    using name there date by (auto simp: date_logs_def log_path_def)
qed

lemma found_days:
  assumes wf: "store_wf F" and odd: "no_odd_logs F l i"
  shows "set (found_logs F l i) = (\<lambda>k. (fst k, snd k, log_path l i k)) ` log_days F l i"
proof -
  have one: "(d, s, p) \<in> set (found_logs F l i) \<longleftrightarrow> is_date d \<and> day_text F l i (d, s) \<noteq> None \<and> p = log_path l i (d, s)"
    for d s p
  proof (cases s)
    case ICloud
    have up: "dir_in F (path_join i d)" "dir_in F i" "d \<in> set (children (comps_of i) F)"
        "log_filename_for d \<in> set (children (comps_of (path_join i d)) F)"
      if "is_date d" "day_text F l i (d, ICloud) \<noteq> None"
    proof -
      have j: "comps_of (path_join i d) = comps_of i @ [d]" using that(1) by (simp add: comps_of_join proper_date)
      from that have n: "node_at F (comps_of (path_join i d) @ [log_filename_for d]) \<noteq> None"
        by (auto simp: day_text_def log_place_def j split: option.splits)
      then show "log_filename_for d \<in> set (children (comps_of (path_join i d)) F)" by (simp add: set_children)
      from store_wf_parent [OF wf n] show dd: "dir_in F (path_join i d)" by (simp add: dir_in_def)
      with store_wf_parent [OF wf, of "comps_of i @ [d]"] show "dir_in F i" by (simp add: dir_in_def j)
      from dd show "d \<in> set (children (comps_of i) F)" by (simp add: set_children dir_in_def j)
    qed
    have "(d, s, p) \<in> set (found_logs F l i) \<longleftrightarrow> dir_in F i \<and> (\<exists>e\<in>set (children (comps_of i) F). (d, s, p) \<in> set (date_logs F i e))"
      using ICloud by (auto simp: found_logs_def map_filter_concat split: option.splits)
    then show ?thesis
      using up by (auto simp: date_logs_iff [OF odd] ICloud)
  next
    case LogDir
    have name: "f = log_filename_for d" if "LOG_FILENAME_RE f = Some d" "file_in F (path_join l f)" for f
      using log_name_cases [OF that] odd that(1) by (auto simp: no_odd_logs_def LOG_FILENAME_RE_Some)
    have there: "file_in F (path_join l (log_filename_for d)) \<longleftrightarrow> day_text F l i (d, LogDir) \<noteq> None"
      if "is_date d"
      using that by (auto simp: file_in_join day_text_def log_place_def split: option.split node.split)
    have up: "dir_in F l" "log_filename_for d \<in> set (children (comps_of l) F)"
      if "is_date d" "day_text F l i (d, LogDir) \<noteq> None"
    proof -
      from that have n: "node_at F (comps_of l @ [log_filename_for d]) \<noteq> None"
        by (auto simp: day_text_def log_place_def split: option.splits)
      then show "log_filename_for d \<in> set (children (comps_of l) F)" by (simp add: set_children)
      from store_wf_parent [OF wf n] show "dir_in F l" by (simp add: dir_in_def)
    qed
    have "(d, s, p) \<in> set (found_logs F l i) \<longleftrightarrow> dir_in F l \<and> (\<exists>f\<in>set (children (comps_of l) F).
        LOG_FILENAME_RE f = Some d \<and> file_in F (path_join l f) \<and> p = path_join l f)"
      using LogDir by (auto simp: found_logs_def map_filter_concat date_logs_def split: option.splits if_splits)
    moreover have "LOG_FILENAME_RE f = Some d \<and> file_in F (path_join l f) \<and> p = path_join l f \<longleftrightarrow>
        f = log_filename_for d \<and> is_date d \<and> day_text F l i (d, LogDir) \<noteq> None \<and> p = log_path l i (d, LogDir)" for f
    proof (cases "is_date d \<and> f = log_filename_for d")
      case True
      then show ?thesis using there by (simp add: log_path_def)
    next
      case False
      then show ?thesis using name [of f] LOG_FILENAME_RE_Some [of f d] by blast
    qed
    ultimately show ?thesis using up LogDir by blast
  qed
  show ?thesis
    using one by (fastforce simp: log_days_def image_iff)
qed

text \<open>The logs are replayed day by day, each once.\<close>

lemma distinct_concat_map:
  assumes "distinct xs" and "\<And>x. x \<in> set xs \<Longrightarrow> distinct (g x)" and "\<And>x y z. z \<in> set (g x) \<Longrightarrow> z \<in> set (g y) \<Longrightarrow> x = y"
  shows "distinct (concat (map g xs))"
  using assms(1,2)
proof (induction xs)
  case (Cons x xs)
  then have "set (g x) \<inter> set (concat (map g xs)) = {}" using assms(3) by auto
  with Cons show ?case by simp
qed simp

lemma distinct_if_append:
  "distinct xs \<Longrightarrow> distinct ys \<Longrightarrow> set xs \<inter> set ys = {} \<Longrightarrow> distinct ((if p then xs else []) @ (if q then ys else []))"
  by simp

lemma distinct_found:
  assumes wf: "store_wf F" and odd: "no_odd_logs F l i"
  shows "distinct (found_logs F l i)"
proof -
  have key: "store_keyed F" using wf by (simp add: store_wf_def)
  have one: "distinct (date_logs F i e)" for e
  proof -
    let ?fs = "filter (\<lambda>f. LOG_FILENAME_RE f = Some e \<and> file_in F (path_join (path_join i e) f))
        (children (comps_of (path_join i e)) F)"
    have "f = log_filename_for e" if "f \<in> set ?fs" for f
    proof (rule log_name_cases)
      show "LOG_FILENAME_RE f = Some e" "file_in F (path_join (path_join i e) f)" using that by auto
      then show "node_at F (comps_of (path_join i e) @ [log_filename_for e @ [NL]]) \<noteq> Some (File s m)" for s m
        using odd by (auto simp: no_odd_logs_def comps_of_join proper_date LOG_FILENAME_RE_Some)
    qed
    then have "inj_on g (set ?fs)" for g :: "string \<Rightarrow> string \<times> log_source \<times> path" unfolding inj_on_def by blast
    moreover have "distinct ?fs" using distinct_children [OF key] by (rule distinct_filter)
    ultimately have "distinct (map g ?fs)" for g :: "string \<Rightarrow> string \<times> log_source \<times> path"
      by (simp add: distinct_map)
    then show ?thesis by (simp add: date_logs_def)
  qed
  have same: "e = e'" if "z \<in> set (date_logs F i e)" "z \<in> set (date_logs F i e')" for z e e'
    by (rule prod_cases3 [of z]) (use that in \<open>simp add: date_logs_iff [OF odd]\<close>)
  let ?g = "\<lambda>f. case (case LOG_FILENAME_RE f of
            None \<Rightarrow> None
          | Some date \<Rightarrow> if file_in F (path_join l f) then Some (date, LogDir, path_join l f) else None) of
       None \<Rightarrow> [] | Some y \<Rightarrow> [y]"
  have g: "LOG_FILENAME_RE f = Some (fst z) \<and> file_in F (path_join l f) \<and> fst (snd z) = LogDir" if "z \<in> set (?g f)" for z f
    using that by (auto split: option.splits if_splits)
  have name: "f = log_filename_for (fst z)" if "z \<in> set (?g f)" for z f
    using g [OF that] log_name_cases [of f "fst z" F l] odd by (auto simp: no_odd_logs_def LOG_FILENAME_RE_Some)
  have other: "z \<notin> set (?g f)" if "z \<in> set (date_logs F i e)" for z e f
    by (rule prod_cases3 [of z]) (use that g [of z f] in \<open>auto simp: date_logs_iff [OF odd]\<close>)
  have "distinct (concat (map (date_logs F i) (children (comps_of i) F)))"
    using distinct_children [OF key] one same by (rule distinct_concat_map)
  moreover have "distinct (concat (map ?g (children (comps_of l) F)))"
  proof (rule distinct_concat_map)
    show "distinct (children (comps_of l) F)" by (rule distinct_children [OF key])
    show "distinct (?g f)" for f by (simp split: option.split)
    show "f = f'" if "z \<in> set (?g f)" "z \<in> set (?g f')" for z f f'
      using name [OF that(1)] name [OF that(2)] by simp
  qed
  moreover have "set (concat (map (date_logs F i) xs)) \<inter> set (concat (map ?g ys)) = {}" for xs ys
    using other unfolding set_concat set_map by blast
  ultimately show ?thesis
    unfolding found_logs_def map_filter_concat
    by (rule distinct_if_append)
qed

lemma log_lines_by_day:
  assumes wf: "store_wf F" and odd: "no_odd_logs F l i"
  shows "log_lines F l i = concat (map (day_lines F l i) (sorted_list_of_set (log_days F l i)))"
    and "finite (log_days F l i)"
proof -
  let ?X = "found_logs F l i"
  have mem: "x \<in> set ?X \<Longrightarrow> log_key x \<in> log_days F l i \<and> x = (fst (log_key x), snd (log_key x), log_path l i (log_key x))" for x
    unfolding found_days [OF assms] by (auto simp: log_key_def)
  have keys: "set (map log_key ?X) = log_days F l i"
    unfolding set_map found_days [OF assms] by (force simp: log_key_def)
  then show "finite (log_days F l i)" by (metis finite_set)
  have "inj_on log_key (set ?X)"
    using mem by (intro inj_onI) metis
  then have "distinct (map log_key (sort_key log_key ?X))"
    using distinct_found [OF assms] by (simp add: distinct_map)
  moreover have "sorted (map log_key (sort_key log_key ?X))" by simp
  moreover have "set (map log_key (sort_key log_key ?X)) = log_days F l i" using keys by simp
  ultimately have s: "map log_key (sort_key log_key ?X) = sorted_list_of_set (log_days F l i)"
    using sorted_list_of_set.idem_if_sorted_distinct by metis
  have line: "file_lines (text_in F (snd (snd x))) = day_lines F l i (log_key x)" if x: "x \<in> set ?X" for x
  proof -
    have p: "snd (snd x) = log_path l i (log_key x)" using mem [OF x] by (metis snd_conv)
    from mem [OF x] have k: "is_date (fst (log_key x))" "day_text F l i (log_key x) \<noteq> None" by (auto simp: log_days_def)
    then obtain t m where "node_at F (log_place l i (log_key x)) = Some (File t m)"
      by (auto simp: day_text_def split: option.splits node.splits)
    then show ?thesis by (simp add: p day_lines_def text_in_def comps_log_path [OF k(1)] day_text_def)
  qed
  have "log_lines F l i = concat (map (\<lambda>x. file_lines (text_in F (snd (snd x)))) (sort_key log_key ?X))"
    by (simp add: log_lines_def log_paths_def comp_def)
  also have "\<dots> = concat (map (day_lines F l i) (map log_key (sort_key log_key ?X)))"
    using line by (auto intro!: arg_cong [where f = concat])
  finally show "log_lines F l i = concat (map (day_lines F l i) (sorted_list_of_set (log_days F l i)))"
    by (simp only: s)
qed

section \<open>A line more\<close>

text \<open>A text of complete lines, and what reading does to lines appended to it.\<close>

definition whole_lines :: "string \<Rightarrow> bool" where
  "whole_lines s \<longleftrightarrow> s = [] \<or> last s = NL"

lemma whole_lines_tail: "whole_lines (x # xs) \<Longrightarrow> whole_lines xs"
  by (auto simp: whole_lines_def split: if_splits)

lemma whole_lines_NL: "whole_lines xs \<Longrightarrow> whole_lines (NL # xs)"
  by (auto simp: whole_lines_def)

lemma whole_lines_Cons: "whole_lines xs \<Longrightarrow> xs \<noteq> [] \<Longrightarrow> whole_lines (x # xs)"
  by (auto simp: whole_lines_def)

lemma univ_nl_append:
  "whole_lines s \<Longrightarrow> univ_nl (s @ t) = univ_nl s @ univ_nl t \<and> whole_lines (univ_nl s)"
proof (induction s rule: univ_nl.induct)
  case 1
  then show ?case by (simp add: whole_lines_def)
next
  case (2 x xs)
  note tail = whole_lines_tail [OF 2(4)]
  show ?case
  proof (cases "x = CR")
    case True
    show ?thesis
    proof (cases xs)
      case Nil
      with 2(4) True show ?thesis by (simp add: whole_lines_def)
    next
      case (Cons y ys)
      with tail have "whole_lines ys" by (auto intro: whole_lines_tail)
      with 2(1) [OF True Cons] 2(2) [OF True Cons] True Cons tail show ?thesis
        by (cases "y = NL") (simp_all add: whole_lines_NL)
    qed
  next
    case False
    show ?thesis
    proof (cases "xs = []")
      case True
      with 2(4) False show ?thesis by (simp add: whole_lines_def)
    next
      case nonempty: False
      then have "univ_nl xs \<noteq> []" by (rule univ_nl_nonempty)
      with 2(3) [OF False tail] False show ?thesis by (simp add: whole_lines_Cons)
    qed
  qed
qed

lemma lines_appended:
  assumes "whole_lines s"
  shows "file_lines (univ_nl (s @ t)) = file_lines (univ_nl s) @ file_lines (univ_nl t)"
  using univ_nl_append [OF assms, of t] file_lines_append [of "univ_nl s" "univ_nl t"] by (simp add: whole_lines_def)

text \<open>When the log of the latest day gets more text, the lines of that text are replayed last.\<close>

lemma sorted_list_insert_max:
  assumes "finite D" and "\<And>x. x \<in> D \<Longrightarrow> x \<le> k"
  shows "sorted_list_of_set (insert k D) = sorted_list_of_set (D - {k}) @ [k]"
  using assms by (simp add: sorted_list_of_set_insert_remove sorted_insort_is_snoc)

lemma log_lines_grow:
  assumes wf: "store_wf F" "store_wf G" and odd: "no_odd_logs F l i" "no_odd_logs G l i"
    and date: "is_date (fst k)" and top: "\<And>x. x \<in> log_days F l i \<Longrightarrow> x \<le> k"
    and whole: "whole_lines old" and old: "old = (case day_text F l i k of None \<Rightarrow> [] | Some s \<Rightarrow> s)"
    and day: "day_text G l i k = Some (old @ s)"
    and others: "\<And>x. is_date (fst x) \<Longrightarrow> x \<noteq> k \<Longrightarrow> day_text G l i x = day_text F l i x"
  shows "log_lines G l i = log_lines F l i @ file_lines (univ_nl s)"
proof -
  let ?D = "log_days F l i" and ?E = "log_days G l i"
  define xs where "xs = sorted_list_of_set (?D - {k})"
  have days: "?E = insert k ?D"
  proof (rule set_eqI)
    show "x \<in> ?E \<longleftrightarrow> x \<in> insert k ?D" for x
      using others [of x] date by (cases "x = k"; cases "is_date (fst x)") (simp_all add: log_days_def day)
  qed
  have fin: "finite ?D" by (rule log_lines_by_day(2) [OF wf(1) odd(1)])
  have E: "sorted_list_of_set ?E = xs @ [k]"
    unfolding days xs_def by (rule sorted_list_insert_max [OF fin top])
  have D: "sorted_list_of_set ?D = xs @ (if k \<in> ?D then [k] else [])"
    using sorted_list_insert_max [OF fin top] insert_absorb [of k ?D] by (cases "k \<in> ?D") (simp_all add: xs_def)
  have "day_lines G l i x = day_lines F l i x" if "x \<in> set xs" for x
    using that others [of x] fin by (auto simp: xs_def log_days_def day_lines_def)
  then have same: "map (day_lines G l i) xs = map (day_lines F l i) xs" by simp
  have "day_lines G l i k = (if k \<in> ?D then day_lines F l i k else []) @ file_lines (univ_nl s)"
    using lines_appended [OF whole, of s] date by (auto simp: day_lines_def day log_days_def old split: option.split)
  then show ?thesis
    unfolding log_lines_by_day(1) [OF wf(1) odd(1)] log_lines_by_day(1) [OF wf(2) odd(2)] D E by (simp add: same)
qed

section \<open>What a run leaves of the files\<close>

text \<open>
  The archive contract, for an invariant that does not look at the database: it survives
  \<open>write_database\<close>, whatever fails.
\<close>

locale host_frame = archive_frame I for I :: "world \<Rightarrow> bool" +
  assumes database_free: "I w \<Longrightarrow> I (w\<lparr>db := d, disk := d', in_tx := b\<rparr>)"
begin

lemma keeps_statement:
  assumes "\<And>w. \<exists>d d' b. snd (f w) = w\<lparr>db := d, disk := d', in_tx := b\<rparr>"
  shows "keeps I (db_op f)"
proof (rule on_db, unfold keeps_def, intro allI impI)
  fix w :: world assume "I w"
  with assms [of w] database_free show "I (snd (f w))" by auto
qed

lemma keeps_connection:
  "keeps I connect" "keeps I (ddl g)" "keeps I begin_tx" "keeps I rollback" "keeps I commit" "keeps I (run_sql ts h)"
proof -
  have e: "w\<lparr>db := d, disk := d'\<rparr> = w\<lparr>db := d, disk := d', in_tx := in_tx w\<rparr>"
    "w\<lparr>db := d, in_tx := b\<rparr> = w\<lparr>db := d, disk := disk w, in_tx := b\<rparr>"
    "w\<lparr>disk := d, in_tx := b\<rparr> = w\<lparr>db := db w, disk := d, in_tx := b\<rparr>"
    "w\<lparr>in_tx := b\<rparr> = w\<lparr>db := db w, disk := disk w, in_tx := b\<rparr>"
    "w = w\<lparr>db := db w, disk := disk w, in_tx := in_tx w\<rparr>" for w :: world and d d' b
    by (cases w; simp)+
  show "keeps I connect" "keeps I (ddl g)" "keeps I begin_tx" "keeps I rollback" "keeps I commit"
    unfolding connect_def ddl_def begin_tx_def rollback_def commit_def
    by (rule keeps_statement, simp only: snd_conv, (rule exI)+, rule e)+
  show "keeps I (run_sql ts h)"
    unfolding run_sql_def
  proof (rule keeps_statement)
    fix w :: world
    show "\<exists>d d' b. snd (if have_tables ts (db w)
        then (Inr (fst (h (db w))), w\<lparr>db := snd (h (db w)), disk := (if in_tx w then disk w else snd (h (db w)))\<rparr>)
        else (Inl (OperationalError ''no such table''), w)) = w\<lparr>db := d, disk := d', in_tx := b\<rparr>"
    proof (cases "have_tables ts (db w)")
      case True
      then show ?thesis by (simp only: if_True snd_conv) ((rule exI)+, rule e)
    next
      case False
      then show ?thesis by (simp only: if_False snd_conv) ((rule exI)+, rule e)
    qed
  qed
qed

lemma keeps_close: "I w \<Longrightarrow> I (close w)"
proof -
  have "close w = w\<lparr>db := disk w, disk := disk w, in_tx := False\<rparr>" by (cases w) (simp add: close_def)
  then show "I w \<Longrightarrow> I (close w)" by (simp only: database_free)
qed

lemma keeps_tag: "keeps I (tagVisit cfg url tag ts f)"
  unfolding tagVisit_def insertEvent_def by (intro keeps_rules query keeps_connection)

lemma keeps_request: "keeps I (visit_and_tags cfg q)"
  unfolding visit_and_tags_def insertVisit_def by (intro keeps_rules keeps_connection keeps_tag)

lemma keeps_host_tables: "keeps I (ensureHostTables cfg)" "keeps I ensureMoverErrorsTable"
  unfolding ensureHostTables_def ensureMoverErrorsTable_def by (intro keeps_rules keeps_connection)+

lemma keeps_write_database: "keeps I (write_database cfg env day q)"
  unfolding write_database_def record_in_transaction_def
  by (intro keeps_lastly keeps_rules keeps_connection keeps_host_tables keeps_request keeps_archive keeps_close)

lemma keeps_query: "keeps I (host_query cfg url)"
  unfolding host_query_def queryVisit_def fetchEvents_def
  by (intro keeps_lastly keeps_rules keeps_connection keeps_host_tables query keeps_close)

end

sublocale archive_store \<subseteq> host_frame "\<lambda>w. P (files w)"
  by unfold_locales simp

interpretation calm_day: host_frame "\<lambda>w. fs_faults w = [] \<and> today w = t" for t
  by unfold_locales (auto intro!: files_only)

end
