(* ===== verification/HostRun.thy ===== *)
theory HostRun
  imports HostHistory
begin

text \<open>
  One run of the native host, from the message to the log and the database, when the file system does
  not fail and the database may: the invariant of a history of such runs, that the replay of the logs
  gives the content of the database.
\<close>

section \<open>Which paths are safe from the archive\<close>

text \<open>
  The log directory and the archive are not reached through names of snapshots or manifests, and the
  log directory is not a day of the archive.
\<close>

definition apart :: "config \<Rightarrow> path \<Rightarrow> bool" where
  "apart cfg i \<longleftrightarrow>
     list_all (\<lambda>x. dateString x = None \<and> x \<noteq> MANIFEST_FILENAME) (comps_of (LOG_DIR cfg) @ comps_of i)
     \<and> (comps_of (LOG_DIR cfg) = [] \<or> \<not> is_date (last (comps_of (LOG_DIR cfg))))"

lemma dateString_long: "dateString s = Some d \<Longrightarrow> length s > 10"
  by (auto simp: dateString_def match_atoms_Some DATE_def TIME_def Let_def dest!: list_all2_lengthD split: option.splits if_splits)

lemma name_plain:
  "is_date d \<Longrightarrow> dateString d = None \<and> d \<noteq> MANIFEST_FILENAME"
  "dateString (log_filename_for d @ s) = None \<and> log_filename_for d @ s \<noteq> MANIFEST_FILENAME"
proof -
  have "d \<noteq> MANIFEST_FILENAME" if "is_date d"
    using is_date_length [OF that] by (auto simp: MANIFEST_FILENAME_def)
  moreover have "dateString d = None" if "is_date d"
    using is_date_length [OF that] dateString_long [of d] by (cases "dateString d") auto
  ultimately show "is_date d \<Longrightarrow> dateString d = None \<and> d \<noteq> MANIFEST_FILENAME" by blast
  have "dateString (log_filename_for d @ s) = None"
    using dateString_digit [of "log_filename_for d @ s"]
    by (cases "dateString (log_filename_for d @ s)") (auto simp: log_filename_for_def is_digit_def)
  then show "dateString (log_filename_for d @ s) = None \<and> log_filename_for d @ s \<noteq> MANIFEST_FILENAME"
    by (simp add: log_filename_for_def MANIFEST_FILENAME_def)
qed

lemma apart_plain:
  assumes "apart cfg i" and "is_date d"
  shows "plain (comps_of (LOG_DIR cfg) @ [log_filename_for d @ s])"
    and "plain (comps_of i @ [d, log_filename_for d @ s])"
  using assms name_plain(1) [of d] name_plain(2) [of d s] by (simp_all add: apart_def plain_def)

lemma plain_place: "apart cfg i \<Longrightarrow> is_date (fst k) \<Longrightarrow> plain (log_place (LOG_DIR cfg) i k)"
  using apart_plain [of cfg i "fst k" "[]"] by (cases "snd k") (simp_all add: log_place_def)

lemma kept_text:
  assumes "kept_plain F G" and "apart cfg i" and "is_date (fst k)"
  shows "day_text G (LOG_DIR cfg) i k = day_text F (LOG_DIR cfg) i k"
  using assms(1) plain_place [OF assms(2,3)] by (auto simp: kept_plain_def day_text_def split: option.split)

lemma kept_odd:
  assumes "kept_plain F G" and "apart cfg i" and "no_odd_logs F (LOG_DIR cfg) i"
  shows "no_odd_logs G (LOG_DIR cfg) i"
  using assms(1,3) apart_plain [OF assms(2), of _ "[NL]"] unfolding no_odd_logs_def kept_plain_def
  by (metis node.distinct(1) option.distinct(1) option.inject)

section \<open>Text in the log\<close>

lemma log_node_place: "log_node cfg d = log_place (LOG_DIR cfg) i (d, LogDir)"
  by (simp add: log_node_def log_place_def)

lemma log_place_inj:
  assumes "apart cfg i" and "is_date d" and "is_date (fst k)" and "log_place (LOG_DIR cfg) i k = log_node cfg d"
  shows "k = (d, LogDir)"
proof (cases k)
  case (Pair e s)
  show ?thesis
  proof (cases s)
    case ICloud
    with assms Pair have "comps_of (LOG_DIR cfg) = comps_of i @ [e]" by (auto simp: log_place_def log_node_def)
    then have "comps_of (LOG_DIR cfg) \<noteq> [] \<and> last (comps_of (LOG_DIR cfg)) = e" by simp
    with assms(1,3) Pair show ?thesis by (auto simp: apart_def)
  qed (use assms Pair in \<open>simp add: log_place_def log_node_def log_filename_for_def\<close>)
qed

lemma text_appended:
  assumes "apart cfg i" and "is_date d" and "is_date (fst k)" and "node_at F (log_node cfg d) \<noteq> Some Dir"
  shows "day_text (with_text (log_node cfg d) s F) (LOG_DIR cfg) i k =
     (if k = (d, LogDir) then Some (log_of cfg d F @ s) else day_text F (LOG_DIR cfg) i k)"
proof -
  have ne: "log_node cfg d \<noteq> []" by (simp add: log_node_def)
  show ?thesis
  proof (cases "k = (d, LogDir)")
    case True
    from assms(4) show ?thesis
      unfolding True day_text_def log_node_place [of cfg d i, symmetric] with_text_def log_of_def node_at_set_node [OF ne]
      by (simp split: option.split node.split)
  next
    case False
    then have "log_place (LOG_DIR cfg) i k \<noteq> log_node cfg d" using log_place_inj [OF assms(1,2,3)] by blast
    with False show ?thesis by (simp add: day_text_def with_text_def ne)
  qed
qed

lemma odd_appended:
  assumes "apart cfg i" and "is_date d" and "no_odd_logs F (LOG_DIR cfg) i"
  shows "no_odd_logs (with_text (log_node cfg d) s F) (LOG_DIR cfg) i"
proof -
  have ne: "log_node cfg d \<noteq> []" by (simp add: log_node_def)
  have "comps_of (LOG_DIR cfg) @ [log_filename_for e @ [NL]] \<noteq> log_node cfg d" for e
    by (auto simp: log_node_def log_filename_for_def dest: arg_cong [of _ _ last])
  moreover have "comps_of i @ [e, log_filename_for e @ [NL]] \<noteq> log_node cfg d" for e
    by (auto simp: log_node_def log_filename_for_def dest: arg_cong [of _ _ last])
  ultimately show ?thesis
    using assms(3) ne by (simp add: no_odd_logs_def with_text_def)
qed

section \<open>One run\<close>

definition valid_request :: "request \<Rightarrow> bool" where
  "valid_request q \<longleftrightarrow> q_url q \<noteq> [] \<and> q_timestamp q \<noteq> [] \<and> (q_tag q = [] \<or> q_tag q \<in> set validTags)"

lemma run_noting: "noting label m w = (case m w of (Inr _, w') \<Rightarrow> (Inr [], w') | (Inl e, w') \<Rightarrow> (Inr [label @ exn_str e], w'))"
  by (auto simp: noting_def io_simps split: prod.split sum.split)

lemma store_wf_text:
  assumes "log_ready cfg d F"
  shows "store_wf (with_text (log_node cfg d) s F)"
  using assms unfolding with_text_def log_ready_def
  by (intro store_wf_set) (auto simp: log_node_def split: option.split node.split)

lemma ready_after:
  assumes ready: "log_ready cfg d F" and G: "kept_plain (with_text (log_node cfg d) s F) G" "store_wf G"
    and apart: "apart cfg i" and date: "is_date d"
  shows "log_ready cfg d G"
proof -
  let ?c = "log_node cfg d" and ?F = "with_text (log_node cfg d) s F"
  have ne: "?c \<noteq> []" "?c \<noteq> comps_of (LOG_DIR cfg)" by (simp_all add: log_node_def)
  have "plain ?c" using apart_plain(1) [OF apart date, of "[]"] by (simp add: log_node_def)
  moreover obtain t m where "node_at ?F ?c = Some (File t m)" "writable m"
    using ready ne by (auto simp: log_ready_def with_text_def split: option.splits node.splits)
  ultimately have "node_at G ?c = Some (File t m)" "writable m"
    using G(1) by (auto simp: kept_plain_def)
  moreover have "node_at G (comps_of (LOG_DIR cfg)) = Some Dir"
  proof (cases "comps_of (LOG_DIR cfg) = []")
    case False
    with apart have "plain (comps_of (LOG_DIR cfg))" by (simp add: apart_def plain_def)
    moreover have "node_at ?F (comps_of (LOG_DIR cfg)) = Some Dir"
      using ready ne by (simp add: log_ready_def with_text_def)
    ultimately show ?thesis using G(1) by (auto simp: kept_plain_def)
  qed simp
  ultimately show ?thesis using G(2) by (simp add: log_ready_def)
qed

lemma host_write_run:
  assumes calm: "fs_faults w = []" and ready: "log_ready cfg (today w) (files w)" and date: "is_date (today w)"
    and apart: "apart cfg i" and q: "valid_request q"
  shows "\<exists>errors G. let w' = snd (host_write cfg env rid q w) in
     files w' = with_text (log_node cfg (today w)) (result_line rid (result_text errors) @ [NL]) G
     \<and> kept_plain (with_text (log_node cfg (today w)) (action_line rid q @ [NL]) (files w)) G \<and> log_ready cfg (today w) G
     \<and> records (if errors = [] then recorded (db_request cfg q (disk w)) else recorded (disk w)) w'
     \<and> fst (host_write cfg env rid q w) = Inr (if errors = [] then Written else Failed errors)"
proof -
  let ?c = "log_node cfg (today w)"
  let ?F = "with_text ?c (action_line rid q @ [NL]) (files w)"
  let ?w1 = "w\<lparr>files := ?F\<rparr>"
  have first: "noting ''log: '' (appendLine cfg (today w) (action_line rid q)) w = (Inr [], ?w1)"
    by (simp add: run_noting run_appendLine [OF calm ready date])
  obtain r w2 where run: "write_database cfg env (today w) q ?w1 = (r, w2)"
    by (cases "write_database cfg env (today w) q ?w1")
  have w2: "w2 = snd (write_database cfg env (today w) q ?w1)" by (simp add: run)
  have kept: "kept_plain ?F (files w2)" "store_wf (files w2)" "fs_faults w2 = []" "today w2 = today w"
    unfolding w2
    using plain_files.keeps_write_database [of ?F cfg env "today w" q]
      tree_files.keeps_write_database [of cfg env "today w" q] store_wf_text [OF ready]
      calm_day.keeps_write_database [of "today w" cfg env "today w" q] calm
    by (auto simp: keeps_def kept_plain_def)
  have again: "log_ready cfg (today w) (files w2)"
    by (rule ready_after [OF ready kept(1,2) apart date])
  define errors where "errors = (case r of Inr _ \<Rightarrow> [] | Inl e \<Rightarrow> [''db: '' @ exn_str e])"
  have stored: "noting ''db: '' (write_database cfg env (today w) q) ?w1 = (Inr errors, w2)"
    by (simp add: run_noting run errors_def split: sum.split)
  have rec: "records (if errors = [] then recorded (db_request cfg q (disk w)) else recorded (disk w)) w2"
    using write_database_commits [of cfg env "today w" q ?w1] run
    by (cases r) (auto simp: wp_def errors_def)
  have second: "attempt (appendLine cfg (today w) (result_line rid (result_text errors))) w2
      = (Inr (), w2\<lparr>files := with_text ?c (result_line rid (result_text errors) @ [NL]) (files w2)\<rparr>)"
    using run_appendLine [OF kept(3) again date] by (simp add: attempt_def io_simps)
  have "host_write cfg env rid q w = (Inr (if errors = [] then Written else Failed errors),
      w2\<lparr>files := with_text ?c (result_line rid (result_text errors) @ [NL]) (files w2)\<rparr>)"
    using q by (auto simp: host_write_def valid_request_def io_simps first stored second)
  then show ?thesis
    using kept again rec by (intro exI [of _ errors] exI [of _ "files w2"]) (simp add: records_def)
qed

section \<open>The request and the action of its line\<close>

lemma last_component: "f = [] \<or> last f \<noteq> CHR ''/'' \<Longrightarrow> lastPathComponent f = basename f"
  by (cases f rule: rev_cases) (auto simp: lastPathComponent_def rstrip_char_def Let_def basename_def)

lemma request_action:
  assumes "loggable q" and "valid_request q"
  shows "recorded (db_request cfg q d) = recorded (db_action cfg' (action_of q) d)"
proof -
  have u: "undirected (host_event cfg u t (q_filename q)) = undirected (new_event cfg' u t (q_filename q))" for u t
    using assms(1) last_component [of "q_filename q"]
    by (auto simp: loggable_def undirected_def host_event_def new_event_def)
  have same: "recorded (db_event tg (host_event cfg u t (q_filename q)) x) = recorded (db_event tg (new_event cfg' u t (q_filename q)) x)"
    for tg u t x by (rule recorded_congs(3) [OF refl u])
  have key: "has_key v_url (q_url q) (visits (snd (sql_insert_visit (q_url q) (q_timestamp q) (q_title q) d)))"
    by (simp add: sql_insert_visit_def has_key_insert_or_ignore)
  show ?thesis
    using assms key same
    by (auto simp: db_request_def db_action_def action_of_def loggable_def valid_request_def validTags_def db_tag_def tagTable_def Let_def)
qed

section \<open>What a history keeps\<close>

definition whole_logs :: "store \<Rightarrow> path \<Rightarrow> path \<Rightarrow> bool" where
  "whole_logs F l i \<longleftrightarrow> (\<forall>k s. is_date (fst k) \<and> day_text F l i k = Some s \<longrightarrow> whole_lines s)"

text \<open>The logs give, replayed into an empty database, what the database holds.\<close>

definition logs_match :: "config \<Rightarrow> path \<Rightarrow> world \<Rightarrow> bool" where
  "logs_match cfg i w \<longleftrightarrow> store_wf (files w) \<and> no_odd_logs (files w) (LOG_DIR cfg) i \<and> whole_logs (files w) (LOG_DIR cfg) i
     \<and> recorded (disk w) = recorded (apply_actions cfg (applied (log_lines (files w) (LOG_DIR cfg) i)) empty_database)"

lemma result_whole: "whole_lines (result_line rid res @ [NL])"
  by (simp add: whole_lines_def)

lemma record_lines:
  assumes "looks_like_uuid rid" and "loggable q" and "valid_request q"
  shows "applied (L @ file_lines (univ_nl ((action_line rid q @ [NL]) @ result_line rid (result_text errors) @ [NL])))
     = applied L @ (if errors = [] then [action_of q] else [])"
proof -
  have tag: "q_tag q = [] \<or> q_tag q \<in> set validTags" using assms(3) by (simp add: valid_request_def)
  have no: "CR \<notin> set (action_line rid q)" "NL \<notin> set (action_line rid q)"
    using action_line_no_CR [OF assms(1,2) tag] by blast+
  have whole: "whole_lines (action_line rid q @ [NL])" by (simp add: whole_lines_def)
  have "univ_nl (action_line rid q @ [NL]) = action_line rid q @ [NL]" using no by simp
  then have a: "file_lines (univ_nl (action_line rid q @ [NL])) = [action_line rid q @ [NL]]"
    using file_lines_append_NL [OF no(2), of "[]"] by simp
  obtain r junk where r: "file_lines (univ_nl (result_line rid (result_text errors) @ [NL])) = r # junk"
      "classify r = Result rid (errors = [])" "list_all silent junk"
    using result_line_reads [OF assms(1)] by blast
  show ?thesis
    unfolding lines_appended [OF whole] a r(1)
    using applied_record [OF classify_action [OF assms(1,2) tag] r(2,3)] by simp
qed

lemma write_in_step:
  assumes step: "logs_match cfg i w" and apart: "apart cfg i"
    and calm: "fs_faults w = []" and ready: "log_ready cfg (today w) (files w)" and date: "is_date (today w)"
    and latest: "\<And>k. k \<in> log_days (files w) (LOG_DIR cfg) i \<Longrightarrow> fst k \<le> today w"
    and rid: "looks_like_uuid rid" and q: "loggable q" "valid_request q"
  shows "logs_match cfg i (snd (host_write cfg env rid q w))"
proof -
  let ?l = "LOG_DIR cfg" and ?c = "log_node cfg (today w)" and ?a = "action_line rid q @ [NL]" and ?F = "files w"
  obtain errors G w' where w': "w' = snd (host_write cfg env rid q w)"
    and files: "files w' = with_text ?c (result_line rid (result_text errors) @ [NL]) G"
    and G: "kept_plain (with_text ?c ?a ?F) G" "log_ready cfg (today w) G"
    and rec: "records (if errors = [] then recorded (db_request cfg q (disk w)) else recorded (disk w)) w'"
    using host_write_run [OF calm ready date apart q(2), of env rid] by (auto simp: Let_def)
  let ?r = "result_line rid (result_text errors) @ [NL]"
  have no_dir: "node_at ?F ?c \<noteq> Some Dir" "node_at G ?c \<noteq> Some Dir"
    using ready G(2) by (auto simp: log_ready_def)
  have inv: "store_wf ?F" "no_odd_logs ?F ?l i" "whole_logs ?F ?l i" using step by (simp_all add: logs_match_def)
  have odd: "no_odd_logs (files w') ?l i"
    unfolding files using odd_appended [OF apart date] kept_odd [OF G(1) apart] inv(2) by blast
  have wf: "store_wf (files w')" unfolding files by (rule store_wf_text [OF G(2)])
  have textG: "day_text G ?l i k = (if k = (today w, LogDir) then Some (log_of cfg (today w) ?F @ ?a) else day_text ?F ?l i k)"
    if "is_date (fst k)" for k
    unfolding kept_text [OF G(1) apart that] by (rule text_appended [OF apart date that no_dir(1)])
  have ofG: "log_of cfg (today w) G = log_of cfg (today w) ?F @ ?a"
    using textG [of "(today w, LogDir)"] date
    by (simp add: day_text_def log_of_def log_node_place [symmetric] split: option.splits node.splits)
  have text': "day_text (files w') ?l i k =
      (if k = (today w, LogDir) then Some (log_of cfg (today w) ?F @ ?a @ ?r) else day_text ?F ?l i k)" if "is_date (fst k)" for k
    unfolding files text_appended [OF apart date that no_dir(2)] ofG using textG [OF that] by simp
  have old: "log_of cfg (today w) ?F = (case day_text ?F ?l i (today w, LogDir) of None \<Rightarrow> [] | Some s \<Rightarrow> s)"
    by (simp add: log_of_def day_text_def log_node_place [of cfg "today w" i] split: option.split node.split)
  have whole: "whole_lines (log_of cfg (today w) ?F)"
    unfolding old using inv(3) date by (auto simp: whole_logs_def whole_lines_def [of "[]"] split: option.split)
  have grown: "log_lines (files w') ?l i = log_lines ?F ?l i @ file_lines (univ_nl (?a @ ?r))"
  proof (rule log_lines_grow [OF inv(1) wf inv(2) odd, of "(today w, LogDir)", OF _ _ whole old])
    show "x \<le> (today w, LogDir)" if "x \<in> log_days ?F ?l i" for x
      using latest [OF that] by (cases x) (auto simp: less_eq_prod_def less_eq_log_source_def)
  qed (use text' date in simp_all)
  have "recorded (disk w') = recorded (apply_actions cfg (applied (log_lines (files w') ?l i)) empty_database)"
  proof (cases "errors = []")
    case True
    let ?d = "apply_actions cfg (applied (log_lines ?F ?l i)) empty_database"
    have "recorded (disk w') = recorded (db_action cfg (action_of q) (disk w))"
      using rec True request_action [OF q] by (simp add: records_def)
    also have "\<dots> = recorded (db_action cfg (action_of q) ?d)"
      using step by (intro recorded_db_action) (simp add: logs_match_def)
    finally show ?thesis
      unfolding grown record_lines [OF rid q] by (simp add: True apply_actions_def)
  next
    case False
    then show ?thesis
      unfolding grown record_lines [OF rid q] using rec step by (simp add: records_def logs_match_def)
  qed
  moreover have "whole_logs (files w') ?l i"
    unfolding whole_logs_def
  proof (intro allI impI, elim conjE)
    fix k s assume k: "is_date (fst k)" "day_text (files w') ?l i k = Some s"
    show "whole_lines s"
    proof (cases "k = (today w, LogDir)")
      case True
      with k text' [OF k(1)] show ?thesis by (auto simp: whole_lines_def)
    next
      case False
      with k text' [OF k(1)] have "day_text ?F ?l i k = Some s" by simp
      with k(1) inv(3) show ?thesis unfolding whole_logs_def by blast
    qed
  qed
  ultimately show ?thesis
    unfolding w' [symmetric] using wf odd by (simp add: logs_match_def)
qed

text \<open>A query, or a refused message, changes neither.\<close>

lemma query_quiet:
  "wp (host_query cfg url) (\<lambda>_ w'. recorded (disk w') = recorded (disk w) \<and> elsewhere w w')
     (\<lambda>_ w'. recorded (disk w') = recorded (disk w) \<and> elsewhere w w') w"
proof -
  let ?R = "recorded (disk w)" and ?P = "\<lambda>w'. recorded (disk w') = recorded (disk w) \<and> elsewhere w w'"
  have P: "idle w ?R v \<Longrightarrow> ?P v" for v by (simp add: idle_def records_def)
  have sel: "keeps (idle w ?R) (select ts f)" for ts and f :: "database \<Rightarrow> 'x"
    by (auto simp: keeps_wp idle_def records_def elsewhere_def intro!: wp_select)
  have c: "wp connect (\<lambda>_. idle w ?R) (\<lambda>_. ?P) w"
    by (rule wp_connect) (simp_all add: idle_def records_def elsewhere_def)
  have rows: "keeps (idle w ?R) (fetchEvents tg url)" for tg
    unfolding fetchEvents_def select_def [symmetric]
    by (auto simp: keeps_wp idle_def records_def elsewhere_def intro!: wp_select)
  have "keeps (idle w ?R) (queryVisit url)"
    unfolding queryVisit_def
    by (intro keeps_rules rows) (auto simp: keeps_wp idle_def records_def elsewhere_def intro!: wp_select)
  then have q: "wp (bnd (queryVisit url) (\<lambda>r. ret (Found r))) (\<lambda>_. ?P) (\<lambda>_. ?P) v" if "idle w ?R v" for v
    using that P unfolding wp_bnd wp_ret keeps_wp by (blast intro: wp_mono)
  have body: "wp (thn connect (thn (ensureHostTables cfg) (bnd (queryVisit url) (\<lambda>r. ret (Found r))))) (\<lambda>_. ?P) (\<lambda>_. ?P) w"
    unfolding wp_thn
    by (rule wp_mono [OF c], rule wp_mono [OF idle_tables(1)], assumption, erule q) (simp_all add: P)
  have close: "?P v \<Longrightarrow> ?P (close v)" for v by (simp add: close_def elsewhere_def)
  show ?thesis
    unfolding host_query_def
    by (cases "url = []")
      (auto simp: wp_ret elsewhere_def wp_lastly wp_catch close_def intro!: wp_mono [OF body])
qed

end
