(* ===== verification/RebuildReturns.thy ===== *)
theory RebuildReturns
  imports RebuildProperties
begin

text \<open>
  A rebuild returns when nothing fails: the judgement \<open>goes\<close> says that a run ends without exception and
  leaves the files, the calm and the tables, and \<open>yields\<close> supplies the values the next step depends on.
\<close>

definition easy :: "store \<Rightarrow> world \<Rightarrow> bool" where
  "easy F w \<longleftrightarrow> files w = F \<and> calm w \<and> have_tables REBUILDABLE_TABLES (db w)"

definition goes :: "store \<Rightarrow> 'a io \<Rightarrow> bool" where
  "goes F m \<longleftrightarrow> (\<forall>w. easy F w \<longrightarrow> wp m (\<lambda>_. easy F) (\<lambda>_ _. False) w)"

named_theorems goes_rules

lemma goesD: "goes F m \<Longrightarrow> easy F w \<Longrightarrow> wp m (\<lambda>_. easy F) (\<lambda>_ _. False) w"
  by (simp add: goes_def)

lemma goes_ret [goes_rules]: "goes F (ret a)"
  by (simp add: goes_def wp_ret)

lemma goes_bnd [goes_rules]: "goes F m \<Longrightarrow> (\<And>a. goes F (k a)) \<Longrightarrow> goes F (bnd m k)"
  unfolding goes_def wp_bnd by (blast intro: wp_mono)

lemma goes_thn [goes_rules]: "goes F m \<Longrightarrow> goes F n \<Longrightarrow> goes F (thn m n)"
  unfolding goes_def wp_thn by (blast intro: wp_mono)

lemma goes_if [goes_rules]: "(b \<Longrightarrow> goes F m) \<Longrightarrow> (\<not> b \<Longrightarrow> goes F n) \<Longrightarrow> goes F (if b then m else n)"
  by simp

lemma goes_option [goes_rules]:
  "(x = None \<Longrightarrow> goes F m) \<Longrightarrow> (\<And>y. x = Some y \<Longrightarrow> goes F (k y)) \<Longrightarrow> goes F (case x of None \<Rightarrow> m | Some y \<Rightarrow> k y)"
  by (cases x) auto

lemma goes_fold: "(\<And>s x. x \<in> set xs \<Longrightarrow> goes F (body s x)) \<Longrightarrow> goes F (fold_io body s xs)"
  by (induction xs arbitrary: s) (auto intro: goes_rules)

lemma goes_gets: "(\<And>w. files w = F \<Longrightarrow> goes F (k (g w))) \<Longrightarrow> goes F (bnd (gets g) k)"
  by (auto simp: goes_def easy_def wp_simps)

lemma goes_known:
  assumes "goes F m" and "yields F m (\<lambda>d. (x, d))" and "goes F (k x)"
  shows "goes F (bnd m k)"
  unfolding goes_def wp_bnd
proof (intro allI impI)
  fix w assume w: "easy F w"
  then have "wp m (\<lambda>r w'. r = x) (\<lambda>_ _. True) w"
    using assms(2) by (auto simp: yields_def easy_def elim: wp_mono)
  with goesD [OF assms(1) w] have "wp m (\<lambda>a w'. a = x \<and> easy F w') (\<lambda>_ _. False) w"
    by (auto simp: wp_def split: prod.splits sum.splits)
  then show "wp m (\<lambda>a. wp (k a) (\<lambda>_. easy F) (\<lambda>_ _. False)) (\<lambda>_ _. False) w"
    by (rule wp_mono) (auto intro: goesD [OF assms(3)])
qed

lemma goes_sql:
  assumes "set ts \<subseteq> set REBUILDABLE_TABLES" and "\<And>d. tables (snd (f d)) = tables d"
  shows "goes F (sql ts f)"
  using assms by (auto simp: goes_def easy_def wp_def io_simps have_tables_def list_all_iff subset_iff)

lemma goes_select: "set ts \<subseteq> set REBUILDABLE_TABLES \<Longrightarrow> goes F (select ts f)"
  by (auto simp: goes_def easy_def wp_def io_simps have_tables_def list_all_iff subset_iff)

lemma goes_commit [goes_rules]: "goes F commit"
  by (simp add: goes_def easy_def wp_def io_simps)

lemma goes_listdir: "dir_in F p \<Longrightarrow> goes F (listdir p)"
  by (auto simp: goes_def easy_def wp_def io_simps isdir_in)

lemma goes_schema [goes_rules]:
  "goes F (executescript (schema_sql p))"
  by (auto simp: goes_def easy_def wp_def io_simps have_tables_def REBUILDABLE_TABLES_def schema_sql_def
      create_table_def create_events_def)

section \<open>Replay and rehydration\<close>

lemma same_tables [simp]:
  "tables (snd (sql_insert_visit u t ti d)) = tables d" "tables (snd (sql_set_of_interest u d)) = tables d"
  "tables (snd (sql_insert_event tg e d)) = tables d" "tables (snd (sql_bump tg u d)) = tables d"
  "tables (snd (sql_insert_snapshot day d)) = tables d" "tables (snd (sql_upsert_snapshot day b d)) = tables d"
  "tables (snd (sql_relocate tg dir f dl d)) = tables d"
  by (cases tg; simp add: sql_insert_visit_def sql_set_of_interest_def sql_insert_event_def sql_bump_def
      sql_insert_snapshot_def sql_upsert_snapshot_def sql_relocate_def case_prod_beta)+

lemma goes_action: "goes F (apply_action cfg act s)"
  unfolding apply_action_def insert_visit_def tag_visit_def insert_event_def Let_def
  by (intro goes_rules goes_sql goes_select) (auto simp: REBUILDABLE_TABLES_def)

lemma goes_line: "goes F (replay_line cfg ps raw)"
  by (cases ps) (auto simp: replay_line_kind intro!: goes_rules goes_action split: line_kind.split option.split)

definition readable_files :: "store \<Rightarrow> bool" where
  "readable_files F \<longleftrightarrow> list_all (\<lambda>x. case snd x of Dir \<Rightarrow> True | File _ m \<Rightarrow> readable m) F"

lemma goes_file:
  assumes "readable_files F" and "file_in F p"
  shows "goes F (replay_one_file cfg p ps)"
proof -
  obtain t m where n: "node_at F (comps_of p) = Some (File t m)"
    using assms(2) by (auto simp: file_in_def split: option.splits node.splits)
  then have "readable m"
    using assms(1) by (auto simp: readable_files_def list_all_iff node_at_def dest!: lookup_key_SomeD split: if_splits)
  with n have "goes F (open_read p)" "goes F (read_handle p)"
    by (auto simp: goes_def easy_def wp_def open_read_def read_handle_def ret_def)
  then show ?thesis
    unfolding replay_one_file_def by (intro goes_rules goes_fold goes_line)
qed

lemma goes_collect: "goes F (collect_log_paths l i)"
proof -
  have a: "goes F (log_in_date_dir dd e found f)" for dd e found f
    unfolding log_in_date_dir_def by (intro goes_rules goes_gets)
  have b: "goes F (logs_of_date_entry i found e)" for found e
    unfolding logs_of_date_entry_def Let_def
    by (intro goes_rules goes_gets goes_fold a goes_listdir) (simp add: isdir_in)
  have c: "goes F (log_in_log_dir l found e)" for found e
    unfolding log_in_log_dir_def by (intro goes_rules goes_gets)
  show ?thesis
    unfolding collect_log_paths_def
    by (intro goes_rules goes_gets goes_fold b c goes_listdir) (simp_all add: isdir_in)
qed

lemma log_paths_files: "(d, p) \<in> set (log_paths F l i) \<Longrightarrow> file_in F p"
  by (auto simp: log_paths_def found_logs_def date_logs_def map_filter_concat split: if_splits option.splits)

lemma goes_replay:
  assumes "readable_files F"
  shows "goes F (replay_logs cfg l i)"
  unfolding replay_logs_def
  by (rule goes_known [OF goes_collect yields_collect])
    (auto intro!: goes_rules goes_fold goes_sql goes_file [OF assms] dest: log_paths_files
      simp: REBUILDABLE_TABLES_def)

lemma goes_rehydrate:
  assumes "host_importable cfg"
  shows "goes F (rehydrate_filesystem cfg i dl)"
proof -
  have f: "goes F (rehydrate_file dd dl lf st fn)" for dd lf st fn
    unfolding rehydrate_file_def Let_def by (intro goes_rules goes_sql) (auto simp: REBUILDABLE_TABLES_def)
  have d: "goes F (rehydrate_dir i dl st e)" for st e
    unfolding rehydrate_dir_def Let_def
    by (intro goes_rules goes_gets goes_fold f goes_listdir goes_sql) (auto simp: REBUILDABLE_TABLES_def isdir_in)
  show ?thesis
    unfolding rehydrate_filesystem_def ensure_snapshots_table_def
    by (intro goes_rules goes_gets goes_fold d goes_listdir) (simp_all add: isdir_in assms)
qed

lemma rebuild_returns:
  assumes "calm w" and "host_importable cfg" and "readable_files (files w)"
  shows "\<exists>st w'. rebuild cfg l i dl True dr True w = (Inr st, w')"
proof -
  let ?F = "files w"
  have drop: "wp truncate_rebuildable_tables (\<lambda>_ w'. calm w' \<and> files w' = ?F) (\<lambda>_ _. False) w"
    unfolding truncate_rebuildable_tables_def REBUILDABLE_TABLES_def
    using assms(1) by (simp add: wp_def io_simps)
  have ens: "wp (ensure_db cfg) (\<lambda>_. easy ?F) (\<lambda>_ _. False) v" if "calm v" "files v = ?F" for v
    unfolding ensure_db_def using that
    by (auto simp: easy_def wp_def io_simps have_tables_def REBUILDABLE_TABLES_def schema_sql_def
        create_table_def create_events_def)
  have rest: "goes ?F (thn (ensure_snapshots_table cfg)
      (bnd (bnd (replay_logs cfg l i) (\<lambda>s. ret (Some s))) (\<lambda>r.
       bnd (if dr then bnd (rehydrate_filesystem cfg i dl) (\<lambda>s. ret (Some s)) else ret None) (\<lambda>h.
       ret \<lparr>replay = r, rehydrate = h, truncated = True\<rparr>))))"
    unfolding ensure_snapshots_table_def using assms
    by (auto intro!: goes_rules goes_replay goes_rehydrate)
  have "wp (rebuild cfg l i dl True dr True) (\<lambda>_. easy ?F) (\<lambda>_ _. False) w"
    unfolding rebuild_def if_True wp_thn [of truncate_rebuildable_tables] wp_thn [of "ensure_db cfg"]
    by (rule wp_mono [OF drop], rule wp_mono [OF ens], simp, simp, erule goesD [OF rest]) simp_all
  then show ?thesis
    by (cases "rebuild cfg l i dl True dr True w"; cases "fst (rebuild cfg l i dl True dr True w)") (auto simp: wp_def)
qed

end
