(* ===== verification/ArchiveSafe.thy ===== *)
theory ArchiveSafe
  imports ArchiveCorrect
begin

text \<open>
  No snapshot is lost on its way from the Downloads directory to the archive, whatever fails: the source
  goes only when its text is in the archive, read-only.
\<close>

lemma keeps_node_makedirs: "keeps (\<lambda>w. node_at (files w) c = Some n) (makedirs p)"
  unfolding makedirs_def
proof (rule keeps_for_each)
  fix k assume "k \<in> set (map (\<lambda>n. take n (comps_of p)) [1..<Suc (length (comps_of p))])"
  then have k: "k \<noteq> []" by auto
  have b: "blind (\<lambda>w. node_at (files w) c = Some n)" by (simp add: blind_def)
  show "keeps (\<lambda>w. node_at (files w) c = Some n) (makedirs_step (comps_of p) k)"
    unfolding makedirs_step_def
    by (rule keeps_fs_op [OF b])
      (use k in \<open>auto simp: keeps_def ret_def os_raise_def throw_def split: option.split node.split\<close>)
qed

lemma keeps_node_removeItem:
  "c \<noteq> [] \<Longrightarrow> comps_of p \<noteq> [] \<Longrightarrow> \<not> inside (comps_of p) c \<Longrightarrow> keeps (\<lambda>w. node_at (files w) c = Some n) (removeItem p)"
  unfolding removeItem_def
  by (rule keeps_fs_op)
    (auto simp: blind_def keeps_def ret_def os_raise_def throw_def node_at_removed split: option.split)

lemma keeps_node_chmod:
  "comps_of p \<noteq> [] \<Longrightarrow> c \<noteq> comps_of p \<Longrightarrow> keeps (\<lambda>w. node_at (files w) c = Some n) (chmod p k)"
  unfolding chmod_def
  by (rule keeps_fs_op)
    (auto simp: blind_def keeps_def ret_def os_raise_def throw_def split: option.split node.split)

lemma keeps_node_atomic:
  "comps_of p \<noteq> [] \<Longrightarrow> c \<noteq> comps_of p \<Longrightarrow> keeps (\<lambda>w. node_at (files w) c = Some n) (write_atomically p s)"
  unfolding write_atomically_def
  by (rule keeps_fs_op)
    (auto simp: blind_def keeps_def ret_def os_raise_def throw_def split: option.split node.split)

interpretation node_stays: rows_frame "\<lambda>w. node_at (files w) c = Some n" for c n
  by unfold_locales (simp_all add: keeps_read_only blind_def)

lemma keeps_node_manifest:
  assumes "c \<noteq> []" and "comps_of (path_join dir MANIFEST_FILENAME) \<noteq> []"
    and "\<not> inside (comps_of (path_join dir MANIFEST_FILENAME)) c"
  shows "keeps (\<lambda>w. node_at (files w) c = Some n) (rewriteManifestForStraggler cfg posix dir)"
proof -
  have "c \<noteq> comps_of (path_join dir MANIFEST_FILENAME)" using assms(3) by (auto simp: inside_def)
  then show ?thesis
    unfolding rewriteManifestForStraggler_def writeManifestFile_def Let_def
    by (intro keeps_rules keeps_node_chmod keeps_node_removeItem keeps_node_atomic node_stays.keeps_build
        node_stays.keeps_tryClear node_stays.keeps_tryRecord assms)
qed

section \<open>The copy\<close>

definition holds_node :: "comps \<Rightarrow> string \<Rightarrow> nat \<Rightarrow> world \<Rightarrow> bool" where
  "holds_node c s m w \<longleftrightarrow> node_at (files w) c = Some (File s m)"

lemma wp_copyItem:
  assumes src: "holds_node cs s m w" "cs = comps_of source" and dst: "cd = comps_of dest" "cd \<noteq> []" "cd \<noteq> cs"
  shows "wp (copyItem source dest) (\<lambda>_ w'. holds_node cs s m w' \<and> holds_node cd s m w') (\<lambda>_. holds_node cs s m) w"
proof -
  have start: "wp (copy_start source dest) (\<lambda>t w'. t = s \<and> holds_node cs s m w' \<and> holds_node cd [] m w')
      (\<lambda>_. holds_node cs s m) w"
    unfolding copy_start_def
    using src dst by (intro wp_fs_op)
      (auto simp: wp_def Let_def ret_def os_raise_def throw_def holds_node_def split: option.split)
  have wr: "wp (write_handle dest s) (\<lambda>_ w'. holds_node cs s m w' \<and> holds_node cd s m w') (\<lambda>_. holds_node cs s m) v"
    if "holds_node cs s m v" "holds_node cd [] m v" for v
    using that src dst by (intro wp_write_handle) (auto simp: holds_node_def append_node_def)
  show ?thesis
    unfolding copyItem_def wp_bnd by (rule wp_mono [OF start]) (auto intro: wr)
qed

section \<open>The move\<close>

definition archived_or_there :: "comps \<Rightarrow> comps \<Rightarrow> string \<Rightarrow> nat \<Rightarrow> world \<Rightarrow> bool" where
  "archived_or_there cs cd s m w \<longleftrightarrow> holds_node cs s m w \<or> holds_node cd s mode_444 w"

lemma archiveSnapshotsDir_reads: "archiveSnapshotsDir env w = (fst (archiveSnapshotsDir env w), w)"
  by (simp add: archiveSnapshotsDir_def Let_def io_simps ret_def throw_def bnd_def gets_def split: option.split)

lemma keeps_finish_archived:
  assumes dst: "cd \<noteq> []" and source: "comps_of source \<noteq> []" "\<not> inside (comps_of source) cd"
    and man: "comps_of (path_join dir MANIFEST_FILENAME) \<noteq> []" "\<not> inside (comps_of (path_join dir MANIFEST_FILENAME)) cd"
  shows "keeps (holds_node cd s m) (finish_move cfg env source dir d)"
  unfolding holds_node_def finish_move_def
  by (intro keeps_rules node_stays.run node_stays.query node_stays.keeps_tryClear keeps_node_manifest
      keeps_node_removeItem bookkeeping_snapshot assms)

lemma keeps_disj: "keeps I m \<Longrightarrow> keeps J m \<Longrightarrow> keeps (\<lambda>w. I w \<or> J w) m"
  by (auto simp: keeps_def)

lemma wp_here: "m w = (Inr a, w) \<Longrightarrow> Q a w \<Longrightarrow> wp m Q E w"
  by (simp add: wp_def)

lemma wp_moveOne:
  assumes src: "holds_node cs s m w" "cs = comps_of source" "cs \<noteq> []"
    and root: "fst (archiveSnapshotsDir env w) = Inr root"
    and dst: "cd = comps_of (path_join (path_join root d) name)"
    and apart: "\<not> inside cd cs" "\<not> inside cs cd"
    and names: "proper_name name" "name \<noteq> MANIFEST_FILENAME"
  shows "archived_or_there cs cd s m (snd (moveOne cfg env source name d w))"
proof -
  let ?A = "archived_or_there cs cd s m" and ?dir = "path_join root d"
  have cd: "cd = comps_of ?dir @ [name]" "cd \<noteq> []" "cd \<noteq> cs"
    using dst names(1) apart by (auto simp: comps_of_join inside_def)
  have man: "comps_of (path_join ?dir MANIFEST_FILENAME) \<noteq> []" "\<not> inside (comps_of (path_join ?dir MANIFEST_FILENAME)) cd"
    using names cd(1) proper_manifest by (simp_all add: comps_of_join inside_def)
  have A: "holds_node cs s m v \<Longrightarrow> ?A v" "holds_node cd s mode_444 v \<Longrightarrow> ?A v" for v
    by (simp_all add: archived_or_there_def)
  have there: "keeps (holds_node cs s m) (makedirs ?dir)" "keeps (holds_node cs s m) (make_way (path_join ?dir name))"
    unfolding holds_node_def make_way_def
    using src apart cd by (intro keeps_rules keeps_node_makedirs keeps_node_chmod keeps_node_removeItem; simp add: dst)+
  have final: "wp (thn (relocate_rows cfg ?dir name) (finish_move cfg env source ?dir d)) (\<lambda>_. ?A) (\<lambda>_. ?A) v"
    if "holds_node cd s mode_444 v" for v
  proof (rule wp_keeps)
    show "keeps (holds_node cd s mode_444) (thn (relocate_rows cfg ?dir name) (finish_move cfg env source ?dir d))"
      using src(2,3) cd(2) apart(2) man
      by (intro keeps_thn keeps_finish_archived) (simp_all add: holds_node_def [abs_def] node_stays.keeps_relocate_rows)
  qed (use that in \<open>simp_all add: A\<close>)
  have mode: "wp (chmod (path_join ?dir name) mode_444) (\<lambda>_. holds_node cd s mode_444) (\<lambda>_. ?A) v"
    if "holds_node cs s m v" "holds_node cd s m v" for v
    using that cd by (intro wp_chmod) (auto simp: holds_node_def dst isdir_def archived_or_there_def)
  have body: "wp (thn (makedirs ?dir) (thn (make_way (path_join ?dir name)) (thn (copyItem source (path_join ?dir name))
      (thn (chmod (path_join ?dir name) mode_444) (thn (relocate_rows cfg ?dir name) (finish_move cfg env source ?dir d))))))
      (\<lambda>_. ?A) (\<lambda>_. ?A) w"
    unfolding wp_thn [of "makedirs _"] wp_thn [of "make_way _"] wp_thn [of "copyItem _ _"] wp_thn [of "chmod _ _"]
    by (rule wp_keeps [OF there(1) src(1)], rule wp_keeps [OF there(2)], assumption,
        rule wp_mono [OF wp_copyItem [where source = source, OF _ src(2) dst cd(2,3)]], assumption,
        rule wp_mono [OF mode], simp, simp, erule final) (simp_all add: A)
  have noted: "wp (tryRecord (posix_error env) ''move'' source e) (\<lambda>_. ?A) (\<lambda>_. ?A) v" if "?A v" for e v
  proof -
    have "keeps ?A (tryRecord (posix_error env) ''move'' source e)"
      unfolding archived_or_there_def [abs_def] holds_node_def
      by (intro keeps_disj node_stays.keeps_tryRecord)
    with that show ?thesis by (simp add: keeps_wp)
  qed
  have "wp (moveOne cfg env source name d) (\<lambda>_. ?A) (\<lambda>_. ?A) w"
    unfolding moveOne_def wp_catch wp_bnd Let_def
  proof (rule wp_here)
    show "archiveSnapshotsDir env w = (Inr root, w)" using archiveSnapshotsDir_reads [of env w] by (simp only: root)
    show "wp (thn (makedirs ?dir) (thn (make_way (path_join ?dir name)) (thn (copyItem source (path_join ?dir name))
      (thn (chmod (path_join ?dir name) mode_444) (thn (relocate_rows cfg ?dir name) (finish_move cfg env source ?dir d))))))
      (\<lambda>_. ?A) (\<lambda>e. wp (tryRecord (posix_error env) ''move'' source e) (\<lambda>_. ?A) (\<lambda>_. ?A)) w"
      by (rule wp_mono [OF body]) (simp_all add: noted)
  qed
  then show ?thesis by (auto simp: wp_def split: prod.splits sum.splits)
qed

lemma archive_root_none:
  assumes "fst (archiveSnapshotsDir env w) = Inl e" and "holds_node cs s m w"
  shows "holds_node cs s m (snd (moveOne cfg env source name d w))"
proof -
  have "keeps (holds_node cs s m) (tryRecord (posix_error env) ''move'' source e)"
    unfolding holds_node_def by (rule node_stays.keeps_tryRecord)
  with assms archiveSnapshotsDir_reads [of env w] show ?thesis
    by (simp add: moveOne_def io_simps keeps_def)
qed

end
