(* ===== verification/HostProperties.thy ===== *)
theory HostProperties
  imports HostRun RebuildReturns ArchiveSafe
begin

text \<open>
  The properties of the native host: what it logs is what a rebuild finds, all or nothing in the
  database, and the framing of messages.
\<close>

section \<open>Histories of a machine\<close>

text \<open>
  A machine starts without logs and rows. Then, in any order: other programs run, which leave the
  database and the plain paths alone and may add directories, snapshots and manifests; and the host
  answers messages. When it writes, its files do not fail, its database may, no log is dated later than
  today, and the log can carry the request.
\<close>

definition no_newline_names :: "store \<Rightarrow> bool" where
  "no_newline_names F \<longleftrightarrow> list_all (\<lambda>x. fst x = [] \<or> last (fst x) = [] \<or> last (last (fst x)) \<noteq> NL) F"

definition fresh_machine :: "config \<Rightarrow> path \<Rightarrow> world \<Rightarrow> bool" where
  "fresh_machine cfg i w \<longleftrightarrow> store_wf (files w) \<and> no_newline_names (files w) \<and> found_logs (files w) (LOG_DIR cfg) i = []
     \<and> recorded (disk w) = ([], [], [])"

definition can_write :: "config \<Rightarrow> path \<Rightarrow> request \<Rightarrow> world \<Rightarrow> bool" where
  "can_write cfg i q w \<longleftrightarrow> fs_faults w = [] \<and> is_date (today w) \<and> log_ready cfg (today w) (files w)
     \<and> list_all (\<lambda>x. fst x \<le> today w) (found_logs (files w) (LOG_DIR cfg) i) \<and> loggable q"

inductive host_history :: "config \<Rightarrow> path \<Rightarrow> world \<Rightarrow> bool" for cfg i where
  fresh: "fresh_machine cfg i w \<Longrightarrow> host_history cfg i w"
| others: "host_history cfg i w \<Longrightarrow> disk v = disk w \<Longrightarrow> kept_plain (files w) (files v) \<Longrightarrow> store_wf (files v) \<Longrightarrow>
    host_history cfg i v"
| query: "host_history cfg i w \<Longrightarrow> host_history cfg i (snd (host_query cfg url w))"
| message: "host_history cfg i w \<Longrightarrow> can_write cfg i q w \<Longrightarrow> looks_like_uuid rid \<Longrightarrow>
    host_history cfg i (snd (host_write cfg env rid q w))"

lemma no_newline_odd: "no_newline_names F \<Longrightarrow> no_odd_logs F l i"
proof -
  assume F: "no_newline_names F"
  have "node_at F (c @ [f @ [NL]]) = None" for c f
  proof (rule ccontr)
    assume "node_at F (c @ [f @ [NL]]) \<noteq> None"
    then obtain x where "x \<in> set F" "fst x = c @ [f @ [NL]]"
      by (auto simp: node_at_def dest: lookup_key_SomeD)
    with F show False by (auto simp: no_newline_names_def list_all_iff)
  qed
  from this [of "comps_of l"] this [of "comps_of i @ [d]" for d] show ?thesis
    by (simp add: no_odd_logs_def)
qed

lemma found_days_latest:
  assumes "logs_match cfg i w" and "list_all (\<lambda>x. fst x \<le> t) (found_logs (files w) (LOG_DIR cfg) i)"
    and "k \<in> log_days (files w) (LOG_DIR cfg) i"
  shows "fst k \<le> t"
  using assms found_days [of "files w" "LOG_DIR cfg" i] by (auto simp: logs_match_def list_all_iff)

lemma in_step_kept:
  assumes step: "logs_match cfg i w" and apart: "apart cfg i"
    and v: "recorded (disk v) = recorded (disk w)" "kept_plain (files w) (files v)" "store_wf (files v)"
  shows "logs_match cfg i v"
proof -
  let ?l = "LOG_DIR cfg"
  have inv: "store_wf (files w)" "no_odd_logs (files w) ?l i" using step by (simp_all add: logs_match_def)
  have odd: "no_odd_logs (files v) ?l i" by (rule kept_odd [OF v(2) apart inv(2)])
  have same: "is_date (fst k) \<Longrightarrow> day_text (files v) ?l i k = day_text (files w) ?l i k" for k
    by (rule kept_text [OF v(2) apart])
  then have days: "log_days (files v) ?l i = log_days (files w) ?l i" by (auto simp: log_days_def)
  have "map (day_lines (files v) ?l i) (sorted_list_of_set (log_days (files w) ?l i))
      = map (day_lines (files w) ?l i) (sorted_list_of_set (log_days (files w) ?l i))"
    using same log_lines_by_day(2) [OF inv] by (simp add: day_lines_def log_days_def)
  then have "log_lines (files v) ?l i = log_lines (files w) ?l i"
    by (simp only: log_lines_by_day(1) [OF inv] log_lines_by_day(1) [OF v(3) odd] days)
  moreover have "whole_logs (files v) ?l i" using step same unfolding logs_match_def whole_logs_def by metis
  ultimately show ?thesis using step v odd by (simp add: logs_match_def)
qed

lemma kept_plain_refl [simp]: "kept_plain F F"
  by (simp add: kept_plain_def)

lemma query_in_step:
  assumes "logs_match cfg i w" and "apart cfg i"
  shows "logs_match cfg i (snd (host_query cfg url w))"
  using query_quiet [of cfg url w] assms
  by (intro in_step_kept [OF assms]) (auto simp: wp_def elsewhere_def logs_match_def split: prod.splits sum.splits)

lemma refused_quiet: "\<not> valid_request q \<Longrightarrow> snd (host_write cfg env rid q w) = w"
  by (auto simp: valid_request_def host_write_def ret_def)

lemma history_in_step: "host_history cfg i w \<Longrightarrow> apart cfg i \<Longrightarrow> logs_match cfg i w"
proof (induction rule: host_history.induct)
  case (fresh w)
  then have wf: "store_wf (files w)" "no_odd_logs (files w) (LOG_DIR cfg) i" "log_lines (files w) (LOG_DIR cfg) i = []"
    by (simp_all add: fresh_machine_def no_newline_odd log_lines_def log_paths_def)
  have none: "day_text (files w) (LOG_DIR cfg) i k = None" if "is_date (fst k)" for k
    using found_days [OF wf(1,2)] fresh that by (cases k) (auto simp: fresh_machine_def log_days_def)
  have "whole_logs (files w) (LOG_DIR cfg) i"
    unfolding whole_logs_def using none by (metis option.distinct(1))
  with wf show ?case
    using fresh by (simp add: logs_match_def fresh_machine_def applied_def count_lines_def
        apply_actions_def recorded_def empty_database_def)
next
  case (others w v)
  then show ?case by (intro in_step_kept [of cfg i w v]) simp_all
next
  case (query w url)
  then show ?case by (simp add: query_in_step)
next
  case (message w q rid env)
  then have step: "logs_match cfg i w" by simp
  show ?case
  proof (cases "valid_request q")
    case True
    from message show ?thesis
      unfolding can_write_def
      by (intro write_in_step [OF step] True found_days_latest [OF step]) simp_all
  qed (simp add: refused_quiet step)
qed

section \<open>What is logged is what is rebuilt\<close>

interpretation record_view: replay_view recorded
  by unfold_locales (simp add: core_def recorded_def, rule recorded_relocate)

lemma recorded_actions: "recorded d = recorded d' \<Longrightarrow> recorded (apply_actions cfg as d) = recorded (apply_actions cfg' as d')"
proof (induction as arbitrary: d d')
  case (Cons a as)
  from Cons.IH [OF recorded_db_action [OF Cons.prems]] show ?case by (simp add: apply_actions_def)
qed (simp add: apply_actions_def)

lemma rebuild_commits:
  "wp (rebuild cfg l i dl True dr True) (\<lambda>_ w'. disk w' = db w') (\<lambda>_ _. True) w"
proof -
  let ?C = "\<lambda>_ w'. disk w' = db w'" and ?T = "\<lambda>_ _. True"
  have any: "wp m (\<lambda>_ _. True) ?T w'" for m :: "'x io" and w'
    by (auto simp: wp_def split: prod.split sum.split)
  have fin: "wp (thn commit (ret x)) ?C ?T w'" for x :: 'x and w'
    unfolding wp_thn wp_ret by (rule wp_commit) simp_all
  have rep: "wp (replay_logs cfg l i) ?C ?T w'" for w'
    unfolding replay_logs_def wp_bnd [of "collect_log_paths l i"] wp_bnd [of "fold_io _ _ _"]
    by (rule wp_mono [OF any], rule wp_mono [OF any]) (simp_all add: fin split: prod.split)
  have reh: "wp (rehydrate_filesystem cfg i dl) ?C ?T w'" if "disk w' = db w'" for w'
  proof -
    have "wp (thn (ensure_snapshots_table cfg) (bnd (listdir i) (\<lambda>names.
          bnd (fold_io (rehydrate_dir i dl) no_rehydrate (sort names)) (\<lambda>stats. thn commit (ret stats))))) ?C ?T w'"
      unfolding wp_thn [of "ensure_snapshots_table cfg"] wp_bnd [of "listdir i"] wp_bnd [of "fold_io _ _ _"]
      by (rule wp_mono [OF any], rule wp_mono [OF any], rule wp_mono [OF any]) (simp_all add: fin)
    with that show ?thesis by (simp add: rehydrate_filesystem_def wp_simps)
  qed
  have tail: "wp (bnd (if dr then bnd (rehydrate_filesystem cfg i dl) (\<lambda>s. ret (Some s)) else ret None)
      (\<lambda>h. ret \<lparr>replay = r, rehydrate = h, truncated = True\<rparr>)) ?C ?T w'" if "disk w' = db w'" for r w'
  proof (cases dr)
    case True
    then show ?thesis
      by (simp only: if_True wp_bnd, intro wp_mono [OF reh [OF that]]) (simp_all add: wp_ret)
  qed (use that in \<open>simp add: wp_simps\<close>)
  have mid: "wp (bnd (bnd (replay_logs cfg l i) (\<lambda>s. ret (Some s))) (\<lambda>r.
      bnd (if dr then bnd (rehydrate_filesystem cfg i dl) (\<lambda>s. ret (Some s)) else ret None)
        (\<lambda>h. ret \<lparr>replay = r, rehydrate = h, truncated = True\<rparr>))) ?C ?T w'" for w'
    unfolding wp_bnd [of "bnd (replay_logs cfg l i) _"] wp_bnd [of "replay_logs cfg l i"] wp_ret
    by (rule wp_mono [OF rep]) (simp_all add: tail)
  show ?thesis
    unfolding rebuild_def if_True wp_thn [of truncate_rebuildable_tables] wp_thn [of "ensure_db cfg"]
      wp_thn [of "ensure_snapshots_table cfg"]
    by (rule wp_mono [OF any], rule wp_mono [OF any], rule wp_mono [OF any], rule mid) simp_all
qed

section \<open>An example\<close>

text \<open>A first message whose transaction meets a locked database, and its repetition, which succeeds.\<close>

definition host_cfg :: config where
  "host_cfg = \<lparr>LOG_DIR = ''/log'', ICLOUD_SNAPSHOTS_DIR = ''/snap'', DOWNLOADS_SNAPSHOTS_DIR = ''/dl'',
     DB_FILE = ''/v.db'', MATCH_BY_FILENAME_ONLY = False, host_importable = True\<rparr>"

definition host_env1 :: host_env where
  "host_env1 = \<lparr>environ = (\<lambda>k. if k = ''BVL_GDRIVE_SNAPSHOTS_DIR'' then Some ''/snap'' else None), home = ''/h'',
     config_account = None, posix_error = (\<lambda>_. True)\<rparr>"

definition host_request :: request where
  "host_request = \<lparr>q_timestamp = ''t1'', q_url = ''u1'', q_title = ''T'', q_tag = ''read'',
     q_filename = ''s/2024-01-02T03-04-05Z-ab.html'', q_also = False\<rparr>"

definition host_world :: world where
  "host_world = sample_world\<lparr>today := ''2024-01-02'', db_faults := replicate 10 None @ [Some (Busy ''locked'')],
     files := [([''log''], Dir), ([''dl''], Dir), ([''dl'', ''2024-01-02T03-04-05Z-ab.html''], File ''h'' mode_644)]\<rparr>"

definition host_locked :: world where
  "host_locked = snd (host_write host_cfg host_env1 (replicate 32 (CHR ''a'')) host_request host_world)"

definition host_retried :: world where
  "host_retried = snd (host_write host_cfg host_env1 (replicate 32 (CHR ''b'')) host_request host_locked)"

lemma store_wf_listed:
  assumes "store_keyed fs" and "list_all (\<lambda>x. fst x = [] \<or> node_at fs (butlast (fst x)) = Some Dir) fs"
  shows "store_wf fs"
proof -
  have "node_at fs (butlast c) = Some Dir" if "c \<noteq> []" "node_at fs c \<noteq> None" for c
  proof -
    from that obtain x where "x \<in> set fs" "fst x = c" by (auto simp: node_at_def dest: lookup_key_SomeD)
    with assms(2) that(1) show ?thesis by (auto simp: list_all_iff)
  qed
  with assms(1) show ?thesis by (simp add: store_wf_def)
qed

lemma host_example:
  "fst (host_write host_cfg host_env1 (replicate 32 (CHR ''a'')) host_request host_world) = Inr (Failed [''db: locked''])"
  "fst (host_write host_cfg host_env1 (replicate 32 (CHR ''b'')) host_request host_locked) = Inr Written"
  by code_simp+

lemma host_example_history: "host_history host_cfg ''/snap'' host_retried"
proof -
  have wf: "store_wf (files host_world)" "store_wf (files host_locked)"
    by (rule store_wf_listed; code_simp)+
  have ready: "log_ready host_cfg (today host_world) (files host_world)" "log_ready host_cfg (today host_locked) (files host_locked)"
    unfolding log_ready_def by (intro conjI wf; code_simp)+
  have "fresh_machine host_cfg ''/snap'' host_world"
    unfolding fresh_machine_def by (intro conjI wf; code_simp)
  then have "host_history host_cfg ''/snap'' host_world" by (rule host_history.fresh)
  moreover have "can_write host_cfg ''/snap'' host_request host_world"
    unfolding can_write_def by (intro conjI ready; code_simp)
  moreover have "looks_like_uuid (replicate 32 (CHR ''a''))" by code_simp
  ultimately have "host_history host_cfg ''/snap'' host_locked"
    unfolding host_locked_def by (rule host_history.message)
  moreover have "can_write host_cfg ''/snap'' host_request host_locked"
    unfolding can_write_def by (intro conjI ready; code_simp)
  moreover have "looks_like_uuid (replicate 32 (CHR ''b''))" by code_simp
  ultimately show ?thesis
    unfolding host_retried_def by (rule host_history.message)
qed



section \<open>All or nothing\<close>

lemma append_keeps_disk: "keeps (\<lambda>w. disk w = D) (appendLine cfg day line)"
proof -
  have b: "blind (\<lambda>w. disk w = D)" "off_node c (\<lambda>w. disk w = D)" for c by (simp_all add: blind_def off_node_def)
  have "keeps (\<lambda>w. disk w = D) (open_existing p)" "keeps (\<lambda>w. disk w = D) seek_to_end" for p
    unfolding open_existing_def seek_to_end_def
    by (rule keeps_fs_op [OF b(1)], simp add: keeps_def os_raise_def throw_def ret_def split: option.split node.split)+
  then show ?thesis
    unfolding appendLine_def Let_def attempt_def
    by (intro keeps_rules keeps_write [OF b(1,2)] files_only) simp_all
qed

definition answer_for :: "config \<Rightarrow> request \<Rightarrow> database \<Rightarrow> response \<Rightarrow> world \<Rightarrow> bool" where
  "answer_for cfg q d r w' \<longleftrightarrow>
     (case r of
        Written \<Rightarrow> recorded (disk w') = recorded (db_request cfg q d)
      | Failed es \<Rightarrow> recorded (disk w') = (if list_ex (\<lambda>e. startswith e ''db: '') es then recorded d
                                         else recorded (db_request cfg q d))
      | Found v \<Rightarrow> False
      | Refused s \<Rightarrow> recorded (disk w') = recorded d)"

lemma wp_noting:
  "wp m (\<lambda>_. Q []) (\<lambda>e. Q [label @ exn_str e]) w \<Longrightarrow> wp (noting label m) Q E w"
  by (auto simp: wp_def run_noting split: prod.splits sum.splits)

lemma host_write_answers:
  "wp (host_write cfg env rid q) (answer_for cfg q (disk w)) (\<lambda>_ _. False) w"
proof -
  let ?d = "disk w" and ?E = "\<lambda>_ _. False"
  let ?none = "\<lambda>es. list_all (\<lambda>e. startswith e ''log: '') es"
  define stored where "stored = (\<lambda>es (w' :: world). es = [] \<and> recorded (disk w') = recorded (db_request cfg q ?d)
      \<or> (\<exists>e. es = [''db: '' @ e]) \<and> recorded (disk w') = recorded ?d)"
  have last: "wp (thn (attempt (appendLine cfg day (result_line rid (result_text (l @ es)))))
      (ret (if l @ es = [] then Written else Failed (l @ es)))) (answer_for cfg q ?d) ?E v"
    if "?none l" "stored es v" for day l es v
  proof -
    have "keeps (\<lambda>w'. disk w' = disk v) (attempt (appendLine cfg day line))" for line
      by (intro keeps_attempt append_keeps_disk)
    then have run: "wp (attempt (appendLine cfg day line)) (\<lambda>_ w'. disk w' = disk v) ?E v" for line
      by (rule wp_keeps_total) (simp_all add: raises_attempt)
    have "list_ex (\<lambda>e. startswith e ''db: '') (l @ es) \<longleftrightarrow> es \<noteq> []"
    proof -
      have "\<not> startswith e ''db: ''" if "startswith e ''log: ''" for e
        using that by (cases e) (auto simp: startswith_def)
      moreover have "startswith (''db: '' @ e) ''db: ''" for e by (rule startswith_append)
      ultimately show ?thesis using that by (auto simp: stored_def list_ex_iff list_all_iff simp del: append.simps)
    qed
    with that show ?thesis
      unfolding wp_thn by (intro wp_mono [OF run]) (auto simp: wp_ret answer_for_def stored_def)
  qed
  have db: "wp (noting ''db: '' (write_database cfg env day q)) stored ?E v" if "disk v = ?d" for day v
    by (rule wp_noting, rule wp_mono [OF write_database_commits]) (auto simp: that stored_def records_def)
  have log: "wp (noting ''log: '' (appendLine cfg day line)) (\<lambda>l v. ?none l \<and> disk v = ?d) ?E w" for day line
  proof (rule wp_noting)
    show "wp (appendLine cfg day line) (\<lambda>_ v. ?none [] \<and> disk v = ?d)
        (\<lambda>e v. ?none [''log: '' @ exn_str e] \<and> disk v = ?d) w"
      by (rule wp_keeps [OF append_keeps_disk [of "disk w"]]) (auto simp: startswith_def)
  qed
  show ?thesis
  proof (cases "valid_request q")
    case True
    have "wp (bnd (gets today) (\<lambda>day. bnd (noting ''log: '' (appendLine cfg day (action_line rid q))) (\<lambda>l.
        bnd (noting ''db: '' (write_database cfg env day q)) (\<lambda>es.
        thn (attempt (appendLine cfg day (result_line rid (result_text (l @ es)))))
          (ret (if l @ es = [] then Written else Failed (l @ es))))))) (answer_for cfg q ?d) ?E w"
      unfolding wp_bnd wp_gets
      by (rule wp_mono [OF log], elim conjE, rule wp_mono [OF db], assumption, erule last) simp_all
    with True show ?thesis by (auto simp: host_write_def valid_request_def Let_def)
  next
    case False
    then show ?thesis by (auto simp: host_write_def valid_request_def wp_ret answer_for_def)
  qed
qed

text \<open>A query answers with what it found or the error.\<close>

lemma query_answers: "wp (host_query cfg url) (\<lambda>r _. r \<noteq> Written \<and> (\<forall>es. r \<noteq> Failed es)) (\<lambda>_ _. False) w"
proof -
  have "raises (\<lambda>_. True) m" for m :: "response io" by (simp add: raises_def wp_def split: prod.split sum.split)
  show ?thesis
    by (auto simp: host_query_def wp_def io_simps ret_def thn_def bnd_def split: prod.splits sum.splits)
qed

text \<open>
  C7. Whatever fails, file system and database, the host answers and never raises. A success means that
  the visit, its tag and its event are all committed; after an error of the database nothing is; an error
  that is only the log's loses nothing in the database, and a refused message or a query changes no row.
\<close>

theorem host_all_or_nothing:
  "case host_run cfg env rid m w of
     (Inr Written, w') \<Rightarrow> recorded (disk w') = recorded (db_request cfg (request_of m) (disk w))
   | (Inr (Failed es), w') \<Rightarrow>
       recorded (disk w') = (if list_ex (\<lambda>e. startswith e ''db: '') es then recorded (disk w)
                             else recorded (db_request cfg (request_of m) (disk w)))
   | (Inr (Found r), w') \<Rightarrow> recorded (disk w') = recorded (disk w)
   | (Inr (Refused s), w') \<Rightarrow> recorded (disk w') = recorded (disk w)
   | (Inl e, w') \<Rightarrow> False"
proof -
  let ?q = "request_of m"
  have quiet: "case host_query cfg url w of
     (Inr Written, w') \<Rightarrow> False | (Inr (Failed es), w') \<Rightarrow> False | (Inl e, w') \<Rightarrow> False
   | (Inr _, w') \<Rightarrow> recorded (disk w') = recorded (disk w)" for url
    using query_quiet [of cfg url w] query_answers [of cfg url w]
    by (auto simp: wp_def split: prod.splits sum.splits response.splits)
  have "case host_write cfg env rid ?q w of (Inl e, w') \<Rightarrow> False | (Inr r, w') \<Rightarrow> answer_for cfg ?q (disk w) r w'"
    using host_write_answers [of cfg env rid ?q w] by (auto simp: wp_def split: prod.splits sum.splits)
  with quiet [of "trimmed (string_field m ''url'')"] show ?thesis
    by (auto simp: host_run_def answer_for_def split: prod.splits sum.splits response.splits if_splits)
qed


section \<open>Snapshots\<close>

text \<open>
  C8. No snapshot is lost on its way to the archive: whatever fails, when the host is done with a tagged
  page, the file the browser saved is still in the Downloads directory, or its text is in the archive
  under its date and name, read-only.
\<close>

theorem no_snapshot_lost:
  assumes "name = lastPathComponent filename" and "dateString name = Some d"
    and "cs = comps_of (path_join (DOWNLOADS_SNAPSHOTS_DIR cfg) name)" and "node_at (files w) cs = Some (File s m)"
    and "cd = comps_of (path_join (path_join root d) name)" and "\<not> inside cd cs" and "\<not> inside cs cd"
    and "case fst (archiveSnapshotsDir env w) of Inl e \<Rightarrow> True | Inr r \<Rightarrow> r = root"
  shows "let w' = snd (archive_for_tag cfg env filename w)
    in node_at (files w') cs = Some (File s m) \<or> node_at (files w') cd = Some (File s mode_444)"
proof -
  let ?source = "path_join (DOWNLOADS_SNAPSHOTS_DIR cfg) name"
  have name: "proper_name name" "name \<noteq> MANIFEST_FILENAME" "name \<noteq> []"
    using assms(1,2) proper_snapshot [of filename d] dateString_digit [of name d]
    by (auto simp: MANIFEST_FILENAME_def is_digit_def proper_name_def)
  have cs: "cs \<noteq> []" using assms(3) name(1) by (simp add: comps_of_join)
  have src: "holds_node cs s m w" using assms(4) by (simp add: holds_node_def)
  have "exists ?source w" using assms(3,4) by (simp add: exists_def)
  then have run: "archive_for_tag cfg env filename w = moveOne cfg env ?source name d w"
    using assms(2) name(3) unfolding archive_for_tag_def Let_def assms(1) [symmetric] by (simp add: io_simps)
  show ?thesis
  proof (cases "fst (archiveSnapshotsDir env w)")
    case (Inl e)
    then show ?thesis
      using archive_root_none [OF Inl src] unfolding run Let_def by (simp add: holds_node_def)
  next
    case (Inr r)
    with assms(8) have "fst (archiveSnapshotsDir env w) = Inr root" by simp
    from wp_moveOne [OF src assms(3) cs this assms(5-7) name(1,2)] show ?thesis
      unfolding run Let_def by (simp add: archived_or_there_def holds_node_def)
  qed
qed

theorem no_snapshot_lost_witness:
  "let w' = snd (archive_for_tag host_cfg host_env1 ''s/2024-01-02T03-04-05Z-ab.html''
        (host_world\<lparr>fs_faults := [None, None, None, Some (ENOSPC, ''full'', 0)]\<rparr>))
   in node_at (files w') [''dl'', ''2024-01-02T03-04-05Z-ab.html''] = Some (File ''h'' mode_644)
      \<or> node_at (files w') [''snap'', ''2024-01-02'', ''2024-01-02T03-04-05Z-ab.html''] = Some (File ''h'' mode_444)"
  by (rule no_snapshot_lost [where name = "''2024-01-02T03-04-05Z-ab.html''" and d = "''2024-01-02''" and root = "''/snap''"];
      code_simp)

section \<open>Framing\<close>

lemma bytes_of_nat:
  fixes k :: nat
  assumes "k < 4294967296"
  shows "k mod 256 + 256 * (k div 256 mod 256 + 256 * (k div 65536 mod 256 + 256 * (k div 16777216 mod 256))) = k"
proof -
  have a: "k = k mod 256 + 256 * (k div 256)" by simp
  have b: "k div 256 = k div 256 mod 256 + 256 * (k div 65536)"
    using mod_mult_div_eq [of "k div 256" 256] by (simp add: div_mult2_eq [symmetric])
  have c: "k div 65536 = k div 65536 mod 256 + 256 * (k div 16777216)"
    using mod_mult_div_eq [of "k div 65536" 256] by (simp add: div_mult2_eq [symmetric])
  have d: "k div 16777216 mod 256 = k div 16777216" using assms by simp
  show ?thesis by (simp only: d c [symmetric] b [symmetric] a [symmetric])
qed

lemma length_length_header [simp]: "length (length_header n) = 4"
  by (simp add: length_header_def)

lemma header_roundtrip: "header_value (length_header n) = n"
proof -
  have k: "unat n < 4294967296" using unsigned_less [of n] by simp
  have digit: "unat (drop_bit m n) = unat n div 2 ^ m" for m
    by (simp add: unat_drop_bit_eq drop_bit_eq_div [where 'a = nat])
  have "header_value (length_header n) = of_nat (unat n mod 256 + 256 * (unat n div 256 mod 256
      + 256 * (unat n div 65536 mod 256 + 256 * (unat n div 16777216 mod 256))))"
    by (simp add: header_value_def length_header_def digit)
  also have "\<dots> = n" unfolding bytes_of_nat [OF k] by simp
  finally show ?thesis .
qed

text \<open>
  C27. What the host writes to the browser, the browser's side of the protocol reads back, whatever follows
  on the stream, up to messages of \<open>2 ^ 32 - 1\<close> bytes, which is all the header can say; a stream cut off
  anywhere is reported as cut off, in the header or in the body, and never read as a message.
\<close>

theorem message_roundtrip:
  "case write_message body of
     None \<Rightarrow> 2 ^ 32 \<le> length body
   | Some out' \<Rightarrow>
       read_message decode (out' @ rest) = map_sum DecodeFailed (\<lambda>m. m) (decode body)
       \<and> read_message decode (take n out') =
           (if n < 4 then Inl EofBeforeLength else if n < length out' then Inl EofMidMessage
            else map_sum DecodeFailed (\<lambda>m. m) (decode body))"
proof (cases "length body < 2 ^ 32")
  case True
  then have u: "unat (of_nat (length body) :: 32 word) = length body"
    by (simp add: unat_of_nat)
  have w: "write_message body = Some (length_header (of_nat (length body)) @ body)"
    using True by (simp add: write_message_def)
  have s: "(case decode body of Inl e \<Rightarrow> Inl (DecodeFailed e) | Inr m \<Rightarrow> Inr m) = map_sum DecodeFailed (\<lambda>m. m) (decode body)"
    by (cases "decode body") simp_all
  show ?thesis
    unfolding w option.case
    by (simp add: read_message_def Let_def header_roundtrip u s) auto
qed (simp add: write_message_def)

section \<open>Where the two implementations part\<close>

text \<open>The request to set a page of interest on the side reaches the database and not the log.\<close>

lemma also_not_logged: "action_line rid (q\<lparr>q_also := b\<rparr>) = action_line rid q"
  by (simp add: action_line_def action_fields_def)

lemma also_of_interest_lost:
  assumes "q_tag q = ''read''" and "\<not> has_key v_url (q_url q) (visits d)"
  shows "action_line rid (q\<lparr>q_also := True\<rparr>) = action_line rid (q\<lparr>q_also := False\<rparr>)"
    and "\<forall>v\<in>set (visits (db_request cfg (q\<lparr>q_also := True\<rparr>) d)). v_url v = q_url q \<longrightarrow> v_of_interest v = Some ''1''"
    and "\<forall>v\<in>set (visits (db_request cfg (q\<lparr>q_also := False\<rparr>) d)). v_url v = q_url q \<longrightarrow> v_of_interest v = None"
proof -
  show "action_line rid (q\<lparr>q_also := True\<rparr>) = action_line rid (q\<lparr>q_also := False\<rparr>)" by (simp add: also_not_logged)
  have set: "\<forall>v\<in>set (visits (snd (sql_set_of_interest u d))). v_url v = u \<longrightarrow> v_of_interest v = Some ''1''" for u d
    by (simp add: sql_set_of_interest_def update_where_def del: if_image_distrib)
  then show "\<forall>v\<in>set (visits (db_request cfg (q\<lparr>q_also := True\<rparr>) d)). v_url v = q_url q \<longrightarrow> v_of_interest v = Some ''1''"
    using assms(1) set [of "q_url q"] by (simp add: db_request_def Let_def del: set_map)
  show "\<forall>v\<in>set (visits (db_request cfg (q\<lparr>q_also := False\<rparr>) d)). v_url v = q_url q \<longrightarrow> v_of_interest v = None"
    using assms(2) by (simp add: db_request_def Let_def db_tag_def tagTable_def assms(1) db_event_def sql_insert_visit_def
        sql_bump_def update_where_def insert_or_ignore_def new_visit_def has_key_iff image_iff del: if_image_distrib) auto
qed

text \<open>Reports about files with absolute paths are never withdrawn: the prefix has lost its slash.\<close>

lemma scope_prefix_relative:
  assumes "list_ex (\<lambda>c. c \<noteq> CHR ''/'') dir"
  shows "\<not> startswith (CHR ''/'' # target) (scope_prefix dir)"
proof -
  let ?t = "dropWhile (\<lambda>c. c = CHR ''/'') (dir @ ''/'')"
  have "?t \<noteq> []" using assms unfolding dropWhile_eq_Nil_conv list_ex_iff by auto
  then obtain c t where t: "?t = c # t" "c \<noteq> CHR ''/''"
    using hd_dropWhile [of "\<lambda>c. c = CHR ''/''" "dir @ ''/''"] by (cases ?t) simp_all
  then have "\<exists>u. trim_slashes (dir @ ''/'') = c # u"
    unfolding trim_slashes_def t(1) rstrip_char_def by (auto simp: dropWhile_append) (metis rev_rev_ident)
  then show ?thesis using t(2) by (auto simp: scope_prefix_def startswith_def)
qed

lemma reports_never_withdrawn:
  assumes "list_ex (\<lambda>c. c \<noteq> CHR ''/'') dir" and "list_all (\<lambda>r. startswith (m_target r) ''/'') (mover_errors (db w))"
  shows "db (snd (reconcileDirScoped op dir strays w)) = db w"
proof -
  have skip: "for_each xs body v = (Inr (), v)" if "\<And>x. x \<in> set xs \<Longrightarrow> body x = ret ()"
    for xs and body :: "'x \<Rightarrow> unit io" and v
    using that by (induction xs) (simp_all add: io_simps ret_def)
  have abs: "\<not> startswith (m_target r) (scope_prefix dir)" if "r \<in> set (mover_errors (db w))" for r
  proof -
    from that assms(2) obtain t where "m_target r = CHR ''/'' # t"
      by (cases "m_target r") (auto simp: list_all_iff startswith_def)
    then show ?thesis using scope_prefix_relative [OF assms(1), of t] by simp
  qed
  have "wp (reconcileDirScoped op dir strays) (\<lambda>_ w'. db w' = db w) (\<lambda>_ w'. db w' = db w) w"
    unfolding reconcileDirScoped_def attempt_def wp_catch wp_bnd
  proof (rule wp_select)
    fix dl
    show "wp (for_each (map (\<lambda>r. (m_key r, m_target r)) (filter (\<lambda>r. m_operation r = op) (mover_errors (db w))))
        (\<lambda>(key, target). if startswith target (scope_prefix dir) \<and> target \<notin> set strays
          then run_sql [MoverErrors] (\<lambda>d. ((), d\<lparr>mover_errors := delete_where (\<lambda>r. m_key r = key) (mover_errors d)\<rparr>))
          else ret ()))
      (\<lambda>_ w'. db w' = db w) (\<lambda>e. wp (ret ()) (\<lambda>_ w'. db w' = db w) (\<lambda>_ w'. db w' = db w)) (w\<lparr>db_faults := dl\<rparr>)"
      unfolding wp_def using abs by (subst skip) auto
  qed (simp add: wp_ret)
  then show ?thesis by (auto simp: wp_def split: prod.splits sum.splits)
qed

end
