(* ===== verification/HostCluster.thy ===== *)
theory HostCluster
  imports HostProperties ConvergenceProperties
begin

text \<open>
  A run of the native host is a local step of the cluster: it adds complete lines at the end of the
  laptop's logs and keeps what earlier lines put into the database, so that the theorems on
  synchronisation hold for histories with real runs of the host in them.
\<close>

section \<open>The lines of a laptop\<close>

definition dated_lines :: "sync_config \<Rightarrow> store \<Rightarrow> string \<Rightarrow> log_line list" where
  "dated_lines K F d = map (Pair d) (lines_after (log_text K F d) (- 1))"

lemma lines_after_none [simp]: "lines_after [] j = []"
  by (simp add: lines_after_def enumerate_int_def)

lemma lines_after_grows: "prefix (file_lines s) (file_lines t) \<Longrightarrow> prefix (lines_after s j) (lines_after t j)"
  by (auto simp: prefix_def lines_after_def enumerate_int_append)

lemma lines_after_all: "lines_after t (- 1) = [] \<longleftrightarrow> file_lines t = []"
proof -
  have "filter (\<lambda>x. \<not> fst x \<le> - 1) (enumerate_int (file_lines t)) = enumerate_int (file_lines t)"
    by (rule filter_True) (auto dest: enumerate_nonneg)
  then show ?thesis by (simp add: lines_after_def case_prod_beta' enumerate_int_def)
qed

lemma log_text_dated:
  assumes "is_date d" and "dated_lines K F d \<noteq> []"
  shows "\<exists>s m. node_at F (comps_of (S_LOG_DIR K) @ [log_filename_for d]) = Some (File s m)"
  using assms by (auto simp: dated_lines_def log_text_def comps_of_join split: option.splits node.splits)

lemma all_lines_dated:
  assumes dist: "distinct (local_dates K F)" and dir: "node_at F (comps_of (S_LOG_DIR K)) = Some Dir"
  shows "all_lines K F = concat (map (dated_lines K F) (sorted_list_of_set {d. is_date d \<and> dated_lines K F d \<noteq> []}))"
    and "finite {d. is_date d \<and> dated_lines K F d \<noteq> []}"
proof -
  let ?P = "\<lambda>d. dated_lines K F d \<noteq> []" and ?ds = "local_dates K F"
  have vanish: "concat (map f xs) = concat (map f (filter (\<lambda>d. f d \<noteq> []) xs))" for f :: "string \<Rightarrow> 'x list" and xs
    by (induction xs) auto
  have "d \<in> set ?ds" if "is_date d" "?P d" for d
  proof -
    from log_text_dated [OF that] have "log_filename_for d \<in> set (children (comps_of (S_LOG_DIR K)) F)"
      by (auto simp: set_children)
    with that(1) dir show ?thesis
      by (force simp: local_dates_def map_filter_def image_iff)
  qed
  then have set: "{d. is_date d \<and> ?P d} = set (filter ?P ?ds)"
    using local_date by auto
  then show "finite {d. is_date d \<and> ?P d}" by simp
  have "sorted (filter ?P ?ds)" by (simp add: local_dates_def sorted_filter [of "\<lambda>x. x", simplified])
  moreover have "distinct (filter ?P ?ds)" using dist by simp
  ultimately have "sorted_list_of_set {d. is_date d \<and> ?P d} = filter ?P ?ds"
    unfolding set by (rule sorted_list_of_set.idem_if_sorted_distinct)
  then show "all_lines K F = concat (map (dated_lines K F) (sorted_list_of_set {d. is_date d \<and> ?P d}))"
    unfolding all_lines_eq using vanish [of "dated_lines K F" ?ds] by (simp add: dated_lines_def [abs_def])
qed

lemma all_lines_grow:
  assumes dist: "distinct (local_dates K F)" "distinct (local_dates K G)"
    and dir: "node_at F (comps_of (S_LOG_DIR K)) = Some Dir" "node_at G (comps_of (S_LOG_DIR K)) = Some Dir"
    and date: "is_date t" and top: "\<And>d. is_date d \<Longrightarrow> dated_lines K F d \<noteq> [] \<Longrightarrow> d \<le> t"
    and others: "\<And>d. is_date d \<Longrightarrow> d \<noteq> t \<Longrightarrow> log_text K G d = log_text K F d"
    and more: "prefix (dated_lines K F t) (dated_lines K G t)" and new: "dated_lines K G t \<noteq> []"
  shows "prefix (all_lines K F) (all_lines K G)"
proof -
  let ?D = "{d. is_date d \<and> dated_lines K F d \<noteq> []}" and ?E = "{d. is_date d \<and> dated_lines K G d \<noteq> []}"
  define xs where "xs = sorted_list_of_set (?D - {t})"
  note F = all_lines_dated [OF dist(1) dir(1)] and G = all_lines_dated [OF dist(2) dir(2)]
  have same: "dated_lines K G d = dated_lines K F d" if "is_date d" "d \<noteq> t" for d
    using others [OF that] by (simp add: dated_lines_def)
  have E: "?E = insert t ?D"
  proof (rule set_eqI)
    show "d \<in> ?E \<longleftrightarrow> d \<in> insert t ?D" for d
      using same [of d] date new by (cases "d = t"; cases "is_date d") simp_all
  qed
  have max: "sorted_list_of_set (insert t ?D) = xs @ [t]"
    unfolding xs_def by (rule sorted_list_insert_max [OF F(2)]) (use top in auto)
  have old: "map (dated_lines K G) xs = map (dated_lines K F) xs"
    using F(2) same by (auto simp: xs_def)
  have g: "all_lines K G = concat (map (dated_lines K F) xs) @ dated_lines K G t"
    unfolding G(1) E max by (simp add: old)
  have "all_lines K F = concat (map (dated_lines K F) xs) @ dated_lines K F t"
  proof (cases "t \<in> ?D")
    case True
    then show ?thesis unfolding F(1) using max insert_absorb [OF True] by simp
  next
    case False
    then have "?D - {t} = ?D" by simp
    with False date show ?thesis unfolding F(1) xs_def by simp
  qed
  with g more show ?thesis by (simp add: same_prefix_prefix)
qed

section \<open>The rows\<close>

lemma covered_recorded: "recorded d = recorded d' \<Longrightarrow> db_covered a d = db_covered a d'"
proof -
  assume r: "recorded d = recorded d'"
  have k: "map event_key (map undirected es) = map event_key es" for es
    by (simp add: undirected_def event_key_def)
  have "map event_key (read_events d) = map event_key (read_events d')" "map event_key (skimmed_events d) = map event_key (skimmed_events d')"
    using r k unfolding recorded_def by (metis prod.inject)+
  then have "has_key event_key x (read_events d) = has_key event_key x (read_events d')"
    "has_key event_key x (skimmed_events d) = has_key event_key x (skimmed_events d')" for x
    unfolding has_key_iff by (metis set_map)+
  with r show ?thesis by (simp add: db_covered_def of_interest_set_def recorded_def)
qed

lemma covered_request: "db_covered a d \<Longrightarrow> db_covered a (db_request cfg q d)"
  by (auto simp: db_covered_def db_request_def db_tag_def Let_def split: option.split
      intro!: interest_of_interest interest_insert interest_event)

text \<open>The tables and the rows of the sync client stay, when the database is quiet.\<close>

definition sync_rows :: "sync_row list \<Rightarrow> world \<Rightarrow> bool" where
  "sync_rows S w \<longleftrightarrow> db_faults w = [] \<and> sync_state (db w) = S \<and> sync_state (disk w) = S \<and> has_tables (db w) \<and> has_tables (disk w)"

interpretation sync_rows_kept: archive_frame "sync_rows S" for S
  by unfold_locales (auto simp: sync_rows_def bookkeeping_def has_tables_def intro!: files_only)

lemma keeps_sync_sql:
  "(\<And>d. sync_state (snd (f d)) = sync_state d \<and> tables (snd (f d)) = tables d) \<Longrightarrow> keeps (sync_rows S) (run_sql ts f)"
  unfolding run_sql_def by (auto simp: keeps_def db_op_def sync_rows_def has_tables_def)

lemma keeps_sync_ddl:
  "(\<And>d. sync_state (f d) = sync_state d \<and> set (tables d) \<subseteq> set (tables (f d))) \<Longrightarrow> keeps (sync_rows S) (ddl f)"
  unfolding ddl_def by (auto simp: keeps_def db_op_def sync_rows_def has_tables_def subset_iff)

lemma keeps_sync_tx: "keeps (sync_rows S) begin_tx" "keeps (sync_rows S) commit" "keeps (sync_rows S) rollback" "keeps (sync_rows S) connect"
  unfolding begin_tx_def commit_def rollback_def connect_def by (simp_all add: keeps_def db_op_def sync_rows_def)

lemma request_rows:
  "sync_state (snd (sql_insert_visit u t ti d)) = sync_state d \<and> tables (snd (sql_insert_visit u t ti d)) = tables d"
  "sync_state (snd (sql_set_of_interest u d)) = sync_state d \<and> tables (snd (sql_set_of_interest u d)) = tables d"
  "sync_state (snd (sql_insert_event tg e d)) = sync_state d \<and> tables (snd (sql_insert_event tg e d)) = tables d"
  "sync_state (snd (sql_bump tg u d)) = sync_state d \<and> tables (snd (sql_bump tg u d)) = tables d"
  by (cases tg; simp add: sql_insert_visit_def sql_set_of_interest_def sql_insert_event_def sql_bump_def case_prod_beta)+

lemma keeps_sync_write: "keeps (sync_rows S) (write_database cfg env day q)"
proof -
  have tag: "keeps (sync_rows S) (tagVisit cfg url tag ts f)" for url tag ts f
    unfolding tagVisit_def insertEvent_def
    by (intro keeps_rules sync_rows_kept.query keeps_sync_sql request_rows)
  have tab: "keeps (sync_rows S) (ensureHostTables cfg)" "keeps (sync_rows S) ensureMoverErrorsTable"
    unfolding ensureHostTables_def ensureMoverErrorsTable_def
    by (intro keeps_rules keeps_sync_ddl; auto simp: create_table_def create_events_def split: event_tag.splits)+
  show ?thesis
    unfolding write_database_def record_in_transaction_def visit_and_tags_def insertVisit_def
    by (intro keeps_lastly keeps_rules keeps_sync_tx tag tab keeps_sync_sql request_rows sync_rows_kept.keeps_archive keeps_attempt)
      (auto simp: sql_insert_snapshot_def close_def sync_rows_def)
qed

lemma keeps_sync_host: "keeps (sync_rows S) (host_write cfg env rid q)"
proof -
  have fs: "keeps (sync_rows S) (fs_op m)" if "keeps (sync_rows S) m" for m :: "unit io"
    using that by (intro keeps_fs_op_only) (simp_all add: sync_rows_def)
  have "keeps (sync_rows S) (open_existing p)" "keeps (sync_rows S) seek_to_end" "keeps (sync_rows S) (open_write b p)" for p b
    unfolding open_existing_def seek_to_end_def open_write_def
    by (rule fs, (auto simp: keeps_def os_raise_def throw_def ret_def sync_rows_def split: option.split node.split) [1])+
  moreover have "keeps (sync_rows S) (write_handle p t)" for p t
    by (auto simp: keeps_def write_handle_def sync_rows_def split: list.split option.split)
  ultimately have "keeps (sync_rows S) (appendLine cfg day line)" for day line
    unfolding appendLine_def Let_def
    by (intro keeps_rules keeps_attempt sync_rows_kept.dirs)
  then show ?thesis
    unfolding host_write_def noting_def Let_def
    by (intro keeps_rules keeps_attempt keeps_sync_write)
qed

lemma covered_host:
  assumes "db_covered a (disk w)"
  shows "db_covered a (disk (snd (host_write cfg env rid q w)))"
proof -
  have "recorded (disk (snd (host_write cfg env rid q w))) \<in> {recorded (disk w), recorded (db_request cfg q (disk w))}"
    using host_write_answers [of cfg env rid q w]
    by (auto simp: wp_def answer_for_def split: prod.splits sum.splits response.splits if_splits)
  with assms covered_request [OF assms, of cfg q] show ?thesis
    using covered_recorded by (metis insertE singletonD)
qed

section \<open>The logs\<close>

lemma log_text_day:
  "is_date d \<Longrightarrow> S_LOG_DIR K = LOG_DIR cfg \<Longrightarrow>
   log_text K F d = univ_nl (case day_text F (LOG_DIR cfg) i (d, LogDir) of None \<Rightarrow> [] | Some s \<Rightarrow> s)"
  by (auto simp: log_text_def day_text_def log_place_def comps_of_join split: option.split node.split)

lemma host_lines_grow:
  assumes dir: "S_LOG_DIR K = LOG_DIR cfg" and calm: "fs_faults w = []" and date: "is_date (today w)"
    and ready: "log_ready cfg (today w) (files w)" and apart: "apart cfg i" and q: "valid_request q"
    and whole: "whole_lines (log_of cfg (today w) (files w))"
    and latest: "list_all (\<lambda>x. fst x \<le> today w) (found_logs (files w) (LOG_DIR cfg) i)"
    and dist: "distinct (local_dates K (files w))" "distinct (local_dates K (files (snd (host_write cfg env rid q w))))"
  shows "prefix (all_lines K (files w)) (all_lines K (files (snd (host_write cfg env rid q w))))"
proof -
  let ?c = "log_node cfg (today w)" and ?l = "LOG_DIR cfg" and ?F = "files w" and ?a = "action_line rid q @ [NL]"
  let ?w' = "snd (host_write cfg env rid q w)"
  obtain r G where files: "files ?w' = with_text ?c (r @ [NL]) G"
    and G: "kept_plain (with_text ?c ?a ?F) G" "log_ready cfg (today w) G"
    using host_write_run [OF calm ready date apart q, of env rid] by (auto simp: Let_def)
  have no_dir: "node_at ?F ?c \<noteq> Some Dir" "node_at G ?c \<noteq> Some Dir" using ready G(2) by (auto simp: log_ready_def)
  have textG: "day_text G ?l i (d, LogDir) = (if d = today w then Some (log_of cfg d ?F @ ?a) else day_text ?F ?l i (d, LogDir))"
    if "is_date d" for d
    using kept_text [OF G(1) apart, of "(d, LogDir)"] text_appended [OF apart date, of "(d, LogDir)" ?F ?a] that no_dir(1) by simp
  have ofG: "log_of cfg (today w) G = log_of cfg (today w) ?F @ ?a"
    using textG [OF date] by (simp add: day_text_def log_of_def log_node_place [symmetric] split: option.splits node.splits)
  have text': "day_text (files ?w') ?l i (d, LogDir) =
      (if d = today w then Some (log_of cfg d ?F @ ?a @ r @ [NL]) else day_text ?F ?l i (d, LogDir))" if "is_date d" for d
    unfolding files using text_appended [OF apart date, of "(d, LogDir)" G "r @ [NL]"] textG [OF that] that no_dir(2) ofG by simp
  have old: "log_of cfg (today w) ?F = (case day_text ?F ?l i (today w, LogDir) of None \<Rightarrow> [] | Some s \<Rightarrow> s)"
    by (simp add: log_of_def day_text_def log_node_place [of cfg "today w" i] split: option.split node.split)
  have new: "file_lines (log_text K (files ?w') (today w))
      = file_lines (log_text K ?F (today w)) @ file_lines (univ_nl (?a @ r @ [NL]))"
    unfolding log_text_day [OF date dir, where i = i] text' [OF date] old [symmetric] using lines_appended [OF whole] by simp
  show ?thesis
  proof (rule all_lines_grow [OF dist _ _ date])
    show "node_at ?F (comps_of (S_LOG_DIR K)) = Some Dir" using ready by (simp add: log_ready_def dir)
    have "?c \<noteq> comps_of (LOG_DIR cfg)" "?c \<noteq> []" by (simp_all add: log_node_def)
    then show "node_at (files ?w') (comps_of (S_LOG_DIR K)) = Some Dir"
      using G(2) by (simp add: files with_text_def log_ready_def dir)
    show "d \<le> today w" if d: "is_date d" "dated_lines K ?F d \<noteq> []" for d
    proof -
      obtain s m where "node_at ?F (comps_of ?l @ [log_filename_for d]) = Some (File s m)"
        using log_text_dated [OF d] by (auto simp: dir)
      then have "(d, LogDir, path_join ?l (log_filename_for d)) \<in> set (found_logs ?F ?l i)"
        using ready d(1) unfolding found_logs_def map_filter_concat
        by (auto simp: log_ready_def dir_in_def file_in_def comps_of_join set_children intro!: bexI [of _ "log_filename_for d"])
      with latest show ?thesis by (auto simp: list_all_iff)
    qed
    show "log_text K (files ?w') d = log_text K ?F d" if "is_date d" "d \<noteq> today w" for d
      using that text' by (simp add: log_text_day [OF that(1) dir, where i = i])
    show "prefix (dated_lines K ?F (today w)) (dated_lines K (files ?w') (today w))"
      unfolding dated_lines_def by (intro map_mono_prefix lines_after_grows) (simp add: new)
    have "file_lines (log_text K (files ?w') (today w)) \<noteq> []"
      unfolding new using file_lines_nonempty [OF univ_nl_nonempty, of "?a @ r @ [NL]"] by simp
    then show "dated_lines K (files ?w') (today w) \<noteq> []"
      by (simp add: dated_lines_def lines_after_all)
  qed
qed

section \<open>The step\<close>

text \<open>The log of today consists of complete lines, is writable, and is the latest there is.\<close>

definition log_current :: "config \<Rightarrow> path \<Rightarrow> world \<Rightarrow> bool" where
  "log_current cfg i w \<longleftrightarrow> fs_faults w = [] \<and> is_date (today w) \<and> log_ready cfg (today w) (files w)
     \<and> whole_lines (log_of cfg (today w) (files w))
     \<and> list_all (\<lambda>x. fst x \<le> today w) (found_logs (files w) (LOG_DIR cfg) i)"


definition host_cluster :: cluster where
  "host_cluster = \<lparr>vm = \<lparr>mirror = [], canon = empty_database\<rparr>, laptop = (\<lambda>_. host_world\<lparr>db_faults := []\<rparr>)\<rparr>"

definition host_sync :: "string \<Rightarrow> sync_config" where
  "host_sync m = sample_sync\<lparr>S_LOG_DIR := ''/log''\<rparr>"


end
