(* ===== verification/Settings.thy ===== *)
theory Settings
  imports System Reset ReadingList SwiftCore
begin

text \<open>
  Where the programs find their files: the module globals that \<open>snapshot_mover.py\<close>, \<open>host.py\<close>,
  \<open>sync_client.py\<close>, \<open>reset.py\<close>, \<open>reading_list.py\<close>, \<open>server.py\<close> and \<open>_bvl_aws.py\<close> compute from the
  environment when they are imported, and the part of \<open>sync_client.py\<close>'s \<open>main\<close> that reads the machine's
  configuration. Each program computes its own copy; the lemmas say on what the copies agree, and where two
  programs of one machine can part. \<open>json.load\<close> is the parameter \<open>load\<close>: the string members of the
  document, or the exception.
\<close>

section \<open>The environment of a process\<close>

record process_env =
  variable :: "string \<Rightarrow> string option"
  user_home :: path

text \<open>\<open>os.environ.get(name, default)\<close>: an empty value is a value.\<close>

definition get_env :: "process_env \<Rightarrow> string \<Rightarrow> string \<Rightarrow> string" where
  "get_env p name fallback = (case variable p name of None \<Rightarrow> fallback | Some v \<Rightarrow> v)"

text \<open>\<open>os.environ.get(name)\<close> under a truth test: an empty value is none.\<close>

definition nonempty_env :: "process_env \<Rightarrow> string \<Rightarrow> string option" where
  "nonempty_env p name = (case variable p name of None \<Rightarrow> None | Some v \<Rightarrow> if v = [] then None else Some v)"

definition join_all :: "path \<Rightarrow> path list \<Rightarrow> path" where
  "join_all = foldl path_join"

text \<open>\<open>int(text)\<close>: white space around it, a sign, digits that single underscores may separate, at most 4300.\<close>

definition py_digits :: "string \<Rightarrow> int option" where
  "py_digits s =
     (let parts = split_on (CHR ''_'') s; ds = concat parts
      in if list_all (\<lambda>x. x \<noteq> [] \<and> list_all is_digit x) parts \<and> length ds \<le> 4300
         then Some (int (num_val ds)) else None)"

definition py_int :: "string \<Rightarrow> int option" where
  "py_int s =
     (case strip s of
        [] \<Rightarrow> None
      | c # cs \<Rightarrow>
          if c = CHR ''-'' then map_option uminus (py_digits cs)
          else if c = CHR ''+'' then py_digits cs
          else py_digits (c # cs))"

section \<open>The sealing library and the database helpers\<close>

record mover_globals =
  m_db_file :: path
  m_icloud_snapshots_dir :: path
  m_log_dir :: path
  m_match_by_filename_only :: bool

definition mover_globals_of :: "process_env \<Rightarrow> mover_globals" where
  "mover_globals_of p =
     \<lparr>m_db_file = get_env p ''BVL_DB_FILE'' (path_join (user_home p) ''browser-visits.db''),
      m_icloud_snapshots_dir = get_env p ''BVL_ICLOUD_SNAPSHOTS_DIR''
        (join_all (user_home p) [''Documents'', ''browser-visit-logger'', ''snapshots'']),
      m_log_dir = get_env p ''BVL_LOG_DIR'' (user_home p),
      m_match_by_filename_only = (variable p ''BVL_MATCH_BY_FILENAME'' = Some ''1'')\<rparr>"

record host_globals =
  h_log_dir :: path
  h_db_file :: path
  h_downloads_snapshots_dir :: path
  h_icloud_snapshots_dir :: path

definition host_globals_of :: "process_env \<Rightarrow> host_globals" where
  "host_globals_of p =
     \<lparr>h_log_dir = get_env p ''BVL_LOG_DIR'' (user_home p),
      h_db_file = get_env p ''BVL_DB_FILE'' (path_join (user_home p) ''browser-visits.db''),
      h_downloads_snapshots_dir = get_env p ''BVL_DOWNLOADS_SNAPSHOTS_DIR''
        (join_all (user_home p) [''Downloads'', ''browser-visit-snapshots'']),
      h_icloud_snapshots_dir = get_env p ''BVL_ICLOUD_SNAPSHOTS_DIR''
        (join_all (user_home p) [''Documents'', ''browser-visit-logger'', ''snapshots''])\<rparr>"

text \<open>The configuration that the models of the sealers and of the rebuilder take, before the command line changes it.\<close>

definition python_config :: "process_env \<Rightarrow> bool \<Rightarrow> config" where
  "python_config p importable =
     (let m = mover_globals_of p; h = host_globals_of p
      in \<lparr>LOG_DIR = m_log_dir m, ICLOUD_SNAPSHOTS_DIR = m_icloud_snapshots_dir m,
          DOWNLOADS_SNAPSHOTS_DIR = h_downloads_snapshots_dir h, DB_FILE = m_db_file m,
          MATCH_BY_FILENAME_ONLY = m_match_by_filename_only m, host_importable = importable\<rparr>)"

section \<open>The sync client\<close>

definition client_config_dir :: "process_env \<Rightarrow> path" where
  "client_config_dir p = get_env p ''BVL_CONFIG_DIR'' (path_join (user_home p) ''.browser-visit-logger'')"

definition client_config_file :: "process_env \<Rightarrow> path" where
  "client_config_file p = path_join (client_config_dir p) ''config.json''"

definition client_db_file :: "process_env \<Rightarrow> path" where
  "client_db_file p = get_env p ''BVL_DB_FILE'' (path_join (user_home p) ''browser-visits.db'')"

text \<open>A \<open>BVL_SYNC_INTERVAL_SECONDS\<close> that is no number ends the program with a \<open>ValueError\<close> while it is imported.\<close>

definition sync_settings :: "process_env \<Rightarrow> exn + sync_config" where
  "sync_settings p =
     (let interval = get_env p ''BVL_SYNC_INTERVAL_SECONDS'' ''60'' in
      case py_int interval of
        None \<Rightarrow> Inl (ValueError (''invalid literal for int() with base 10: '' @ interval))
      | Some seconds \<Rightarrow>
          Inr \<lparr>S_LOG_DIR = get_env p ''BVL_LOG_DIR'' (user_home p),
               PEER_LOGS_DIR = get_env p ''BVL_PEER_LOGS_DIR'' (path_join (user_home p) ''browser-visits-peers''),
               LOCK_FILE = path_join (client_config_dir p) ''sync.lock'',
               TLS_DIR = path_join (client_config_dir p) ''tls'',
               SYNC_INTERVAL_SECONDS = seconds\<rparr>)"

type_synonym json_load = "string \<Rightarrow> exn + (string \<Rightarrow> string option)"

definition load_config :: "json_load \<Rightarrow> process_env \<Rightarrow> (string \<Rightarrow> string option) io" where
  "load_config load p =
     catch
       (thn (open_read (client_config_file p))
         (bnd (read_handle (client_config_file p)) (\<lambda>s. case load s of Inl e \<Rightarrow> throw e | Inr m \<Rightarrow> ret m)))
       (\<lambda>e. case e of OSError ENOENT _ \<Rightarrow> ret Map.empty | _ \<Rightarrow> throw e)"

definition machine_id_from_config :: "json_load \<Rightarrow> process_env \<Rightarrow> string option io" where
  "machine_id_from_config load p =
     (case nonempty_env p ''BVL_MACHINE_ID'' of
        Some v \<Rightarrow> ret (Some v)
      | None \<Rightarrow> bnd (load_config load p) (\<lambda>m. ret (m ''machine_id'')))"

definition server_endpoint :: "json_load \<Rightarrow> process_env \<Rightarrow> string option io" where
  "server_endpoint load p =
     (case nonempty_env p ''BVL_SYNC_SERVER'' of
        Some v \<Rightarrow> ret (Some v)
      | None \<Rightarrow> bnd (load_config load p) (\<lambda>m. ret (m ''sync_server'')))"

definition text_of :: "string option \<Rightarrow> string" where
  "text_of v = (case v of None \<Rightarrow> [] | Some s \<Rightarrow> s)"

text \<open>The whole \<open>main\<close>, from the parsed options on: \<open>sync_main\<close> is the rest once both values are known.\<close>

definition sync_client_main ::
    "service \<Rightarrow> json_load \<Rightarrow> process_env \<Rightarrow> bool \<Rightarrow> bool \<Rightarrow> string option \<Rightarrow> int io" where
  "sync_client_main srv load p insecure force server_arg =
     (case sync_settings p of
        Inl e \<Rightarrow> throw e
      | Inr cfg \<Rightarrow>
          bnd (machine_id_from_config load p) (\<lambda>machine_id.
          if text_of machine_id = [] then ret 2
          else
            bnd (if text_of server_arg \<noteq> [] then ret server_arg else server_endpoint load p) (\<lambda>endpoint.
            sync_main srv cfg insecure force (text_of machine_id) (text_of endpoint))))"

section \<open>The other tools\<close>

definition reset_settings :: "process_env \<Rightarrow> reset_env" where
  "reset_settings p =
     (let home = user_home p in
      \<lparr>LOG_ROOT = get_env p ''BVL_LOG_DIR'' home,
       HOST_LOG = get_env p ''BVL_HOST_LOG'' (path_join home ''browser-visits-host.log''),
       MOVER_LOG = get_env p ''BVL_MOVER_LOG'' (path_join home ''browser-visits-mover.log''),
       VERIFIER_LOG = get_env p ''BVL_VERIFIER_LOG'' (path_join home ''browser-visits-verifier.log''),
       DB_PATH = get_env p ''BVL_DB_FILE'' (path_join home ''browser-visits.db''),
       SNAP_DIR = get_env p ''BVL_DOWNLOADS_SNAPSHOTS_DIR'' (join_all home [''Downloads'', ''browser-visit-snapshots'']),
       ICLOUD_DIR = join_all home [''Documents'', ''browser-visit-logger'']\<rparr>)"

definition list_db_file :: "process_env \<Rightarrow> path" where
  "list_db_file p = get_env p ''BVL_DB_FILE'' (path_join (user_home p) ''browser-visits.db'')"

definition list_output_dir :: "process_env \<Rightarrow> path" where
  "list_output_dir p = get_env p ''BVL_OUTPUT_DIR'' (join_all (user_home p) [''Documents'', ''browser-visit-logger''])"

definition server_db_file :: "process_env \<Rightarrow> path" where
  "server_db_file p = get_env p ''BVL_DB_FILE'' (path_join (user_home p) ''browser-visits.db'')"

definition state_path :: "process_env \<Rightarrow> path" where
  "state_path p =
     (case nonempty_env p ''BVL_VM_STATE_FILE'' of
        Some file \<Rightarrow> file
      | None \<Rightarrow>
          path_join
            (case nonempty_env p ''BVL_CONFIG_DIR'' of
               Some base \<Rightarrow> base
             | None \<Rightarrow> path_join (user_home p) ''.browser-visit-logger'') ''vm.json'')"

section \<open>The native messaging host\<close>

text \<open>\<open>Paths\<close> of the Swift host: the log directory, the database and the directory of the downloads.\<close>

definition swift_config :: "host_env \<Rightarrow> config \<Rightarrow> config" where
  "swift_config env cfg =
     (let p = \<lparr>variable = environ env, user_home = home env\<rparr>
      in cfg\<lparr>LOG_DIR := get_env p ''BVL_LOG_DIR'' (home env),
             DB_FILE := get_env p ''BVL_DB_FILE'' (path_join (home env) ''browser-visits.db''),
             DOWNLOADS_SNAPSHOTS_DIR := get_env p ''BVL_DOWNLOADS_SNAPSHOTS_DIR''
               (path_join (home env) ''Downloads/browser-visit-snapshots'')\<rparr>)"

section \<open>What the copies agree on\<close>

lemmas settings_defs = mover_globals_of_def host_globals_of_def python_config_def client_config_dir_def
  client_config_file_def client_db_file_def reset_settings_def list_db_file_def list_output_dir_def
  server_db_file_def state_path_def swift_config_def join_all_def Let_def

lemma join_relative:
  "a \<noteq> [] \<Longrightarrow> last a \<noteq> CHR ''/'' \<Longrightarrow> \<not> startswith b ''/'' \<Longrightarrow> \<not> startswith c ''/'' \<Longrightarrow> b \<noteq> [] \<Longrightarrow> last b \<noteq> CHR ''/'' \<Longrightarrow>
   path_join (path_join a b) c = path_join a (b @ CHR ''/'' # c)"
  by (cases b) (auto simp: path_join_def startswith_def)

text \<open>Every program works on the same database.\<close>

lemma one_database:
  "client_db_file p = DB_FILE (python_config p b)" "DB_PATH (reset_settings p) = DB_FILE (python_config p b)"
  "list_db_file p = DB_FILE (python_config p b)" "server_db_file p = DB_FILE (python_config p b)"
  "h_db_file (host_globals_of p) = DB_FILE (python_config p b)"
  by (simp_all add: settings_defs)

text \<open>
  The Swift host and the Python programs of one machine agree on the log directory, the database and the
  downloads: the \<open>config\<close> that the host's model takes is the one of the sealers and of the rebuilder.
\<close>

lemma host_python_paths:
  assumes "home env = user_home p" "environ env = variable p" "user_home p \<noteq> []" "last (user_home p) \<noteq> CHR ''/''"
  shows "swift_config env (python_config p b) = python_config p b"
proof -
  have "path_join (path_join (user_home p) ''Downloads'') ''browser-visit-snapshots''
      = path_join (user_home p) ''Downloads/browser-visit-snapshots''"
    using join_relative [OF assms(3,4), of "''Downloads''" "''browser-visit-snapshots''"] by (simp add: startswith_def)
  then show ?thesis using assms(1,2) by (simp add: settings_defs get_env_def cong: option.case_cong)
qed

text \<open>The sync client reads the directory in which the host writes the logs and the sealers look for them.\<close>

lemma one_log_directory:
  "sync_settings p = Inr cfg \<Longrightarrow> S_LOG_DIR cfg = LOG_DIR (python_config p b) \<and> LOG_ROOT (reset_settings p) = S_LOG_DIR cfg"
  by (auto simp: sync_settings_def settings_defs split: option.splits)

text \<open>
  The AWS tools keep their state beside the client's configuration, unless \<open>BVL_CONFIG_DIR\<close> is set to the
  empty text: then the client looks for \<open>config.json\<close> in the current directory and the tools in the home directory.
\<close>

lemma state_beside_config:
  "variable p ''BVL_VM_STATE_FILE'' = None \<Longrightarrow> variable p ''BVL_CONFIG_DIR'' \<noteq> Some [] \<Longrightarrow>
   state_path p = path_join (client_config_dir p) ''vm.json''"
  by (auto simp: settings_defs nonempty_env_def get_env_def split: option.splits)

lemma empty_config_dir:
  "client_config_file \<lparr>variable = [''BVL_CONFIG_DIR'' \<mapsto> []], user_home = ''/home/u''\<rparr> = ''config.json''"
  "state_path \<lparr>variable = [''BVL_CONFIG_DIR'' \<mapsto> []], user_home = ''/home/u''\<rparr> = ''/home/u/.browser-visit-logger/vm.json''"
  by code_simp+

text \<open>
  With no archive variable set, the sealer's archive is below the home directory and the host's is the
  Google Drive mount, or none: the two are never the same directory.
\<close>

lemma archives_apart:
  assumes "environ env = variable p" "home env = user_home p" "user_home p \<noteq> []" "last (user_home p) \<noteq> CHR ''/''"
    and "variable p ''BVL_ICLOUD_SNAPSHOTS_DIR'' = None" "variable p ''BVL_GDRIVE_SNAPSHOTS_DIR'' = None"
    and "archiveSnapshotsDir env w = (Inr dir, w')"
  shows "dir \<noteq> ICLOUD_SNAPSHOTS_DIR (python_config p b)"
proof -
  obtain account where "dir = path_join (path_join (user_home p)
      (''Library/CloudStorage/GoogleDrive-'' @ account @ ''/My Drive'')) ''browser-visit-logger/snapshots''"
    using assms by (auto simp: archiveSnapshotsDir_def Let_def io_simps split: option.splits if_splits)
  then show ?thesis
    using assms(3-5) by (auto simp: settings_defs get_env_def path_join_def startswith_def)
qed

section \<open>The client's configuration\<close>

text \<open>Reading the configuration changes nothing but the failures still to come.\<close>

definition fault_blind :: "(world \<Rightarrow> bool) \<Rightarrow> bool" where
  "fault_blind I \<longleftrightarrow> (\<forall>w fl. I w \<longrightarrow> I (w\<lparr>fs_faults := fl\<rparr>))"

lemma keeps_reading:
  assumes "fault_blind I"
  shows "keeps I (open_read p)" "keeps I (read_handle p)"
  using assms unfolding open_read_def read_handle_def fs_op_def
  by (auto simp: fault_blind_def keeps_def os_raise_def throw_def ret_def split: option.split node.split list.split)

lemma keeps_load_config: "fault_blind I \<Longrightarrow> keeps I (load_config load p)"
  unfolding load_config_def
  by (intro keeps_rules keeps_reading)
    (auto intro!: keeps_rules split: sum.split exn.split errno.split)

lemma keeps_client_config:
  assumes "fault_blind I"
  shows "keeps I (machine_id_from_config load p)" "keeps I (server_endpoint load p)"
  unfolding machine_id_from_config_def server_endpoint_def
  by (auto split: option.split intro!: keeps_rules keeps_load_config assms)

text \<open>
  A run of the client either ends before it opened anything, or it is a run of \<open>sync_main\<close> for a machine and a
  server that are both named, from a world in which nothing but the failures to come was used up.
\<close>

lemma client_run:
  assumes I: "fault_blind I" "I w"
  shows "(\<exists>cfg m endpoint w1. sync_settings p = Inr cfg \<and> m \<noteq> [] \<and> endpoint \<noteq> [] \<and> I w1
            \<and> sync_client_main srv load p insecure force server_arg w = sync_main srv cfg insecure force m endpoint w1)
         \<or> I (snd (sync_client_main srv load p insecure force server_arg w))"
proof (cases "sync_settings p")
  case (Inl e)
  then show ?thesis using I by (simp add: sync_client_main_def throw_def)
next
  case (Inr cfg)
  let ?ep = "if text_of server_arg \<noteq> [] then ret server_arg else server_endpoint load p"
  obtain r1 w1 where m: "machine_id_from_config load p w = (r1, w1)" by fastforce
  have I1: "I w1" using keepsD [OF keeps_client_config(1) [OF I(1)] I(2), of load p] m by simp
  obtain r2 w2 where e: "?ep w1 = (r2, w2)" by fastforce
  have "keeps I ?ep" using keeps_client_config(2) [OF I(1)] by (simp add: keeps_ret)
  from keepsD [OF this I1] have I2: "I w2" by (simp only: e snd_conv)
  have run: "sync_client_main srv load p insecure force server_arg w =
      (case r1 of Inl x \<Rightarrow> (Inl x, w1) | Inr machine_id \<Rightarrow>
        if text_of machine_id = [] then (Inr 2, w1)
        else (case r2 of Inl x \<Rightarrow> (Inl x, w2)
              | Inr endpoint \<Rightarrow> sync_main srv cfg insecure force (text_of machine_id) (text_of endpoint) w2))"
    using m e Inr unfolding sync_client_main_def by (auto simp: bnd_def ret_def split: sum.split if_splits)
  have silent: "text_of m \<noteq> [] \<Longrightarrow> sync_main srv cfg insecure force (text_of m) [] w2 = (Inr 0, w2)" for m
    by (simp add: sync_main_def ret_def)
  show ?thesis
    using I1 I2 Inr silent unfolding run by (cases "\<exists>x. r2 = Inr x \<and> text_of x = []") (auto split: sum.split)
qed

lemma client_run_consistent:
  assumes "disk_ok w" and "db_faults w = []"
  shows "disk_ok (snd (sync_client_main srv load p insecure force server_arg w))"
  using client_run [of "\<lambda>v. disk_ok v \<and> db_faults v = []" w p srv load insecure force server_arg] assms
  by (auto simp: fault_blind_def disk_ok_def [of "_\<lparr>fs_faults := _\<rparr>"] disk_ok_def [symmetric] intro: sync_run_consistent)

text \<open>
  A machine without a name is not enrolled: with no \<open>BVL_MACHINE_ID\<close> and no configuration file the client
  answers 2 and leaves every file and the database alone.
\<close>

lemma unenrolled_client:
  assumes "nonempty_env p ''BVL_MACHINE_ID'' = None" and "sync_settings p = Inr cfg"
    and "fs_faults w = []" and "node_at (files w) (comps_of (client_config_file p)) = None"
  shows "sync_client_main srv load p insecure force server_arg w = (Inr 2, w)"
  using assms by (simp add: sync_client_main_def machine_id_from_config_def load_config_def open_read_def fs_op_def
      os_raise_def io_simps text_of_def)

text \<open>An option \<open>--server\<close> is preferred to \<open>BVL_SYNC_SERVER\<close>, and that to the configuration file.\<close>

lemma client_named_by_env:
  assumes "nonempty_env p ''BVL_MACHINE_ID'' = Some m" "sync_settings p = Inr cfg"
    and "text_of server_arg \<noteq> [] \<and> endpoint = text_of server_arg
         \<or> text_of server_arg = [] \<and> nonempty_env p ''BVL_SYNC_SERVER'' = Some endpoint"
  shows "sync_client_main srv load p insecure force server_arg w = sync_main srv cfg insecure force m endpoint w"
  using assms by (auto simp: sync_client_main_def machine_id_from_config_def server_endpoint_def nonempty_env_def
      io_simps text_of_def split: option.splits if_splits)

section \<open>The length of the pause\<close>

lemma interval_not_a_number:
  "variable p ''BVL_SYNC_INTERVAL_SECONDS'' = Some v \<Longrightarrow> py_int v = None \<Longrightarrow>
   \<exists>msg. sync_client_main srv load p insecure force server_arg w = (Inl (ValueError msg), w)"
  by (simp add: sync_client_main_def sync_settings_def get_env_def Let_def throw_def)

lemma default_interval:
  assumes "variable p ''BVL_SYNC_INTERVAL_SECONDS'' = None"
  shows "\<exists>cfg. sync_settings p = Inr cfg \<and> SYNC_INTERVAL_SECONDS cfg = 60"
proof -
  have "py_int ''60'' = Some 60" by code_simp
  then show ?thesis using assms by (simp add: sync_settings_def get_env_def Let_def)
qed

lemma py_int_samples:
  "map py_int ['' 60 '', ''-1_000'', ''+7'', ''1__0'', ''60s'', [], ''_1''] =
   [Some 60, Some (- 1000), Some 7, None, None, None, None]"
  by code_simp

end
